(* ===== verification/Clawd_Prelude.thy ===== *)
theory Clawd_Prelude
  imports Complex_Main "HOL-Library.AList" "HOL-Library.List_Lexorder" "HOL-Library.Char_ord"
begin

text \<open>
  Shared vocabulary of the development.

  \<^item> JavaScript values: \<open>jsval\<close> is what \<open>unknown\<close> stands for in the sources (a JSON body, a value
    read back from durable storage). Numbers are ideal reals (no rounding to doubles); the two
    non-finite cases have constructors of their own because the validators test for them.
  \<^item> Strings are lists of code units below 256. \<open>trim\<close>, \<open>split\<close>, \<open>join\<close>, \<open>startsWith\<close>, \<open>endsWith\<close> and
    \<open>slice\<close> follow the ECMAScript definitions on them.
  \<^item> A JavaScript \<open>Record<string, T>\<close> or \<open>Map\<close> that the code iterates over is an association list in
    insertion order; \<open>AList.update\<close> keeps the position of an existing key and appends a new one, as
    property assignment does, and \<open>AList.delete\<close> is \<open>delete obj[key]\<close>.
  \<^item> An exception is the left summand of a result; the state a handler leaves behind is threaded
    explicitly.
\<close>

named_theorems js_simps \<open>evaluation of the JavaScript primitives\<close>
named_theorems alist_simps \<open>lookup after update, delete and pruning of an association list\<close>

type_synonym ms = real
type_synonym ('e, 'a) result = "'e + 'a"

section \<open>Results\<close>

text \<open>
  \<open>bindE\<close> continues after a call that may throw; \<open>throw_if\<close> is \<open>if (cond) throw e\<close> followed by the rest
  of the function; \<open>of_option\<close> turns a host call that throws (\<open>None\<close>) into the error the \<open>catch\<close>
  clause raises.
\<close>
definition bindE :: "('e, 'a) result \<Rightarrow> ('a \<Rightarrow> ('e, 'b) result) \<Rightarrow> ('e, 'b) result" where
  "bindE r k = (case r of Inl e \<Rightarrow> Inl e | Inr x \<Rightarrow> k x)"

definition throw_if :: "bool \<Rightarrow> 'e \<Rightarrow> ('e, 'a) result \<Rightarrow> ('e, 'a) result" where
  "throw_if cond e k = (if cond then Inl e else k)"

definition of_option :: "'e \<Rightarrow> 'a option \<Rightarrow> ('e, 'a) result" where
  "of_option e x = (case x of None \<Rightarrow> Inl e | Some y \<Rightarrow> Inr y)"

text \<open>\<open>try { r } catch { throw e }\<close>\<close>
definition catchE :: "('d, 'a) result \<Rightarrow> 'e \<Rightarrow> ('e, 'a) result" where
  "catchE r e = (case r of Inl _ \<Rightarrow> Inl e | Inr x \<Rightarrow> Inr x)"

lemma bindE_simps [simp]: "bindE (Inl e) k = Inl e" "bindE (Inr x) k = k x"
  by (simp_all add: bindE_def)

lemma bindE_eq_Inr [simp]: "bindE r k = Inr y \<longleftrightarrow> (\<exists>x. r = Inr x \<and> k x = Inr y)"
  by (cases r) auto

lemma bindE_eq_Inl [simp]: "bindE r k = Inl e \<longleftrightarrow> r = Inl e \<or> (\<exists>x. r = Inr x \<and> k x = Inl e)"
  by (cases r) auto

lemma throw_if_simps [simp]: "throw_if True e k = Inl e" "throw_if False e k = k"
  by (simp_all add: throw_if_def)

lemma throw_if_eq_Inr [simp]: "throw_if c e k = Inr y \<longleftrightarrow> \<not> c \<and> k = Inr y"
  by (auto simp: throw_if_def)

lemma throw_if_eq_Inl [simp]: "throw_if c e k = Inl d \<longleftrightarrow> (c \<and> d = e) \<or> (\<not> c \<and> k = Inl d)"
  by (auto simp: throw_if_def)

lemma of_option_simps [simp]: "of_option e None = Inl e" "of_option e (Some x) = Inr x"
  by (simp_all add: of_option_def)

lemma of_option_eq_Inr [simp]: "of_option e x = Inr y \<longleftrightarrow> x = Some y"
  by (cases x) auto

lemma of_option_eq_Inl [simp]: "of_option e x = Inl d \<longleftrightarrow> x = None \<and> d = e"
  by (cases x) auto

lemma catchE_simps [simp]: "catchE (Inl d) e = Inl e" "catchE (Inr x) e = Inr x"
  by (simp_all add: catchE_def)

lemma catchE_eq_Inr [simp]: "catchE r e = Inr y \<longleftrightarrow> r = Inr y"
  by (cases r) auto

lemma catchE_eq_Inl [simp]: "catchE r e = Inl d \<longleftrightarrow> (\<exists>x. r = Inl x) \<and> d = e"
  by (cases r) auto

section \<open>JavaScript values\<close>

datatype jsval =
    JUndefined
  | JNull
  | JBool bool
  | JNum real
  | JNaN
  | JInfinity bool
  | JStr string
  | JArr "jsval list"
  | JObj "(string \<times> jsval) list"

text \<open>\<open>typeof v === "object" && v !== null\<close>\<close>
fun is_object :: "jsval \<Rightarrow> bool" where
  "is_object (JArr _) = True"
| "is_object (JObj _) = True"
| "is_object _ = False"

text \<open>\<open>typeof v === "object" && v !== null && !Array.isArray(v)\<close>\<close>
fun is_plain_object :: "jsval \<Rightarrow> bool" where
  "is_plain_object (JObj _) = True"
| "is_plain_object _ = False"

text \<open>The texts among the elements of an array.\<close>
fun js_strings :: "jsval list \<Rightarrow> string list" where
  "js_strings [] = []"
| "js_strings (JStr s # vs) = s # js_strings vs"
| "js_strings (_ # vs) = js_strings vs"

lemma js_strings_map [simp]: "js_strings (map JStr ws) = ws"
  by (induction ws) auto

text \<open>Property access \<open>v.k\<close> (or \<open>v?.k\<close>) for the property names the sources read.\<close>
fun js_get :: "jsval \<Rightarrow> string \<Rightarrow> jsval" where
  "js_get (JObj fs) k = (case map_of fs k of None \<Rightarrow> JUndefined | Some v \<Rightarrow> v)"
| "js_get _ _ = JUndefined"

fun js_truthy :: "jsval \<Rightarrow> bool" where
  "js_truthy JUndefined = False"
| "js_truthy JNull = False"
| "js_truthy (JBool b) = b"
| "js_truthy (JNum x) = (x \<noteq> 0)"
| "js_truthy JNaN = False"
| "js_truthy (JInfinity _) = True"
| "js_truthy (JStr s) = (s \<noteq> [])"
| "js_truthy (JArr _) = True"
| "js_truthy (JObj _) = True"

text \<open>\<open>Number.isInteger\<close> on a finite number\<close>
definition js_is_integer :: "real \<Rightarrow> bool" where
  "js_is_integer x \<longleftrightarrow> real_of_int \<lfloor>x\<rfloor> = x"

lemma js_is_integer_of_int [simp]: "js_is_integer (real_of_int i)"
  by (simp add: js_is_integer_def)

lemma js_is_integer_numeral [simp]:
  "js_is_integer (numeral n)" "js_is_integer 0" "js_is_integer 1" "js_is_integer (- numeral n)"
  by (simp_all add: js_is_integer_def)

lemma js_is_integer_mult [simp]:
  "js_is_integer x \<Longrightarrow> js_is_integer y \<Longrightarrow> js_is_integer (x * y)"
  unfolding js_is_integer_def by (metis floor_of_int of_int_mult)

lemma js_is_integer_add [simp]:
  "js_is_integer x \<Longrightarrow> js_is_integer y \<Longrightarrow> js_is_integer (x + y)"
  unfolding js_is_integer_def by (metis floor_of_int of_int_add)

lemma js_is_integer_less_add1: "js_is_integer x \<Longrightarrow> js_is_integer y \<Longrightarrow> x < y \<Longrightarrow> x + 1 \<le> y"
  unfolding js_is_integer_def
  by (metis int_less_real_le of_int_less_iff)

text \<open>\<open>typeof v === "number" && Number.isInteger(v)\<close>, with the number; and the finite numbers.\<close>
fun js_integer :: "jsval \<Rightarrow> real option" where
  "js_integer (JNum x) = (if js_is_integer x then Some x else None)"
| "js_integer _ = None"

fun js_finite :: "jsval \<Rightarrow> real option" where
  "js_finite (JNum x) = Some x"
| "js_finite _ = None"

lemma js_integer_eq_Some [simp]: "js_integer x = Some n \<longleftrightarrow> x = JNum n \<and> js_is_integer n"
  by (cases x) auto

lemma js_finite_eq_Some [simp]: "js_finite x = Some n \<longleftrightarrow> x = JNum n"
  by (cases x) auto

text \<open>\<open>Number.MAX_SAFE_INTEGER\<close> and \<open>Number.isSafeInteger\<close>\<close>
definition max_safe_integer :: real where
  "max_safe_integer = 9007199254740991"

definition js_is_safe_integer :: "real \<Rightarrow> bool" where
  "js_is_safe_integer x \<longleftrightarrow> js_is_integer x \<and> \<bar>x\<bar> \<le> max_safe_integer"

section \<open>Strings\<close>

text \<open>ECMAScript white space and line terminators below code unit 256; also the class \<open>\s\<close>.\<close>
definition is_ws :: "char \<Rightarrow> bool" where
  "is_ws c \<longleftrightarrow> (of_char c :: nat) \<in> {9, 10, 11, 12, 13, 32, 160}"

definition trimStart :: "string \<Rightarrow> string" where
  "trimStart s = dropWhile is_ws s"

definition trimEnd :: "string \<Rightarrow> string" where
  "trimEnd s = rev (dropWhile is_ws (rev s))"

definition trim :: "string \<Rightarrow> string" where
  "trim s = trimEnd (trimStart s)"

definition startsWith :: "string \<Rightarrow> string \<Rightarrow> bool" where
  "startsWith s p \<longleftrightarrow> take (length p) s = p"

definition endsWith :: "string \<Rightarrow> string \<Rightarrow> bool" where
  "endsWith s p \<longleftrightarrow> length p \<le> length s \<and> drop (length s - length p) s = p"

fun js_join :: "string \<Rightarrow> string list \<Rightarrow> string" where
  "js_join sep [] = []"
| "js_join sep [w] = w"
| "js_join sep (w # v # ws) = w @ sep @ js_join sep (v # ws)"

text \<open>\<open>s.split(c)\<close> for a one-character separator: always at least one piece.\<close>
fun js_split :: "char \<Rightarrow> string \<Rightarrow> string list" where
  "js_split c [] = [[]]"
| "js_split c (x # xs) =
     (if x = c then [] # js_split c xs
      else (case js_split c xs of [] \<Rightarrow> [[x]] | w # ws \<Rightarrow> (x # w) # ws))"

text \<open>Decimal representation of an array index or an integer.\<close>
fun nat_str :: "nat \<Rightarrow> string" where
  "nat_str n = (if n < 10 then [char_of (48 + n)] else nat_str (n div 10) @ [char_of (48 + n mod 10)])"

declare nat_str.simps [simp del]

definition int_str :: "int \<Rightarrow> string" where
  "int_str i = (if i < 0 then ''-'' @ nat_str (nat (- i)) else nat_str (nat i))"

text \<open>ASCII case mapping; header names and HTTP methods are ASCII tokens.\<close>
definition upper_char :: "char \<Rightarrow> char" where
  "upper_char c = (let n = (of_char c :: nat) in if 97 \<le> n \<and> n \<le> 122 then char_of (n - 32) else c)"

definition lower_char :: "char \<Rightarrow> char" where
  "lower_char c = (let n = (of_char c :: nat) in if 65 \<le> n \<and> n \<le> 90 then char_of (n + 32) else c)"

definition toUpperCase :: "string \<Rightarrow> string" where
  "toUpperCase s = map upper_char s"

definition toLowerCase :: "string \<Rightarrow> string" where
  "toLowerCase s = map lower_char s"

text \<open>\<open>Object.entries\<close>: own enumerable properties; an array enumerates its indices.\<close>
fun js_entries :: "jsval \<Rightarrow> (string \<times> jsval) list" where
  "js_entries (JObj fs) = fs"
| "js_entries (JArr vs) = zip (map nat_str [0..<length vs]) vs"
| "js_entries _ = []"

text \<open>\<open>typeof v === "string" && v.trim().length > 0\<close>, the helper many files define.\<close>
fun isNonEmptyString :: "jsval \<Rightarrow> bool" where
  "isNonEmptyString (JStr s) = (trim s \<noteq> [])"
| "isNonEmptyString _ = False"

fun js_str :: "jsval \<Rightarrow> string" where
  "js_str (JStr s) = s"
| "js_str _ = []"

fun js_num :: "jsval \<Rightarrow> real" where
  "js_num (JNum x) = x"
| "js_num _ = 0"

text \<open>
  What arrives when a value is sent as \<open>JSON.stringify(v)\<close> and read with \<open>JSON.parse\<close>: properties that
  are \<open>undefined\<close> are dropped, \<open>undefined\<close> array elements and non-finite numbers become \<open>null\<close>.
\<close>
fun json_wire :: "jsval \<Rightarrow> jsval" where
  "json_wire (JArr vs) = JArr (map (\<lambda>x. if x = JUndefined then JNull else json_wire x) vs)"
| "json_wire (JObj fs) =
     JObj (map (\<lambda>(k, x). (k, json_wire x)) (filter (\<lambda>(k, x). x \<noteq> JUndefined) fs))"
| "json_wire JNaN = JNull"
| "json_wire (JInfinity _) = JNull"
| "json_wire x = x"

fun js_opt_str :: "string option \<Rightarrow> jsval" where
  "js_opt_str None = JUndefined"
| "js_opt_str (Some s) = JStr s"

fun js_opt_num :: "real option \<Rightarrow> jsval" where
  "js_opt_num None = JUndefined"
| "js_opt_num (Some x) = JNum x"

text \<open>A \<open>Set\<close> of strings, kept in insertion order.\<close>
definition js_set_add :: "'a list \<Rightarrow> 'a \<Rightarrow> 'a list" where
  "js_set_add xs x = (if x \<in> set xs then xs else xs @ [x])"

definition js_Set :: "'a list \<Rightarrow> 'a list" where
  "js_Set xs = foldl js_set_add [] xs"

text \<open>An HTTP response with its JSON body; \<open>toErrorResponse\<close> is the shape every handler uses.\<close>
datatype http_response = Response (resp_status: nat) (resp_body: jsval)

definition toErrorResponse :: "string \<Rightarrow> string \<Rightarrow> nat \<Rightarrow> http_response" where
  "toErrorResponse code message st =
     Response st (JObj [(''error'', JObj [(''code'', JStr code), (''message'', JStr message)])])"

text \<open>\<open>AppError\<close> of the SDK: the code, the message and the HTTP status it maps to.\<close>
datatype app_error = AppError (ae_code: string) (ae_message: string) (ae_status: nat)

subsection \<open>Lemmas on sets in insertion order\<close>

lemma set_js_set_add [simp]: "set (js_set_add xs x) = insert x (set xs)"
  by (auto simp: js_set_add_def)

lemma distinct_js_set_add [simp]: "distinct xs \<Longrightarrow> distinct (js_set_add xs x)"
  by (auto simp: js_set_add_def)

lemma foldl_js_set_add:
  "set (foldl js_set_add acc xs) = set acc \<union> set xs"
  "distinct acc \<Longrightarrow> distinct (foldl js_set_add acc xs)"
  by (induction xs arbitrary: acc) auto

lemma set_js_Set [simp]: "set (js_Set xs) = set xs"
  by (simp add: js_Set_def foldl_js_set_add)

lemma distinct_js_Set [simp]: "distinct (js_Set xs)"
  by (simp add: js_Set_def foldl_js_set_add)

lemma foldl_js_set_add_fresh:
  "distinct (acc @ xs) \<Longrightarrow> foldl js_set_add acc xs = acc @ xs"
  by (induction xs arbitrary: acc) (auto simp: js_set_add_def)

lemma js_Set_distinct: "distinct xs \<Longrightarrow> js_Set xs = xs"
  by (simp add: js_Set_def foldl_js_set_add_fresh)

subsection \<open>Lemmas on trimming\<close>

lemma dropWhile_idem: "dropWhile P (dropWhile P xs) = dropWhile P xs"
  by (induction xs) auto

lemma trimEnd_idem [simp]: "trimEnd (trimEnd s) = trimEnd s"
  by (simp add: trimEnd_def dropWhile_idem)

lemma trimStart_idem [simp]: "trimStart (trimStart s) = trimStart s"
  by (simp add: trimStart_def dropWhile_idem)

lemma trimEnd_prefix: "\<exists>ws. s = trimEnd s @ ws \<and> (\<forall>c \<in> set ws. is_ws c)"
proof -
  have "s = rev (dropWhile is_ws (rev s)) @ rev (takeWhile is_ws (rev s))"
    by (metis rev_append rev_rev_ident takeWhile_dropWhile_id)
  moreover have "\<forall>c \<in> set (rev (takeWhile is_ws (rev s))). is_ws c"
    by (auto dest: set_takeWhileD)
  ultimately show ?thesis unfolding trimEnd_def by blast
qed

lemma trimStart_fixed_iff: "trimStart s = s \<longleftrightarrow> s = [] \<or> \<not> is_ws (hd s)"
proof (cases s)
  case (Cons x xs)
  have "length (dropWhile is_ws xs) \<le> length xs" by (rule length_dropWhile_le)
  then have "dropWhile is_ws xs \<noteq> x # xs" by auto
  with Cons show ?thesis by (auto simp: trimStart_def)
qed (simp add: trimStart_def)

lemma trimStart_trimEnd_fixed:
  assumes "trimStart s = s" shows "trimStart (trimEnd s) = trimEnd s"
proof (cases "trimEnd s")
  case (Cons x xs)
  from trimEnd_prefix obtain ws where "s = trimEnd s @ ws" by blast
  with Cons have s: "s = x # xs @ ws" by simp
  with assms have "\<not> is_ws x" by (auto simp: trimStart_fixed_iff)
  with Cons show ?thesis by (simp add: trimStart_fixed_iff)
qed (simp add: trimStart_def)

lemma trim_idem [simp]: "trim (trim s) = trim s"
  unfolding trim_def by (simp add: trimStart_trimEnd_fixed)

lemma trim_Nil [simp]: "trim [] = []"
  by (simp add: trim_def trimStart_def trimEnd_def)

lemma trim_noop: "\<forall>c \<in> set s. \<not> is_ws c \<Longrightarrow> trim s = s"
proof -
  assume a: "\<forall>c \<in> set s. \<not> is_ws c"
  then have "dropWhile is_ws s = s" by (cases s) auto
  moreover have "dropWhile is_ws (rev s) = rev s"
    using a by (simp add: dropWhile_eq_self_iff) (metis hd_rev last_in_set)
  ultimately show ?thesis by (simp add: trim_def trimStart_def trimEnd_def)
qed

lemma set_trim: "set (trim s) \<subseteq> set s"
  unfolding trim_def trimEnd_def trimStart_def
  by (auto dest!: set_dropWhileD)

subsection \<open>Lemmas on splitting and joining\<close>

lemma js_split_nonempty [simp]: "js_split c s \<noteq> []"
  by (induction s) (auto split: list.splits)

lemma js_split_no_sep: "w \<in> set (js_split c s) \<Longrightarrow> c \<notin> set w"
  by (induction s arbitrary: w) (auto split: if_splits list.splits)

lemma js_join_Cons: "ws \<noteq> [] \<Longrightarrow> js_join sep (w # ws) = w @ sep @ js_join sep ws"
  by (cases ws) auto

lemma js_join_split: "js_join [c] (js_split c s) = s"
proof (induction s)
  case (Cons x xs)
  obtain w ws where "js_split c xs = w # ws" using js_split_nonempty by (metis list.exhaust)
  with Cons show ?case by (cases ws) auto
qed simp

lemma js_split_append:
  "c \<notin> set w \<Longrightarrow> js_split c (w @ c # s) = w # js_split c s"
  by (induction w) auto

lemma js_split_single: "c \<notin> set w \<Longrightarrow> js_split c w = [w]"
  by (induction w) auto

lemma js_split_join:
  "ws \<noteq> [] \<Longrightarrow> \<forall>w \<in> set ws. c \<notin> set w \<Longrightarrow> js_split c (js_join [c] ws) = ws"
proof (induction ws)
  case (Cons w ws)
  show ?case
  proof (cases "ws = []")
    case True
    with Cons.prems show ?thesis by (simp add: js_split_single)
  next
    case False
    with Cons show ?thesis by (simp add: js_join_Cons js_split_append)
  qed
qed simp

lemma js_join_inject:
  assumes "ws \<noteq> []" "vs \<noteq> []" "\<forall>w \<in> set ws. c \<notin> set w" "\<forall>w \<in> set vs. c \<notin> set w"
    and "js_join [c] ws = js_join [c] vs"
  shows "ws = vs"
  by (metis assms js_split_join)

lemma startsWith_append [simp]: "startsWith (p @ s) p"
  by (simp add: startsWith_def)

lemma startsWith_iff: "startsWith s p \<longleftrightarrow> (\<exists>t. s = p @ t)"
proof
  assume "startsWith s p"
  then have "s = p @ drop (length p) s"
    unfolding startsWith_def by (metis append_take_drop_id)
  then show "\<exists>t. s = p @ t" ..
qed auto

section \<open>Association lists\<close>

text \<open>
  The pruning loops of the sources: \<open>for (const [k, v] of map.entries()) if (dead(k, v)) map.delete(k)\<close>.
  Deleting while iterating a \<open>Map\<close> (or iterating a snapshot of \<open>Object.entries\<close>) visits every entry
  once, so the result is the filtered list.
\<close>
definition alist_prune :: "('k \<Rightarrow> 'v \<Rightarrow> bool) \<Rightarrow> ('k \<times> 'v) list \<Rightarrow> ('k \<times> 'v) list" where
  "alist_prune dead m = filter (\<lambda>(k, v). \<not> dead k v) m"

lemma map_of_alist_update [alist_simps]:
  "map_of (AList.update k v m) k' = (if k' = k then Some v else map_of m k')"
  by (simp add: AList.update_conv')

lemma map_of_alist_delete [alist_simps]:
  "map_of (AList.delete k m) k' = (if k' = k then None else map_of m k')"
  by (simp add: AList.delete_conv')

lemma map_of_filter_distinct:
  "distinct (map fst m) \<Longrightarrow>
   map_of (filter (\<lambda>(k, v). P k v) m) k = (case map_of m k of None \<Rightarrow> None | Some v \<Rightarrow> if P k v then Some v else None)"
proof (induction m)
  case (Cons a m)
  obtain k0 v0 where a: "a = (k0, v0)" by fastforce
  have "k0 \<notin> fst ` set m" using Cons.prems a by simp
  then have none: "map_of m k0 = None" "map_of (filter (\<lambda>(k, v). P k v) m) k0 = None"
    by (auto simp: map_of_eq_None_iff)
  show ?case using Cons a none by (auto split: option.splits)
qed simp

lemma map_of_alist_prune [alist_simps]:
  "distinct (map fst m) \<Longrightarrow>
   map_of (alist_prune dead m) k =
     (case map_of m k of None \<Rightarrow> None | Some v \<Rightarrow> if dead k v then None else Some v)"
  unfolding alist_prune_def by (simp add: map_of_filter_distinct split: option.splits)

lemma distinct_alist_prune [simp]:
  "distinct (map fst m) \<Longrightarrow> distinct (map fst (alist_prune dead m))"
  unfolding alist_prune_def by (induction m) auto

lemma distinct_alist_delete [simp]:
  "distinct (map fst m) \<Longrightarrow> distinct (map fst (AList.delete k m))"
  by (rule AList.distinct_delete)

lemma distinct_alist_update [simp]:
  "distinct (map fst m) \<Longrightarrow> distinct (map fst (AList.update k v m))"
  by (rule AList.distinct_update)

lemma set_alist_prune: "set (alist_prune dead m) = {(k, v) \<in> set m. \<not> dead k v}"
  by (auto simp: alist_prune_def)

lemma alist_update_fresh: "k \<notin> fst ` set m \<Longrightarrow> AList.update k x m = m @ [(k, x)]"
  by (induction m) auto

text \<open>Reading back a record entry by entry rebuilds it.\<close>
lemma foldl_alist_update_fresh:
  assumes "\<And>acc k x. (k, x) \<in> set m \<Longrightarrow> f acc (k, enc x) = AList.update k x acc"
    and "distinct (map fst (acc @ m))"
  shows "foldl f acc (map (\<lambda>(k, x). (k, enc x)) m) = acc @ m"
  using assms
proof (induction m arbitrary: acc)
  case (Cons kx m)
  obtain k x where kx: "kx = (k, x)" by fastforce
  have "f acc (k, enc x) = acc @ [(k, x)]"
    using Cons.prems kx by (subst Cons.prems(1)) (auto intro!: alist_update_fresh)
  moreover have "foldl f (acc @ [(k, x)]) (map (\<lambda>(k, x). (k, enc x)) m) = (acc @ [(k, x)]) @ m"
    using Cons.prems kx by (intro Cons.IH) auto
  ultimately show ?case by (simp add: kx)
qed simp

lemma set_alist_update_subset: "set (AList.update k x m) \<subseteq> insert (k, x) (set m)"
  by (induction m) auto

text \<open>An entry-wise reader that only ever stores good entries keeps the record good and its keys distinct.\<close>
lemma foldl_alist_invariant:
  assumes "\<And>acc kx. (\<forall>(k, x) \<in> set acc. P k x) \<Longrightarrow> distinct (map fst acc) \<Longrightarrow>
             (\<forall>(k, x) \<in> set (f acc kx). P k x) \<and> distinct (map fst (f acc kx))"
    and "\<forall>(k, x) \<in> set acc. P k x" and "distinct (map fst acc)"
  shows "(\<forall>(k, x) \<in> set (foldl f acc kxs). P k x) \<and> distinct (map fst (foldl f acc kxs))"
  using assms(2,3)
proof (induction kxs arbitrary: acc)
  case (Cons kx kxs)
  note step = assms(1) [OF Cons.prems, of kx]
  show ?case unfolding foldl_Cons by (rule Cons.IH) (rule conjunct1 [OF step], rule conjunct2 [OF step])
qed simp

lemma alist_update_good:
  assumes "\<forall>(k, d) \<in> set acc. P k d" "distinct (map fst acc)"
    and "m \<noteq> acc \<Longrightarrow> \<exists>k d. m = AList.update k d acc \<and> P k d"
  shows "(\<forall>(k, d) \<in> set m. P k d) \<and> distinct (map fst m)"
proof (cases "m = acc")
  case False
  then obtain k d where "m = AList.update k d acc" "P k d" using assms(3) by blast
  then show ?thesis using assms(1,2) set_alist_update_subset [of k d acc] by auto
qed (use assms in simp)

section \<open>Reals\<close>

lemma floor_mult_le: "0 < c \<Longrightarrow> real_of_int \<lfloor>x / c\<rfloor> * c \<le> x"
  by (metis mult.commute mult_le_cancel_left_pos nonzero_mult_div_cancel_left of_int_floor_le
      order_less_imp_not_eq2 times_divide_eq_right)

lemma floor_mult_gt: "0 < c \<Longrightarrow> x - c < real_of_int \<lfloor>x / c\<rfloor> * c"
proof -
  assume c: "0 < c"
  have "x / c - 1 < real_of_int \<lfloor>x / c\<rfloor>" by linarith
  then have "(x / c - 1) * c < real_of_int \<lfloor>x / c\<rfloor> * c" using c by simp
  then show ?thesis using c by (simp add: left_diff_distrib)
qed

end
