(* ===== verification/Rate_Limit.thy ===== *)
theory Rate_Limit
  imports Clawd_Prelude
begin

text \<open>
  The fixed-window rate limiters: \<open>apps/proxy/src/agent-rate-limit-middleware.ts\<close> (per verified agent),
  \<open>apps/proxy/src/public-rate-limit-middleware.ts\<close> and \<open>apps/registry/src/rate-limit.ts\<close> (per path or
  bucket key and client address; the registry's also bounds the number of buckets by evicting the
  oldest). A middleware either passes the request on (\<open>Inr ()\<close>) or throws; \<open>next()\<close> is outside.

  The locale \<open>fixed_window\<close> states what the three share and proves once how many requests a window
  lets through; it is interpreted on each of them.
\<close>

record InMemoryBucket =
  windowStartedAtMs :: ms
  bucketCount :: nat

type_synonym buckets = "(string \<times> InMemoryBucket) list"

text \<open>The loop that deletes the buckets whose window is over.\<close>
definition drop_stale :: "ms \<Rightarrow> ms \<Rightarrow> buckets \<Rightarrow> buckets" where
  "drop_stale windowMs now bs = alist_prune (\<lambda>_ b. now - windowStartedAtMs b \<ge> windowMs) bs"

section \<open>Per agent (proxy)\<close>

definition agentRateLimit ::
  "nat \<Rightarrow> ms \<Rightarrow> ms \<Rightarrow> string \<Rightarrow> string option \<Rightarrow> buckets \<Rightarrow> (app_error, unit) result \<times> buckets" where
  "agentRateLimit requestsPerMinute windowMs now path auth bs =
     (if path = ''/health'' then (Inr (), bs)
      else case auth of None \<Rightarrow> (Inr (), bs) | Some agentDid \<Rightarrow>
      let bs = drop_stale windowMs now bs in
      case map_of bs agentDid of
        None \<Rightarrow> (Inr (), AList.update agentDid \<lparr>windowStartedAtMs = now, bucketCount = 1\<rparr> bs)
      | Some existing \<Rightarrow>
          if now - windowStartedAtMs existing \<ge> windowMs
          then (Inr (), AList.update agentDid \<lparr>windowStartedAtMs = now, bucketCount = 1\<rparr> bs)
          else if bucketCount existing \<ge> requestsPerMinute
          then (Inl (AppError ''PROXY_RATE_LIMIT_EXCEEDED'' ''Too many requests'' 429), bs)
          else (Inr (), AList.update agentDid (existing\<lparr>bucketCount := bucketCount existing + 1\<rparr>) bs))"

section \<open>Per path and client address (proxy)\<close>

definition resolveClientIp :: "string option \<Rightarrow> string" where
  "resolveClientIp cfIp =
     (case cfIp of None \<Rightarrow> ''unknown'' | Some ip \<Rightarrow> if length (trim ip) > 0 then trim ip else ''unknown'')"

definition publicRateLimit ::
  "string list \<Rightarrow> nat \<Rightarrow> ms \<Rightarrow> ms \<Rightarrow> string \<Rightarrow> string option \<Rightarrow> buckets \<Rightarrow> (app_error, unit) result \<times> buckets" where
  "publicRateLimit paths maxRequests windowMs now path cfIp bs =
     (if path = [] \<or> path \<notin> set paths then (Inr (), bs)
      else
      let bs = drop_stale windowMs now bs;
          key = path @ '':'' @ resolveClientIp cfIp in
      case map_of bs key of
        None \<Rightarrow> (Inr (), AList.update key \<lparr>windowStartedAtMs = now, bucketCount = 1\<rparr> bs)
      | Some existing \<Rightarrow>
          if now - windowStartedAtMs existing \<ge> windowMs
          then (Inr (), AList.update key \<lparr>windowStartedAtMs = now, bucketCount = 1\<rparr> bs)
          else if bucketCount existing \<ge> maxRequests
          then (Inl (AppError ''PROXY_PUBLIC_RATE_LIMIT_EXCEEDED'' ''Too many requests'' 429), bs)
          else (Inr (), AList.update key (existing\<lparr>bucketCount := bucketCount existing + 1\<rparr>) bs))"

section \<open>Per bucket key and client address, with a bounded number of buckets (registry)\<close>

text \<open>The loop over the buckets: the first one with the smallest start.\<close>
fun oldest_bucket :: "(string \<times> ms) option \<Rightarrow> buckets \<Rightarrow> (string \<times> ms) option" where
  "oldest_bucket best [] = best"
| "oldest_bucket best ((k, b) # bs) =
     oldest_bucket
       (case best of None \<Rightarrow> Some (k, windowStartedAtMs b)
        | Some (_, t) \<Rightarrow> if windowStartedAtMs b < t then Some (k, windowStartedAtMs b) else best) bs"

definition evict_oldest :: "nat \<Rightarrow> buckets \<Rightarrow> buckets" where
  "evict_oldest maxBuckets bs =
     (if length bs \<ge> maxBuckets
      then (case oldest_bucket None bs of None \<Rightarrow> bs | Some (k, _) \<Rightarrow> if k = [] then bs else AList.delete k bs)
      else bs)"

definition createInMemoryRateLimit ::
  "string \<Rightarrow> nat \<Rightarrow> nat \<Rightarrow> ms \<Rightarrow> ms \<Rightarrow> string option \<Rightarrow> buckets \<Rightarrow> (app_error, unit) result \<times> buckets" where
  "createInMemoryRateLimit bucketKey maxRequests maxBuckets windowMs now cfIp bs =
     (let bs = drop_stale windowMs now bs;
          key = bucketKey @ '':'' @ resolveClientIp cfIp in
      case map_of bs key of
        None \<Rightarrow> (Inr (), AList.update key \<lparr>windowStartedAtMs = now, bucketCount = 1\<rparr> (evict_oldest maxBuckets bs))
      | Some existing \<Rightarrow>
          if now - windowStartedAtMs existing \<ge> windowMs
          then (Inr (), AList.update key \<lparr>windowStartedAtMs = now, bucketCount = 1\<rparr> bs)
          else if bucketCount existing \<ge> maxRequests
          then (Inl (AppError ''RATE_LIMIT_EXCEEDED'' ''Too many requests'' 429), bs)
          else (Inr (), AList.update key (existing\<lparr>bucketCount := bucketCount existing + 1\<rparr>) bs))"

section \<open>The contract\<close>

text \<open>How many of the requests \<open>es\<close> counted against the bucket \<open>k\<close> pass, one after the other from \<open>s\<close>.\<close>
fun passed :: "('e \<Rightarrow> 's \<Rightarrow> bool \<times> 's) \<Rightarrow> ('e \<Rightarrow> string option) \<Rightarrow> string \<Rightarrow> 'e list \<Rightarrow> 's \<Rightarrow> nat" where
  "passed handle key k [] s = 0"
| "passed handle key k (e # es) s =
     (if key e = Some k \<and> fst (handle e s) then 1 else 0) + passed handle key k es (snd (handle e s))"

text \<open>No step of \<open>es\<close> forgets the bucket \<open>k\<close>.\<close>
fun remembered :: "('e \<Rightarrow> 's \<Rightarrow> bool \<times> 's) \<Rightarrow> ('e \<Rightarrow> 's \<Rightarrow> string \<Rightarrow> bool) \<Rightarrow> string \<Rightarrow> 'e list \<Rightarrow> 's \<Rightarrow> bool" where
  "remembered handle forgets k [] s = True"
| "remembered handle forgets k (e # es) s \<longleftrightarrow> \<not> forgets e s k \<and> remembered handle forgets k es (snd (handle e s))"

lemma remembered_always [simp]: "remembered handle (\<lambda>_ _ _. False) k es s"
  by (induction es arbitrary: s) auto

text \<open>The requests of \<open>es\<close> counted against \<open>k\<close>.\<close>
definition requests_for :: "('e \<Rightarrow> string option) \<Rightarrow> string \<Rightarrow> 'e list \<Rightarrow> nat" where
  "requests_for key k es = length (filter (\<lambda>e. key e = Some k) es)"

text \<open>
  \<open>handle e s\<close> tells whether the request passes and gives the next state; \<open>key e\<close> is the bucket it
  counts against, if any; \<open>forgets e s k\<close> marks the steps that may drop a live bucket \<open>k\<close>.
\<close>
locale fixed_window =
  fixes window :: ms and limit :: nat
    and handle :: "'e \<Rightarrow> 's \<Rightarrow> bool \<times> 's"
    and key :: "'e \<Rightarrow> string option"
    and time_of :: "'e \<Rightarrow> ms"
    and bucket :: "'s \<Rightarrow> string \<Rightarrow> (ms \<times> nat) option"
    and forgets :: "'e \<Rightarrow> 's \<Rightarrow> string \<Rightarrow> bool"
    and inv :: "'s \<Rightarrow> bool"
  assumes inv_step: "inv s \<Longrightarrow> inv (snd (handle e s))"
    and counted: "inv s \<Longrightarrow> key e = Some k \<Longrightarrow> bucket s k = Some (t, c) \<Longrightarrow> time_of e - t < window \<Longrightarrow>
      fst (handle e s) = (c < limit) \<and> bucket (snd (handle e s)) k = Some (t, if c < limit then c + 1 else c)"
    and opened: "inv s \<Longrightarrow> key e = Some k \<Longrightarrow> bucket s k = None \<or> (\<exists>t c. bucket s k = Some (t, c) \<and> window \<le> time_of e - t) \<Longrightarrow>
      fst (handle e s) \<and> bucket (snd (handle e s)) k = Some (time_of e, 1)"
    and kept: "inv s \<Longrightarrow> key e \<noteq> Some k \<Longrightarrow> bucket s k = Some (t, c) \<Longrightarrow> time_of e - t < window \<Longrightarrow> \<not> forgets e s k \<Longrightarrow>
      bucket (snd (handle e s)) k = Some (t, c)"
begin

lemma passed_in_window:
  assumes "inv s" and "bucket s k = Some (t, c)" and "\<forall>e \<in> set es. time_of e - t < window" and "remembered handle forgets k es s"
  shows "passed handle key k es s = min (requests_for key k es) (limit - c)"
  using assms
proof (induction es arbitrary: s c)
  case (Cons e es)
  note inv' = inv_step [OF Cons.prems(1), of e]
  show ?case
  proof (cases "key e = Some k")
    case True
    note step = counted [OF Cons.prems(1) True Cons.prems(2)]
    have lt: "time_of e - t < window" using Cons.prems(3) by simp
    have "passed handle key k es (snd (handle e s)) =
        min (requests_for key k es) (limit - (if c < limit then c + 1 else c))"
      using Cons.prems step [OF lt] by (intro Cons.IH inv') auto
    then show ?thesis using step [OF lt] True by (auto simp: requests_for_def)
  next
    case False
    then have "bucket (snd (handle e s)) k = Some (t, c)"
      using Cons.prems by (intro kept) auto
    then have "passed handle key k es (snd (handle e s)) = min (requests_for key k es) (limit - c)"
      using Cons.prems by (intro Cons.IH inv') auto
    then show ?thesis using False by (simp add: requests_for_def)
  qed
qed (simp add: requests_for_def)

lemma window_passes:
  assumes "inv s" and "key e = Some k"
    and "bucket s k = None \<or> (\<exists>t c. bucket s k = Some (t, c) \<and> window \<le> time_of e - t)"
    and "\<forall>f \<in> set es. time_of f - time_of e < window" and "remembered handle forgets k es (snd (handle e s))"
  shows "passed handle key k (e # es) s = min (requests_for key k (e # es)) (max 1 limit)"
proof -
  note op = opened [OF assms(1-3)]
  have "passed handle key k es (snd (handle e s)) = min (requests_for key k es) (limit - 1)"
    using op assms(4,5) inv_step [OF assms(1)] by (intro passed_in_window) auto
  then show ?thesis using op assms(2) by (auto simp: requests_for_def)
qed

end

section \<open>The three limiters meet it\<close>

definition bucket_of :: "buckets \<Rightarrow> string \<Rightarrow> (ms \<times> nat) option" where
  "bucket_of bs k = map_option (\<lambda>b. (windowStartedAtMs b, bucketCount b)) (map_of bs k)"

definition buckets_inv :: "buckets \<Rightarrow> bool" where
  "buckets_inv bs \<longleftrightarrow> distinct (map fst bs)"

lemma bucket_of_drop_stale:
  "buckets_inv bs \<Longrightarrow> bucket_of (drop_stale w now bs) k =
     (case bucket_of bs k of None \<Rightarrow> None | Some (t, c) \<Rightarrow> if now - t \<ge> w then None else Some (t, c))"
  by (simp add: bucket_of_def drop_stale_def buckets_inv_def map_of_alist_prune split: option.splits)

lemma map_of_drop_stale:
  "buckets_inv bs \<Longrightarrow> map_of (drop_stale w now bs) k =
     (case map_of bs k of None \<Rightarrow> None | Some b \<Rightarrow> if now - windowStartedAtMs b \<ge> w then None else Some b)"
  by (simp add: drop_stale_def buckets_inv_def map_of_alist_prune)

lemma bucket_of_update:
  "bucket_of (AList.update k b bs) j = (if j = k then Some (windowStartedAtMs b, bucketCount b) else bucket_of bs j)"
  by (simp add: bucket_of_def update_conv')

lemma buckets_inv_simps [simp]:
  "buckets_inv bs \<Longrightarrow> buckets_inv (drop_stale w now bs)" "buckets_inv bs \<Longrightarrow> buckets_inv (AList.update k b bs)"
  "buckets_inv bs \<Longrightarrow> buckets_inv (AList.delete k bs)" "buckets_inv []"
  by (simp_all add: buckets_inv_def drop_stale_def)

text \<open>A request as the limiter sees it: the time, the path and the identity it is counted by.\<close>
type_synonym limit_event = "ms \<times> string \<times> string option"

fun event_time :: "limit_event \<Rightarrow> ms" where "event_time (t, _, _) = t"

fun agent_handle :: "nat \<Rightarrow> ms \<Rightarrow> limit_event \<Rightarrow> buckets \<Rightarrow> bool \<times> buckets" where
  "agent_handle n w (t, path, auth) bs = (case agentRateLimit n w t path auth bs of (r, bs') \<Rightarrow> (r = Inr (), bs'))"

fun agent_key :: "limit_event \<Rightarrow> string option" where
  "agent_key (_, path, auth) = (if path = ''/health'' then None else auth)"

interpretation agent_limit: fixed_window w n "agent_handle n w" agent_key event_time bucket_of "\<lambda>_ _ _. False" buckets_inv
  for w n
proof unfold_locales
  fix bs e assume "buckets_inv bs"
  then show "buckets_inv (snd (agent_handle n w e bs))"
    by (cases e) (simp add: agentRateLimit_def Let_def split: option.splits)
next
  fix bs e k t c
  assume "buckets_inv bs" "agent_key e = Some k" "bucket_of bs k = Some (t, c)" "event_time e - t < w"
  then show "fst (agent_handle n w e bs) = (c < n) \<and>
      bucket_of (snd (agent_handle n w e bs)) k = Some (t, if c < n then c + 1 else c)"
    by (cases e) (auto simp: agentRateLimit_def Let_def map_of_drop_stale bucket_of_update bucket_of_drop_stale
        bucket_of_def [of bs] split: if_splits)
next
  fix bs e k
  assume "buckets_inv bs" "agent_key e = Some k"
    "bucket_of bs k = None \<or> (\<exists>t c. bucket_of bs k = Some (t, c) \<and> w \<le> event_time e - t)"
  then show "fst (agent_handle n w e bs) \<and> bucket_of (snd (agent_handle n w e bs)) k = Some (event_time e, 1)"
    by (cases e) (auto simp: agentRateLimit_def Let_def map_of_drop_stale bucket_of_update bucket_of_def [of bs]
        split: if_splits)
next
  fix bs e k t c
  assume "buckets_inv bs" "agent_key e \<noteq> Some k" "bucket_of bs k = Some (t, c)" "event_time e - t < w" "\<not> False"
  then show "bucket_of (snd (agent_handle n w e bs)) k = Some (t, c)"
    by (cases e) (auto simp: agentRateLimit_def Let_def bucket_of_update bucket_of_drop_stale split: option.splits if_splits)
qed

fun public_handle :: "string list \<Rightarrow> nat \<Rightarrow> ms \<Rightarrow> limit_event \<Rightarrow> buckets \<Rightarrow> bool \<times> buckets" where
  "public_handle paths n w (t, path, ip) bs =
     (case publicRateLimit paths n w t path ip bs of (r, bs') \<Rightarrow> (r = Inr (), bs'))"

fun public_key :: "string list \<Rightarrow> limit_event \<Rightarrow> string option" where
  "public_key paths (_, path, ip) =
     (if path = [] \<or> path \<notin> set paths then None else Some (path @ '':'' @ resolveClientIp ip))"

interpretation public_limit: fixed_window w n "public_handle paths n w" "public_key paths" event_time bucket_of
    "\<lambda>_ _ _. False" buckets_inv
  for w n paths
proof unfold_locales
  fix bs e assume "buckets_inv bs"
  then show "buckets_inv (snd (public_handle paths n w e bs))"
    by (cases e) (simp add: publicRateLimit_def Let_def split: option.splits)
next
  fix bs e k t c
  assume "buckets_inv bs" "public_key paths e = Some k" "bucket_of bs k = Some (t, c)" "event_time e - t < w"
  then show "fst (public_handle paths n w e bs) = (c < n) \<and>
      bucket_of (snd (public_handle paths n w e bs)) k = Some (t, if c < n then c + 1 else c)"
    by (cases e) (auto simp: publicRateLimit_def Let_def map_of_drop_stale bucket_of_update bucket_of_drop_stale
        bucket_of_def [of bs] split: if_splits)
next
  fix bs e k
  assume "buckets_inv bs" "public_key paths e = Some k"
    "bucket_of bs k = None \<or> (\<exists>t c. bucket_of bs k = Some (t, c) \<and> w \<le> event_time e - t)"
  then show "fst (public_handle paths n w e bs) \<and> bucket_of (snd (public_handle paths n w e bs)) k = Some (event_time e, 1)"
    by (cases e) (auto simp: publicRateLimit_def Let_def map_of_drop_stale bucket_of_update bucket_of_def [of bs]
        split: if_splits)
next
  fix bs e k t c
  assume "buckets_inv bs" "public_key paths e \<noteq> Some k" "bucket_of bs k = Some (t, c)" "event_time e - t < w" "\<not> False"
  then show "bucket_of (snd (public_handle paths n w e bs)) k = Some (t, c)"
    by (cases e) (auto simp: publicRateLimit_def Let_def bucket_of_update bucket_of_drop_stale split: option.splits if_splits)
qed

text \<open>The registry's limiter forgets a live bucket only when it is full and that bucket is its oldest.\<close>
fun registry_handle :: "string \<Rightarrow> nat \<Rightarrow> nat \<Rightarrow> ms \<Rightarrow> limit_event \<Rightarrow> buckets \<Rightarrow> bool \<times> buckets" where
  "registry_handle bk n m w (t, _, ip) bs =
     (case createInMemoryRateLimit bk n m w t ip bs of (r, bs') \<Rightarrow> (r = Inr (), bs'))"

fun registry_key :: "string \<Rightarrow> limit_event \<Rightarrow> string option" where
  "registry_key bk (_, _, ip) = Some (bk @ '':'' @ resolveClientIp ip)"

fun registry_forgets :: "string \<Rightarrow> nat \<Rightarrow> ms \<Rightarrow> limit_event \<Rightarrow> buckets \<Rightarrow> string \<Rightarrow> bool" where
  "registry_forgets bk m w (t, path, ip) bs k \<longleftrightarrow>
     (let live = drop_stale w t bs in
      m \<le> length live \<and> map_of live (bk @ '':'' @ resolveClientIp ip) = None \<and>
      (case oldest_bucket None live of None \<Rightarrow> False | Some (j, _) \<Rightarrow> j = k))"

lemma evict_oldest_inv: "buckets_inv bs \<Longrightarrow> buckets_inv (evict_oldest m bs)"
  by (simp add: evict_oldest_def split: option.splits)

lemma bucket_of_evict:
  assumes "\<not> (m \<le> length bs \<and> (case oldest_bucket None bs of None \<Rightarrow> False | Some (j, _) \<Rightarrow> j = k))"
  shows "bucket_of (evict_oldest m bs) k = bucket_of bs k"
  using assms by (auto simp: evict_oldest_def bucket_of_def delete_conv' split: option.splits)

interpretation registry_limit: fixed_window w n "registry_handle bk n m w" "registry_key bk" event_time bucket_of
    "registry_forgets bk m w" buckets_inv
  for w n m bk
proof unfold_locales
  fix bs e assume "buckets_inv bs"
  then show "buckets_inv (snd (registry_handle bk n m w e bs))"
    by (cases e) (simp add: createInMemoryRateLimit_def Let_def evict_oldest_inv split: option.splits)
next
  fix bs e k t c
  assume "buckets_inv bs" "registry_key bk e = Some k" "bucket_of bs k = Some (t, c)" "event_time e - t < w"
  then show "fst (registry_handle bk n m w e bs) = (c < n) \<and>
      bucket_of (snd (registry_handle bk n m w e bs)) k = Some (t, if c < n then c + 1 else c)"
    by (cases e) (auto simp: createInMemoryRateLimit_def Let_def map_of_drop_stale bucket_of_update bucket_of_drop_stale
        bucket_of_def [of bs] split: if_splits)
next
  fix bs e k
  assume "buckets_inv bs" "registry_key bk e = Some k"
    "bucket_of bs k = None \<or> (\<exists>t c. bucket_of bs k = Some (t, c) \<and> w \<le> event_time e - t)"
  then show "fst (registry_handle bk n m w e bs) \<and> bucket_of (snd (registry_handle bk n m w e bs)) k = Some (event_time e, 1)"
    by (cases e) (auto simp: createInMemoryRateLimit_def Let_def map_of_drop_stale bucket_of_update bucket_of_def [of bs]
        split: if_splits)
next
  fix bs e k t c
  assume a: "buckets_inv bs" "registry_key bk e \<noteq> Some k" "bucket_of bs k = Some (t, c)" "event_time e - t < w"
    "\<not> registry_forgets bk m w e bs k"
  obtain now path ip where e: "e = (now, path, ip)" by (cases e)
  let ?live = "drop_stale w now bs"
  have live: "bucket_of ?live k = Some (t, c)" using a e by (simp add: bucket_of_drop_stale)
  show "bucket_of (snd (registry_handle bk n m w e bs)) k = Some (t, c)"
  proof (cases "map_of ?live (bk @ '':'' @ resolveClientIp ip)")
    case None
    then have "bucket_of (evict_oldest m ?live) k = bucket_of ?live k"
      using a(5) by (intro bucket_of_evict) (simp add: e Let_def)
    then show ?thesis using a(2) live None by (simp add: e createInMemoryRateLimit_def Let_def bucket_of_update)
  next
    case (Some b)
    then show ?thesis using a(2) live by (auto simp: e createInMemoryRateLimit_def Let_def bucket_of_update)
  qed
qed

text \<open>
  (C34) Per-agent limit: from the request that opens a window on, the requests of that agent within
  the window are let through up to the limit and refused from then on, whatever other agents send;
  exactly the minimum of their number and the limit pass.
\<close>
theorem agent_limit_window:
  assumes "buckets_inv bs" and "agent_key e = Some k"
    and "bucket_of bs k = None \<or> (\<exists>t c. bucket_of bs k = Some (t, c) \<and> w \<le> event_time e - t)"
    and "\<forall>f \<in> set es. event_time f - event_time e < w"
  shows "passed (agent_handle n w) agent_key k (e # es) bs = min (requests_for agent_key k (e # es)) (max 1 n)"
  by (rule agent_limit.window_passes [OF assms]) simp

theorem agent_limit_window_witness:
  "passed (agent_handle 2 60) agent_key ''a'' [(0, ''/x'', Some ''a''), (1, ''/x'', Some ''b''), (2, ''/x'', Some ''a''),
     (59, ''/x'', Some ''a'')] [] = 2"
  using agent_limit_window [of "[]" "(0, ''/x'', Some ''a'')" "''a''" 60
      "[(1, ''/x'', Some ''b''), (2, ''/x'', Some ''a''), (59, ''/x'', Some ''a'')]" 2]
  by (simp add: bucket_of_def requests_for_def)

text \<open>
  The public limiter of the proxy, which counts by path and client address, has the same
  guarantee: within a window exactly the minimum of the requests and the limit pass.
\<close>
theorem public_limit_window:
  assumes "buckets_inv bs" and "public_key paths e = Some k"
    and "bucket_of bs k = None \<or> (\<exists>t c. bucket_of bs k = Some (t, c) \<and> w \<le> event_time e - t)"
    and "\<forall>f \<in> set es. event_time f - event_time e < w"
  shows "passed (public_handle paths n w) (public_key paths) k (e # es) bs =
         min (requests_for (public_key paths) k (e # es)) (max 1 n)"
  by (rule public_limit.window_passes [OF assms]) simp

theorem public_limit_window_witness:
  "passed (public_handle [''/p''] 1 60) (public_key [''/p'']) ''/p:unknown'' [(0, ''/p'', None), (1, ''/p'', None)] [] = 1"
  using public_limit_window [of "[]" "[''/p'']" "(0, ''/p'', None)" "''/p:unknown''" 60 "[(1, ''/p'', None)]" 1]
  by (simp add: bucket_of_def requests_for_def resolveClientIp_def)

text \<open>
  The registry's limiter lets through exactly the minimum of the requests and the limit within
  a window as long as the client's bucket is not evicted, and it evicts a live bucket only when the
  table is full and that bucket is the oldest one.
\<close>
theorem registry_limit_window:
  assumes "buckets_inv bs" and "registry_key bk e = Some k"
    and "bucket_of bs k = None \<or> (\<exists>t c. bucket_of bs k = Some (t, c) \<and> w \<le> event_time e - t)"
    and "\<forall>f \<in> set es. event_time f - event_time e < w"
    and "remembered (registry_handle bk n m w) (registry_forgets bk m w) k es (snd (registry_handle bk n m w e bs))"
  shows "passed (registry_handle bk n m w) (registry_key bk) k (e # es) bs =
         min (requests_for (registry_key bk) k (e # es)) (max 1 n)"
  by (rule registry_limit.window_passes [OF assms])

theorem registry_limit_window_witness:
  "passed (registry_handle ''r'' 1 10 60) (registry_key ''r'') ''r:unknown'' [(0, ''/p'', None), (1, ''/p'', None)] [] = 1"
  using registry_limit_window [of "[]" "''r''" "(0, ''/p'', None)" "''r:unknown''" 60 "[(1, ''/p'', None)]" 1 10]
  by (simp add: bucket_of_def requests_for_def resolveClientIp_def createInMemoryRateLimit_def drop_stale_def
      alist_prune_def Let_def evict_oldest_def)

section \<open>The registry's table stays bounded\<close>

lemma oldest_bucket_in:
  "oldest_bucket best bs = Some (k, t) \<Longrightarrow> k \<in> fst ` set bs \<or> best = Some (k, t)"
proof (induction bs arbitrary: best)
  case (Cons kb bs)
  obtain j b where kb: "kb = (j, b)" by fastforce
  let ?best = "case best of None \<Rightarrow> Some (j, windowStartedAtMs b)
      | Some (_, u) \<Rightarrow> if windowStartedAtMs b < u then Some (j, windowStartedAtMs b) else best"
  have "k \<in> fst ` set bs \<or> ?best = Some (k, t)" using Cons.IH [of ?best] Cons.prems by (simp add: kb)
  then show ?case by (auto simp: kb split: option.splits if_splits)
qed simp

lemma oldest_bucket_some: "bs \<noteq> [] \<or> best \<noteq> None \<Longrightarrow> oldest_bucket best bs \<noteq> None"
proof (induction bs arbitrary: best)
  case (Cons kb bs)
  obtain j b where "kb = (j, b)" by fastforce
  then show ?case using Cons.IH by (auto split: option.splits)
qed auto

definition table_ok :: "nat \<Rightarrow> buckets \<Rightarrow> bool" where
  "table_ok m bs \<longleftrightarrow> length bs \<le> m \<and> (\<forall>(k, b) \<in> set bs. k \<noteq> [])"

lemma length_alist_update: "length (AList.update k b bs) = (if k \<in> fst ` set bs then length bs else length bs + 1)"
  by (induction bs) auto

lemma length_delete_less: "k \<in> fst ` set bs \<Longrightarrow> length (AList.delete k bs) < length bs"
  unfolding AList.delete_eq by (auto intro: length_filter_less)

lemma evict_oldest_room:
  assumes "table_ok m bs" and "1 \<le> m"
  shows "length (evict_oldest m bs) < m \<and> set (evict_oldest m bs) \<subseteq> set bs"
proof (cases "m \<le> length bs")
  case True
  with assms have "bs \<noteq> []" by auto
  then obtain k t where o: "oldest_bucket None bs = Some (k, t)" using oldest_bucket_some [of bs None] by auto
  then have k: "k \<in> fst ` set bs" using oldest_bucket_in by fastforce
  then have "k \<noteq> []" using assms(1) by (auto simp: table_ok_def)
  then show ?thesis using True o length_delete_less [OF k] assms(1)
    by (auto simp: evict_oldest_def table_ok_def AList.delete_eq)
qed (simp add: evict_oldest_def)

lemma table_ok_step:
  assumes "table_ok m bs" and "1 \<le> m"
  shows "table_ok m (snd (registry_handle bk n m w e bs))"
proof -
  obtain now path ip where e: "e = (now, path, ip)" by (cases e)
  let ?key = "bk @ '':'' @ resolveClientIp ip" and ?live = "drop_stale w now bs"
  have live: "table_ok m ?live"
    using assms(1) by (auto simp: table_ok_def drop_stale_def alist_prune_def intro: order.trans [OF length_filter_le])
  have upd: "table_ok m (AList.update ?key b t)"
    if "set t \<subseteq> set ?live" "length t < m \<or> ?key \<in> fst ` set t \<and> length t \<le> m" for b t
  proof -
    have "\<forall>(k, b) \<in> set ?live. k \<noteq> []" using live by (simp add: table_ok_def)
    then have "\<forall>(k, b) \<in> insert (?key, b) (set t). k \<noteq> []" using that(1) by auto
    moreover have "length (AList.update ?key b t) \<le> m" using that(2) by (auto simp: length_alist_update)
    ultimately show ?thesis using set_alist_update_subset [of ?key b t] unfolding table_ok_def by blast
  qed
  show ?thesis
  proof (cases "map_of ?live ?key")
    case None
    then show ?thesis using upd evict_oldest_room [OF live assms(2)] by (simp add: e createInMemoryRateLimit_def Let_def)
  next
    case (Some b)
    then have "?key \<in> fst ` set ?live" by (metis fst_conv image_eqI map_of_SomeD)
    moreover have "length ?live \<le> m" using live by (simp add: table_ok_def)
    ultimately show ?thesis using upd Some live by (simp add: e createInMemoryRateLimit_def Let_def)
  qed
qed

lemma table_ok_run:
  "table_ok m bs \<Longrightarrow> 1 \<le> m \<Longrightarrow> table_ok m (fold (\<lambda>e bs. snd (registry_handle bk n m w e bs)) es bs)"
  by (induction es arbitrary: bs) (simp_all add: table_ok_step)

text \<open>
  The registry's rate-limit table never holds more than its configured number of buckets,
  whatever requests arrive.
\<close>
theorem registry_table_bounded:
  assumes "1 \<le> m"
  shows "length (fold (\<lambda>e bs. snd (registry_handle bk n m w e bs)) es []) \<le> m"
  using table_ok_run [of m "[]" bk n w es] assms by (simp add: table_ok_def)

theorem registry_table_bounded_witness:
  "length (fold (\<lambda>e bs. snd (registry_handle ''r'' 5 1 60 e bs)) [(0, [], Some ''x''), (1, [], Some ''y'')] []) \<le> 1"
  by (rule registry_table_bounded) simp

end
