(* ===== verification/Date_Time.thy ===== *)
theory Date_Time
  imports Clawd_Prelude
begin

text \<open>
  Dates as texts: \<open>packages/sdk/src/datetime.ts\<close>. A date is its time value in milliseconds; \<open>toIso\<close> is
  \<open>toISOString\<close> on it. Reading a text back is \<open>Date.parse\<close>, which the language leaves to the host for texts
  of other forms: it is the parameter \<open>date_parse\<close> of the definitions that use it.
\<close>

section \<open>Dates (datetime.ts)\<close>

text \<open>\<open>Date.prototype.toISOString\<close>: the civil date of a count of days since 1970-01-01.\<close>
definition civil_from_days :: "int \<Rightarrow> int \<times> int \<times> int" where
  "civil_from_days days =
     (let z = days + 719468;
          era = z div 146097;
          doe = z - era * 146097;
          yoe = (doe - doe div 1460 + doe div 36524 - doe div 146096) div 365;
          doy = doe - (365 * yoe + yoe div 4 - yoe div 100);
          mp = (5 * doy + 2) div 153;
          d = doy - (153 * mp + 2) div 5 + 1;
          m = (if mp < 10 then mp + 3 else mp - 9);
          y = yoe + era * 400 + (if m \<le> 2 then 1 else 0)
      in (y, m, d))"

definition pad_left :: "nat \<Rightarrow> string \<Rightarrow> string" where
  "pad_left n s = replicate (n - length s) CHR ''0'' @ s"

definition iso_year :: "int \<Rightarrow> string" where
  "iso_year y =
     (if 0 \<le> y \<and> y \<le> 9999 then pad_left 4 (int_str y)
      else (if y < 0 then ''-'' else ''+'') @ pad_left 6 (int_str \<bar>y\<bar>))"

definition toIso :: "ms \<Rightarrow> string" where
  "toIso t =
     (let n = (if 0 \<le> t then \<lfloor>t\<rfloor> else \<lceil>t\<rceil>);
          days = n div 86400000; r = n mod 86400000;
          (y, m, d) = civil_from_days days
      in iso_year y @ ''-'' @ pad_left 2 (int_str m) @ ''-'' @ pad_left 2 (int_str d) @ ''T'' @
         pad_left 2 (int_str (r div 3600000)) @ '':'' @ pad_left 2 (int_str (r div 60000 mod 60)) @ '':'' @
         pad_left 2 (int_str (r div 1000 mod 60)) @ ''.'' @ pad_left 3 (int_str (r mod 1000)) @ ''Z'')"

definition addSeconds :: "ms \<Rightarrow> real \<Rightarrow> string" where
  "addSeconds value seconds = toIso (value + seconds * 1000)"

end
