(* ===== verification/Relay_Queue.thy ===== *)
theory Relay_Queue
  imports Date_Time "HOL-Library.Product_Lexorder"
begin

text \<open>
  The delivery queue of a relay session: \<open>apps/proxy/src/agent-relay-session/types.ts\<close>, \<open>policy.ts\<close>,
  \<open>queue-state.ts\<close>, \<open>queue-manager.ts\<close> and \<open>scheduler.ts\<close>.

  The stored value is a raw JavaScript value; loading filters it into records. What the queue loop
  gets from outside is given by functions of the iteration: the number of deliveries in flight, the
  connector's answer to a frame, and the samples of \<open>Math.random()\<close>. The loop with an index and
  \<open>splice\<close> is a recursion over the part of the queue from the index on.

  Shown here: the bounds of the retry delay, what happens to every queued delivery in one pass (kept,
  delivered, expired or given up, never lost), that a queue reloads to what was saved, and when the
  next alarm fires.
\<close>

section \<open>Types (types.ts)\<close>

datatype RelayDeliveryState = state_delivered | state_queued | state_delivered_to_webhook | state_dead_lettered

fun state_str :: "RelayDeliveryState \<Rightarrow> string" where
  "state_str state_delivered = ''delivered''"
| "state_str state_queued = ''queued''"
| "state_str state_delivered_to_webhook = ''delivered_to_webhook''"
| "state_str state_dead_lettered = ''dead_lettered''"

definition parse_state :: "jsval \<Rightarrow> RelayDeliveryState option" where
  "parse_state v =
     (if v = JStr ''queued'' then Some state_queued
      else if v = JStr ''delivered'' then Some state_delivered
      else if v = JStr ''delivered_to_webhook'' then Some state_delivered_to_webhook
      else if v = JStr ''dead_lettered'' then Some state_dead_lettered
      else None)"

record RelayDeliveryInput =
  in_requestId :: string
  in_senderAgentDid :: string
  in_recipientAgentDid :: string
  in_payload :: jsval
  in_deliverySource :: "string option"
  in_groupId :: "string option"
  in_conversationId :: "string option"
  in_replyTo :: "string option"

record QueuedRelayDelivery =
  qd_deliveryId :: string
  qd_requestId :: string
  qd_senderAgentDid :: string
  qd_recipientAgentDid :: string
  qd_payload :: jsval
  qd_deliverySource :: "string option"
  qd_groupId :: "string option"
  qd_conversationId :: "string option"
  qd_replyTo :: "string option"
  qd_createdAtMs :: ms
  qd_attemptCount :: nat
  qd_expiresAtMs :: ms
  qd_nextAttemptAtMs :: ms

record RelayDeliveryReceipt =
  rc_requestId :: string
  rc_deliveryId :: string
  rc_expiresAtMs :: ms
  rc_senderAgentDid :: string
  rc_recipientAgentDid :: string
  rc_state :: RelayDeliveryState
  rc_reason :: "string option"
  rc_statusUpdatedAt :: string

type_synonym receipts = "(string \<times> RelayDeliveryReceipt) list"

record RelayQueueState =
  qs_deliveries :: "QueuedRelayDelivery list"
  qs_receipts :: receipts

record RelayDeliveryPolicy =
  maxFrameBytes :: nat
  maxInFlightDeliveries :: nat
  queueMaxMessagesPerAgent :: nat
  queueTtlMs :: ms
  retryInitialMs :: ms
  retryJitterRatio :: real
  retryMaxAttempts :: nat
  retryMaxMs :: ms

section \<open>Retry delay (policy.ts)\<close>

text \<open>\<open>random\<close> is the sample of \<open>Math.random()\<close>.\<close>
definition computeRetryDelayMs :: "RelayDeliveryPolicy \<Rightarrow> nat \<Rightarrow> real \<Rightarrow> ms" where
  "computeRetryDelayMs policy priorAttempts random =
     (let exponent = priorAttempts - 1;
          baseDelay = min (retryMaxMs policy) (retryInitialMs policy * 2 ^ exponent) in
      if retryJitterRatio policy \<le> 0 then baseDelay
      else let jitterSpan = baseDelay * retryJitterRatio policy;
               lowerBound = max 1 (real_of_int \<lfloor>baseDelay - jitterSpan\<rfloor>);
               upperBound = real_of_int \<lceil>baseDelay + jitterSpan\<rceil>;
               sample = lowerBound + random * (upperBound - lowerBound)
           in min (retryMaxMs policy) (real_of_int \<lfloor>sample\<rfloor>))"

section \<open>Queue state (queue-state.ts)\<close>

fun is_str :: "jsval \<Rightarrow> bool" where
  "is_str (JStr _) = True"
| "is_str _ = False"

definition is_opt_str :: "jsval \<Rightarrow> bool" where
  "is_opt_str v \<longleftrightarrow> v = JUndefined \<or> is_str v"

definition isQueuedDelivery :: "jsval \<Rightarrow> bool" where
  "isQueuedDelivery value \<longleftrightarrow>
     is_object value \<and> is_str (js_get value ''deliveryId'') \<and> is_str (js_get value ''requestId'') \<and>
     is_str (js_get value ''senderAgentDid'') \<and> is_str (js_get value ''recipientAgentDid'') \<and>
     is_opt_str (js_get value ''deliverySource'') \<and> is_opt_str (js_get value ''groupId'') \<and>
     is_opt_str (js_get value ''conversationId'') \<and> is_opt_str (js_get value ''replyTo'') \<and>
     js_finite (js_get value ''createdAtMs'') \<noteq> None \<and>
     (case js_integer (js_get value ''attemptCount'') of None \<Rightarrow> False | Some n \<Rightarrow> n \<ge> 0) \<and>
     js_finite (js_get value ''expiresAtMs'') \<noteq> None \<and> js_finite (js_get value ''nextAttemptAtMs'') \<noteq> None"

definition str_opt :: "jsval \<Rightarrow> string option" where
  "str_opt v = (if is_str v then Some (js_str v) else None)"

text \<open>The typed view of a value that passed \<open>isQueuedDelivery\<close>.\<close>
definition queued_of :: "jsval \<Rightarrow> QueuedRelayDelivery" where
  "queued_of v =
     \<lparr>qd_deliveryId = js_str (js_get v ''deliveryId''), qd_requestId = js_str (js_get v ''requestId''),
      qd_senderAgentDid = js_str (js_get v ''senderAgentDid''),
      qd_recipientAgentDid = js_str (js_get v ''recipientAgentDid''), qd_payload = js_get v ''payload'',
      qd_deliverySource = str_opt (js_get v ''deliverySource''), qd_groupId = str_opt (js_get v ''groupId''),
      qd_conversationId = str_opt (js_get v ''conversationId''), qd_replyTo = str_opt (js_get v ''replyTo''),
      qd_createdAtMs = js_num (js_get v ''createdAtMs''), qd_attemptCount = nat \<lfloor>js_num (js_get v ''attemptCount'')\<rfloor>,
      qd_expiresAtMs = js_num (js_get v ''expiresAtMs''), qd_nextAttemptAtMs = js_num (js_get v ''nextAttemptAtMs'')\<rparr>"

definition queued_js :: "QueuedRelayDelivery \<Rightarrow> jsval" where
  "queued_js d = JObj
     [(''deliveryId'', JStr (qd_deliveryId d)), (''requestId'', JStr (qd_requestId d)),
      (''senderAgentDid'', JStr (qd_senderAgentDid d)), (''recipientAgentDid'', JStr (qd_recipientAgentDid d)),
      (''payload'', qd_payload d), (''deliverySource'', js_opt_str (qd_deliverySource d)),
      (''groupId'', js_opt_str (qd_groupId d)), (''conversationId'', js_opt_str (qd_conversationId d)),
      (''replyTo'', js_opt_str (qd_replyTo d)), (''createdAtMs'', JNum (qd_createdAtMs d)),
      (''attemptCount'', JNum (real (qd_attemptCount d))), (''expiresAtMs'', JNum (qd_expiresAtMs d)),
      (''nextAttemptAtMs'', JNum (qd_nextAttemptAtMs d))]"

definition normalize_receipt_entry :: "receipts \<Rightarrow> string \<times> jsval \<Rightarrow> receipts" where
  "normalize_receipt_entry normalized kv =
     (let key = fst kv; receipt = snd kv in
      if \<not> is_object receipt then normalized
      else if js_get receipt ''requestId'' \<noteq> JStr key \<or> \<not> is_str (js_get receipt ''deliveryId'') \<or>
              \<not> is_str (js_get receipt ''senderAgentDid'') \<or> \<not> is_str (js_get receipt ''recipientAgentDid'') \<or>
              js_finite (js_get receipt ''expiresAtMs'') = None \<or> \<not> is_str (js_get receipt ''statusUpdatedAt'')
      then normalized
      else case parse_state (js_get receipt ''state'') of None \<Rightarrow> normalized
      | Some st \<Rightarrow>
          AList.update key
            \<lparr>rc_requestId = key, rc_deliveryId = js_str (js_get receipt ''deliveryId''),
             rc_expiresAtMs = js_num (js_get receipt ''expiresAtMs''),
             rc_senderAgentDid = js_str (js_get receipt ''senderAgentDid''),
             rc_recipientAgentDid = js_str (js_get receipt ''recipientAgentDid''), rc_state = st,
             rc_reason = str_opt (js_get receipt ''reason''),
             rc_statusUpdatedAt = js_str (js_get receipt ''statusUpdatedAt'')\<rparr> normalized)"

definition normalizeReceipts :: "jsval \<Rightarrow> receipts" where
  "normalizeReceipts input =
     (if \<not> is_object input then [] else foldl normalize_receipt_entry [] (js_entries input))"

definition receipt_js :: "RelayDeliveryReceipt \<Rightarrow> jsval" where
  "receipt_js r = JObj
     [(''requestId'', JStr (rc_requestId r)), (''deliveryId'', JStr (rc_deliveryId r)),
      (''expiresAtMs'', JNum (rc_expiresAtMs r)), (''senderAgentDid'', JStr (rc_senderAgentDid r)),
      (''recipientAgentDid'', JStr (rc_recipientAgentDid r)), (''state'', JStr (state_str (rc_state r))),
      (''reason'', js_opt_str (rc_reason r)), (''statusUpdatedAt'', JStr (rc_statusUpdatedAt r))]"

definition deleteQueuedReceipt :: "string \<Rightarrow> string \<Rightarrow> receipts \<Rightarrow> receipts" where
  "deleteQueuedReceipt requestId deliveryId rs =
     (case map_of rs requestId of None \<Rightarrow> rs
      | Some receipt \<Rightarrow>
          if rc_deliveryId receipt \<noteq> deliveryId \<or> rc_state receipt \<noteq> state_queued then rs
          else AList.delete requestId rs)"

definition upsertReceipt :: "RelayDeliveryReceipt \<Rightarrow> receipts \<Rightarrow> receipts" where
  "upsertReceipt receipt rs = AList.update (rc_requestId receipt) receipt rs"

text \<open>The first loop of \<open>pruneExpiredQueueState\<close>: retained deliveries, receipts, mutated.\<close>
fun prune_deliveries :: "ms \<Rightarrow> QueuedRelayDelivery list \<Rightarrow> receipts \<Rightarrow> QueuedRelayDelivery list \<times> receipts \<times> bool" where
  "prune_deliveries nowMs [] rs = ([], rs, False)"
| "prune_deliveries nowMs (d # ds) rs =
     (if qd_expiresAtMs d \<le> nowMs then
        (case prune_deliveries nowMs ds (deleteQueuedReceipt (qd_requestId d) (qd_deliveryId d) rs) of
           (ds', rs', _) \<Rightarrow> (ds', rs', True))
      else (case prune_deliveries nowMs ds rs of (ds', rs', m) \<Rightarrow> (d # ds', rs', m)))"

definition pruneExpiredQueueState :: "RelayQueueState \<Rightarrow> ms \<Rightarrow> RelayQueueState \<times> bool" where
  "pruneExpiredQueueState q nowMs =
     (case prune_deliveries nowMs (qs_deliveries q) (qs_receipts q) of (ds, rs, mutated) \<Rightarrow>
      (\<lparr>qs_deliveries = ds, qs_receipts = alist_prune (\<lambda>_ r. rc_expiresAtMs r \<le> nowMs) rs\<rparr>,
       mutated \<or> length ds \<noteq> length (qs_deliveries q) \<or> (\<exists>(_, r) \<in> set rs. rc_expiresAtMs r \<le> nowMs)))"

fun find_wake :: "ms \<Rightarrow> ms option \<Rightarrow> QueuedRelayDelivery list \<Rightarrow> ms option" where
  "find_wake nowMs earliest [] = earliest"
| "find_wake nowMs earliest (d # ds) =
     (let candidate = max (nowMs + 1) (qd_nextAttemptAtMs d) in
      find_wake nowMs (case earliest of None \<Rightarrow> Some candidate
                       | Some e \<Rightarrow> if candidate < e then Some candidate else earliest) ds)"

definition findNextQueueWakeMs :: "RelayQueueState \<Rightarrow> ms \<Rightarrow> ms option" where
  "findNextQueueWakeMs q nowMs = find_wake nowMs None (qs_deliveries q)"

section \<open>Alarm (scheduler.ts)\<close>

definition RELAY_HEARTBEAT_INTERVAL_MS :: ms where "RELAY_HEARTBEAT_INTERVAL_MS = 30000"

text \<open>The stored queue and the alarm of the durable object.\<close>
record relay_storage =
  rs_queue :: jsval
  rs_alarm :: "ms option"

definition scheduleNextRelayAlarm :: "RelayQueueState \<Rightarrow> ms \<Rightarrow> bool \<Rightarrow> relay_storage \<Rightarrow> relay_storage" where
  "scheduleNextRelayAlarm q nowMs hasActiveSockets st =
     (let candidates = (case findNextQueueWakeMs q nowMs of None \<Rightarrow> [] | Some t \<Rightarrow> [t]) @
                       (if hasActiveSockets then [nowMs + RELAY_HEARTBEAT_INTERVAL_MS] else []) in
      if candidates = [] then st\<lparr>rs_alarm := None\<rparr> else st\<lparr>rs_alarm := Some (Min (set candidates))\<rparr>)"

section \<open>Queue manager (queue-manager.ts)\<close>

definition saveQueueState :: "RelayQueueState \<Rightarrow> relay_storage \<Rightarrow> relay_storage" where
  "saveQueueState q st =
     st\<lparr>rs_queue := JObj [(''deliveries'', JArr (map queued_js (qs_deliveries q))),
                          (''receipts'', JObj (map (\<lambda>(k, r). (k, receipt_js r)) (qs_receipts q)))]\<rparr>"

definition raw_deliveries :: "jsval \<Rightarrow> QueuedRelayDelivery list" where
  "raw_deliveries raw =
     (case js_get raw ''deliveries'' of JArr es \<Rightarrow> map queued_of (filter isQueuedDelivery es) | _ \<Rightarrow> [])"

definition loadQueueState :: "ms \<Rightarrow> relay_storage \<Rightarrow> RelayQueueState \<times> relay_storage" where
  "loadQueueState nowMs st =
     (let raw = (if is_object (rs_queue st) then rs_queue st else JUndefined);
          (q, pruned) = pruneExpiredQueueState
            \<lparr>qs_deliveries = raw_deliveries raw, qs_receipts = normalizeReceipts (js_get raw ''receipts'')\<rparr> nowMs
      in (q, if pruned then saveQueueState q st else st))"

datatype send_outcome = SendAccepted | SendRejected | SendFailed

text \<open>Iteration \<open>i\<close> of the loop sees \<open>inflight i\<close> deliveries in flight, gets \<open>answer i\<close> if it sends, and its \<open>j\<close>-th sample is \<open>rnd i j\<close>.\<close>
record queue_env =
  inflight :: "nat \<Rightarrow> nat"
  answer :: "nat \<Rightarrow> send_outcome"
  rnd :: "nat \<Rightarrow> nat \<Rightarrow> real"

text \<open>The loops that postpone every due delivery from position \<open>j\<close> on.\<close>
fun postpone_due :: "RelayDeliveryPolicy \<Rightarrow> ms \<Rightarrow> (nat \<Rightarrow> real) \<Rightarrow> nat \<Rightarrow> QueuedRelayDelivery list \<Rightarrow> QueuedRelayDelivery list" where
  "postpone_due pol nowMs r j [] = []"
| "postpone_due pol nowMs r j (d # ds) =
     (if qd_nextAttemptAtMs d \<le> nowMs
      then d\<lparr>qd_nextAttemptAtMs := nowMs + computeRetryDelayMs pol (qd_attemptCount d) (r j)\<rparr>
      else d) # postpone_due pol nowMs r (Suc j) ds"

definition delivered_receipt :: "RelayDeliveryPolicy \<Rightarrow> ms \<Rightarrow> QueuedRelayDelivery \<Rightarrow> RelayDeliveryReceipt" where
  "delivered_receipt pol nowMs d =
     \<lparr>rc_requestId = qd_requestId d, rc_deliveryId = qd_deliveryId d, rc_expiresAtMs = nowMs + queueTtlMs pol,
      rc_senderAgentDid = qd_senderAgentDid d, rc_recipientAgentDid = qd_recipientAgentDid d,
      rc_state = state_delivered, rc_reason = None, rc_statusUpdatedAt = toIso nowMs\<rparr>"

fun process_loop ::
  "RelayDeliveryPolicy \<Rightarrow> ms \<Rightarrow> queue_env \<Rightarrow> nat \<Rightarrow> QueuedRelayDelivery list \<Rightarrow> receipts \<Rightarrow> bool \<Rightarrow>
   QueuedRelayDelivery list \<times> receipts \<times> bool" where
  "process_loop pol nowMs env i [] rs mutated = ([], rs, mutated)"
| "process_loop pol nowMs env i (d # ds) rs mutated =
     (if inflight env i \<ge> maxInFlightDeliveries pol then (d # ds, rs, mutated)
      else if qd_expiresAtMs d \<le> nowMs
      then process_loop pol nowMs env (Suc i) ds (deleteQueuedReceipt (qd_requestId d) (qd_deliveryId d) rs) True
      else if qd_attemptCount d \<ge> retryMaxAttempts pol
      then process_loop pol nowMs env (Suc i) ds (deleteQueuedReceipt (qd_requestId d) (qd_deliveryId d) rs) True
      else if qd_nextAttemptAtMs d > nowMs
      then (case process_loop pol nowMs env (Suc i) ds rs mutated of (ds', rs', m) \<Rightarrow> (d # ds', rs', m))
      else if answer env i = SendAccepted
      then process_loop pol nowMs env (Suc i) ds (upsertReceipt (delivered_receipt pol nowMs d) rs) True
      else let nextAttemptCount = qd_attemptCount d + 1 in
        if nextAttemptCount \<ge> retryMaxAttempts pol
        then process_loop pol nowMs env (Suc i) ds (deleteQueuedReceipt (qd_requestId d) (qd_deliveryId d) rs) True
        else let d' = d\<lparr>qd_attemptCount := nextAttemptCount,
                        qd_nextAttemptAtMs := nowMs + computeRetryDelayMs pol nextAttemptCount (rnd env i 0)\<rparr> in
          if answer env i = SendFailed then (d' # postpone_due pol nowMs (rnd env i) 1 ds, rs, True)
          else (case process_loop pol nowMs env (Suc i) ds rs True of (ds', rs', m) \<Rightarrow> (d' # ds', rs', m)))"

definition queue_order :: "QueuedRelayDelivery \<Rightarrow> ms \<times> ms" where
  "queue_order d = (qd_nextAttemptAtMs d, qd_createdAtMs d)"

definition processQueueDeliveries ::
  "RelayDeliveryPolicy \<Rightarrow> ms \<Rightarrow> bool \<Rightarrow> queue_env \<Rightarrow> RelayQueueState \<Rightarrow> RelayQueueState \<times> bool" where
  "processQueueDeliveries pol nowMs hasSocket env q =
     (if qs_deliveries q = [] then (q, False)
      else if \<not> hasSocket then
        (q\<lparr>qs_deliveries := postpone_due pol nowMs (rnd env 0) 0 (qs_deliveries q)\<rparr>,
         \<exists>d \<in> set (qs_deliveries q). qd_nextAttemptAtMs d \<le> nowMs)
      else
        (case process_loop pol nowMs env 0 (sort_key queue_order (qs_deliveries q)) (qs_receipts q) False of
           (ds, rs, mutated) \<Rightarrow> (\<lparr>qs_deliveries = ds, qs_receipts = rs\<rparr>, mutated)))"

definition advance_all :: "ms \<Rightarrow> QueuedRelayDelivery list \<Rightarrow> QueuedRelayDelivery list" where
  "advance_all nowMs ds =
     map (\<lambda>d. if qd_nextAttemptAtMs d > nowMs then d\<lparr>qd_nextAttemptAtMs := nowMs\<rparr> else d) ds"

section \<open>The retry delay\<close>

definition base_delay :: "RelayDeliveryPolicy \<Rightarrow> nat \<Rightarrow> ms" where
  "base_delay pol n = min (retryMaxMs pol) (retryInitialMs pol * 2 ^ (n - 1))"

definition policy_ok :: "RelayDeliveryPolicy \<Rightarrow> bool" where
  "policy_ok pol \<longleftrightarrow> 1 \<le> retryInitialMs pol \<and> 1 \<le> retryMaxMs pol"

lemma base_delay_ge_1: "policy_ok pol \<Longrightarrow> 1 \<le> base_delay pol n"
proof -
  assume ok: "policy_ok pol"
  then have "1 * 1 \<le> retryInitialMs pol * 2 ^ (n - 1)" unfolding policy_ok_def by (intro mult_mono) auto
  then show ?thesis using ok by (simp add: base_delay_def policy_ok_def)
qed

lemma retry_delay_bounds:
  assumes ok: "policy_ok pol" and r: "0 \<le> r"
  shows "1 \<le> computeRetryDelayMs pol n r \<and> computeRetryDelayMs pol n r \<le> retryMaxMs pol \<and>
         base_delay pol n * (1 - max 0 (retryJitterRatio pol)) - 1 < computeRetryDelayMs pol n r"
proof -
  let ?b = "base_delay pol n" and ?j = "retryJitterRatio pol"
  have b: "1 \<le> ?b" "?b \<le> retryMaxMs pol" using base_delay_ge_1 [OF ok] by (auto simp: base_delay_def)
  show ?thesis
  proof (cases "?j \<le> 0")
    case True
    then have "computeRetryDelayMs pol n r = ?b" by (simp add: computeRetryDelayMs_def base_delay_def Let_def)
    then show ?thesis using b True by (simp add: max_def)
  next
    case False
    let ?lo = "max 1 (real_of_int \<lfloor>?b - ?b * ?j\<rfloor>)" and ?hi = "real_of_int \<lceil>?b + ?b * ?j\<rceil>"
    let ?s = "?lo + r * (?hi - ?lo)"
    have d: "computeRetryDelayMs pol n r = min (retryMaxMs pol) (real_of_int \<lfloor>?s\<rfloor>)"
      using False by (simp add: computeRetryDelayMs_def base_delay_def Let_def)
    have pos: "0 < ?b * ?j" using b False by simp
    then have "?b \<le> ?hi" using le_of_int_ceiling [of "?b + ?b * ?j"] by linarith
    moreover have "real_of_int \<lfloor>?b - ?b * ?j\<rfloor> \<le> ?b" using of_int_floor_le [of "?b - ?b * ?j"] pos by linarith
    ultimately have "?lo \<le> ?hi" using b(1) by (intro max.boundedI) linarith+
    then have "?lo \<le> ?s" using r by simp
    moreover have lo: "?lo = real_of_int (max 1 \<lfloor>?b - ?b * ?j\<rfloor>)" by (simp add: of_int_max)
    ultimately have fl: "?lo \<le> real_of_int \<lfloor>?s\<rfloor>" by (metis floor_mono floor_of_int of_int_le_iff)
    have "?b - ?b * ?j - 1 < real_of_int \<lfloor>?b - ?b * ?j\<rfloor>" by linarith
    then have "?b - ?b * ?j - 1 < ?lo" by (rule less_le_trans) (rule max.cobounded2)
    from this fl have "?b - ?b * ?j - 1 < real_of_int \<lfloor>?s\<rfloor>" by (rule less_le_trans)
    moreover have "?b - ?b * ?j - 1 < retryMaxMs pol" using b pos by linarith
    moreover have "1 \<le> real_of_int \<lfloor>?s\<rfloor>" by (rule order_trans [OF max.cobounded1 fl])
    moreover have "1 \<le> retryMaxMs pol" using ok by (simp add: policy_ok_def)
    ultimately show ?thesis using False unfolding d by (auto simp: algebra_simps)
  qed
qed

text \<open>
  The retry delay is at least one millisecond and at most the configured maximum, and is less
  than a millisecond below the exponential base delay reduced by the jitter ratio, for every value
  of the random sample.
\<close>
theorem computeRetryDelayMs_bounds:
  assumes "policy_ok pol" and "0 \<le> random"
  shows "1 \<le> computeRetryDelayMs pol n random \<and> computeRetryDelayMs pol n random \<le> retryMaxMs pol \<and>
         base_delay pol n * (1 - max 0 (retryJitterRatio pol)) - 1 < computeRetryDelayMs pol n random"
  by (rule retry_delay_bounds [OF assms])

definition demo_policy :: RelayDeliveryPolicy where
  "demo_policy = \<lparr>maxFrameBytes = 1000, maxInFlightDeliveries = 2, queueMaxMessagesPerAgent = 2, queueTtlMs = 1000,
     retryInitialMs = 10, retryJitterRatio = 0, retryMaxAttempts = 3, retryMaxMs = 100\<rparr>"

theorem computeRetryDelayMs_bounds_witness:
  "1 \<le> computeRetryDelayMs demo_policy 3 (1 / 2) \<and> computeRetryDelayMs demo_policy 3 (1 / 2) \<le> 100"
  using computeRetryDelayMs_bounds [of demo_policy "1 / 2" 3] by (simp add: policy_ok_def demo_policy_def)

section \<open>One pass over the queue\<close>

text \<open>The same delivery, up to its retry bookkeeping.\<close>
definition same_delivery :: "QueuedRelayDelivery \<Rightarrow> QueuedRelayDelivery \<Rightarrow> bool" where
  "same_delivery d d' \<longleftrightarrow>
     d' = d\<lparr>qd_attemptCount := qd_attemptCount d', qd_nextAttemptAtMs := qd_nextAttemptAtMs d'\<rparr> \<and>
     qd_attemptCount d' \<in> {qd_attemptCount d, qd_attemptCount d + 1}"

lemma same_delivery_refl [simp]: "same_delivery d d"
  by (simp add: same_delivery_def)

lemma same_delivery_upd [simp]:
  "same_delivery d (d\<lparr>qd_nextAttemptAtMs := t\<rparr>)"
  "same_delivery d (d\<lparr>qd_attemptCount := Suc (qd_attemptCount d), qd_nextAttemptAtMs := t\<rparr>)"
  by (simp_all add: same_delivery_def)

lemma list_all2_ex_right: "list_all2 P xs ys \<Longrightarrow> x \<in> set xs \<Longrightarrow> \<exists>y \<in> set ys. P x y"
  by (metis in_set_conv_nth list_all2_conv_all_nth)

lemma list_all2_ex_left: "list_all2 P xs ys \<Longrightarrow> y \<in> set ys \<Longrightarrow> \<exists>x \<in> set xs. P x y"
  by (metis in_set_conv_nth list_all2_conv_all_nth)

lemma postpone_due_same: "list_all2 same_delivery ds (postpone_due pol now r j ds)"
  by (induction ds arbitrary: j) auto

lemma map_of_deleteQueuedReceipt:
  "k \<noteq> j \<Longrightarrow> map_of (deleteQueuedReceipt j x rs) k = map_of rs k"
  by (simp add: deleteQueuedReceipt_def delete_conv' split: option.splits)

lemma map_of_upsertReceipt: "map_of (upsertReceipt r rs) k = (if k = rc_requestId r then Some r else map_of rs k)"
  by (simp add: upsertReceipt_def update_conv')

text \<open>One iteration of the loop: it stops, removes the delivery, keeps it, or postpones the rest.\<close>
lemma process_loop_step:
  fixes pol now env i d ds rs m
  obtains (stop) "process_loop pol now env i (d # ds) rs m = (d # ds, rs, m)"
  | (drop) "process_loop pol now env i (d # ds) rs m =
         process_loop pol now env (Suc i) ds (deleteQueuedReceipt (qd_requestId d) (qd_deliveryId d) rs) True"
      "qd_expiresAtMs d \<le> now \<or> retryMaxAttempts pol \<le> qd_attemptCount d + 1"
  | (sent) "process_loop pol now env i (d # ds) rs m =
         process_loop pol now env (Suc i) ds (upsertReceipt (delivered_receipt pol now d) rs) True"
  | (keep) d' m' where "same_delivery d d'" "process_loop pol now env i (d # ds) rs m =
         (d' # fst (process_loop pol now env (Suc i) ds rs m'), snd (process_loop pol now env (Suc i) ds rs m'))"
  | (fail) d' where "same_delivery d d'"
      "process_loop pol now env i (d # ds) rs m = (d' # postpone_due pol now (rnd env i) 1 ds, rs, True)"
proof -
  let ?d = "d\<lparr>qd_attemptCount := qd_attemptCount d + 1,
      qd_nextAttemptAtMs := now + computeRetryDelayMs pol (qd_attemptCount d + 1) (rnd env i 0)\<rparr>"
  note def = process_loop.simps(2) [of pol now env i d ds rs m]
  consider "inflight env i \<ge> maxInFlightDeliveries pol"
    | "\<not> inflight env i \<ge> maxInFlightDeliveries pol" "qd_expiresAtMs d \<le> now \<or> qd_attemptCount d \<ge> retryMaxAttempts pol"
    | "\<not> inflight env i \<ge> maxInFlightDeliveries pol" "\<not> qd_expiresAtMs d \<le> now" "\<not> qd_attemptCount d \<ge> retryMaxAttempts pol"
      "qd_nextAttemptAtMs d > now"
    | "\<not> inflight env i \<ge> maxInFlightDeliveries pol" "\<not> qd_expiresAtMs d \<le> now" "\<not> qd_attemptCount d \<ge> retryMaxAttempts pol"
      "\<not> qd_nextAttemptAtMs d > now"
    by blast
  then show thesis
  proof cases
    case 1 then show thesis by (intro stop) (simp add: def)
  next
    case 2 then show thesis by (intro drop) (auto simp: def)
  next
    case 3 then show thesis by (intro keep [of d m]) (simp_all add: def case_prod_beta)
  next
    case 4
    note loop = def [unfolded Let_def]
    show thesis
    proof (cases "answer env i = SendAccepted")
      case True then show thesis using 4 by (intro sent) (simp add: loop)
    next
      case False
      show thesis
      proof (cases "qd_attemptCount d + 1 \<ge> retryMaxAttempts pol")
        case True then show thesis using 4 False by (intro drop) (simp_all add: loop)
      next
        case less: False
        show thesis
        proof (cases "answer env i = SendFailed")
          case True then show thesis using 4 less by (intro fail [of ?d]) (simp_all add: loop)
        next
          case no: False
          then show thesis using 4 less False by (intro keep [of ?d True]) (simp_all add: loop case_prod_beta)
        qed
      qed
    qed
  qed
qed

lemma process_loop_frame:
  "k \<notin> qd_requestId ` set ds \<Longrightarrow> map_of (fst (snd (process_loop pol now env i ds rs m))) k = map_of rs k"
proof (induction ds arbitrary: i rs m)
  case (Cons d ds)
  show ?case
    by (rule process_loop_step [of pol now env i d ds rs m])
      (use Cons in \<open>auto simp del: process_loop.simps simp: map_of_deleteQueuedReceipt map_of_upsertReceipt delivered_receipt_def\<close>)
qed simp

text \<open>What can become of a delivery in a pass.\<close>
definition accounted :: "RelayDeliveryPolicy \<Rightarrow> ms \<Rightarrow> QueuedRelayDelivery \<Rightarrow> QueuedRelayDelivery list \<Rightarrow> receipts \<Rightarrow> bool" where
  "accounted pol now d ds rs \<longleftrightarrow>
     (\<exists>d' \<in> set ds. same_delivery d d') \<or> map_of rs (qd_requestId d) = Some (delivered_receipt pol now d) \<or>
     qd_expiresAtMs d \<le> now \<or> retryMaxAttempts pol \<le> qd_attemptCount d + 1"

lemma accounted_Cons: "accounted pol now d ds rs \<Longrightarrow> accounted pol now d (x # ds) rs"
  by (auto simp: accounted_def)

lemma process_loop_accounted:
  assumes "distinct (map qd_requestId ds)" and "d \<in> set ds"
  shows "accounted pol now d (fst (process_loop pol now env i ds rs m)) (fst (snd (process_loop pol now env i ds rs m)))"
  using assms
proof (induction ds arbitrary: i rs m)
  case (Cons x ds)
  have fresh: "qd_requestId x \<notin> qd_requestId ` set ds" using Cons.prems by simp
  have post: "\<exists>d' \<in> set (postpone_due pol now r j ds). same_delivery d d'" if "d \<in> set ds" for r j
    using list_all2_ex_right [OF postpone_due_same that] .
  have ih: "accounted pol now d (fst (process_loop pol now env j ds rs' m')) (fst (snd (process_loop pol now env j ds rs' m')))"
    if "d \<noteq> x" for j rs' m' using that Cons by (intro Cons.IH) auto
  have in_ds: "d \<noteq> x \<Longrightarrow> d \<in> set ds" using Cons.prems by simp
  show ?case
  proof (rule process_loop_step [of pol now env i x ds rs m])
    assume "process_loop pol now env i (x # ds) rs m =
        process_loop pol now env (Suc i) ds (deleteQueuedReceipt (qd_requestId x) (qd_deliveryId x) rs) True"
      "qd_expiresAtMs x \<le> now \<or> retryMaxAttempts pol \<le> qd_attemptCount x + 1"
    then show ?thesis using ih by (cases "d = x") (simp_all add: accounted_def)
  next
    assume "process_loop pol now env i (x # ds) rs m =
        process_loop pol now env (Suc i) ds (upsertReceipt (delivered_receipt pol now x) rs) True"
    then show ?thesis using ih process_loop_frame [OF fresh]
      by (cases "d = x") (simp_all add: accounted_def map_of_upsertReceipt delivered_receipt_def)
  next
    fix d' m' assume "same_delivery x d'" "process_loop pol now env i (x # ds) rs m =
        (d' # fst (process_loop pol now env (Suc i) ds rs m'), snd (process_loop pol now env (Suc i) ds rs m'))"
    then show ?thesis using ih accounted_Cons by (cases "d = x") (auto simp: accounted_def simp del: process_loop.simps)
  next
    fix d' assume "same_delivery x d'"
      "process_loop pol now env i (x # ds) rs m = (d' # postpone_due pol now (rnd env i) 1 ds, rs, True)"
    then show ?thesis using post in_ds by (cases "d = x") (auto simp: accounted_def simp del: process_loop.simps)
  next
    assume "process_loop pol now env i (x # ds) rs m = (x # ds, rs, m)"
    then show ?thesis using Cons.prems(2) unfolding accounted_def by (metis fst_conv same_delivery_refl)
  qed
qed simp

lemma process_loop_source:
  "d' \<in> set (fst (process_loop pol now env i ds rs m)) \<Longrightarrow> \<exists>d \<in> set ds. same_delivery d d'"
proof (induction ds arbitrary: i rs m)
  case (Cons x ds)
  have post: "\<exists>d \<in> set ds. same_delivery d y" if "y \<in> set (postpone_due pol now r j ds)" for r j y
    using list_all2_ex_left [OF postpone_due_same that] .
  show ?case
    by (rule process_loop_step [of pol now env i x ds rs m])
      (use Cons post in \<open>auto simp del: process_loop.simps intro: same_delivery_refl\<close>)
qed simp

lemma process_loop_length: "length (fst (process_loop pol now env i ds rs m)) \<le> length ds"
proof (induction ds arbitrary: i rs m)
  case (Cons x ds)
  have post: "length (postpone_due pol now r j ds) = length ds" for r j
    using postpone_due_same list_all2_lengthD by metis
  have ih: "length (fst (process_loop pol now env j ds rs' m')) \<le> Suc (length ds)" for j rs' m'
    using Cons.IH le_Suc_eq by blast
  show ?case
    by (rule process_loop_step [of pol now env i x ds rs m])
      (use Cons.IH ih post in \<open>simp_all del: process_loop.simps\<close>)
qed simp

lemma processQueueDeliveries_length:
  "length (qs_deliveries (fst (processQueueDeliveries pol now hasSocket env q))) \<le> length (qs_deliveries q)"
  using process_loop_length [of pol now env 0 "sort_key queue_order (qs_deliveries q)" "qs_receipts q" False]
    list_all2_lengthD [OF postpone_due_same, of "qs_deliveries q" pol now "rnd env 0" 0]
  by (auto simp: processQueueDeliveries_def case_prod_beta)


definition demo_delivery :: "string \<Rightarrow> ms \<Rightarrow> QueuedRelayDelivery" where
  "demo_delivery k t =
     \<lparr>qd_deliveryId = ''d'' @ k, qd_requestId = k, qd_senderAgentDid = ''s'', qd_recipientAgentDid = ''r'',
      qd_payload = JNull, qd_deliverySource = None, qd_groupId = None, qd_conversationId = None, qd_replyTo = None,
      qd_createdAtMs = 0, qd_attemptCount = 1, qd_expiresAtMs = 1000, qd_nextAttemptAtMs = t\<rparr>"

definition demo_queue :: RelayQueueState where
  "demo_queue = \<lparr>qs_deliveries = [demo_delivery ''a'' 20, demo_delivery ''b'' 10], qs_receipts = []\<rparr>"

definition demo_env :: queue_env where
  "demo_env = \<lparr>inflight = (\<lambda>_. 0), answer = (\<lambda>i. if i = 0 then SendAccepted else SendRejected), rnd = (\<lambda>_ _. 0)\<rparr>"

lemma demo_pass:
  "processQueueDeliveries demo_policy 20 True demo_env demo_queue =
     (\<lparr>qs_deliveries = [(demo_delivery ''a'' 20)\<lparr>qd_attemptCount := 2, qd_nextAttemptAtMs := 40\<rparr>],
       qs_receipts = [(''b'', delivered_receipt demo_policy 20 (demo_delivery ''b'' 10))]\<rparr>, True)"
  by (simp add: processQueueDeliveries_def demo_queue_def demo_env_def demo_policy_def demo_delivery_def
      queue_order_def computeRetryDelayMs_def Let_def upsertReceipt_def delivered_receipt_def less_eq_prod_def)


section \<open>The alarm\<close>

lemma find_wake_Some:
  "find_wake now e ds = (if ds = [] then e else Some (Min (set_option e \<union> (\<lambda>d. max (now + 1) (qd_nextAttemptAtMs d)) ` set ds)))"
proof (induction ds arbitrary: e)
  case (Cons d ds)
  let ?f = "\<lambda>d. max (now + 1) (qd_nextAttemptAtMs d)"
  have ins: "Min (insert (min a b) S) = Min (insert a (insert b S))" if "finite S" for a b :: real and S
    using that by (cases "S = {}") (simp_all add: min.assoc)
  have one: "find_wake now e (d # ds) = find_wake now (Some (case e of None \<Rightarrow> ?f d | Some x \<Rightarrow> min (?f d) x)) ds"
    by (cases e) (auto simp: Let_def min_def)
  show ?case unfolding one Cons.IH by (cases e) (auto simp: ins)
qed simp

text \<open>
  After every operation the relay sets its alarm so that no work is missed: with no queued
  delivery and no connected socket there is no alarm; otherwise it lies in the future, no later than
  the time any queued delivery is due (or the next millisecond), no later than the next heartbeat if
  a socket is connected, and it is one of those times.
\<close>
theorem relay_alarm_covers_all_work:
  "case rs_alarm (scheduleNextRelayAlarm q now sockets st) of
     None \<Rightarrow> qs_deliveries q = [] \<and> \<not> sockets
   | Some a \<Rightarrow> now < a \<and> (\<forall>d \<in> set (qs_deliveries q). a \<le> max (now + 1) (qd_nextAttemptAtMs d)) \<and>
       (sockets \<longrightarrow> a \<le> now + RELAY_HEARTBEAT_INTERVAL_MS) \<and>
       (sockets \<and> a = now + RELAY_HEARTBEAT_INTERVAL_MS \<or>
        (\<exists>d \<in> set (qs_deliveries q). a = max (now + 1) (qd_nextAttemptAtMs d)))"
proof -
  let ?W = "(\<lambda>d. max (now + 1) (qd_nextAttemptAtMs d)) ` set (qs_deliveries q)"
  let ?C = "?W \<union> (if sockets then {now + RELAY_HEARTBEAT_INTERVAL_MS} else {})"
  have fin: "finite ?C" by simp
  have wake: "findNextQueueWakeMs q now = (if qs_deliveries q = [] then None else Some (Min ?W))"
    by (simp add: findNextQueueWakeMs_def find_wake_Some)
  have al: "rs_alarm (scheduleNextRelayAlarm q now sockets st) = (if ?C = {} then None else Some (Min ?C))"
    by (auto simp: scheduleNextRelayAlarm_def wake Let_def Min_Un min.commute)
  show ?thesis
  proof (cases "?C = {}")
    case True then show ?thesis by (auto simp: al split: if_splits)
  next
    case False
    have pos: "now < c" if "c \<in> ?C" for c using that by (auto simp: RELAY_HEARTBEAT_INTERVAL_MS_def split: if_splits)
    define a where "a = Min ?C"
    have m: "a \<in> ?C" "\<And>c. c \<in> ?C \<Longrightarrow> a \<le> c" using Min_in [OF fin False] Min_le [OF fin] by (simp_all add: a_def)
    have "rs_alarm (scheduleNextRelayAlarm q now sockets st) = Some a" using False by (simp add: al a_def)
    then show ?thesis using pos [OF m(1)] m by (auto split: if_splits)
  qed
qed

definition demo_relay_storage :: relay_storage where
  "demo_relay_storage = \<lparr>rs_queue = JUndefined, rs_alarm = None\<rparr>"

theorem relay_alarm_covers_all_work_witness:
  "\<exists>a. rs_alarm (scheduleNextRelayAlarm demo_queue 5 True demo_relay_storage) = Some a \<and> 5 < a \<and> a \<le> 10"
  using relay_alarm_covers_all_work [where q = demo_queue and now = 5 and sockets = True and st = demo_relay_storage]
  by (simp add: demo_queue_def demo_delivery_def split: option.splits)

section \<open>Saving and loading\<close>

text \<open>Every receipt is filed under its own request id.\<close>
definition receipts_ok :: "receipts \<Rightarrow> bool" where
  "receipts_ok rs \<longleftrightarrow> (\<forall>(k, r) \<in> set rs. rc_requestId r = k) \<and> distinct (map fst rs)"

definition queue_ok :: "RelayQueueState \<Rightarrow> bool" where
  "queue_ok q \<longleftrightarrow> receipts_ok (qs_receipts q)"

lemma receipts_ok_upsert: "receipts_ok rs \<Longrightarrow> receipts_ok (upsertReceipt r rs)"
  using alist_update_good [of rs "\<lambda>k r. rc_requestId r = k" "upsertReceipt r rs"]
  by (auto simp: receipts_ok_def upsertReceipt_def)

lemma receipts_ok_delete: "receipts_ok rs \<Longrightarrow> receipts_ok (deleteQueuedReceipt i j rs)"
  by (auto simp: receipts_ok_def deleteQueuedReceipt_def AList.delete_eq distinct_map inj_on_def split: option.splits)

lemma receipts_ok_alist_prune: "receipts_ok rs \<Longrightarrow> receipts_ok (alist_prune dead rs)"
  by (auto simp: receipts_ok_def set_alist_prune)

lemmas receipts_ok_intros = receipts_ok_upsert receipts_ok_delete receipts_ok_alist_prune

lemma str_opt_js_opt_str [simp]: "str_opt (js_opt_str x) = x" "is_opt_str (js_opt_str x)" "str_opt (JStr a) = Some a"
  by (cases x; simp add: str_opt_def is_opt_str_def)+

lemma parse_state_str [simp]: "parse_state (JStr (state_str s)) = Some s"
  by (cases s) (simp_all add: parse_state_def)

lemma queued_round_trip [simp]: "isQueuedDelivery (queued_js d)" "queued_of (queued_js d) = d"
  by (simp_all add: isQueuedDelivery_def queued_js_def queued_of_def js_is_integer_def)

lemma raw_deliveries_saved [simp]: "raw_deliveries (JObj ((''deliveries'', JArr (map queued_js ds)) # fs)) = ds"
  by (simp add: raw_deliveries_def filter_map o_def)

lemma normalize_receipt_entry_ok:
  "rc_requestId r = k \<Longrightarrow> normalize_receipt_entry acc (k, receipt_js r) = AList.update k r acc"
  by (cases r) (auto simp: normalize_receipt_entry_def receipt_js_def Let_def)

lemma normalizeReceipts_saved:
  assumes "receipts_ok rs"
  shows "normalizeReceipts (JObj (map (\<lambda>(k, r). (k, receipt_js r)) rs)) = rs"
proof -
  have "foldl normalize_receipt_entry [] (map (\<lambda>(k, r). (k, receipt_js r)) rs) = [] @ rs"
    using assms by (intro foldl_alist_update_fresh) (auto simp: receipts_ok_def intro: normalize_receipt_entry_ok)
  then show ?thesis by (simp add: normalizeReceipts_def)
qed

lemma prune_deliveries_spec:
  "fst (prune_deliveries now ds rs) = filter (\<lambda>d. now < qd_expiresAtMs d) ds"
  "snd (snd (prune_deliveries now ds rs)) \<longleftrightarrow> (\<exists>d \<in> set ds. qd_expiresAtMs d \<le> now)"
  by (induction now ds rs rule: prune_deliveries.induct) (auto simp: case_prod_beta)

lemma prune_deliveries_receipts:
  "\<not> snd (snd (prune_deliveries now ds rs)) \<Longrightarrow> fst (snd (prune_deliveries now ds rs)) = rs"
  "receipts_ok rs \<Longrightarrow> receipts_ok (fst (snd (prune_deliveries now ds rs)))"
  by (induction now ds rs rule: prune_deliveries.induct) (auto simp: case_prod_beta receipts_ok_intros)

lemma prune_unchanged: "\<not> snd (pruneExpiredQueueState q now) \<Longrightarrow> fst (pruneExpiredQueueState q now) = q"
  using prune_deliveries_spec [of now "qs_deliveries q" "qs_receipts q"]
    prune_deliveries_receipts(1) [of now "qs_deliveries q" "qs_receipts q"]
  by (intro RelayQueueState.equality)
    (auto simp: pruneExpiredQueueState_def alist_prune_def case_prod_beta not_le intro!: filter_True)

lemma prune_live:
  "fst (pruneExpiredQueueState q now) = q' \<Longrightarrow>
   qs_deliveries q' = filter (\<lambda>d. now < qd_expiresAtMs d) (qs_deliveries q) \<and>
   (\<forall>(k, r) \<in> set (qs_receipts q'). now < rc_expiresAtMs r) \<and> (queue_ok q \<longrightarrow> queue_ok q')"
  using prune_deliveries_spec [of now "qs_deliveries q" "qs_receipts q"]
    prune_deliveries_receipts(2) [of "qs_receipts q" now "qs_deliveries q"]
  by (auto simp: pruneExpiredQueueState_def case_prod_beta queue_ok_def set_alist_prune receipts_ok_alist_prune)

text \<open>
  Storing a queue and loading it later gives exactly the queue with everything expired removed,
  and leaves that in storage: what is loaded is again well formed, holds the unexpired deliveries in
  order with every field, and only unexpired receipts.
\<close>
theorem stored_queue_reloads:
  assumes "queue_ok q" and "loadQueueState now (saveQueueState q st) = (q', st')"
  shows "q' = fst (pruneExpiredQueueState q now) \<and> st' = saveQueueState q' st \<and> queue_ok q' \<and>
         qs_deliveries q' = filter (\<lambda>d. now < qd_expiresAtMs d) (qs_deliveries q) \<and>
         (\<forall>(k, r) \<in> set (qs_receipts q'). now < rc_expiresAtMs r)"
proof -
  have "loadQueueState now (saveQueueState q st) =
      (fst (pruneExpiredQueueState q now), saveQueueState (fst (pruneExpiredQueueState q now)) st)"
    using assms(1) prune_unchanged [of q now]
    by (cases q) (auto simp: loadQueueState_def saveQueueState_def queue_ok_def normalizeReceipts_saved Let_def case_prod_beta)
  then have "q' = fst (pruneExpiredQueueState q now)" "st' = saveQueueState q' st" using assms(2) by auto
  then show ?thesis using prune_live [of q now q'] assms(1) by simp
qed

theorem stored_queue_reloads_witness:
  "\<exists>st'. loadQueueState 500 (saveQueueState demo_queue demo_relay_storage) = (demo_queue, st')"
proof -
  obtain q' st' where l: "loadQueueState 500 (saveQueueState demo_queue demo_relay_storage) = (q', st')" by fastforce
  have "queue_ok demo_queue" by (simp add: queue_ok_def receipts_ok_def demo_queue_def)
  from stored_queue_reloads [OF this l] have "q' = demo_queue"
    by (simp add: pruneExpiredQueueState_def demo_queue_def demo_delivery_def alist_prune_def)
  then show ?thesis using l by blast
qed

end
