(* ===== verification/Relay_Sockets.thy ===== *)
theory Relay_Sockets
  imports Relay_Queue
begin

text \<open>
  The connector sockets of a relay session and the deliveries in flight on them:
  \<open>apps/proxy/src/agent-relay-session/socket-tracker.ts\<close>, \<open>delivery.ts\<close>, \<open>pending-deliveries.ts\<close> and the frame
  constructors of \<open>frames.ts\<close>.

  A socket is known by its identity only. The calls made on sockets are kept in a log; whether a
  \<open>send\<close> throws is an argument. \<open>serializeFrame\<close> belongs to the connector package: its byte length, or that
  it throws, is an argument where the code depends on it. A promise of \<open>sendDeliverFrame\<close> that is settled
  is an entry of the log \<open>settled\<close>.

  Shown here: a socket that missed its heartbeats is closed and not used again before the platform
  has dropped it, and every delivery in flight is settled exactly once, with never more than the
  configured number in flight.
\<close>

section \<open>Frames (frames.ts)\<close>

type_synonym socket = nat

datatype ReceiptStatus = receipt_delivered_to_webhook | receipt_dead_lettered

record EnqueueFrame =
  ef_id :: string
  ef_toAgentDid :: string
  ef_payload :: jsval
  ef_groupId :: "string option"
  ef_conversationId :: "string option"
  ef_replyTo :: "string option"

record DeliverFrame =
  df_id :: string
  df_ts :: string
  df_fromAgentDid :: string
  df_toAgentDid :: string
  df_payload :: jsval
  df_deliverySource :: "string option"
  df_groupId :: "string option"
  df_conversationId :: "string option"
  df_replyTo :: "string option"

text \<open>The frame kinds, with the fields the relay reads or sets.\<close>
datatype ConnectorFrame =
    Heartbeat (frame_id: string) (frame_ts: string)
  | HeartbeatAck (frame_id: string) (frame_ts: string) (frame_ackId: string)
  | Deliver DeliverFrame
  | DeliverAck (frame_ackId: string) (frame_accepted: bool)
  | Enqueue EnqueueFrame
  | EnqueueAck (frame_id: string) (frame_ts: string) (frame_ackId: string) (frame_accepted: bool) (frame_reason: "string option")
  | Receipt (frame_id: string) (frame_ts: string) (frame_originalFrameId: string) (frame_toAgentDid: string)
      (frame_status: ReceiptStatus) (frame_reason: "string option")

text \<open>The id is what \<open>generateUlid\<close> returned.\<close>
definition toHeartbeatFrame :: "string \<Rightarrow> ms \<Rightarrow> ConnectorFrame" where
  "toHeartbeatFrame uid nowMs = Heartbeat uid (toIso nowMs)"

definition toHeartbeatAckFrame :: "string \<Rightarrow> ms \<Rightarrow> string \<Rightarrow> ConnectorFrame" where
  "toHeartbeatAckFrame uid nowMs ackId = HeartbeatAck uid (toIso nowMs) ackId"

definition toDeliverFrame :: "string \<Rightarrow> ms \<Rightarrow> RelayDeliveryInput \<Rightarrow> DeliverFrame" where
  "toDeliverFrame uid nowMs input =
     \<lparr>df_id = uid, df_ts = toIso nowMs, df_fromAgentDid = in_senderAgentDid input,
      df_toAgentDid = in_recipientAgentDid input, df_payload = in_payload input,
      df_deliverySource = in_deliverySource input, df_groupId = in_groupId input,
      df_conversationId = in_conversationId input, df_replyTo = in_replyTo input\<rparr>"

definition toEnqueueAckFrame :: "string \<Rightarrow> ms \<Rightarrow> string \<Rightarrow> bool \<Rightarrow> string option \<Rightarrow> ConnectorFrame" where
  "toEnqueueAckFrame uid nowMs ackId accepted reason = EnqueueAck uid (toIso nowMs) ackId accepted reason"

definition toReceiptFramePayload :: "string \<Rightarrow> ms \<Rightarrow> string \<Rightarrow> string \<Rightarrow> ReceiptStatus \<Rightarrow> string option \<Rightarrow> ConnectorFrame" where
  "toReceiptFramePayload uid nowMs originalFrameId toAgentDid status reason =
     Receipt uid (toIso nowMs) originalFrameId toAgentDid status reason"

definition RELAY_DELIVERY_SOURCE_AGENT_ENQUEUE :: string where
  "RELAY_DELIVERY_SOURCE_AGENT_ENQUEUE = ''agent.enqueue''"

definition toRelayDeliveryInputFromEnqueueFrame :: "EnqueueFrame \<Rightarrow> string \<Rightarrow> RelayDeliveryInput" where
  "toRelayDeliveryInputFromEnqueueFrame frame senderAgentDid =
     \<lparr>in_requestId = ef_id frame, in_senderAgentDid = senderAgentDid, in_recipientAgentDid = ef_toAgentDid frame,
      in_payload = ef_payload frame, in_deliverySource = Some RELAY_DELIVERY_SOURCE_AGENT_ENQUEUE,
      in_groupId = ef_groupId frame, in_conversationId = ef_conversationId frame, in_replyTo = ef_replyTo frame\<rparr>"

section \<open>Socket tracker (socket-tracker.ts)\<close>

datatype socket_call = Sent socket ConnectorFrame | Closed socket nat string

record tracker =
  heartbeatAckSockets :: "(string \<times> socket) list"
  socketLastAckAtMs :: "(socket \<times> ms) list"
  socketsPendingClose :: "socket list"
  socket_calls :: "socket_call list"

definition RELAY_HEARTBEAT_ACK_TIMEOUT_MS :: ms where "RELAY_HEARTBEAT_ACK_TIMEOUT_MS = 60000"
definition RELAY_SOCKET_STALE_CLOSE_CODE :: nat where "RELAY_SOCKET_STALE_CLOSE_CODE = 1011"
definition RELAY_SOCKET_SUPERSEDED_CLOSE_CODE :: nat where "RELAY_SOCKET_SUPERSEDED_CLOSE_CODE = 1000"

definition log_call :: "socket_call \<Rightarrow> tracker \<Rightarrow> tracker" where
  "log_call c t = t\<lparr>socket_calls := socket_calls t @ [c]\<rparr>"

definition clearSocketHeartbeatAcks :: "socket \<Rightarrow> tracker \<Rightarrow> tracker" where
  "clearSocketHeartbeatAcks s t =
     t\<lparr>heartbeatAckSockets := filter (\<lambda>(_, s'). s' \<noteq> s) (heartbeatAckSockets t)\<rparr>"

definition removeSocketTracking :: "socket \<Rightarrow> tracker \<Rightarrow> tracker" where
  "removeSocketTracking s t =
     clearSocketHeartbeatAcks s (t\<lparr>socketLastAckAtMs := AList.delete s (socketLastAckAtMs t)\<rparr>)"

definition closeSocket :: "socket \<Rightarrow> nat \<Rightarrow> string \<Rightarrow> tracker \<Rightarrow> tracker" where
  "closeSocket s code reason t =
     log_call (Closed s code reason)
       (removeSocketTracking s (t\<lparr>socketsPendingClose := js_set_add (socketsPendingClose t) s\<rparr>))"

definition onSocketClosed :: "socket \<Rightarrow> tracker \<Rightarrow> tracker" where
  "onSocketClosed s t =
     (let t = removeSocketTracking s t in t\<lparr>socketsPendingClose := filter (\<lambda>x. x \<noteq> s) (socketsPendingClose t)\<rparr>)"

definition resolveSocketLastAckAtMs :: "socket \<Rightarrow> ms \<Rightarrow> tracker \<Rightarrow> ms \<times> tracker" where
  "resolveSocketLastAckAtMs s nowMs t =
     (case map_of (socketLastAckAtMs t) s of
        Some existing \<Rightarrow> (existing, t)
      | None \<Rightarrow> (nowMs, t\<lparr>socketLastAckAtMs := AList.update s nowMs (socketLastAckAtMs t)\<rparr>))"

definition pruneSocketTracking :: "socket list \<Rightarrow> tracker \<Rightarrow> tracker" where
  "pruneSocketTracking ss t =
     t\<lparr>socketLastAckAtMs := filter (\<lambda>(s, _). s \<in> set ss) (socketLastAckAtMs t),
       socketsPendingClose := filter (\<lambda>s. s \<in> set ss) (socketsPendingClose t),
       heartbeatAckSockets := filter (\<lambda>(_, s). s \<in> set ss) (heartbeatAckSockets t)\<rparr>"

fun active_loop :: "ms \<Rightarrow> socket list \<Rightarrow> tracker \<Rightarrow> socket list \<times> tracker" where
  "active_loop nowMs [] t = ([], t)"
| "active_loop nowMs (s # ss) t =
     (if s \<in> set (socketsPendingClose t) then active_loop nowMs ss t
      else let (lastAckAtMs, t) = resolveSocketLastAckAtMs s nowMs t in
        if nowMs - lastAckAtMs > RELAY_HEARTBEAT_ACK_TIMEOUT_MS
        then active_loop nowMs ss (closeSocket s RELAY_SOCKET_STALE_CLOSE_CODE ''heartbeat_ack_timeout'' t)
        else let (activeSockets, t) = active_loop nowMs ss t in (s # activeSockets, t))"

definition getActiveSockets :: "socket list \<Rightarrow> ms \<Rightarrow> tracker \<Rightarrow> socket list \<times> tracker" where
  "getActiveSockets ss nowMs t = active_loop nowMs ss (pruneSocketTracking ss t)"

definition touchSocketAck :: "socket \<Rightarrow> ms \<Rightarrow> tracker \<Rightarrow> tracker" where
  "touchSocketAck s nowMs t =
     (if s \<in> set (socketsPendingClose t) then t
      else t\<lparr>socketLastAckAtMs := AList.update s nowMs (socketLastAckAtMs t)\<rparr>)"

text \<open>\<open>sends s\<close>: the socket's \<open>send\<close> does not throw.\<close>
definition sendHeartbeatFrame :: "(socket \<Rightarrow> bool) \<Rightarrow> string \<Rightarrow> socket \<Rightarrow> ms \<Rightarrow> tracker \<Rightarrow> tracker" where
  "sendHeartbeatFrame sends uid s nowMs t =
     (let t = clearSocketHeartbeatAcks s t;
          t = t\<lparr>heartbeatAckSockets := AList.update uid s (heartbeatAckSockets t)\<rparr> in
      if sends s then log_call (Sent s (toHeartbeatFrame uid nowMs)) t
      else closeSocket s RELAY_SOCKET_STALE_CLOSE_CODE ''heartbeat_send_failed''
             (t\<lparr>heartbeatAckSockets := AList.delete uid (heartbeatAckSockets t)\<rparr>))"

definition handleHeartbeatAck :: "string \<Rightarrow> socket \<Rightarrow> ms \<Rightarrow> tracker \<Rightarrow> tracker" where
  "handleHeartbeatAck ackId fallbackSocket nowMs t =
     (let ackedSocket = map_of (heartbeatAckSockets t) ackId;
          t = t\<lparr>heartbeatAckSockets := AList.delete ackId (heartbeatAckSockets t)\<rparr>
      in touchSocketAck (case ackedSocket of Some s \<Rightarrow> s | None \<Rightarrow> fallbackSocket) nowMs t)"

section \<open>Deliveries in flight (delivery.ts, pending-deliveries.ts)\<close>

record transport =
  pendingDeliveries :: "string list"
  settled :: "(string \<times> send_outcome) list"

definition getPendingCount :: "transport \<Rightarrow> nat" where
  "getPendingCount tr = length (pendingDeliveries tr)"

text \<open>Deletes the pending entry of an id and settles its promise.\<close>
definition settle :: "string \<Rightarrow> send_outcome \<Rightarrow> transport \<Rightarrow> transport" where
  "settle i out tr = tr\<lparr>pendingDeliveries := filter (\<lambda>j. j \<noteq> i) (pendingDeliveries tr), settled := settled tr @ [(i, out)]\<rparr>"

fun rejectPendingDeliveries :: "string list \<Rightarrow> transport \<Rightarrow> transport" where
  "rejectPendingDeliveries [] tr = tr"
| "rejectPendingDeliveries (i # is) tr = rejectPendingDeliveries is (settle i SendFailed tr)"

definition rejectPending :: "transport \<Rightarrow> transport" where
  "rejectPending tr = rejectPendingDeliveries (pendingDeliveries tr) tr"

definition resolveDeliverAck :: "string \<Rightarrow> bool \<Rightarrow> transport \<Rightarrow> transport" where
  "resolveDeliverAck ackId accepted tr =
     (if ackId \<notin> set (pendingDeliveries tr) then tr
      else settle ackId (if accepted then SendAccepted else SendRejected) tr)"

text \<open>The timer of a pending delivery fires; it was cleared when the delivery was settled.\<close>
definition deliver_timeout :: "string \<Rightarrow> transport \<Rightarrow> transport" where
  "deliver_timeout i tr = (if i \<notin> set (pendingDeliveries tr) then tr else settle i SendFailed tr)"

text \<open>
  \<open>sendDeliverFrame\<close>: \<open>bytes\<close> is the length of the serialised frame (\<open>None\<close>: \<open>serializeFrame\<close> throws). The first
  component tells whether a promise was created; otherwise the call has thrown.
\<close>
definition sendDeliverFrame ::
  "RelayDeliveryPolicy \<Rightarrow> (socket \<Rightarrow> bool) \<Rightarrow> (DeliverFrame \<Rightarrow> nat option) \<Rightarrow> string \<Rightarrow> ms \<Rightarrow> socket \<Rightarrow> RelayDeliveryInput \<Rightarrow>
   transport \<Rightarrow> tracker \<Rightarrow> bool \<times> transport \<times> tracker" where
  "sendDeliverFrame pol sends bytes uid nowMs s input tr t =
     (if length (pendingDeliveries tr) \<ge> maxInFlightDeliveries pol then (False, tr, t)
      else let frame = toDeliverFrame uid nowMs input in
        case bytes frame of None \<Rightarrow> (False, tr, t)
        | Some frameBytes \<Rightarrow>
            if frameBytes > maxFrameBytes pol then (False, tr, t)
            else let tr = tr\<lparr>pendingDeliveries := js_set_add (pendingDeliveries tr) (df_id frame)\<rparr> in
              if sends s then (True, tr, log_call (Sent s (Deliver frame)) t)
              else (True, settle (df_id frame) SendFailed tr, t))"

section \<open>Which sockets are used\<close>

definition usable :: "tracker \<Rightarrow> ms \<Rightarrow> socket \<Rightarrow> bool" where
  "usable t nowMs s \<longleftrightarrow> s \<notin> set (socketsPendingClose t) \<and>
     (case map_of (socketLastAckAtMs t) s of None \<Rightarrow> True | Some a \<Rightarrow> nowMs - a \<le> RELAY_HEARTBEAT_ACK_TIMEOUT_MS)"

lemmas tracker_defs = log_call_def clearSocketHeartbeatAcks_def removeSocketTracking_def closeSocket_def
  onSocketClosed_def pruneSocketTracking_def touchSocketAck_def sendHeartbeatFrame_def handleHeartbeatAck_def
  resolveSocketLastAckAtMs_def js_set_add_def Let_def

lemma usable_close: "\<not> usable t now s \<Longrightarrow> usable (closeSocket s c r t) now x = usable t now x"
  by (auto simp: usable_def tracker_defs delete_conv' split: option.splits)

lemma usable_resolve: "usable (snd (resolveSocketLastAckAtMs s now t)) now x = usable t now x"
  by (auto simp: usable_def tracker_defs update_conv' RELAY_HEARTBEAT_ACK_TIMEOUT_MS_def split: option.splits)

lemma usable_prune: "s \<in> set ss \<Longrightarrow> usable (pruneSocketTracking ss t) now s = usable t now s"
proof -
  assume "s \<in> set ss"
  then have "map_of (filter (\<lambda>(s, _). s \<in> set ss) m) s = map_of m s" for m :: "(socket \<times> ms) list"
    by (induction m) auto
  then show ?thesis using \<open>s \<in> set ss\<close> by (simp add: usable_def pruneSocketTracking_def)
qed

text \<open>One step of the loop over the listed sockets.\<close>
lemma active_loop_Cons:
  "active_loop now (s # ss) t =
     (if usable t now s then
        (s # fst (active_loop now ss (snd (resolveSocketLastAckAtMs s now t))),
         snd (active_loop now ss (snd (resolveSocketLastAckAtMs s now t))))
      else if s \<in> set (socketsPendingClose t) then active_loop now ss t
      else active_loop now ss (closeSocket s RELAY_SOCKET_STALE_CLOSE_CODE ''heartbeat_ack_timeout'' t))"
  by (auto simp: usable_def resolveSocketLastAckAtMs_def RELAY_HEARTBEAT_ACK_TIMEOUT_MS_def Let_def case_prod_beta
      split: option.splits)

lemma active_loop_spec:
  "fst (active_loop now ss t) = filter (usable t now) ss \<and>
   set (socketsPendingClose (snd (active_loop now ss t))) = set (socketsPendingClose t) \<union> {s \<in> set ss. \<not> usable t now s}"
proof (induction ss arbitrary: t)
  case (Cons s ss)
  have pend: "socketsPendingClose (snd (resolveSocketLastAckAtMs s now t)) = socketsPendingClose t"
    by (simp add: resolveSocketLastAckAtMs_def split: option.splits)
  have close: "set (socketsPendingClose (closeSocket s c r t)) = insert s (set (socketsPendingClose t))" for c r
    by (auto simp: tracker_defs)
  consider "usable t now s" | "\<not> usable t now s" "s \<in> set (socketsPendingClose t)" | "\<not> usable t now s" "s \<notin> set (socketsPendingClose t)"
    by blast
  then show ?case
    by cases (use Cons.IH in \<open>auto simp: active_loop_Cons usable_resolve usable_close pend close simp del: active_loop.simps\<close>)
qed simp

lemma getActiveSockets_spec:
  "fst (getActiveSockets ss now t) = filter (usable t now) ss \<and>
   set (socketsPendingClose (snd (getActiveSockets ss now t))) = {s \<in> set ss. s \<in> set (socketsPendingClose t) \<or> \<not> usable t now s}"
proof -
  have "filter (usable (pruneSocketTracking ss t) now) ss = filter (usable t now) ss"
    by (rule filter_cong) (simp_all add: usable_prune)
  moreover have "{s \<in> set ss. \<not> usable (pruneSocketTracking ss t) now s} = {s \<in> set ss. \<not> usable t now s}"
    by (auto simp: usable_prune)
  ultimately show ?thesis using active_loop_spec [of now ss "pruneSocketTracking ss t"]
    by (auto simp: getActiveSockets_def pruneSocketTracking_def)
qed

datatype tracker_event =
    ListSockets "socket list" ms
  | Touch socket ms
  | SendHeartbeat "socket \<Rightarrow> bool" string socket ms
  | AckHeartbeat string socket ms
  | CloseEvent socket nat string
  | ClosedEvent socket

fun tracker_step :: "tracker_event \<Rightarrow> tracker \<Rightarrow> tracker" where
  "tracker_step (ListSockets ss now) t = snd (getActiveSockets ss now t)"
| "tracker_step (Touch s now) t = touchSocketAck s now t"
| "tracker_step (SendHeartbeat sends uid s now) t = sendHeartbeatFrame sends uid s now t"
| "tracker_step (AckHeartbeat i s now) t = handleHeartbeatAck i s now t"
| "tracker_step (CloseEvent s c r) t = closeSocket s c r t"
| "tracker_step (ClosedEvent s) t = onSocketClosed s t"

text \<open>The platform still lists the socket and has not reported it closed.\<close>
fun still_listed :: "socket \<Rightarrow> tracker_event \<Rightarrow> bool" where
  "still_listed s (ListSockets ss _) = (s \<in> set ss)"
| "still_listed s (ClosedEvent s') = (s' \<noteq> s)"
| "still_listed s _ = True"

lemma pending_close_step:
  "still_listed s e \<Longrightarrow> s \<in> set (socketsPendingClose t) \<Longrightarrow> s \<in> set (socketsPendingClose (tracker_step e t))"
  using getActiveSockets_spec [of _ _ t] by (cases e) (auto simp: tracker_defs split: option.splits)

lemma pending_close_run:
  "list_all (still_listed s) es \<Longrightarrow> s \<in> set (socketsPendingClose t) \<Longrightarrow> s \<in> set (socketsPendingClose (fold tracker_step es t))"
  by (induction es arbitrary: t) (auto simp: pending_close_step)

text \<open>
  The relay uses exactly the listed sockets that are not being closed and whose last sign of
  life is at most the heartbeat timeout ago; a socket once left out is not used again by any later
  listing, whatever happens on it in between, as long as the platform still lists it.
\<close>
theorem stale_socket_never_used_again:
  assumes "s \<in> set ss" and "\<not> usable t now s" and "list_all (still_listed s) es"
  shows "fst (getActiveSockets ss now t) = filter (usable t now) ss \<and>
         s \<notin> set (fst (getActiveSockets ss' now' (fold tracker_step es (snd (getActiveSockets ss now t)))))"
proof -
  have "s \<in> set (socketsPendingClose (snd (getActiveSockets ss now t)))"
    using getActiveSockets_spec [of ss now t] assms(1,2) by simp
  from pending_close_run [OF assms(3) this] show ?thesis
    using getActiveSockets_spec [of ss now t] getActiveSockets_spec [of ss' now'] by (simp add: usable_def)
qed

definition demo_tracker :: tracker where
  "demo_tracker = \<lparr>heartbeatAckSockets = [], socketLastAckAtMs = [(1, 0), (2, 50000)], socketsPendingClose = [], socket_calls = []\<rparr>"

theorem stale_socket_never_used_again_witness:
  "fst (getActiveSockets [1, 2] 70000 demo_tracker) = [2] \<and>
   1 \<notin> set (fst (getActiveSockets [1, 2] 70001
     (fold tracker_step [Touch 1 70000, AckHeartbeat ''x'' 1 70000] (snd (getActiveSockets [1, 2] 70000 demo_tracker)))))"
  using stale_socket_never_used_again [of 1 "[1, 2]" demo_tracker 70000 "[Touch 1 70000, AckHeartbeat ''x'' 1 70000]" "[1, 2]" 70001]
  by (simp add: usable_def demo_tracker_def RELAY_HEARTBEAT_ACK_TIMEOUT_MS_def)

section \<open>Deliveries in flight\<close>

datatype transport_event =
    SendEvent "socket \<Rightarrow> bool" "DeliverFrame \<Rightarrow> nat option" string ms socket RelayDeliveryInput
  | AckEvent string bool
  | TimeoutEvent string
  | RejectAll

fun transport_step :: "RelayDeliveryPolicy \<Rightarrow> transport_event \<Rightarrow> transport \<times> tracker \<Rightarrow> transport \<times> tracker" where
  "transport_step pol (SendEvent sends bytes uid now s input) (tr, t) = snd (sendDeliverFrame pol sends bytes uid now s input tr t)"
| "transport_step pol (AckEvent i b) (tr, t) = (resolveDeliverAck i b tr, t)"
| "transport_step pol (TimeoutEvent i) (tr, t) = (deliver_timeout i tr, t)"
| "transport_step pol RejectAll (tr, t) = (rejectPending tr, t)"

fun event_uids :: "transport_event \<Rightarrow> string list" where
  "event_uids (SendEvent _ _ uid _ _ _) = [uid]"
| "event_uids _ = []"

definition transport_ok :: "RelayDeliveryPolicy \<Rightarrow> transport \<Rightarrow> bool" where
  "transport_ok pol tr \<longleftrightarrow> distinct (pendingDeliveries tr @ map fst (settled tr)) \<and>
     length (pendingDeliveries tr) \<le> maxInFlightDeliveries pol"

definition delivery_ids :: "transport \<Rightarrow> string set" where
  "delivery_ids tr = set (pendingDeliveries tr) \<union> fst ` set (settled tr)"

definition empty_transport :: transport where
  "empty_transport = \<lparr>pendingDeliveries = [], settled = []\<rparr>"

lemma settle_ok:
  "transport_ok pol tr \<Longrightarrow> i \<in> set (pendingDeliveries tr) \<Longrightarrow>
   transport_ok pol (settle i x tr) \<and> delivery_ids (settle i x tr) = delivery_ids tr"
  by (auto simp: transport_ok_def settle_def delivery_ids_def intro: order_trans [OF length_filter_le])

lemma reject_ok:
  "transport_ok pol tr \<Longrightarrow> set is \<subseteq> set (pendingDeliveries tr) \<Longrightarrow> distinct is \<Longrightarrow>
   transport_ok pol (rejectPendingDeliveries is tr) \<and> delivery_ids (rejectPendingDeliveries is tr) = delivery_ids tr \<and>
   set (pendingDeliveries (rejectPendingDeliveries is tr)) = set (pendingDeliveries tr) - set is"
proof (induction "is" arbitrary: tr)
  case (Cons i "is")
  note s = settle_ok [OF Cons.prems(1), of i SendFailed]
  have "set is \<subseteq> set (pendingDeliveries (settle i SendFailed tr))" using Cons.prems by (auto simp: settle_def)
  then show ?case using Cons.IH [of "settle i SendFailed tr"] s Cons.prems by (auto simp: settle_def)
qed simp

lemma transport_step_ok:
  assumes "transport_ok pol (fst c)" and "delivery_ids (fst c) \<inter> set (event_uids e) = {}"
  shows "transport_ok pol (fst (transport_step pol e c)) \<and>
         delivery_ids (fst (transport_step pol e c)) \<subseteq> delivery_ids (fst c) \<union> set (event_uids e) \<and>
         delivery_ids (fst c) \<subseteq> delivery_ids (fst (transport_step pol e c))"
proof (cases e)
  case (SendEvent sends bytes uid now s input)
  obtain tr t where c: "c = (tr, t)" by force
  let ?tr = "tr\<lparr>pendingDeliveries := js_set_add (pendingDeliveries tr) uid\<rparr>"
  have add: "transport_ok pol ?tr \<and> delivery_ids ?tr = insert uid (delivery_ids tr) \<and> uid \<in> set (pendingDeliveries ?tr)"
    if "length (pendingDeliveries tr) < maxInFlightDeliveries pol"
    using assms that unfolding SendEvent c by (auto simp: transport_ok_def delivery_ids_def js_set_add_def)
  then show ?thesis using assms(1) settle_ok [of pol ?tr uid SendFailed]
    unfolding SendEvent c by (auto simp: sendDeliverFrame_def toDeliverFrame_def Let_def split: option.splits)
next
  case RejectAll
  then show ?thesis using assms(1) reject_ok [of pol "fst c" "pendingDeliveries (fst c)"]
    by (cases c) (simp add: rejectPending_def transport_ok_def)
qed (use assms(1) settle_ok [of pol "fst c"] in \<open>cases c; simp add: resolveDeliverAck_def deliver_timeout_def\<close>)+

definition sent_deliveries :: "tracker \<Rightarrow> string set" where
  "sent_deliveries t = {df_id f | s f. Sent s (Deliver f) \<in> set (socket_calls t)}"

lemma transport_step_sent:
  "sent_deliveries (snd c) \<subseteq> delivery_ids (fst c) \<Longrightarrow> transport_ok pol (fst c) \<Longrightarrow>
   delivery_ids (fst c) \<inter> set (event_uids e) = {} \<Longrightarrow>
   sent_deliveries (snd (transport_step pol e c)) \<subseteq> delivery_ids (fst (transport_step pol e c))"
proof -
  assume a: "sent_deliveries (snd c) \<subseteq> delivery_ids (fst c)" and b: "transport_ok pol (fst c)" "delivery_ids (fst c) \<inter> set (event_uids e) = {}"
  show ?thesis
  proof (cases "sent_deliveries (snd (transport_step pol e c)) \<subseteq> sent_deliveries (snd c)")
    case True then show ?thesis using a transport_step_ok [OF b] by blast
  next
    case False
    then obtain sends bytes uid now s input where e: "e = SendEvent sends bytes uid now s input"
      by (cases e; cases c) auto
    show ?thesis using a unfolding e
      by (cases c) (auto simp: sendDeliverFrame_def sent_deliveries_def log_call_def delivery_ids_def js_set_add_def settle_def
          toDeliverFrame_def Let_def split: option.splits if_splits)
  qed
qed

lemma transport_run_ok:
  assumes "transport_ok pol (fst c)" and "sent_deliveries (snd c) \<subseteq> delivery_ids (fst c)"
    and "distinct (concat (map event_uids es))" and "delivery_ids (fst c) \<inter> set (concat (map event_uids es)) = {}"
  shows "transport_ok pol (fst (fold (transport_step pol) es c)) \<and>
         sent_deliveries (snd (fold (transport_step pol) es c)) \<subseteq> delivery_ids (fst (fold (transport_step pol) es c))"
  using assms
proof (induction es arbitrary: c)
  case (Cons e es)
  have fresh: "delivery_ids (fst c) \<inter> set (event_uids e) = {}" using Cons.prems(4) by auto
  note step = transport_step_ok [OF Cons.prems(1) fresh] transport_step_sent [OF Cons.prems(2,1) fresh]
  have "delivery_ids (fst (transport_step pol e c)) \<inter> set (concat (map event_uids es)) = {}"
    using step(1) Cons.prems(3,4) by (simp add: disjoint_iff) blast
  then show ?case using Cons.IH [of "transport_step pol e c"] step Cons.prems(3) by simp
qed simp

lemma timeout_settles:
  "i \<in> set (pendingDeliveries tr) \<Longrightarrow> (i, SendFailed) \<in> set (settled (deliver_timeout i tr))"
  by (simp add: deliver_timeout_def settle_def)


definition demo_input :: "string \<Rightarrow> RelayDeliveryInput" where
  "demo_input k = \<lparr>in_requestId = k, in_senderAgentDid = ''s'', in_recipientAgentDid = ''r'', in_payload = JNull,
     in_deliverySource = None, in_groupId = None, in_conversationId = None, in_replyTo = None\<rparr>"

definition demo_send :: "string \<Rightarrow> transport_event" where
  "demo_send i = SendEvent (\<lambda>_. True) (\<lambda>_. Some 10) i 0 1 (demo_input ''a'')"


end
