(* ===== verification/Protocol_Ids.thy ===== *)
theory Protocol_Ids
  imports Clawd_Prelude
begin

text \<open>
  Identifiers and the canonical request of \<open>packages/protocol/src\<close>: ULIDs (\<open>ulid.ts\<close>), DIDs and
  group ids (\<open>did.ts\<close>), control characters (\<open>text.ts\<close>) and the string an agent signs
  (\<open>http-signing.ts\<close>). The npm package \<open>ulid\<close> is a parameter (\<open>ulid_lib\<close>): its \<open>isValid\<close> and its
  \<open>decodeTime\<close>, which may throw (\<open>None\<close>).

  Shown here: printing and parsing of DIDs are inverse to each other on exactly the accepted
  strings, every accepted DID is free of white space and of the pair-key separator, group ids are
  normalised idempotently, and the canonical request determines its fields.
\<close>

section \<open>Errors (errors.ts)\<close>

datatype parse_error =
    ProtocolParseError (pe_code: string) (pe_message: string)
  | ForeignError

section \<open>ULIDs (ulid.ts)\<close>

record ulid_lib =
  isValid :: "string \<Rightarrow> bool"
  decodeTime :: "string \<Rightarrow> real option"

text \<open>The character class \<open>[0-9A-HJKMNP-TV-Z]\<close>.\<close>
definition is_ulid_char :: "char \<Rightarrow> bool" where
  "is_ulid_char c \<longleftrightarrow> (let n = (of_char c :: nat) in
     (48 \<le> n \<and> n \<le> 57) \<or> (65 \<le> n \<and> n \<le> 72) \<or> n = 74 \<or> n = 75 \<or> n = 77 \<or> n = 78 \<or>
     (80 \<le> n \<and> n \<le> 84) \<or> (86 \<le> n \<and> n \<le> 90))"

definition ULID_PATTERN :: "string \<Rightarrow> bool" where
  "ULID_PATTERN s \<longleftrightarrow> length s = 26 \<and> list_all is_ulid_char s"

definition invalidUlid :: "string \<Rightarrow> parse_error" where
  "invalidUlid value = ProtocolParseError ''INVALID_ULID'' (''Invalid ULID: '' @ value)"

definition parseUlid :: "ulid_lib \<Rightarrow> string \<Rightarrow> (parse_error, string \<times> real) result" where
  "parseUlid ul value =
     (if \<not> ULID_PATTERN value \<or> \<not> isValid ul value then Inl (invalidUlid value)
      else (case decodeTime ul value of None \<Rightarrow> Inl ForeignError | Some t \<Rightarrow> Inr (value, t)))"

section \<open>DIDs and group ids (did.ts)\<close>

datatype DidEntity = human | agent

record ParsedDid =
  did_authority :: string
  did_entity :: DidEntity
  did_ulid :: string

definition DID_METHOD :: string where "DID_METHOD = ''cdi''"
definition MAX_AUTHORITY_LENGTH :: nat where "MAX_AUTHORITY_LENGTH = 253"
definition GROUP_ID_PREFIX :: string where "GROUP_ID_PREFIX = ''grp_''"

definition is_label_alnum :: "char \<Rightarrow> bool" where
  "is_label_alnum c \<longleftrightarrow> (let n = (of_char c :: nat) in (97 \<le> n \<and> n \<le> 122) \<or> (48 \<le> n \<and> n \<le> 57))"

text \<open>\<open>/^[a-z0-9](?:[a-z0-9-]*[a-z0-9])?$/\<close>\<close>
definition DNS_LABEL_REGEX :: "string \<Rightarrow> bool" where
  "DNS_LABEL_REGEX s \<longleftrightarrow>
     s \<noteq> [] \<and> is_label_alnum (hd s) \<and> is_label_alnum (last s) \<and>
     list_all (\<lambda>c. is_label_alnum c \<or> c = CHR ''-'') s"

definition invalidDid :: "string \<Rightarrow> parse_error" where
  "invalidDid value = ProtocolParseError ''INVALID_DID'' (''Invalid DID: '' @ value)"

definition invalidGroupId :: "string \<Rightarrow> parse_error" where
  "invalidGroupId value = ProtocolParseError ''INVALID_GROUP_ID'' (''Invalid group ID: '' @ value)"

definition ensureDidUlid :: "ulid_lib \<Rightarrow> string \<Rightarrow> string \<Rightarrow> (parse_error, unit) result" where
  "ensureDidUlid ul value didValue =
     (case parseUlid ul value of Inl _ \<Rightarrow> Inl (invalidDid didValue) | Inr _ \<Rightarrow> Inr ())"

definition ensureDidAuthority :: "string \<Rightarrow> string \<Rightarrow> (parse_error, unit) result" where
  "ensureDidAuthority auth didValue =
     (if length auth = 0 \<or> length auth > MAX_AUTHORITY_LENGTH then Inl (invalidDid didValue)
      else let labels = js_split (CHR ''.'') auth in
        if length labels < 2 then Inl (invalidDid didValue)
        else if list_all DNS_LABEL_REGEX labels then Inr () else Inl (invalidDid didValue))"

fun entity_str :: "DidEntity \<Rightarrow> string" where
  "entity_str human = ''human''"
| "entity_str agent = ''agent''"

definition makeDid :: "ulid_lib \<Rightarrow> string \<Rightarrow> DidEntity \<Rightarrow> string \<Rightarrow> (parse_error, string) result" where
  "makeDid ul auth ent uid =
     (let didValue = js_join '':'' [''did'', DID_METHOD, auth, entity_str ent, uid] in
      case ensureDidAuthority auth didValue of Inl e \<Rightarrow> Inl e | Inr _ \<Rightarrow>
      case ensureDidUlid ul uid didValue of Inl e \<Rightarrow> Inl e | Inr _ \<Rightarrow> Inr didValue)"

definition makeHumanDid :: "ulid_lib \<Rightarrow> string \<Rightarrow> string \<Rightarrow> (parse_error, string) result" where
  "makeHumanDid ul auth uid = makeDid ul auth human uid"

definition makeAgentDid :: "ulid_lib \<Rightarrow> string \<Rightarrow> string \<Rightarrow> (parse_error, string) result" where
  "makeAgentDid ul auth uid = makeDid ul auth agent uid"

definition parseDid :: "ulid_lib \<Rightarrow> string \<Rightarrow> (parse_error, ParsedDid) result" where
  "parseDid ul value =
     (case js_split (CHR '':'') value of
        [scheme, method, rawAuthority, rawEntity, rawUlid] \<Rightarrow>
          if scheme \<noteq> ''did'' \<or> method \<noteq> DID_METHOD then Inl (invalidDid value)
          else (case ensureDidAuthority rawAuthority value of Inl e \<Rightarrow> Inl e | Inr _ \<Rightarrow>
            if rawEntity \<noteq> ''human'' \<and> rawEntity \<noteq> ''agent'' then Inl (invalidDid value)
            else (case ensureDidUlid ul rawUlid value of Inl e \<Rightarrow> Inl e | Inr _ \<Rightarrow>
              Inr \<lparr>did_authority = rawAuthority,
                   did_entity = (if rawEntity = ''human'' then human else agent),
                   did_ulid = rawUlid\<rparr>))
      | _ \<Rightarrow> Inl (invalidDid value))"

definition parseAgentDid :: "ulid_lib \<Rightarrow> string \<Rightarrow> (parse_error, ParsedDid) result" where
  "parseAgentDid ul value =
     (case parseDid ul value of Inl e \<Rightarrow> Inl e | Inr parsed \<Rightarrow>
        if did_entity parsed \<noteq> agent then Inl (invalidDid value) else Inr parsed)"

definition parseHumanDid :: "ulid_lib \<Rightarrow> string \<Rightarrow> (parse_error, ParsedDid) result" where
  "parseHumanDid ul value =
     (case parseDid ul value of Inl e \<Rightarrow> Inl e | Inr parsed \<Rightarrow>
        if did_entity parsed \<noteq> human then Inl (invalidDid value) else Inr parsed)"

definition parseGroupId :: "ulid_lib \<Rightarrow> string \<Rightarrow> (parse_error, string) result" where
  "parseGroupId ul value =
     (let normalized = trim value in
      if \<not> startsWith normalized GROUP_ID_PREFIX then Inl (invalidGroupId value)
      else (case parseUlid ul (drop (length GROUP_ID_PREFIX) normalized) of
              Inl _ \<Rightarrow> Inl (invalidGroupId value)
            | Inr _ \<Rightarrow> Inr normalized))"

text \<open>\<open>try { parseAgentDid(d) } catch\<close>: whether the call returns.\<close>
definition is_agent_did :: "ulid_lib \<Rightarrow> string \<Rightarrow> bool" where
  "is_agent_did ul d = (case parseAgentDid ul d of Inl _ \<Rightarrow> False | Inr _ \<Rightarrow> True)"

lemma is_agent_did_iff: "is_agent_did ul d \<longleftrightarrow> (\<exists>p. parseAgentDid ul d = Inr p)"
  by (simp add: is_agent_did_def split: sum.splits)

section \<open>Control characters (text.ts)\<close>

fun hasControlChars :: "string \<Rightarrow> bool" where
  "hasControlChars [] = False"
| "hasControlChars (c # cs) =
     (if (of_char c :: nat) \<le> 31 \<or> (of_char c :: nat) = 127 then True else hasControlChars cs)"

section \<open>The canonical request (http-signing.ts)\<close>

definition CLAW_PROOF_CANONICAL_VERSION :: string where
  "CLAW_PROOF_CANONICAL_VERSION = ''CLAW-PROOF-V1''"

definition newline :: string where "newline = [CHR 0x0A]"

record CanonicalRequestInput =
  cq_method :: string
  cq_pathWithQuery :: string
  cq_timestamp :: string
  cq_nonce :: string
  cq_bodyHash :: string

definition canonicalizeRequest :: "CanonicalRequestInput \<Rightarrow> string" where
  "canonicalizeRequest i =
     js_join newline
       [CLAW_PROOF_CANONICAL_VERSION, toUpperCase (cq_method i), cq_pathWithQuery i, cq_timestamp i,
        cq_nonce i, cq_bodyHash i]"

section \<open>Facts about accepted identifiers\<close>

lemma is_ulid_char_codes: "is_ulid_char c \<Longrightarrow> 48 \<le> (of_char c :: nat) \<and> (of_char c :: nat) \<le> 90"
  by (auto simp: is_ulid_char_def Let_def)

lemma ulid_char_not:
  assumes "is_ulid_char c"
  shows "c \<noteq> CHR ''|''" "\<not> is_ws c" "c \<noteq> CHR '':''"
proof -
  show "c \<noteq> CHR ''|''" using assms by (auto simp: is_ulid_char_def Let_def)
  show "\<not> is_ws c" using is_ulid_char_codes [OF assms] by (auto simp: is_ws_def)
  show "c \<noteq> CHR '':''" using assms by (auto simp: is_ulid_char_def Let_def)
qed

lemma label_char_not:
  assumes "is_label_alnum c \<or> c = CHR ''-''"
  shows "c \<noteq> CHR ''|''" "\<not> is_ws c" "c \<noteq> CHR '':''" "c \<noteq> CHR ''.''"
  using assms by (auto simp: is_label_alnum_def is_ws_def Let_def)

lemma parseUlid_Inr: "parseUlid ul v = Inr r \<Longrightarrow> ULID_PATTERN v \<and> fst r = v"
  by (auto simp: parseUlid_def split: if_splits option.splits)

lemma ensureDidUlid_Inr: "ensureDidUlid ul v w = Inr () \<longleftrightarrow> (\<exists>r. parseUlid ul v = Inr r)"
  by (auto simp: ensureDidUlid_def split: sum.splits)

lemma ensureDidAuthority_indep:
  "ensureDidAuthority a v = Inr () \<longleftrightarrow> ensureDidAuthority a w = Inr ()"
  by (auto simp: ensureDidAuthority_def Let_def)

lemma ensureDidAuthority_chars:
  assumes "ensureDidAuthority a v = Inr ()" and "c \<in> set a"
  shows "is_label_alnum c \<or> c = CHR ''-'' \<or> c = CHR ''.''"
proof -
  have labels: "list_all DNS_LABEL_REGEX (js_split (CHR ''.'') a)"
    using assms(1) by (auto simp: ensureDidAuthority_def Let_def split: if_splits)
  have "set (js_join s ws) \<subseteq> set s \<union> \<Union> (set ` set ws)" for s ws
    by (induction s ws rule: js_join.induct) auto
  then have "set a \<subseteq> {CHR ''.''} \<union> \<Union> (set ` set (js_split (CHR ''.'') a))"
    using js_join_split [of "CHR ''.''" a] by (metis empty_set list.simps(15))
  with assms(2) labels show ?thesis
    by (auto simp: list_all_iff DNS_LABEL_REGEX_def)
qed

lemma authority_no_sep:
  assumes "ensureDidAuthority a v = Inr ()"
  shows "CHR '':'' \<notin> set a" "CHR ''|'' \<notin> set a" "\<forall>c \<in> set a. \<not> is_ws c"
proof -
  have *: "c \<noteq> CHR '':'' \<and> c \<noteq> CHR ''|'' \<and> \<not> is_ws c" if "c \<in> set a" for c
    using ensureDidAuthority_chars [OF assms that] by (auto simp: is_label_alnum_def is_ws_def Let_def)
  then show "CHR '':'' \<notin> set a" "CHR ''|'' \<notin> set a" "\<forall>c \<in> set a. \<not> is_ws c" by blast+
qed

lemma ulid_no_sep:
  assumes "parseUlid ul v = Inr r"
  shows "CHR '':'' \<notin> set v" "CHR ''|'' \<notin> set v" "\<forall>c \<in> set v. \<not> is_ws c"
  using parseUlid_Inr [OF assms] ulid_char_not by (auto simp: ULID_PATTERN_def list_all_iff)

lemma entity_str_no_sep: "CHR '':'' \<notin> set (entity_str e)"
  by (cases e) auto

lemma entity_str_inverse:
  "entity_str (if s = ''human'' then human else agent) = s \<longleftrightarrow> s = ''human'' \<or> s = ''agent''"
  by auto

lemma entity_str_decode:
  "(if entity_str e = ''human'' then human else agent) = e"
  "entity_str e = ''human'' \<or> entity_str e = ''agent''"
  by (cases e; simp)+

lemma parseDid_Inr:
  assumes "parseDid ul v = Inr p"
  shows "v = js_join '':'' [''did'', DID_METHOD, did_authority p, entity_str (did_entity p), did_ulid p]"
    and "ensureDidAuthority (did_authority p) v = Inr ()" and "\<exists>r. parseUlid ul (did_ulid p) = Inr r"
proof -
  from assms obtain s m a t u where sp: "js_split (CHR '':'') v = [s, m, a, t, u]"
    by (auto simp: parseDid_def split: list.splits)
  from assms sp have f: "s = ''did''" "m = DID_METHOD" "t = ''human'' \<or> t = ''agent''"
      "p = \<lparr>did_authority = a, did_entity = (if t = ''human'' then human else agent), did_ulid = u\<rparr>"
      and a: "ensureDidAuthority a v = Inr ()" and u: "ensureDidUlid ul u v = Inr ()"
    by (auto simp: parseDid_def split: if_splits sum.splits)
  show "v = js_join '':'' [''did'', DID_METHOD, did_authority p, entity_str (did_entity p), did_ulid p]"
    using js_join_split [of "CHR '':''" v] sp f by auto
  show "ensureDidAuthority (did_authority p) v = Inr ()" using a f by simp
  show "\<exists>r. parseUlid ul (did_ulid p) = Inr r" using u f by (simp add: ensureDidUlid_Inr)
qed

lemma makeDid_Inr:
  "makeDid ul a e i = Inr v \<longleftrightarrow>
     v = js_join '':'' [''did'', DID_METHOD, a, entity_str e, i] \<and>
     ensureDidAuthority a v = Inr () \<and> (\<exists>r. parseUlid ul i = Inr r)"
  by (auto simp: makeDid_def Let_def ensureDidUlid_Inr ensureDidUlid_def split: sum.splits)

lemma parseDid_of_parts:
  assumes a: "ensureDidAuthority a v = Inr ()" and i: "parseUlid ul i = Inr r"
    and v: "v = js_join '':'' [''did'', DID_METHOD, a, entity_str e, i]"
  shows "parseDid ul v = Inr \<lparr>did_authority = a, did_entity = e, did_ulid = i\<rparr>"
proof -
  have "\<forall>w \<in> set [''did'', DID_METHOD, a, entity_str e, i]. CHR '':'' \<notin> set w"
    using authority_no_sep(1) [OF a] ulid_no_sep(1) [OF i] entity_str_no_sep
    by (auto simp: DID_METHOD_def)
  then have "js_split (CHR '':'') v = [''did'', DID_METHOD, a, entity_str e, i]"
    unfolding v by (intro js_split_join) auto
  moreover have "ensureDidUlid ul i v = Inr ()" using i by (simp add: ensureDidUlid_def)
  ultimately show ?thesis using a by (cases e) (auto simp: parseDid_def)
qed

text \<open>
  (C30) Printing and parsing of DIDs are inverse to each other: \<open>makeDid\<close> produces a text from an
  authority, an entity and a ULID exactly when \<open>parseDid\<close> reads these three out of that text, so every
  DID has one reading and every accepted DID is in canonical form.
\<close>
theorem makeDid_iff_parseDid:
  "makeDid ul a e i = Inr v \<longleftrightarrow> parseDid ul v = Inr \<lparr>did_authority = a, did_entity = e, did_ulid = i\<rparr>"
proof
  assume "makeDid ul a e i = Inr v"
  then show "parseDid ul v = Inr \<lparr>did_authority = a, did_entity = e, did_ulid = i\<rparr>"
    using parseDid_of_parts by (auto simp: makeDid_Inr)
next
  assume p: "parseDid ul v = Inr \<lparr>did_authority = a, did_entity = e, did_ulid = i\<rparr>"
  show "makeDid ul a e i = Inr v"
    using parseDid_Inr [OF p] by (simp add: makeDid_Inr)
qed

lemma parseDid_chars:
  assumes "parseDid ul v = Inr p"
  shows "CHR ''|'' \<notin> set v" "\<forall>c \<in> set v. \<not> is_ws c"
proof -
  obtain r where r: "parseUlid ul (did_ulid p) = Inr r" using parseDid_Inr(3) [OF assms] by blast
  have v: "set v \<subseteq> set (''did:cdi:humanagent'') \<union> set (did_authority p) \<union> set (did_ulid p)"
    by (subst parseDid_Inr(1) [OF assms]) (cases "did_entity p"; auto simp: DID_METHOD_def)
  show "CHR ''|'' \<notin> set v"
    using v authority_no_sep(2) [OF parseDid_Inr(2) [OF assms]] ulid_no_sep(2) [OF r] by auto
  show "\<forall>c \<in> set v. \<not> is_ws c"
    using v authority_no_sep(3) [OF parseDid_Inr(2) [OF assms]] ulid_no_sep(3) [OF r]
    by (auto simp: is_ws_def)
qed

lemma parseAgentDid_parseDid: "parseAgentDid ul v = Inr p \<longleftrightarrow> parseDid ul v = Inr p \<and> did_entity p = agent"
  by (auto simp: parseAgentDid_def split: sum.splits if_splits)

lemma agent_did_chars:
  assumes "parseAgentDid ul v = Inr p"
  shows "CHR ''|'' \<notin> set v" "trim v = v"
  using assms parseDid_chars trim_noop by (auto simp: parseAgentDid_parseDid)

lemma agent_did_nonempty: "parseAgentDid ul v = Inr p \<Longrightarrow> v \<noteq> []"
  by (auto simp: parseAgentDid_def parseDid_def)

lemma parseGroupId_Inr:
  "parseGroupId ul v = Inr g \<Longrightarrow>
     g = trim v \<and> (\<exists>t r. g = GROUP_ID_PREFIX @ t \<and> parseUlid ul t = Inr r)"
proof -
  assume a: "parseGroupId ul v = Inr g"
  then have "startsWith (trim v) GROUP_ID_PREFIX" and g: "g = trim v"
    and r: "\<exists>r. parseUlid ul (drop (length GROUP_ID_PREFIX) (trim v)) = Inr r"
    by (auto simp: parseGroupId_def Let_def split: if_splits sum.splits)
  then obtain t where "trim v = GROUP_ID_PREFIX @ t" by (auto simp: startsWith_iff)
  with g r show ?thesis by auto
qed

lemma parseGroupId_idem:
  assumes "parseGroupId ul v = Inr g" shows "parseGroupId ul g = Inr g"
proof -
  obtain t r where g: "g = trim v" "g = GROUP_ID_PREFIX @ t" "parseUlid ul t = Inr r"
    using parseGroupId_Inr [OF assms] by blast
  then have "trim g = g" by simp
  with g(2,3) show ?thesis by (simp add: parseGroupId_def Let_def)
qed

lemma upper_char_newline: "upper_char c = CHR 0x0A \<Longrightarrow> c = CHR 0x0A"
proof (cases "97 \<le> (of_char c :: nat) \<and> (of_char c :: nat) \<le> 122")
  case True
  assume "upper_char c = CHR 0x0A"
  moreover have "(of_char (upper_char c) :: nat) = (of_char c - 32) mod 256"
    using True by (simp add: upper_char_def Let_def)
  moreover have "(of_char c - 32) mod 256 = (of_char c - 32 :: nat)"
    using True by (intro mod_less) linarith
  ultimately have "(of_char c - 32 :: nat) = 10" by simp
  with True show ?thesis by linarith
next
  case False
  assume "upper_char c = CHR 0x0A"
  with False show ?thesis by (metis upper_char_def)
qed

lemma newline_toUpperCase: "CHR 0x0A \<in> set (toUpperCase m) \<Longrightarrow> CHR 0x0A \<in> set m"
proof -
  assume "CHR 0x0A \<in> set (toUpperCase m)"
  then obtain c where "c \<in> set m" "upper_char c = CHR 0x0A"
    unfolding toUpperCase_def by (metis imageE set_map)
  then show ?thesis using upper_char_newline [of c] by metis
qed

text \<open>The fields of a canonical request are single lines (HTTP forbids line breaks in them).\<close>
definition single_line :: "CanonicalRequestInput \<Rightarrow> bool" where
  "single_line i \<longleftrightarrow>
     list_all (\<lambda>s. CHR 0x0A \<notin> set s) [cq_method i, cq_pathWithQuery i, cq_timestamp i, cq_nonce i, cq_bodyHash i]"

definition canonical_lines :: "CanonicalRequestInput \<Rightarrow> string list" where
  "canonical_lines i =
     [CLAW_PROOF_CANONICAL_VERSION, toUpperCase (cq_method i), cq_pathWithQuery i, cq_timestamp i, cq_nonce i, cq_bodyHash i]"

lemma canonical_lines_no_newline:
  assumes "single_line i" shows "\<forall>w \<in> set (canonical_lines i). CHR 0x0A \<notin> set w"
proof -
  have "CHR 0x0A \<notin> set CLAW_PROOF_CANONICAL_VERSION"
    by (simp add: CLAW_PROOF_CANONICAL_VERSION_def)
  moreover have "CHR 0x0A \<notin> set (toUpperCase (cq_method i))"
    using assms newline_toUpperCase unfolding single_line_def list.pred_inject by metis
  ultimately show ?thesis
    using assms unfolding single_line_def canonical_lines_def list.pred_inject list.set by blast
qed

text \<open>
  (C31) The signed text of a request determines every part of it that is signed: two requests whose
  fields are single lines have the same canonical text only if they agree on the method (up to
  case), the path with the query, the timestamp, the nonce and the body hash.
\<close>
theorem canonicalizeRequest_inject:
  assumes eq: "canonicalizeRequest a = canonicalizeRequest b"
    and "single_line a" and "single_line b"
  shows "canonical_lines a = canonical_lines b"
proof (rule js_join_inject)
  show "js_join [CHR 0x0A] (canonical_lines a) = js_join [CHR 0x0A] (canonical_lines b)"
    using eq unfolding canonicalizeRequest_def newline_def canonical_lines_def .
  show "canonical_lines a \<noteq> []" "canonical_lines b \<noteq> []" by (simp_all add: canonical_lines_def)
qed (use assms canonical_lines_no_newline in blast)+

theorem canonicalizeRequest_inject_witness:
  "(let a = \<lparr>cq_method = ''get'', cq_pathWithQuery = ''/p'', cq_timestamp = ''1'', cq_nonce = ''n'', cq_bodyHash = ''h''\<rparr>;
        b = \<lparr>cq_method = ''GET'', cq_pathWithQuery = ''/p'', cq_timestamp = ''1'', cq_nonce = ''n'', cq_bodyHash = ''h''\<rparr>
    in canonical_lines a = canonical_lines b)"
  unfolding Let_def
proof (rule canonicalizeRequest_inject)
  show "canonicalizeRequest \<lparr>cq_method = ''get'', cq_pathWithQuery = ''/p'', cq_timestamp = ''1'', cq_nonce = ''n'', cq_bodyHash = ''h''\<rparr> =
    canonicalizeRequest \<lparr>cq_method = ''GET'', cq_pathWithQuery = ''/p'', cq_timestamp = ''1'', cq_nonce = ''n'', cq_bodyHash = ''h''\<rparr>"
    by code_simp
qed (simp_all add: single_line_def)

end
