(* ===== verification/Pairing_Ticket.thy ===== *)
theory Pairing_Ticket
  imports Protocol_Ids
begin

text \<open>
  Pairing tickets: \<open>apps/proxy/src/pairing-ticket.ts\<close> and the base64url wrapper
  \<open>packages/protocol/src/base64url.ts\<close>.

  What the file takes from the host is gathered in the record \<open>runtime\<close>: WHATWG \<open>URL\<close> parsing, the
  base64url codec of \<open>@scure/base\<close>, the JSON codec composed with the UTF-8 one, the decimal printer
  of numbers and WebCrypto Ed25519. A rejected promise or a thrown exception is \<open>None\<close>.

  Shown here: the parser is total with one of three error codes, a parsed ticket has trimmed
  non-empty fields and a whole-second expiry, a ticket created by \<open>createPairingTicket\<close> parses back
  to its payload and verifies under the issuing key, and text normalisation is stable on every text
  whose normal form carries no back-tick at either end (and only there).
\<close>

type_synonym bytes = "nat list"

record runtime =
  url_parse :: "string \<Rightarrow> (string \<times> string) option"
  b64_encode :: "bytes \<Rightarrow> string"
  b64_decode :: "string \<Rightarrow> bytes option"
  json_utf8 :: "jsval \<Rightarrow> bytes"
  utf8_json :: "bytes \<Rightarrow> jsval option"
  number_str :: "real \<Rightarrow> string"
  import_key :: "string \<Rightarrow> bytes option"
  ed_sign :: "bytes \<Rightarrow> bytes \<Rightarrow> bytes"
  ed_verify :: "bytes \<Rightarrow> bytes \<Rightarrow> bytes \<Rightarrow> bool"
  ulids :: ulid_lib

section \<open>base64url.ts\<close>

definition encodeBase64url :: "runtime \<Rightarrow> bytes \<Rightarrow> string" where
  "encodeBase64url rt input = b64_encode rt input"

definition decodeBase64url :: "runtime \<Rightarrow> string \<Rightarrow> (parse_error, bytes) result" where
  "decodeBase64url rt input =
     (if length input = 0 then Inr []
      else (case b64_decode rt input of
              None \<Rightarrow> Inl (ProtocolParseError ''INVALID_BASE64URL'' (''Invalid base64url input: '' @ input))
            | Some bs \<Rightarrow> Inr bs))"

section \<open>Types and constants\<close>

definition PAIRING_TICKET_PREFIX :: string where "PAIRING_TICKET_PREFIX = ''clwpair1_''"
definition PAIRING_TICKET_VERSION :: real where "PAIRING_TICKET_VERSION = 2"

record PairingTicketUnsignedPayload =
  tk_v :: real
  tk_iss :: string
  tk_kid :: string
  tk_nonce :: string
  tk_exp :: real
  tk_pkid :: string

record PairingTicketPayload = PairingTicketUnsignedPayload +
  tk_sig :: string

datatype ticket_error = PairingTicketParseError (te_code: string) (te_message: string)

definition invalid_format :: ticket_error where
  "invalid_format = PairingTicketParseError ''PROXY_PAIR_TICKET_INVALID_FORMAT'' ''Pairing ticket format is invalid''"

definition invalid_issuer :: ticket_error where
  "invalid_issuer = PairingTicketParseError ''PROXY_PAIR_TICKET_INVALID_ISSUER'' ''Pairing ticket issuer URL is invalid''"

definition unsupported_version :: ticket_error where
  "unsupported_version =
     PairingTicketParseError ''PROXY_PAIR_TICKET_UNSUPPORTED_VERSION'' ''Pairing ticket version is not supported''"

section \<open>Normalisation and helpers\<close>

text \<open>The two \<open>while\<close> loops strip back-ticks one at a time from the front and from the back.\<close>
fun strip_front_ticks :: "string \<Rightarrow> string" where
  "strip_front_ticks [] = []"
| "strip_front_ticks (c # s) = (if c = CHR 0x60 then strip_front_ticks s else c # s)"

definition strip_back_ticks :: "string \<Rightarrow> string" where
  "strip_back_ticks s = rev (strip_front_ticks (rev s))"

definition normalizePairingTicketText :: "string \<Rightarrow> string" where
  "normalizePairingTicketText value =
     filter (\<lambda>c. \<not> is_ws c) (trim (strip_back_ticks (strip_front_ticks (trim value))))"

definition assertHttpUrl :: "runtime \<Rightarrow> string \<Rightarrow> (ticket_error, string) result" where
  "assertHttpUrl rt value =
     (case url_parse rt value of None \<Rightarrow> Inl invalid_issuer
      | Some (protocol, origin) \<Rightarrow>
          if protocol \<noteq> ''https:'' \<and> protocol \<noteq> ''http:'' then Inl invalid_issuer else Inr origin)"

definition canonicalizePairingTicketPayload :: "'a PairingTicketUnsignedPayload_scheme \<Rightarrow> jsval" where
  "canonicalizePairingTicketPayload p =
     JObj [(''v'', JNum (tk_v p)), (''iss'', JStr (tk_iss p)), (''kid'', JStr (tk_kid p)),
           (''nonce'', JStr (tk_nonce p)), (''exp'', JNum (tk_exp p)), (''pkid'', JStr (tk_pkid p))]"

definition toUnsignedPayload :: "PairingTicketPayload \<Rightarrow> PairingTicketUnsignedPayload" where
  "toUnsignedPayload p =
     \<lparr>tk_v = tk_v p, tk_iss = tk_iss p, tk_kid = tk_kid p, tk_nonce = tk_nonce p, tk_exp = tk_exp p, tk_pkid = tk_pkid p\<rparr>"

fun normalizeNonEmptyString :: "jsval \<Rightarrow> ticket_error \<Rightarrow> (ticket_error, string) result" where
  "normalizeNonEmptyString (JStr s) e = (if length (trim s) = 0 then Inl e else Inr (trim s))"
| "normalizeNonEmptyString _ e = Inl e"

text \<open>\<open>String(tk_v)\<close>; arrays print their elements joined by commas, with holes for nullish ones.\<close>
fun js_String :: "runtime \<Rightarrow> jsval \<Rightarrow> string" where
  "js_String rt JUndefined = ''undefined''"
| "js_String rt JNull = ''null''"
| "js_String rt (JBool b) = (if b then ''true'' else ''false'')"
| "js_String rt (JNum x) = number_str rt x"
| "js_String rt JNaN = ''NaN''"
| "js_String rt (JInfinity pos) = (if pos then ''Infinity'' else ''-Infinity'')"
| "js_String rt (JStr s) = s"
| "js_String rt (JArr vs) =
     js_join '','' (map (\<lambda>x. if x = JUndefined \<or> x = JNull then [] else js_String rt x) vs)"
| "js_String rt (JObj _) = ''[object Object]''"

section \<open>Creating, parsing and verifying\<close>

definition signedPayloadJson :: "PairingTicketPayload \<Rightarrow> jsval" where
  "signedPayloadJson p =
     JObj [(''v'', JNum (tk_v p)), (''iss'', JStr (tk_iss p)), (''kid'', JStr (tk_kid p)),
           (''nonce'', JStr (tk_nonce p)), (''exp'', JNum (tk_exp p)), (''pkid'', JStr (tk_pkid p)),
           (''sig'', JStr (tk_sig p))]"

definition createPairingTicket ::
  "runtime \<Rightarrow> string \<Rightarrow> ms \<Rightarrow> string \<Rightarrow> bytes \<Rightarrow> string \<Rightarrow> bytes \<Rightarrow>
   (ticket_error, string \<times> PairingTicketPayload) result" where
  "createPairingTicket rt issuerProxyUrl expiresAtMs freshUlid nonceBytes keyPkid privateKey =
     bindE (assertHttpUrl rt issuerProxyUrl) (\<lambda>origin.
     bindE (normalizeNonEmptyString (JStr keyPkid) invalid_format) (\<lambda>pk.
     let payload = \<lparr>tk_v = PAIRING_TICKET_VERSION, tk_iss = origin, tk_kid = freshUlid,
                    tk_nonce = encodeBase64url rt nonceBytes,
                    tk_exp = real_of_int \<lfloor>expiresAtMs / 1000\<rfloor>, tk_pkid = pk\<rparr> :: PairingTicketUnsignedPayload;
         signature = ed_sign rt privateKey (json_utf8 rt (canonicalizePairingTicketPayload payload));
         signedPayload = \<lparr>tk_v = tk_v payload, tk_iss = tk_iss payload, tk_kid = tk_kid payload,
                          tk_nonce = tk_nonce payload, tk_exp = tk_exp payload, tk_pkid = tk_pkid payload,
                          tk_sig = encodeBase64url rt signature\<rparr>
     in Inr (PAIRING_TICKET_PREFIX @ encodeBase64url rt (json_utf8 rt (signedPayloadJson signedPayload)),
             signedPayload)))"

definition parsePairingTicket :: "runtime \<Rightarrow> string \<Rightarrow> (ticket_error, PairingTicketPayload) result" where
  "parsePairingTicket rt ticket =
     (let trimmedTicket = normalizePairingTicketText ticket;
          encodedPayload = drop (length PAIRING_TICKET_PREFIX) trimmedTicket in
      throw_if (\<not> startsWith trimmedTicket PAIRING_TICKET_PREFIX) invalid_format
      (throw_if (length encodedPayload = 0) invalid_format
      (bindE (catchE (decodeBase64url rt encodedPayload) invalid_format) (\<lambda>bs.
       bindE (of_option invalid_format (utf8_json rt bs)) (\<lambda>payload.
       throw_if (\<not> is_object payload) invalid_format
      (throw_if (js_get payload ''v'' \<noteq> JNum PAIRING_TICKET_VERSION) unsupported_version
      (bindE (assertHttpUrl rt
               (if js_get payload ''iss'' = JUndefined \<or> js_get payload ''iss'' = JNull then []
                else js_String rt (js_get payload ''iss''))) (\<lambda>origin.
       bindE (normalizeNonEmptyString (js_get payload ''kid'') invalid_format) (\<lambda>kd.
       bindE (normalizeNonEmptyString (js_get payload ''nonce'') invalid_format) (\<lambda>nc.
       bindE (normalizeNonEmptyString (js_get payload ''pkid'') invalid_format) (\<lambda>pk.
       bindE (normalizeNonEmptyString (js_get payload ''sig'') invalid_format) (\<lambda>sg.
       bindE (of_option invalid_format (js_integer (js_get payload ''exp''))) (\<lambda>x.
       Inr \<lparr>tk_v = PAIRING_TICKET_VERSION, tk_iss = origin, tk_kid = kd, tk_nonce = nc,
            tk_exp = x, tk_pkid = pk, tk_sig = sg\<rparr>)))))))))))))"

text \<open>
  \<open>None\<close>: the promise rejects (a blank key or one WebCrypto does not import); callers treat that as
  "not verified".
\<close>
definition verifyPairingTicketSignature :: "runtime \<Rightarrow> PairingTicketPayload \<Rightarrow> string \<Rightarrow> bool option" where
  "verifyPairingTicketSignature rt payload publicKeyX =
     (case normalizeNonEmptyString (JStr publicKeyX) invalid_format of Inl _ \<Rightarrow> None | Inr x \<Rightarrow>
      case import_key rt x of None \<Rightarrow> None | Some verifyKey \<Rightarrow>
      case decodeBase64url rt (tk_sig payload) of Inl _ \<Rightarrow> Some False | Inr signature \<Rightarrow>
      Some (ed_verify rt verifyKey signature
              (json_utf8 rt (canonicalizePairingTicketPayload (toUnsignedPayload payload)))))"

text \<open>The \<open>try ... catch { signatureVerified = false }\<close> around every call of it.\<close>
definition signatureVerified :: "runtime \<Rightarrow> PairingTicketPayload \<Rightarrow> string \<Rightarrow> bool" where
  "signatureVerified rt payload publicKeyX =
     (case verifyPairingTicketSignature rt payload publicKeyX of None \<Rightarrow> False | Some b \<Rightarrow> b)"

section \<open>Normalisation\<close>

lemma strip_front_ticks_dropWhile: "strip_front_ticks s = dropWhile (\<lambda>c. c = CHR 0x60) s"
  by (induction s) auto

lemma normalize_no_ws: "c \<in> set (normalizePairingTicketText s) \<Longrightarrow> \<not> is_ws c"
  by (simp add: normalizePairingTicketText_def)

definition tick_free_ends :: "string \<Rightarrow> bool" where
  "tick_free_ends s \<longleftrightarrow> s = [] \<or> (hd s \<noteq> CHR 0x60 \<and> last s \<noteq> CHR 0x60)"

lemma strip_ticks_tick_free:
  assumes "tick_free_ends s" shows "strip_back_ticks (strip_front_ticks s) = s"
proof (cases "s = []")
  case False
  with assms have h: "hd s \<noteq> CHR 0x60" "last s \<noteq> CHR 0x60" by (auto simp: tick_free_ends_def)
  have "strip_front_ticks s = s"
    using h(1) False by (cases s) auto
  moreover have "strip_front_ticks (rev s) = rev s"
    using h(2) False by (cases "rev s") (auto simp flip: hd_rev)
  ultimately show ?thesis by (simp add: strip_back_ticks_def)
qed (simp add: strip_back_ticks_def)

lemma normalize_fixed:
  assumes "\<forall>c \<in> set s. \<not> is_ws c" and "tick_free_ends s"
  shows "normalizePairingTicketText s = s"
proof -
  have "trim s = s" using assms(1) by (rule trim_noop)
  then show ?thesis
    using assms strip_ticks_tick_free
    by (simp add: normalizePairingTicketText_def filter_id_conv)
qed

lemma strip_ticks_shorter:
  "length (strip_back_ticks (strip_front_ticks s)) \<le> length s"
proof -
  have "length (strip_front_ticks t) \<le> length t" for t by (induction t) auto
  then show ?thesis unfolding strip_back_ticks_def by (metis length_rev order.trans)
qed

lemma strip_ticks_fixed_iff: "strip_back_ticks (strip_front_ticks s) = s \<longleftrightarrow> tick_free_ends s"
proof
  assume eq: "strip_back_ticks (strip_front_ticks s) = s"
  have len: "length (strip_front_ticks t) \<le> length t" for t by (induction t) auto
  have front: "strip_front_ticks t = t \<Longrightarrow> t = [] \<or> hd t \<noteq> CHR 0x60" for t
  proof (cases t)
    case (Cons c u)
    assume "strip_front_ticks t = t"
    with Cons len [of u] show ?thesis by (auto split: if_splits)
  qed simp
  have "length (strip_front_ticks s) = length s"
    using eq len by (metis length_rev order_antisym strip_back_ticks_def)
  moreover have "length (strip_front_ticks t) = length t \<Longrightarrow> strip_front_ticks t = t" for t
    using len [of "tl t"] by (cases t) (auto split: if_splits)
  ultimately have s: "strip_front_ticks s = s" by blast
  with eq have "strip_front_ticks (rev s) = rev s"
    unfolding strip_back_ticks_def by (metis rev_rev_ident)
  with front [OF s] front [of "rev s"] show "tick_free_ends s"
    by (auto simp: tick_free_ends_def hd_rev)
qed (rule strip_ticks_tick_free)

lemma normalize_stable_iff:
  "normalizePairingTicketText (normalizePairingTicketText s) = normalizePairingTicketText s
     \<longleftrightarrow> tick_free_ends (normalizePairingTicketText s)"
proof -
  let ?n = "normalizePairingTicketText s"
  let ?t = "strip_back_ticks (strip_front_ticks ?n)"
  have sub: "set (strip_front_ticks t) \<subseteq> set t" for t by (induction t) auto
  have ws: "\<forall>c \<in> set ?n. \<not> is_ws c" using normalize_no_ws by blast
  then have "\<forall>c \<in> set ?t. \<not> is_ws c"
    using sub unfolding strip_back_ticks_def by (metis set_rev subset_eq)
  then have "normalizePairingTicketText ?n = ?t"
    using ws trim_noop by (simp add: normalizePairingTicketText_def [of ?n] filter_id_conv)
  then show ?thesis by (simp add: strip_ticks_fixed_iff)
qed

section \<open>What a parsed ticket looks like\<close>

lemma normalizeNonEmptyString_Inr:
  "normalizeNonEmptyString x e = Inr s \<Longrightarrow> s \<noteq> [] \<and> trim s = s"
  by (cases x) (auto split: if_splits)

lemma normalizeNonEmptyString_Inl: "normalizeNonEmptyString x e = Inl e' \<Longrightarrow> e' = e"
  by (cases x) (auto split: if_splits)

lemma assertHttpUrl_Inl: "assertHttpUrl rt u = Inl e \<Longrightarrow> e = invalid_issuer"
  by (auto simp: assertHttpUrl_def split: option.splits if_splits)

lemma parsePairingTicket_Inr:
  assumes "parsePairingTicket rt t = Inr p"
  shows "tk_v p = PAIRING_TICKET_VERSION \<and> tk_kid p \<noteq> [] \<and> trim (tk_kid p) = tk_kid p \<and>
         tk_nonce p \<noteq> [] \<and> tk_pkid p \<noteq> [] \<and> tk_sig p \<noteq> [] \<and> js_is_integer (tk_exp p)"
  using assms
  by (auto simp: parsePairingTicket_def Let_def simp del: normalizeNonEmptyString.simps
      dest!: normalizeNonEmptyString_Inr)

lemma parsePairingTicket_Inl:
  assumes "parsePairingTicket rt t = Inl e"
  shows "e = invalid_format \<or> e = unsupported_version \<or> e = invalid_issuer"
  using assms
  by (auto simp: parsePairingTicket_def Let_def simp del: normalizeNonEmptyString.simps
      dest!: normalizeNonEmptyString_Inl assertHttpUrl_Inl)

lemma parse_normalized:
  "tick_free_ends (normalizePairingTicketText t) \<Longrightarrow>
   parsePairingTicket rt (normalizePairingTicketText t) = parsePairingTicket rt t"
  by (simp add: parsePairingTicket_def normalize_stable_iff [THEN iffD2])

section \<open>Round trip\<close>

text \<open>WHATWG URL: the origin of an \<open>http(s)\<close> URL parses to itself and is not blank.\<close>
definition url_origin_law :: "runtime \<Rightarrow> bool" where
  "url_origin_law rt \<longleftrightarrow>
     (\<forall>u protocol origin. url_parse rt u = Some (protocol, origin) \<longrightarrow> protocol = ''https:'' \<or> protocol = ''http:'' \<longrightarrow>
        url_parse rt origin = Some (protocol, origin) \<and> trim origin = origin \<and> origin \<noteq> [])"

text \<open>The base64url codec: decoding inverts encoding, and no white space or back-tick is produced.\<close>
definition b64_law :: "runtime \<Rightarrow> bool" where
  "b64_law rt \<longleftrightarrow>
     (\<forall>bs. b64_decode rt (b64_encode rt bs) = Some bs) \<and> (\<forall>bs. b64_encode rt bs = [] \<longleftrightarrow> bs = []) \<and>
     (\<forall>bs. \<forall>c \<in> set (b64_encode rt bs). \<not> is_ws c \<and> c \<noteq> CHR 0x60)"

text \<open>\<open>x\<close> is the public key of \<open>privateKey\<close>: Ed25519 accepts what \<open>privateKey\<close> signs.\<close>
definition key_pair :: "runtime \<Rightarrow> bytes \<Rightarrow> string \<Rightarrow> bool" where
  "key_pair rt privateKey x \<longleftrightarrow>
     trim x \<noteq> [] \<and> (\<exists>k. import_key rt (trim x) = Some k \<and> (\<forall>m. ed_verify rt k (ed_sign rt privateKey m) m)) \<and>
     (\<forall>m. ed_sign rt privateKey m \<noteq> [])"

lemma createPairingTicket_Inr:
  assumes "createPairingTicket rt url expiry kid nonce pk key = Inr (ticket, payload)"
  shows "ticket = PAIRING_TICKET_PREFIX @ b64_encode rt (json_utf8 rt (signedPayloadJson payload))"
    and "\<exists>protocol. url_parse rt url = Some (protocol, tk_iss payload) \<and> (protocol = ''https:'' \<or> protocol = ''http:'')"
    and "trim pk \<noteq> [] \<and> tk_pkid payload = trim pk \<and> tk_v payload = PAIRING_TICKET_VERSION \<and> tk_kid payload = kid \<and>
         tk_nonce payload = b64_encode rt nonce \<and> tk_exp payload = real_of_int \<lfloor>expiry / 1000\<rfloor>"
    and "tk_sig payload = b64_encode rt (ed_sign rt key
           (json_utf8 rt (canonicalizePairingTicketPayload (toUnsignedPayload payload))))"
  using assms
  by (auto simp: createPairingTicket_def assertHttpUrl_def encodeBase64url_def Let_def toUnsignedPayload_def
      split: option.splits if_splits)

lemma ticket_text_normal:
  assumes "b64_law rt" and "bs \<noteq> []"
  shows "normalizePairingTicketText (PAIRING_TICKET_PREFIX @ b64_encode rt bs) = PAIRING_TICKET_PREFIX @ b64_encode rt bs"
proof (rule normalize_fixed)
  have enc: "\<forall>c \<in> set (b64_encode rt bs). \<not> is_ws c \<and> c \<noteq> CHR 0x60" "b64_encode rt bs \<noteq> []"
    using assms by (auto simp: b64_law_def)
  then show "\<forall>c \<in> set (PAIRING_TICKET_PREFIX @ b64_encode rt bs). \<not> is_ws c"
    by (auto simp: PAIRING_TICKET_PREFIX_def is_ws_def)
  have "last (b64_encode rt bs) \<noteq> CHR 0x60" using enc last_in_set by blast
  then show "tick_free_ends (PAIRING_TICKET_PREFIX @ b64_encode rt bs)"
    using enc by (simp add: tick_free_ends_def PAIRING_TICKET_PREFIX_def)
qed

lemma parse_printed:
  assumes "b64_law rt" and "json_utf8 rt (signedPayloadJson p) \<noteq> []"
    and "utf8_json rt (json_utf8 rt (signedPayloadJson p)) = Some (signedPayloadJson p)"
    and "tk_v p = PAIRING_TICKET_VERSION" and "assertHttpUrl rt (tk_iss p) = Inr (tk_iss p)" and "js_is_integer (tk_exp p)"
    and "\<forall>s \<in> {tk_kid p, tk_nonce p, tk_pkid p, tk_sig p}. trim s = s \<and> s \<noteq> []"
  shows "parsePairingTicket rt (PAIRING_TICKET_PREFIX @ b64_encode rt (json_utf8 rt (signedPayloadJson p))) = Inr p"
proof -
  let ?bs = "json_utf8 rt (signedPayloadJson p)"
  have enc: "b64_decode rt (b64_encode rt ?bs) = Some ?bs" "b64_encode rt ?bs \<noteq> []"
    using assms(1,2) by (auto simp: b64_law_def)
  have fields: "js_get (signedPayloadJson p) ''v'' = JNum PAIRING_TICKET_VERSION"
    "js_get (signedPayloadJson p) ''iss'' = JStr (tk_iss p)" "js_get (signedPayloadJson p) ''kid'' = JStr (tk_kid p)"
    "js_get (signedPayloadJson p) ''nonce'' = JStr (tk_nonce p)" "js_get (signedPayloadJson p) ''exp'' = JNum (tk_exp p)"
    "js_get (signedPayloadJson p) ''pkid'' = JStr (tk_pkid p)" "js_get (signedPayloadJson p) ''sig'' = JStr (tk_sig p)"
    "is_object (signedPayloadJson p)"
    using assms(4) by (simp_all add: signedPayloadJson_def)
  show ?thesis
    using enc fields assms(3-7)
    by (simp add: parsePairingTicket_def ticket_text_normal [OF assms(1,2)] Let_def decodeBase64url_def
        del: bindE_eq_Inr throw_if_eq_Inr of_option_eq_Inr catchE_eq_Inr) 
qed

lemma created_ticket_parses:
  assumes "createPairingTicket rt url expiry kid nonce pk key = Inr (ticket, payload)"
    and "b64_law rt" "url_origin_law rt" "key_pair rt key x"
    and "json_utf8 rt (signedPayloadJson payload) \<noteq> []"
    and "utf8_json rt (json_utf8 rt (signedPayloadJson payload)) = Some (signedPayloadJson payload)"
    and "trim kid = kid" "kid \<noteq> []" "nonce \<noteq> []"
  shows "parsePairingTicket rt ticket = Inr payload" and "signatureVerified rt payload x"
proof -
  note created = createPairingTicket_Inr [OF assms(1)]
  have b64: "b64_decode rt (b64_encode rt bs) = Some bs" "trim (b64_encode rt bs) = b64_encode rt bs"
      "b64_encode rt bs = [] \<longleftrightarrow> bs = []" for bs
    using assms(2) trim_noop by (auto simp: b64_law_def)
  have sig: "tk_sig payload \<noteq> []" "trim (tk_sig payload) = tk_sig payload"
    using created(4) assms(4) b64 by (auto simp: key_pair_def)
  have iss: "assertHttpUrl rt (tk_iss payload) = Inr (tk_iss payload)"
  proof -
    obtain protocol where "url_parse rt url = Some (protocol, tk_iss payload)" "protocol = ''https:'' \<or> protocol = ''http:''"
      using created(2) by blast
    moreover from this have "url_parse rt (tk_iss payload) = Some (protocol, tk_iss payload)"
      using assms(3) unfolding url_origin_law_def by blast
    ultimately show ?thesis by (auto simp: assertHttpUrl_def)
  qed
  have int: "js_is_integer (tk_exp payload)" using created(3) by simp
  have strs: "\<forall>s \<in> {tk_kid payload, tk_nonce payload, tk_pkid payload, tk_sig payload}. trim s = s \<and> s \<noteq> []"
    using created(3) sig assms(7-9) b64 by simp
  show "parsePairingTicket rt ticket = Inr payload"
    unfolding created(1) using created(3) by (intro parse_printed assms(2,5,6) iss int strs) simp
  show "signatureVerified rt payload x"
    using assms(4) created(4) sig(1) b64(1)
    by (auto simp: signatureVerified_def verifyPairingTicketSignature_def key_pair_def decodeBase64url_def
        split: option.splits)
qed

text \<open>
  (C28) A ticket made by \<open>createPairingTicket\<close> parses back to exactly the payload that was signed, its
  signature verifies under the issuer's public key, and its expiry is the requested one rounded
  down to the second. Relied on: the base64url codec, JSON on this payload, URL origins and Ed25519.
\<close>
theorem created_ticket_verifies:
  assumes "createPairingTicket rt url expiry kid nonce pk key = Inr (ticket, payload)"
    and "b64_law rt" "url_origin_law rt" "key_pair rt key x"
    and "json_utf8 rt (signedPayloadJson payload) \<noteq> []"
    and "utf8_json rt (json_utf8 rt (signedPayloadJson payload)) = Some (signedPayloadJson payload)"
    and "trim kid = kid" "kid \<noteq> []" "nonce \<noteq> []"
  shows "parsePairingTicket rt ticket = Inr payload \<and> signatureVerified rt payload x \<and>
         tk_exp payload * 1000 \<le> expiry \<and> expiry < tk_exp payload * 1000 + 1000"
  using created_ticket_parses [OF assms] createPairingTicket_Inr(3) [OF assms(1)]
    floor_mult_le [of 1000 expiry] floor_mult_gt [of 1000 expiry]
  by simp

section \<open>A concrete runtime\<close>

text \<open>
  Small computable stand-ins for the host, used by the witnesses: bytes are written in unary, one
  JSON text is known, and a signature is the key followed by the message.
\<close>
fun unary_encode :: "bytes \<Rightarrow> string" where
  "unary_encode [] = []"
| "unary_encode (n # bs) = replicate n CHR ''A'' @ ''B'' @ unary_encode bs"

fun unary_decode :: "nat \<Rightarrow> string \<Rightarrow> bytes option" where
  "unary_decode n [] = (if n = 0 then Some [] else None)"
| "unary_decode n (c # s) =
     (if c = CHR ''A'' then unary_decode (Suc n) s
      else if c = CHR ''B'' then map_option (\<lambda>bs. n # bs) (unary_decode 0 s) else None)"

definition demo_origin :: string where "demo_origin = ''https://a''"
definition demo_key :: bytes where "demo_key = [1]"

definition demo_payload :: PairingTicketPayload where
  "demo_payload = \<lparr>tk_v = 2, tk_iss = demo_origin, tk_kid = ''K'', tk_nonce = ''AB'', tk_exp = 5, tk_pkid = ''P'',
     tk_sig = ''ABB''\<rparr>"

definition demo_ulids :: ulid_lib where
  "demo_ulids = \<lparr>isValid = (\<lambda>_. True), decodeTime = (\<lambda>_. Some 0)\<rparr>"

definition demo_did :: "char \<Rightarrow> string" where
  "demo_did c = ''did:cdi:a.b:agent:0000000000000000000000000'' @ [c]"

definition demo_runtime :: runtime where
  "demo_runtime =
     \<lparr>url_parse = (\<lambda>u. if u = demo_origin then Some (''https:'', demo_origin) else None),
      b64_encode = unary_encode, b64_decode = unary_decode 0,
      json_utf8 = (\<lambda>j. if j = signedPayloadJson demo_payload then [2] else [0]),
      utf8_json = (\<lambda>bs. if bs = [2] then Some (signedPayloadJson demo_payload) else None),
      number_str = (\<lambda>_. ''0''), import_key = (\<lambda>x. if x = ''X'' then Some demo_key else None),
      ed_sign = (\<lambda>k m. k @ m), ed_verify = (\<lambda>k s m. s = k @ m), ulids = demo_ulids\<rparr>"

definition demo_ticket :: string where "demo_ticket = ''clwpair1_AAB''"

lemma unary_decode_replicate: "unary_decode m (replicate n CHR ''A'' @ s) = unary_decode (m + n) s"
  by (induction n arbitrary: m) simp_all

lemma unary_decode_encode: "unary_decode 0 (unary_encode bs) = Some bs"
  by (induction bs) (simp_all add: unary_decode_replicate)

lemma demo_agent_did: "is_agent_did demo_ulids (demo_did CHR ''1'')" "is_agent_did demo_ulids (demo_did CHR ''2'')"
  by code_simp+

lemma demo_laws: "b64_law demo_runtime" "url_origin_law demo_runtime" "key_pair demo_runtime demo_key ''X''"
proof -
  have ab: "\<not> is_ws CHR ''A''" "\<not> is_ws CHR ''B''" by (simp_all add: is_ws_def)
  have "set (unary_encode bs) \<subseteq> {CHR ''A'', CHR ''B''}" for bs by (induction bs) auto
  then have "\<forall>c \<in> set (unary_encode bs). \<not> is_ws c \<and> c \<noteq> CHR 0x60" for bs
    using ab by (fastforce dest: subsetD)
  moreover have "unary_encode bs = [] \<longleftrightarrow> bs = []" for bs by (cases bs) auto
  ultimately show "b64_law demo_runtime"
    by (simp add: b64_law_def demo_runtime_def unary_decode_encode)
  have "trim demo_origin = demo_origin" "demo_origin \<noteq> []"
    by (simp_all add: demo_origin_def trim_noop is_ws_def)
  moreover have "url_parse demo_runtime = (\<lambda>u. if u = demo_origin then Some (''https:'', demo_origin) else None)"
    by (simp add: demo_runtime_def)
  ultimately show "url_origin_law demo_runtime"
    unfolding url_origin_law_def by (auto split: if_splits)
  show "key_pair demo_runtime demo_key ''X''"
    by (simp add: key_pair_def demo_runtime_def demo_key_def trim_noop is_ws_def)
qed

lemma demo_created:
  "createPairingTicket demo_runtime demo_origin 5999 ''K'' [1] ''P'' demo_key = Inr (demo_ticket, demo_payload)"
proof -
  have "canonicalizePairingTicketPayload p \<noteq> signedPayloadJson demo_payload" for p :: PairingTicketUnsignedPayload
    by (simp add: canonicalizePairingTicketPayload_def signedPayloadJson_def)
  then show ?thesis
    by (simp add: createPairingTicket_def assertHttpUrl_def demo_runtime_def Let_def encodeBase64url_def trim_noop
        is_ws_def demo_key_def demo_payload_def demo_ticket_def PAIRING_TICKET_PREFIX_def PAIRING_TICKET_VERSION_def
        eval_nat_numeral)
qed

lemma created_ticket_demo:
  "parsePairingTicket demo_runtime demo_ticket = Inr demo_payload \<and> signatureVerified demo_runtime demo_payload ''X''"
proof -
  have "json_utf8 demo_runtime (signedPayloadJson demo_payload) \<noteq> []"
    "utf8_json demo_runtime (json_utf8 demo_runtime (signedPayloadJson demo_payload)) = Some (signedPayloadJson demo_payload)"
    "trim ''K'' = ''K''" "''K'' \<noteq> []" "[1 :: nat] \<noteq> []"
    by (simp_all add: demo_runtime_def trim_noop is_ws_def)
  note created_ticket_parses [OF demo_created demo_laws this]
  then show ?thesis by simp
qed

theorem created_ticket_verifies_witness:
  "parsePairingTicket demo_runtime demo_ticket = Inr demo_payload \<and>
   signatureVerified demo_runtime demo_payload ''X'' \<and>
   tk_exp demo_payload * 1000 \<le> 5999 \<and> 5999 < tk_exp demo_payload * 1000 + 1000"
  by (rule created_ticket_verifies [OF demo_created demo_laws])
    (simp_all add: demo_runtime_def trim_noop is_ws_def)

text \<open>
  Normalising the text of a pairing ticket twice changes nothing exactly when the normal form
  has no back-tick at either end; the two loops strip back-ticks only before the inner white space
  is removed, so this does not hold of every text.
\<close>
theorem normalizePairingTicketText_stable_iff:
  "(normalizePairingTicketText (normalizePairingTicketText s) = normalizePairingTicketText s \<longleftrightarrow>
    tick_free_ends (normalizePairingTicketText s)) \<and>
   \<not> tick_free_ends (normalizePairingTicketText [CHR 0x60, CHR 0x20, CHR 0x60, CHR ''a''])"
proof
  show "\<not> tick_free_ends (normalizePairingTicketText [CHR 0x60, CHR 0x20, CHR 0x60, CHR ''a''])"
    by (simp add: tick_free_ends_def normalizePairingTicketText_def strip_back_ticks_def trim_def trimStart_def trimEnd_def is_ws_def)
qed (rule normalize_stable_iff)

end
