(* ===== verification/Trust_Store.thy ===== *)
theory Trust_Store
  imports Pairing_Ticket
begin

text \<open>
  The proxy's trust store: the contract \<open>ProxyTrustStore\<close> and its in-memory implementation of
  \<open>apps/proxy/src/proxy-trust-store.ts\<close>, the pair keys of \<open>proxy-trust-keys.ts\<close> and the two guards
  of \<open>trust-policy.ts\<close> that call it.

  State: \<open>memory_store\<close>, one field per captured variable of \<open>createInMemoryProxyTrustStore\<close>. Each
  method is a function of the state that returns its result (an error on the left) and the new
  state; \<open>nowUtcMs()\<close> is the argument \<open>clock\<close>. \<open>confirmPairingTicket\<close> awaits the signature check in the
  middle, so it is the composition of the part before (\<open>confirm_lookup\<close>) and the part after
  (\<open>confirm_admit\<close>, \<open>confirm_commit\<close>) the suspension.

  The locale \<open>trust_store\<close> is the contract the callers rely on: a pair becomes allowed only by a
  call that grants it. It is interpreted here on the in-memory store and in \<open>Trust_State\<close> on the
  durable object.
\<close>

section \<open>Pair keys and expiry (proxy-trust-keys.ts)\<close>

definition toPairKey :: "string \<Rightarrow> string \<Rightarrow> string" where
  "toPairKey initiatorAgentDid responderAgentDid =
     js_join ''|'' (sort [initiatorAgentDid, responderAgentDid])"

definition normalizeExpiryToWholeSecond :: "ms \<Rightarrow> ms" where
  "normalizeExpiryToWholeSecond expiresAtMs = real_of_int \<lfloor>expiresAtMs / 1000\<rfloor> * 1000"

section \<open>Data (proxy-trust-store.ts)\<close>

record PeerProfile =
  agentName :: string
  humanName :: string
  proxyOrigin :: "string option"

record PairingTicketInput =
  ci_initiatorAgentDid :: string
  ci_initiatorProfile :: PeerProfile
  ci_issuerProxyUrl :: string
  ci_ticket :: string
  ci_publicKeyX :: string
  ci_allowResponderAgentDid :: "string option"
  ci_expiresAtMs :: ms
  ci_nowMs :: "ms option"

record PairingTicketResult =
  cr_ticket :: string
  cr_expiresAtMs :: ms
  cr_initiatorAgentDid :: string
  cr_initiatorProfile :: PeerProfile
  cr_issuerProxyUrl :: string

record PairingTicketConfirmInput =
  fi_ticket :: string
  fi_responderAgentDid :: string
  fi_responderProfile :: PeerProfile
  fi_nowMs :: "ms option"

record PairingTicketConfirmResult =
  fr_initiatorAgentDid :: string
  fr_initiatorProfile :: PeerProfile
  fr_responderAgentDid :: string
  fr_responderProfile :: PeerProfile
  fr_issuerProxyUrl :: string

record PairingTicketStatusInput =
  si_ticket :: string
  si_nowMs :: "ms option"

record StoredPairingTicket =
  st_ticket :: string
  st_expiresAtMs :: ms
  st_initiatorAgentDid :: string
  st_initiatorProfile :: PeerProfile
  st_issuerProxyUrl :: string
  st_publicKeyX :: string
  st_allowResponderAgentDid :: "string option"

record StoredConfirmedPairingTicket =
  cf_ticket :: string
  cf_expiresAtMs :: ms
  cf_initiatorAgentDid :: string
  cf_initiatorProfile :: PeerProfile
  cf_responderAgentDid :: string
  cf_responderProfile :: PeerProfile
  cf_issuerProxyUrl :: string
  cf_confirmedAtMs :: ms

datatype PairingTicketStatusResult =
    StatusPending StoredPairingTicket
  | StatusConfirmed StoredConfirmedPairingTicket

text \<open>\<open>REVOKED_AGENT_MARKER_TTL_MS = 30 * 24 * 60 * 60 * 1000\<close>\<close>
definition REVOKED_AGENT_MARKER_TTL_MS :: ms where
  "REVOKED_AGENT_MARKER_TTL_MS = 2592000000"

datatype store_error = ProxyTrustStoreError (se_code: string) (se_message: string) (se_status: nat)

definition err_already_confirmed :: store_error where
  "err_already_confirmed = ProxyTrustStoreError ''PROXY_PAIR_TICKET_ALREADY_CONFIRMED''
     ''Pairing ticket has already been confirmed'' 409"
definition err_not_found :: store_error where
  "err_not_found = ProxyTrustStoreError ''PROXY_PAIR_TICKET_NOT_FOUND'' ''Pairing ticket not found'' 404"
definition err_signature :: store_error where
  "err_signature = ProxyTrustStoreError ''PROXY_PAIR_TICKET_INVALID_SIGNATURE''
     ''Pairing ticket signature is invalid'' 400"
definition err_expired :: store_error where
  "err_expired = ProxyTrustStoreError ''PROXY_PAIR_TICKET_EXPIRED'' ''Pairing ticket has expired'' 410"
definition err_issuer :: store_error where
  "err_issuer = ProxyTrustStoreError ''PROXY_PAIR_TICKET_INVALID_ISSUER''
     ''Pairing ticket issuer URL is invalid'' 400"
definition err_responder :: store_error where
  "err_responder = ProxyTrustStoreError ''PROXY_PAIR_RESPONDER_FORBIDDEN''
     ''Responder agent DID is not allowed for this pairing ticket'' 403"
definition err_start :: "string \<Rightarrow> store_error" where
  "err_start msg = ProxyTrustStoreError ''PROXY_PAIR_START_INVALID_BODY'' msg 400"

lemmas store_errors =
  err_already_confirmed_def err_not_found_def err_signature_def err_expired_def err_issuer_def
  err_responder_def err_start_def

section \<open>The in-memory store\<close>

record memory_store =
  pairKeys :: "string set"
  agentPeers :: "string \<rightharpoonup> string set"
  revokedAgents :: "(string \<times> ms) list"
  confirmedPairingTickets :: "(string \<times> StoredConfirmedPairingTicket) list"
  pairingTickets :: "(string \<times> StoredPairingTicket) list"

definition createInMemoryProxyTrustStore :: memory_store where
  "createInMemoryProxyTrustStore =
     \<lparr>pairKeys = {}, agentPeers = Map.empty, revokedAgents = [], confirmedPairingTickets = [],
      pairingTickets = []\<rparr>"

definition cleanup :: "ms \<Rightarrow> string option \<Rightarrow> memory_store \<Rightarrow> memory_store" where
  "cleanup nowMs skipTicketKid s =
     s\<lparr>pairingTickets :=
         alist_prune (\<lambda>ticketKid d. skipTicketKid \<noteq> Some ticketKid \<and> st_expiresAtMs d \<le> nowMs) (pairingTickets s),
       confirmedPairingTickets :=
         alist_prune (\<lambda>ticketKid d. skipTicketKid \<noteq> Some ticketKid \<and> cf_expiresAtMs d \<le> nowMs)
           (confirmedPairingTickets s),
       revokedAgents := alist_prune (\<lambda>_ expiresAtMs. expiresAtMs \<le> nowMs) (revokedAgents s)\<rparr>"

definition upsertPeer :: "string \<Rightarrow> string \<Rightarrow> memory_store \<Rightarrow> memory_store" where
  "upsertPeer leftAgentDid rightAgentDid s =
     s\<lparr>agentPeers := (agentPeers s)(leftAgentDid \<mapsto>
        insert rightAgentDid (case agentPeers s leftAgentDid of None \<Rightarrow> {} | Some peers \<Rightarrow> peers))\<rparr>"

definition parseStoredTicket :: "runtime \<Rightarrow> string \<Rightarrow> (store_error, PairingTicketPayload) result" where
  "parseStoredTicket rt inputTicket =
     (case parsePairingTicket rt inputTicket of
        Inl e \<Rightarrow> Inl (ProxyTrustStoreError (te_code e) (te_message e) 400)
      | Inr p \<Rightarrow> Inr p)"

definition resolve_now :: "ms option \<Rightarrow> ms \<Rightarrow> ms" where
  "resolve_now nowMs clock = (case nowMs of None \<Rightarrow> clock | Some t \<Rightarrow> t)"

subsection \<open>confirmPairingTicket\<close>

text \<open>\<open>resolveConfirmablePairingTicket\<close> up to the \<open>await\<close> of the signature check.\<close>
definition confirm_lookup ::
  "runtime \<Rightarrow> ms \<Rightarrow> PairingTicketConfirmInput \<Rightarrow> memory_store \<Rightarrow>
   (store_error, PairingTicketPayload \<times> StoredPairingTicket) result \<times> memory_store" where
  "confirm_lookup rt nowMs input s =
     (let normalizedTicket = normalizePairingTicketText (fi_ticket input) in
      case parseStoredTicket rt normalizedTicket of Inl e \<Rightarrow> (Inl e, s) | Inr parsedTicket \<Rightarrow>
      let s = cleanup nowMs (Some (tk_kid parsedTicket)) s in
      case map_of (confirmedPairingTickets s) (tk_kid parsedTicket) of
        Some confirmed \<Rightarrow>
          if cf_ticket confirmed = normalizedTicket then (Inl err_already_confirmed, s)
          else (case map_of (pairingTickets s) (tk_kid parsedTicket) of
                  None \<Rightarrow> (Inl err_not_found, s) | Some stored \<Rightarrow> (Inr (parsedTicket, stored), s))
      | None \<Rightarrow> (case map_of (pairingTickets s) (tk_kid parsedTicket) of
                  None \<Rightarrow> (Inl err_not_found, s) | Some stored \<Rightarrow> (Inr (parsedTicket, stored), s)))"

text \<open>\<open>resolveConfirmablePairingTicket\<close> from the result of the signature check on.\<close>
definition confirm_admit ::
  "runtime \<Rightarrow> ms \<Rightarrow> PairingTicketConfirmInput \<Rightarrow> PairingTicketPayload \<Rightarrow> StoredPairingTicket \<Rightarrow> memory_store \<Rightarrow>
   (store_error, PairingTicketConfirmResult) result \<times> memory_store" where
  "confirm_admit rt nowMs input parsedTicket stored s =
     (if \<not> signatureVerified rt parsedTicket (st_publicKeyX stored) then (Inl err_signature, s)
      else if st_expiresAtMs stored \<le> nowMs \<or> tk_exp parsedTicket * 1000 \<le> nowMs then
        (Inl err_expired, s\<lparr>pairingTickets := AList.delete (tk_kid parsedTicket) (pairingTickets s)\<rparr>)
      else if st_issuerProxyUrl stored \<noteq> tk_iss parsedTicket then (Inl err_issuer, s)
      else if st_allowResponderAgentDid stored \<noteq> None \<and>
              st_allowResponderAgentDid stored \<noteq> Some (fi_responderAgentDid input) then (Inl err_responder, s)
      else (Inr \<lparr>fr_initiatorAgentDid = st_initiatorAgentDid stored,
                 fr_initiatorProfile = st_initiatorProfile stored,
                 fr_responderAgentDid = fi_responderAgentDid input,
                 fr_responderProfile = fi_responderProfile input,
                 fr_issuerProxyUrl = st_issuerProxyUrl stored\<rparr>, s))"

text \<open>The rest of \<open>confirmPairingTicket\<close>: record the pair, the peers and the confirmation.\<close>
definition confirm_commit ::
  "ms \<Rightarrow> PairingTicketConfirmInput \<Rightarrow> string \<Rightarrow> ms \<Rightarrow> PairingTicketConfirmResult \<Rightarrow> memory_store \<Rightarrow> memory_store" where
  "confirm_commit confirmClock input ticketKid expiresAtMs pair s =
     (let confirmedAtMs = normalizeExpiryToWholeSecond confirmClock;
          s = s\<lparr>pairKeys := insert (toPairKey (fr_initiatorAgentDid pair) (fr_responderAgentDid pair)) (pairKeys s)\<rparr>;
          s = upsertPeer (fr_initiatorAgentDid pair) (fr_responderAgentDid pair) s;
          s = upsertPeer (fr_responderAgentDid pair) (fr_initiatorAgentDid pair) s;
          s = s\<lparr>pairingTickets := AList.delete ticketKid (pairingTickets s)\<rparr>;
          ticket = normalizePairingTicketText (fi_ticket input)
      in s\<lparr>confirmedPairingTickets := AList.update ticketKid
             \<lparr>cf_ticket = ticket, cf_expiresAtMs = expiresAtMs,
              cf_initiatorAgentDid = fr_initiatorAgentDid pair, cf_initiatorProfile = fr_initiatorProfile pair,
              cf_responderAgentDid = fr_responderAgentDid pair, cf_responderProfile = fr_responderProfile pair,
              cf_issuerProxyUrl = fr_issuerProxyUrl pair, cf_confirmedAtMs = confirmedAtMs\<rparr>
             (confirmedPairingTickets s)\<rparr>)"

definition confirm_resume ::
  "runtime \<Rightarrow> ms \<Rightarrow> ms \<Rightarrow> PairingTicketConfirmInput \<Rightarrow> PairingTicketPayload \<Rightarrow> StoredPairingTicket \<Rightarrow> memory_store \<Rightarrow>
   (store_error, PairingTicketConfirmResult) result \<times> memory_store" where
  "confirm_resume rt nowMs confirmClock input parsedTicket stored s =
     (case confirm_admit rt nowMs input parsedTicket stored s of
        (Inl e, s) \<Rightarrow> (Inl e, s)
      | (Inr pair, s) \<Rightarrow>
          (Inr pair, confirm_commit confirmClock input (tk_kid parsedTicket) (st_expiresAtMs stored) pair s))"

text \<open>The clock is read once for the checks and once more for \<open>confirmedAtMs\<close>.\<close>
definition confirmPairingTicket ::
  "runtime \<Rightarrow> ms \<Rightarrow> ms \<Rightarrow> PairingTicketConfirmInput \<Rightarrow> memory_store \<Rightarrow>
   (store_error, PairingTicketConfirmResult) result \<times> memory_store" where
  "confirmPairingTicket rt clock clock' input s =
     (case confirm_lookup rt (resolve_now (fi_nowMs input) clock) input s of
        (Inl e, s) \<Rightarrow> (Inl e, s)
      | (Inr (parsedTicket, stored), s) \<Rightarrow>
          confirm_resume rt (resolve_now (fi_nowMs input) clock) (resolve_now (fi_nowMs input) clock')
            input parsedTicket stored s)"

subsection \<open>The other methods\<close>

definition memory_createPairingTicket ::
  "runtime \<Rightarrow> ms \<Rightarrow> PairingTicketInput \<Rightarrow> memory_store \<Rightarrow>
   (store_error, PairingTicketResult) result \<times> memory_store" where
  "memory_createPairingTicket rt clock input s =
     (let s = cleanup (resolve_now (ci_nowMs input) clock) None s;
          ticket = normalizePairingTicketText (ci_ticket input) in
      case parseStoredTicket rt ticket of Inl e \<Rightarrow> (Inl e, s) | Inr parsedTicket \<Rightarrow>
      let normalizedExpiresAtMs = normalizeExpiryToWholeSecond (ci_expiresAtMs input);
          publicKeyX = trim (ci_publicKeyX input);
          allowed = map_option trim (ci_allowResponderAgentDid input) in
      if tk_iss parsedTicket \<noteq> ci_issuerProxyUrl input then (Inl err_issuer, s)
      else if tk_exp parsedTicket * 1000 \<noteq> normalizedExpiresAtMs then
        (Inl (err_start ''Pairing ticket expiry is invalid''), s)
      else if length publicKeyX = 0 then (Inl (err_start ''Pairing ticket public key is invalid''), s)
      else if allowed = Some [] then
        (Inl (err_start ''allowResponderAgentDid must be a non-empty string''), s)
      else if (case allowed of None \<Rightarrow> False
               | Some d \<Rightarrow> (case parseAgentDid (ulids rt) d of Inl _ \<Rightarrow> True | Inr _ \<Rightarrow> False)) then
        (Inl (err_start ''allowResponderAgentDid must be a valid agent DID''), s)
      else
        (Inr \<lparr>cr_ticket = ticket, cr_expiresAtMs = normalizedExpiresAtMs,
              cr_initiatorAgentDid = ci_initiatorAgentDid input,
              cr_initiatorProfile = ci_initiatorProfile input, cr_issuerProxyUrl = tk_iss parsedTicket\<rparr>,
         s\<lparr>pairingTickets := AList.update (tk_kid parsedTicket)
             \<lparr>st_ticket = ticket, st_expiresAtMs = normalizedExpiresAtMs,
              st_initiatorAgentDid = ci_initiatorAgentDid input,
              st_initiatorProfile = ci_initiatorProfile input, st_issuerProxyUrl = tk_iss parsedTicket,
              st_publicKeyX = publicKeyX, st_allowResponderAgentDid = allowed\<rparr>
             (pairingTickets s),
           confirmedPairingTickets := AList.delete (tk_kid parsedTicket) (confirmedPairingTickets s)\<rparr>))"

definition resolveTicketStatus ::
  "runtime \<Rightarrow> ms \<Rightarrow> PairingTicketStatusInput \<Rightarrow> memory_store \<Rightarrow>
   (store_error, PairingTicketStatusResult) result \<times> memory_store" where
  "resolveTicketStatus rt clock input s =
     (let nowMs = resolve_now (si_nowMs input) clock;
          normalizedTicket = normalizePairingTicketText (si_ticket input) in
      case parseStoredTicket rt normalizedTicket of Inl e \<Rightarrow> (Inl e, s) | Inr parsedTicket \<Rightarrow>
      let s = cleanup nowMs (Some (tk_kid parsedTicket)) s;
          pending = map_of (pairingTickets s) (tk_kid parsedTicket);
          confirmed = map_of (confirmedPairingTickets s) (tk_kid parsedTicket) in
      if (case pending of None \<Rightarrow> False | Some p \<Rightarrow> st_ticket p = normalizedTicket) then
        (let p = the pending in
         if st_expiresAtMs p \<le> nowMs \<or> tk_exp parsedTicket * 1000 \<le> nowMs then
           (Inl err_expired, s\<lparr>pairingTickets := AList.delete (tk_kid parsedTicket) (pairingTickets s)\<rparr>)
         else (Inr (StatusPending p), s))
      else if (case confirmed of None \<Rightarrow> False | Some c \<Rightarrow> cf_ticket c = normalizedTicket) then
        (let c = the confirmed in
         if cf_expiresAtMs c \<le> nowMs \<or> tk_exp parsedTicket * 1000 \<le> nowMs then
           (Inl err_expired,
            s\<lparr>confirmedPairingTickets := AList.delete (tk_kid parsedTicket) (confirmedPairingTickets s)\<rparr>)
         else (Inr (StatusConfirmed c), s))
      else if tk_exp parsedTicket * 1000 \<le> nowMs then (Inl err_expired, s)
      else (Inl err_not_found, s))"

definition memory_markAgentRevoked ::
  "runtime \<Rightarrow> ms \<Rightarrow> string \<Rightarrow> memory_store \<Rightarrow> (store_error, unit) result \<times> memory_store" where
  "memory_markAgentRevoked rt clock agentDid s =
     (case parseAgentDid (ulids rt) agentDid of
        Inl _ \<Rightarrow> (Inl (ProxyTrustStoreError ''PROXY_AGENT_REVOKE_INVALID_BODY''
                       ''Agent revoke input is invalid'' 400), s)
      | Inr _ \<Rightarrow>
          let s = cleanup clock None s in
          (Inr (), s\<lparr>revokedAgents :=
             AList.update agentDid (clock + REVOKED_AGENT_MARKER_TTL_MS) (revokedAgents s)\<rparr>))"

definition memory_isAgentRevoked ::
  "runtime \<Rightarrow> ms \<Rightarrow> string \<Rightarrow> memory_store \<Rightarrow> (store_error, bool) result \<times> memory_store" where
  "memory_isAgentRevoked rt clock agentDid s =
     (case parseAgentDid (ulids rt) agentDid of
        Inl _ \<Rightarrow> (Inl (ProxyTrustStoreError ''PROXY_AGENT_REVOKED_CHECK_INVALID_BODY''
                       ''Agent revoked check input is invalid'' 400), s)
      | Inr _ \<Rightarrow>
          let s = cleanup clock None s in
          (Inr (case map_of (revokedAgents s) agentDid of None \<Rightarrow> False | Some t \<Rightarrow> t > clock), s))"

definition memory_isAgentKnown :: "string \<Rightarrow> memory_store \<Rightarrow> bool" where
  "memory_isAgentKnown agentDid s =
     (case agentPeers s agentDid of None \<Rightarrow> False | Some peers \<Rightarrow> peers \<noteq> {})"

definition memory_isPairAllowed :: "memory_store \<Rightarrow> string \<Rightarrow> string \<Rightarrow> bool" where
  "memory_isPairAllowed s initiatorAgentDid responderAgentDid =
     (if initiatorAgentDid = responderAgentDid then True
      else toPairKey initiatorAgentDid responderAgentDid \<in> pairKeys s)"

definition memory_upsertPair :: "string \<Rightarrow> string \<Rightarrow> memory_store \<Rightarrow> memory_store" where
  "memory_upsertPair initiatorAgentDid responderAgentDid s =
     upsertPeer responderAgentDid initiatorAgentDid
       (upsertPeer initiatorAgentDid responderAgentDid
         (s\<lparr>pairKeys := insert (toPairKey initiatorAgentDid responderAgentDid) (pairKeys s)\<rparr>))"

section \<open>The contract\<close>

abbreviation bar_free :: "string \<Rightarrow> bool" where
  "bar_free d \<equiv> CHR ''|'' \<notin> set d"

text \<open>
  \<open>step c s\<close> is the state after the call \<open>c\<close>, \<open>allowed\<close> is what \<open>isPairAllowed\<close> answers and \<open>grants c s\<close>
  is the pair the call establishes, if it does. Agent DIDs never contain the key separator.
\<close>
locale trust_store =
  fixes step :: "'c \<Rightarrow> 's \<Rightarrow> 's"
    and allowed :: "'s \<Rightarrow> string \<Rightarrow> string \<Rightarrow> bool"
    and grants :: "'c \<Rightarrow> 's \<Rightarrow> (string \<times> string) option"
  assumes allowed_self: "allowed s a a"
    and allowed_sym: "allowed s a b \<Longrightarrow> allowed s b a"
    and allowed_granted: "grants c s = Some (a, b) \<Longrightarrow> allowed (step c s) a b"
    and allowed_mono: "allowed s x y \<Longrightarrow> allowed (step c s) x y"
    and allowed_source:
      "allowed (step c s) x y \<Longrightarrow> \<not> allowed s x y \<Longrightarrow> bar_free x \<Longrightarrow> bar_free y \<Longrightarrow>
       \<exists>a b. grants c s = Some (a, b) \<and> (bar_free a \<longrightarrow> bar_free b \<longrightarrow> {a, b} = {x, y})"
begin

lemma run_mono: "allowed s x y \<Longrightarrow> allowed (fold step cs s) x y"
  by (induction cs arbitrary: s) (auto intro: allowed_mono)

lemma run_granted:
  assumes "grants c (fold step cs s) = Some (a, b)"
  shows "allowed (fold step (cs @ c # ds) s) a b \<and> allowed (fold step (cs @ c # ds) s) b a"
  using run_mono [OF allowed_granted [OF assms]] allowed_sym by simp

lemma run_source:
  assumes "allowed (fold step cs s) x y" and "\<not> allowed s x y" and "bar_free x" and "bar_free y"
  shows "\<exists>before c after a b. cs = before @ c # after \<and> grants c (fold step before s) = Some (a, b) \<and>
           (bar_free a \<longrightarrow> bar_free b \<longrightarrow> {a, b} = {x, y})"
  using assms
proof (induction cs arbitrary: s)
  case (Cons c cs)
  show ?case
  proof (cases "allowed (step c s) x y")
    case True
    with Cons.prems obtain a b where "grants c s = Some (a, b)" "bar_free a \<longrightarrow> bar_free b \<longrightarrow> {a, b} = {x, y}"
      using allowed_source by blast
    then have "c # cs = [] @ c # cs \<and> grants c (fold step [] s) = Some (a, b) \<and>
        (bar_free a \<longrightarrow> bar_free b \<longrightarrow> {a, b} = {x, y})" by simp
    then show ?thesis by blast
  next
    case False
    with Cons obtain before d after a b where
      "cs = before @ d # after" "grants d (fold step before (step c s)) = Some (a, b)"
      "bar_free a \<longrightarrow> bar_free b \<longrightarrow> {a, b} = {x, y}"
      by (metis fold_simps(2))
    then have "c # cs = (c # before) @ d # after \<and> grants d (fold step (c # before) s) = Some (a, b) \<and>
        (bar_free a \<longrightarrow> bar_free b \<longrightarrow> {a, b} = {x, y})" by simp
    then show ?thesis by blast
  qed
qed simp

end

section \<open>Pair keys\<close>

lemma sort_two: "sort [a, b] = (if a \<le> b then [a, b] else [b, a])" for a b :: string
  by auto

lemma toPairKey_sym: "toPairKey a b = toPairKey b a"
  by (auto simp: toPairKey_def sort_two)

lemma toPairKey_inject:
  assumes "bar_free a" "bar_free b" "bar_free x" "bar_free y" and eq: "toPairKey a b = toPairKey x y"
  shows "{a, b} = {x, y}"
proof -
  have "sort [a, b] = sort [x, y]"
  proof (rule js_join_inject)
    show "js_join [CHR ''|''] (sort [a, b]) = js_join [CHR ''|''] (sort [x, y])"
      using eq unfolding toPairKey_def .
  qed (use assms in \<open>auto simp: sort_two\<close>)
  then have "set (sort [a, b]) = set (sort [x, y])" by (rule arg_cong)
  then show ?thesis unfolding set_sort by simp
qed

section \<open>The in-memory store under its operations\<close>

datatype store_call =
    CallCreate PairingTicketInput
  | CallConfirm PairingTicketConfirmInput
  | CallStatus PairingTicketStatusInput
  | CallMarkRevoked string
  | CallIsRevoked string
  | CallUpsertPair string string

text \<open>A call together with the two clock readings it may make.\<close>
type_synonym timed_call = "ms \<times> ms \<times> store_call"

fun memory_step :: "runtime \<Rightarrow> timed_call \<Rightarrow> memory_store \<Rightarrow> memory_store" where
  "memory_step rt (clock, clock', CallCreate i) s = snd (memory_createPairingTicket rt clock i s)"
| "memory_step rt (clock, clock', CallConfirm i) s = snd (confirmPairingTicket rt clock clock' i s)"
| "memory_step rt (clock, clock', CallStatus i) s = snd (resolveTicketStatus rt clock i s)"
| "memory_step rt (clock, clock', CallMarkRevoked d) s = snd (memory_markAgentRevoked rt clock d s)"
| "memory_step rt (clock, clock', CallIsRevoked d) s = snd (memory_isAgentRevoked rt clock d s)"
| "memory_step rt (clock, clock', CallUpsertPair a b) s = memory_upsertPair a b s"

fun memory_grants :: "runtime \<Rightarrow> timed_call \<Rightarrow> memory_store \<Rightarrow> (string \<times> string) option" where
  "memory_grants rt (clock, clock', CallConfirm i) s =
     (case fst (confirmPairingTicket rt clock clock' i s) of Inl _ \<Rightarrow> None
      | Inr r \<Rightarrow> Some (fr_initiatorAgentDid r, fr_responderAgentDid r))"
| "memory_grants rt (clock, clock', CallUpsertPair a b) s = Some (a, b)"
| "memory_grants rt (clock, clock', c) s = None"

named_theorems memory_frame \<open>fields an operation of the in-memory store leaves alone\<close>

lemma cleanup_frame [memory_frame]:
  "pairKeys (cleanup t k s) = pairKeys s" "agentPeers (cleanup t k s) = agentPeers s"
  by (simp_all add: cleanup_def)

lemma upsertPeer_frame [memory_frame]:
  "pairKeys (upsertPeer a b s) = pairKeys s" "pairingTickets (upsertPeer a b s) = pairingTickets s"
  "confirmedPairingTickets (upsertPeer a b s) = confirmedPairingTickets s"
  "revokedAgents (upsertPeer a b s) = revokedAgents s"
  by (simp_all add: upsertPeer_def)

lemma confirm_lookup_frame [memory_frame]:
  "pairKeys (snd (confirm_lookup rt t i s)) = pairKeys s"
  "agentPeers (snd (confirm_lookup rt t i s)) = agentPeers s"
  by (simp_all add: confirm_lookup_def Let_def memory_frame split: sum.splits option.splits)

lemma confirm_admit_frame [memory_frame]:
  "pairKeys (snd (confirm_admit rt t i p d s)) = pairKeys s"
  "agentPeers (snd (confirm_admit rt t i p d s)) = agentPeers s"
  by (simp_all add: confirm_admit_def)

lemma create_frame [memory_frame]:
  "pairKeys (snd (memory_createPairingTicket rt c i s)) = pairKeys s"
  "agentPeers (snd (memory_createPairingTicket rt c i s)) = agentPeers s"
  by (simp_all add: memory_createPairingTicket_def Let_def memory_frame split: sum.splits)

lemma status_frame [memory_frame]:
  "pairKeys (snd (resolveTicketStatus rt c i s)) = pairKeys s"
  "agentPeers (snd (resolveTicketStatus rt c i s)) = agentPeers s"
  by (simp_all add: resolveTicketStatus_def Let_def memory_frame split: sum.splits)

lemma revoked_frame [memory_frame]:
  "pairKeys (snd (memory_markAgentRevoked rt c d s)) = pairKeys s"
  "agentPeers (snd (memory_markAgentRevoked rt c d s)) = agentPeers s"
  "pairKeys (snd (memory_isAgentRevoked rt c d s)) = pairKeys s"
  "agentPeers (snd (memory_isAgentRevoked rt c d s)) = agentPeers s"
  by (simp_all add: memory_markAgentRevoked_def memory_isAgentRevoked_def Let_def memory_frame split: sum.splits)

lemma confirm_cases:
  obtains (fails) e s' where "confirmPairingTicket rt c c' i s = (Inl e, s')"
      "pairKeys s' = pairKeys s" "agentPeers s' = agentPeers s"
  | (succeeds) p d r s1 where "confirm_lookup rt (resolve_now (fi_nowMs i) c) i s = (Inr (p, d), s1)"
      "confirm_admit rt (resolve_now (fi_nowMs i) c) i p d s1 = (Inr r, s1)"
      "confirmPairingTicket rt c c' i s =
         (Inr r, confirm_commit (resolve_now (fi_nowMs i) c') i (tk_kid p) (st_expiresAtMs d) r s1)"
      "pairKeys s1 = pairKeys s" "agentPeers s1 = agentPeers s"
proof -
  obtain r0 s1 where l: "confirm_lookup rt (resolve_now (fi_nowMs i) c) i s = (r0, s1)" by fastforce
  have fr: "pairKeys s1 = pairKeys s" "agentPeers s1 = agentPeers s"
    using l by (metis confirm_lookup_frame snd_conv)+
  show ?thesis
  proof (cases r0)
    case (Inl e)
    then show ?thesis using l fr by (intro fails [of e s1]) (simp_all add: confirmPairingTicket_def)
  next
    case (Inr pd)
    obtain p d where pd: "pd = (p, d)" by fastforce
    obtain r2 s2 where a: "confirm_admit rt (resolve_now (fi_nowMs i) c) i p d s1 = (r2, s2)" by fastforce
    have fr2: "pairKeys s2 = pairKeys s" "agentPeers s2 = agentPeers s"
      using a fr by (metis confirm_admit_frame snd_conv)+
    show ?thesis
    proof (cases r2)
      case (Inl e)
      then show ?thesis using l Inr pd a fr2
        by (intro fails [of e s2]) (simp_all add: confirmPairingTicket_def confirm_resume_def)
    next
      case (Inr r)
      moreover have "s2 = s1" using a Inr by (auto simp: confirm_admit_def split: if_splits)
      ultimately show ?thesis using l \<open>r0 = Inr pd\<close> pd a fr
        by (intro succeeds [of p d s1 r]) (simp_all add: confirmPairingTicket_def confirm_resume_def)
    qed
  qed
qed

lemma confirm_commit_pairKeys [memory_frame]:
  "pairKeys (confirm_commit t i k e r s) =
     insert (toPairKey (fr_initiatorAgentDid r) (fr_responderAgentDid r)) (pairKeys s)"
  by (simp add: confirm_commit_def Let_def memory_frame)

lemma memory_upsertPair_pairKeys [memory_frame]:
  "pairKeys (memory_upsertPair a b s) = insert (toPairKey a b) (pairKeys s)"
  by (simp add: memory_upsertPair_def memory_frame)

text \<open>Every call changes the set of pair keys by exactly the pair it grants.\<close>
lemma memory_step_pairKeys:
  "pairKeys (memory_step rt call s) =
     (case memory_grants rt call s of None \<Rightarrow> pairKeys s | Some (a, b) \<Rightarrow> insert (toPairKey a b) (pairKeys s))"
proof -
  obtain c c' op where call: "call = (c, c', op)" by (cases call)
  show ?thesis
  proof (cases op)
    case (CallConfirm i)
    show ?thesis
      by (rule confirm_cases [of rt c c' i s]) (simp_all add: call CallConfirm memory_frame)
  qed (simp_all add: call memory_frame)
qed

interpretation memory: trust_store "memory_step rt" memory_isPairAllowed "memory_grants rt" for rt
proof unfold_locales
  fix s a show "memory_isPairAllowed s a a" by (simp add: memory_isPairAllowed_def)
next
  fix s a b assume "memory_isPairAllowed s a b"
  then show "memory_isPairAllowed s b a"
    by (simp add: memory_isPairAllowed_def toPairKey_sym [of b a] split: if_splits)
next
  fix c s a b assume "memory_grants rt c s = Some (a, b)"
  then show "memory_isPairAllowed (memory_step rt c s) a b"
    by (simp add: memory_isPairAllowed_def memory_step_pairKeys)
next
  fix s x y c assume "memory_isPairAllowed s x y"
  then show "memory_isPairAllowed (memory_step rt c s) x y"
    by (auto simp: memory_isPairAllowed_def memory_step_pairKeys split: option.splits)
next
  fix c s x y
  assume "memory_isPairAllowed (memory_step rt c s) x y" "\<not> memory_isPairAllowed s x y"
    and bf: "bar_free x" "bar_free y"
  then obtain a b where "memory_grants rt c s = Some (a, b)" "toPairKey x y = toPairKey a b"
    by (auto simp: memory_isPairAllowed_def memory_step_pairKeys split: option.splits if_splits)
  then show "\<exists>a b. memory_grants rt c s = Some (a, b) \<and> (bar_free a \<longrightarrow> bar_free b \<longrightarrow> {a, b} = {x, y})"
    using toPairKey_inject bf by blast
qed

section \<open>Well-formed states\<close>

definition memory_wf :: "memory_store \<Rightarrow> bool" where
  "memory_wf s \<longleftrightarrow>
     distinct (map fst (pairingTickets s)) \<and> distinct (map fst (confirmedPairingTickets s)) \<and>
     distinct (map fst (revokedAgents s))"

lemma memory_wf_init: "memory_wf createInMemoryProxyTrustStore"
  by (simp add: memory_wf_def createInMemoryProxyTrustStore_def)

lemma memory_wf_cleanup [simp]: "memory_wf s \<Longrightarrow> memory_wf (cleanup t k s)"
  by (simp add: memory_wf_def cleanup_def)

lemma memory_wf_fields:
  "memory_wf s \<Longrightarrow> memory_wf (s\<lparr>pairingTickets := AList.delete k (pairingTickets s)\<rparr>)"
  "memory_wf s \<Longrightarrow> memory_wf (s\<lparr>confirmedPairingTickets := AList.delete k (confirmedPairingTickets s)\<rparr>)"
  "memory_wf s \<Longrightarrow> memory_wf (s\<lparr>revokedAgents := AList.update a e (revokedAgents s)\<rparr>)"
  by (simp_all add: memory_wf_def)

lemma memory_wf_upsertPeer [simp]: "memory_wf (upsertPeer a b s) = memory_wf s"
  by (simp add: memory_wf_def memory_frame)

lemma memory_wf_lookup: "memory_wf s \<Longrightarrow> memory_wf (snd (confirm_lookup rt t i s))"
  by (simp add: confirm_lookup_def Let_def split: sum.splits option.splits)

lemma memory_wf_confirm: "memory_wf s \<Longrightarrow> memory_wf (snd (confirmPairingTicket rt c c' i s))"
proof -
  assume wf: "memory_wf s"
  let ?t = "resolve_now (fi_nowMs i) c"
  obtain r0 s1 where l: "confirm_lookup rt ?t i s = (r0, s1)" by fastforce
  then have wf1: "memory_wf s1" using memory_wf_lookup [OF wf, of rt ?t i] by simp
  have "memory_wf (snd (confirm_admit rt ?t i p d s1))" for p d
    using wf1 by (simp add: confirm_admit_def memory_wf_fields)
  moreover have "memory_wf (confirm_commit t i k e r s2)" if "memory_wf s2" for t k e r s2
    using that by (simp add: confirm_commit_def Let_def memory_wf_def memory_frame)
  ultimately show ?thesis
    by (auto simp: confirmPairingTicket_def confirm_resume_def l wf1 split: sum.splits prod.splits)
       (metis snd_conv)+
qed

lemma memory_wf_step: "memory_wf s \<Longrightarrow> memory_wf (memory_step rt call s)"
proof -
  assume wf: "memory_wf s"
  obtain c c' op where call: "call = (c, c', op)" by (cases call)
  show ?thesis
  proof (cases op)
    case CallConfirm
    then show ?thesis using wf by (simp add: call memory_wf_confirm)
  next
    case (CallCreate i)
    then show ?thesis using memory_wf_cleanup [OF wf]
      by (auto simp: call memory_createPairingTicket_def Let_def memory_wf_def split: sum.splits)
  next
    case (CallStatus i)
    then show ?thesis using wf
      by (auto simp: call resolveTicketStatus_def Let_def memory_wf_fields split: sum.splits)
  next
    case (CallMarkRevoked d)
    then show ?thesis using wf memory_wf_cleanup [OF wf]
      by (auto simp: call memory_markAgentRevoked_def Let_def memory_wf_fields split: sum.splits)
  next
    case (CallIsRevoked d)
    then show ?thesis using wf
      by (auto simp: call memory_isAgentRevoked_def Let_def split: sum.splits)
  next
    case (CallUpsertPair a b)
    then show ?thesis using wf by (simp add: call memory_upsertPair_def) (simp add: memory_wf_def)
  qed
qed

lemma memory_wf_run: "memory_wf s \<Longrightarrow> memory_wf (fold (memory_step rt) calls s)"
  by (induction calls arbitrary: s) (auto intro: memory_wf_step)

lemma map_of_cleanup:
  assumes "memory_wf s"
  shows "map_of (pairingTickets (cleanup t k s)) j =
           (case map_of (pairingTickets s) j of None \<Rightarrow> None
            | Some d \<Rightarrow> if k \<noteq> Some j \<and> st_expiresAtMs d \<le> t then None else Some d)"
    and "map_of (confirmedPairingTickets (cleanup t k s)) j =
           (case map_of (confirmedPairingTickets s) j of None \<Rightarrow> None
            | Some d \<Rightarrow> if k \<noteq> Some j \<and> cf_expiresAtMs d \<le> t then None else Some d)"
    and "map_of (revokedAgents (cleanup t k s)) a =
           (case map_of (revokedAgents s) a of None \<Rightarrow> None
            | Some e \<Rightarrow> if e \<le> t then None else Some e)"
  using assms by (simp_all add: memory_wf_def cleanup_def map_of_alist_prune)

section \<open>Confirmation\<close>

text \<open>What a confirmation needs, in the order the code checks it.\<close>
definition confirmable :: "runtime \<Rightarrow> ms \<Rightarrow> PairingTicketConfirmInput \<Rightarrow> memory_store \<Rightarrow> PairingTicketPayload \<Rightarrow> StoredPairingTicket \<Rightarrow> bool" where
  "confirmable rt nowMs i s p d \<longleftrightarrow>
     parsePairingTicket rt (normalizePairingTicketText (fi_ticket i)) = Inr p \<and>
     (\<forall>c. map_of (confirmedPairingTickets s) (tk_kid p) = Some c \<longrightarrow>
          cf_ticket c \<noteq> normalizePairingTicketText (fi_ticket i)) \<and>
     map_of (pairingTickets s) (tk_kid p) = Some d \<and>
     signatureVerified rt p (st_publicKeyX d) \<and>
     nowMs < st_expiresAtMs d \<and> nowMs < tk_exp p * 1000 \<and>
     st_issuerProxyUrl d = tk_iss p \<and>
     (st_allowResponderAgentDid d = None \<or> st_allowResponderAgentDid d = Some (fi_responderAgentDid i))"

definition confirmed_pair :: "PairingTicketConfirmInput \<Rightarrow> StoredPairingTicket \<Rightarrow> PairingTicketConfirmResult" where
  "confirmed_pair i d =
     \<lparr>fr_initiatorAgentDid = st_initiatorAgentDid d, fr_initiatorProfile = st_initiatorProfile d,
      fr_responderAgentDid = fi_responderAgentDid i, fr_responderProfile = fi_responderProfile i,
      fr_issuerProxyUrl = st_issuerProxyUrl d\<rparr>"

lemma parseStoredTicket_Inr: "parseStoredTicket rt t = Inr p \<longleftrightarrow> parsePairingTicket rt t = Inr p"
  by (auto simp: parseStoredTicket_def split: sum.splits)

lemma confirm_lookup_Inr:
  assumes "memory_wf s"
  shows "confirm_lookup rt t i s = (Inr (p, d), s1) \<longleftrightarrow>
     parsePairingTicket rt (normalizePairingTicketText (fi_ticket i)) = Inr p \<and>
     (\<forall>c. map_of (confirmedPairingTickets s) (tk_kid p) = Some c \<longrightarrow>
          cf_ticket c \<noteq> normalizePairingTicketText (fi_ticket i)) \<and>
     map_of (pairingTickets s) (tk_kid p) = Some d \<and> s1 = cleanup t (Some (tk_kid p)) s"
proof (cases "parsePairingTicket rt (normalizePairingTicketText (fi_ticket i))")
  case (Inl e)
  then show ?thesis by (simp add: confirm_lookup_def Let_def parseStoredTicket_def)
next
  case (Inr q)
  have "parseStoredTicket rt (normalizePairingTicketText (fi_ticket i)) = Inr q"
    using Inr by (simp add: parseStoredTicket_Inr)
  then show ?thesis using Inr
    by (auto simp: confirm_lookup_def Let_def map_of_cleanup [OF assms] split: option.splits if_splits)
qed

lemma confirm_admit_Inr:
  "confirm_admit rt t i p d s = (Inr r, s1) \<longleftrightarrow>
     signatureVerified rt p (st_publicKeyX d) \<and> t < st_expiresAtMs d \<and> t < tk_exp p * 1000 \<and>
     st_issuerProxyUrl d = tk_iss p \<and>
     (st_allowResponderAgentDid d = None \<or> st_allowResponderAgentDid d = Some (fi_responderAgentDid i)) \<and>
     r = confirmed_pair i d \<and> s1 = s"
  by (auto simp: confirm_admit_def confirmed_pair_def not_le)

lemma confirm_succeeds_iff:
  assumes "memory_wf s"
  shows "fst (confirmPairingTicket rt c c' i s) = Inr r \<longleftrightarrow>
     (\<exists>p d. confirmable rt (resolve_now (fi_nowMs i) c) i s p d \<and> r = confirmed_pair i d)"
proof -
  let ?t = "resolve_now (fi_nowMs i) c"
  have "fst (confirmPairingTicket rt c c' i s) = Inr r \<longleftrightarrow>
     (\<exists>p d s1 s2. confirm_lookup rt ?t i s = (Inr (p, d), s1) \<and> confirm_admit rt ?t i p d s1 = (Inr r, s2))"
    by (auto simp: confirmPairingTicket_def confirm_resume_def split: sum.splits prod.splits)
  then show ?thesis
    by (auto simp: confirm_lookup_Inr [OF assms] confirm_admit_Inr confirmable_def)
qed

lemma confirm_commit_tickets [memory_frame]:
  "pairingTickets (confirm_commit t i k e r s) = AList.delete k (pairingTickets s)"
  by (simp add: confirm_commit_def Let_def memory_frame)

lemma confirm_state:
  assumes "memory_wf s" and "confirmable rt (resolve_now (fi_nowMs i) c) i s p d"
  shows "confirmPairingTicket rt c c' i s =
     (Inr (confirmed_pair i d),
      confirm_commit (resolve_now (fi_nowMs i) c') i (tk_kid p) (st_expiresAtMs d) (confirmed_pair i d)
        (cleanup (resolve_now (fi_nowMs i) c) (Some (tk_kid p)) s))"
proof -
  let ?t = "resolve_now (fi_nowMs i) c"
  have "confirm_lookup rt ?t i s = (Inr (p, d), cleanup ?t (Some (tk_kid p)) s)"
    using assms by (simp add: confirm_lookup_Inr confirmable_def)
  moreover have "confirm_admit rt ?t i p d (cleanup ?t (Some (tk_kid p)) s) =
      (Inr (confirmed_pair i d), cleanup ?t (Some (tk_kid p)) s)"
    using assms(2) by (simp add: confirm_admit_Inr confirmable_def)
  ultimately show ?thesis by (simp add: confirmPairingTicket_def confirm_resume_def)
qed

subsection \<open>A ticket is used once\<close>

text \<open>The only call that (re)registers a ticket id is \<open>createPairingTicket\<close> for that id.\<close>
fun registers :: "runtime \<Rightarrow> string \<Rightarrow> timed_call \<Rightarrow> bool" where
  "registers rt k (_, _, CallCreate i) =
     (\<exists>p. parsePairingTicket rt (normalizePairingTicketText (ci_ticket i)) = Inr p \<and> tk_kid p = k)"
| "registers rt k _ = False"

lemma unregistered_cleanup: "k \<notin> fst ` set (pairingTickets s) \<Longrightarrow> k \<notin> fst ` set (pairingTickets (cleanup t j s))"
  by (auto simp: cleanup_def alist_prune_def)

lemma set_alist_delete: "fst ` set (AList.delete j m) = fst ` set m - {j}"
  by (induction m) auto

lemma unregistered_step:
  assumes "k \<notin> fst ` set (pairingTickets s)" and "\<not> registers rt k call"
  shows "k \<notin> fst ` set (pairingTickets (memory_step rt call s))"
proof -
  obtain c c' op where call: "call = (c, c', op)" by (cases call)
  have cl: "k \<notin> fst ` set (pairingTickets (cleanup t j s))" for t j
    using assms(1) by (rule unregistered_cleanup)
  show ?thesis
  proof (cases op)
    case (CallConfirm i)
    have lk: "k \<notin> fst ` set (pairingTickets (snd (confirm_lookup rt t i s)))" for t
      using assms(1) cl by (simp add: confirm_lookup_def Let_def split: sum.splits option.splits)
    have ad: "k \<notin> fst ` set (pairingTickets (snd (confirm_admit rt t i p d s1)))"
      if "k \<notin> fst ` set (pairingTickets s1)" for t p d s1
      using that by (simp add: confirm_admit_def set_alist_delete)
    show ?thesis
      using lk [of "resolve_now (fi_nowMs i) c"] ad
      by (auto simp: call CallConfirm confirmPairingTicket_def confirm_resume_def memory_frame set_alist_delete
          split: sum.splits prod.splits) (metis imageI fst_conv snd_conv)+
  next
    case (CallCreate i)
    then show ?thesis using assms(2) cl [of "resolve_now (ci_nowMs i) c" None]
      by (auto simp: call memory_createPairingTicket_def Let_def parseStoredTicket_Inr
          dom_update split: sum.splits) 
  next
    case (CallStatus i)
    then show ?thesis using assms(1) cl
      by (auto simp: call resolveTicketStatus_def Let_def set_alist_delete split: sum.splits)
  next
    case (CallMarkRevoked d)
    then show ?thesis using assms(1) cl
      by (auto simp: call memory_markAgentRevoked_def Let_def split: sum.splits)
  next
    case (CallIsRevoked d)
    then show ?thesis using assms(1) cl
      by (auto simp: call memory_isAgentRevoked_def Let_def split: sum.splits)
  next
    case (CallUpsertPair a b)
    then show ?thesis using assms(1) by (simp add: call memory_upsertPair_def memory_frame)
  qed
qed

lemma unregistered_run:
  "k \<notin> fst ` set (pairingTickets s) \<Longrightarrow> \<forall>call \<in> set calls. \<not> registers rt k call \<Longrightarrow>
   k \<notin> fst ` set (pairingTickets (fold (memory_step rt) calls s))"
  by (induction calls arbitrary: s) (auto simp: unregistered_step)

lemma confirmed_ticket_unregistered:
  assumes "memory_wf s" and "confirmPairingTicket rt c c' i s = (Inr r, s')"
    and "parsePairingTicket rt (normalizePairingTicketText (fi_ticket i)) = Inr p"
  shows "tk_kid p \<notin> fst ` set (pairingTickets s')"
proof -
  obtain q d where "confirmable rt (resolve_now (fi_nowMs i) c) i s q d" "q = p"
    using confirm_succeeds_iff [OF assms(1), of rt c c' i r] assms(2,3)
    by (auto simp: confirmable_def)
  then show ?thesis
    using confirm_state [OF assms(1), of rt i c p d c'] assms(2) by (auto simp: memory_frame set_alist_delete)
qed

lemma confirm_unregistered:
  assumes "memory_wf s" and "parsePairingTicket rt (normalizePairingTicketText (fi_ticket j)) = Inr q"
    and "tk_kid q \<notin> fst ` set (pairingTickets s)"
  shows "fst (confirmPairingTicket rt c c' j s) \<in> {Inl err_already_confirmed, Inl err_not_found}"
proof -
  let ?t = "resolve_now (fi_nowMs j) c"
  have "map_of (pairingTickets (cleanup ?t (Some (tk_kid q)) s)) (tk_kid q) = None"
    using unregistered_cleanup [OF assms(3)] by (simp add: map_of_eq_None_iff)
  moreover have "parseStoredTicket rt (normalizePairingTicketText (fi_ticket j)) = Inr q"
    using assms(2) by (simp add: parseStoredTicket_Inr)
  ultimately have "fst (confirm_lookup rt ?t j s) \<in> {Inl err_already_confirmed, Inl err_not_found}"
    by (simp add: confirm_lookup_def Let_def split: option.splits)
  then show ?thesis by (auto simp: confirmPairingTicket_def split: sum.splits prod.splits)
qed

text \<open>
  (C26) A pairing ticket is single use when confirmations run one after another: once a confirmation
  of a ticket id has succeeded, every later confirmation of that id, by anyone and after any other
  calls that do not register the id again, fails as already confirmed or not found.
\<close>
theorem pairing_ticket_single_use:
  assumes "fst (confirmPairingTicket rt c c' i (fold (memory_step rt) before createInMemoryProxyTrustStore)) = Inr r"
    and "parsePairingTicket rt (normalizePairingTicketText (fi_ticket i)) = Inr p"
    and "parsePairingTicket rt (normalizePairingTicketText (fi_ticket j)) = Inr q" and "tk_kid q = tk_kid p"
    and "\<forall>call \<in> set between. \<not> registers rt (tk_kid p) call"
  shows "fst (confirmPairingTicket rt d d' j
           (fold (memory_step rt) (before @ (c, c', CallConfirm i) # between) createInMemoryProxyTrustStore))
         \<in> {Inl err_already_confirmed, Inl err_not_found}"
proof -
  let ?s = "fold (memory_step rt) before createInMemoryProxyTrustStore"
  let ?s1 = "memory_step rt (c, c', CallConfirm i) ?s"
  let ?s2 = "fold (memory_step rt) between ?s1"
  have wf: "memory_wf ?s" by (rule memory_wf_run [OF memory_wf_init])
  have "confirmPairingTicket rt c c' i ?s = (Inr r, ?s1)" using assms(1) by (simp add: prod_eq_iff)
  then have "tk_kid p \<notin> fst ` set (pairingTickets ?s1)"
    using confirmed_ticket_unregistered [OF wf] assms(2) by blast
  then have "tk_kid q \<notin> fst ` set (pairingTickets ?s2)"
    using assms(4,5) by (simp add: unregistered_run)
  moreover have "memory_wf ?s2" by (intro memory_wf_run memory_wf_step wf)
  ultimately show ?thesis using confirm_unregistered assms(3) by simp
qed

subsection \<open>Interleaved confirmations\<close>

text \<open>After the suspension the outcome depends on what was looked up, not on the state found then.\<close>
lemma confirm_resume_result:
  "fst (confirm_resume rt t k i p d s) = fst (confirm_resume rt t k i p d s')"
  by (simp add: confirm_resume_def confirm_admit_def)

lemma confirm_resume_Inr:
  assumes "confirmable rt t i s p d"
  shows "confirm_resume rt t k i p d s' =
     (Inr (confirmed_pair i d), confirm_commit k i (tk_kid p) (st_expiresAtMs d) (confirmed_pair i d) s')"
proof -
  have "confirm_admit rt t i p d s' = (Inr (confirmed_pair i d), s')"
    using assms by (simp add: confirm_admit_Inr confirmable_def)
  then show ?thesis by (simp add: confirm_resume_def)
qed

text \<open>
  Two confirmations of one ticket that overlap at the suspension both succeed: if both look the
  ticket up before either commits, both return a pair and both pairs are allowed afterwards, so a
  ticket is not single use under overlapping requests.
\<close>
theorem overlapping_confirms_both_succeed:
  assumes "memory_wf s" and "confirmable rt t i s p d" and "confirmable rt t j s p d"
    and "confirm_lookup rt t i s = (Inr (p, d), s1)" and "confirm_lookup rt t j s1 = (Inr (q, e), s2)"
    and "confirm_resume rt t k i p d s2 = (r1, s3)" and "confirm_resume rt t k' j q e s3 = (r2, s4)"
  shows "r1 = Inr (confirmed_pair i d) \<and> r2 = Inr (confirmed_pair j d) \<and>
         memory_isPairAllowed s4 (st_initiatorAgentDid d) (fi_responderAgentDid i) \<and>
         memory_isPairAllowed s4 (st_initiatorAgentDid d) (fi_responderAgentDid j)"
proof -
  have s1: "s1 = cleanup t (Some (tk_kid p)) s" using assms(1,4) by (simp add: confirm_lookup_Inr)
  then have wf1: "memory_wf s1" using assms(1) by simp
  have qe: "q = p" "e = d"
    using assms(3) confirm_lookup_Inr [OF wf1, of rt t j q e s2] assms(5) map_of_cleanup(1) [OF assms(1)]
    by (auto simp: confirmable_def s1 split: option.splits if_splits)
  have "r1 = Inr (confirmed_pair i d)" "s3 = confirm_commit k i (tk_kid p) (st_expiresAtMs d) (confirmed_pair i d) s2"
    using assms(6) confirm_resume_Inr [OF assms(2)] by simp_all
  moreover have "r2 = Inr (confirmed_pair j d)" "s4 = confirm_commit k' j (tk_kid p) (st_expiresAtMs d) (confirmed_pair j d) s3"
    using assms(7) qe confirm_resume_Inr [OF assms(3)] by simp_all
  ultimately show ?thesis by (simp add: memory_isPairAllowed_def memory_frame confirmed_pair_def)
qed

subsection \<open>A concrete run\<close>

definition demo_profile :: PeerProfile where
  "demo_profile = \<lparr>agentName = ''n'', humanName = ''h'', proxyOrigin = None\<rparr>"

definition demo_create :: PairingTicketInput where
  "demo_create = \<lparr>ci_initiatorAgentDid = ''a'', ci_initiatorProfile = demo_profile, ci_issuerProxyUrl = demo_origin,
     ci_ticket = demo_ticket, ci_publicKeyX = ''X'', ci_allowResponderAgentDid = None, ci_expiresAtMs = 5999,
     ci_nowMs = None\<rparr>"

definition demo_confirm :: "string \<Rightarrow> PairingTicketConfirmInput" where
  "demo_confirm responder = \<lparr>fi_ticket = demo_ticket, fi_responderAgentDid = responder,
     fi_responderProfile = demo_profile, fi_nowMs = None\<rparr>"

definition demo_stored :: StoredPairingTicket where
  "demo_stored = \<lparr>st_ticket = demo_ticket, st_expiresAtMs = 5000, st_initiatorAgentDid = ''a'',
     st_initiatorProfile = demo_profile, st_issuerProxyUrl = demo_origin, st_publicKeyX = ''X'',
     st_allowResponderAgentDid = None\<rparr>"

definition demo_store :: memory_store where
  "demo_store = createInMemoryProxyTrustStore\<lparr>pairingTickets := [(''K'', demo_stored)]\<rparr>"

lemma demo_ticket_normal: "normalizePairingTicketText demo_ticket = demo_ticket"
  by (rule normalize_fixed) (simp_all add: demo_ticket_def tick_free_ends_def is_ws_def)

lemma demo_parse: "parsePairingTicket demo_runtime demo_ticket = Inr demo_payload"
  using created_ticket_demo by simp

lemma demo_verified: "signatureVerified demo_runtime demo_payload ''X''"
  using created_ticket_demo by simp

lemma demo_fields:
  "tk_kid demo_payload = ''K''" "tk_exp demo_payload = 5" "tk_iss demo_payload = demo_origin"
  by (simp_all add: demo_payload_def)

lemma demo_created_store:
  "snd (memory_createPairingTicket demo_runtime 1 demo_create createInMemoryProxyTrustStore) = demo_store"
proof -
  have "parseStoredTicket demo_runtime demo_ticket = Inr demo_payload"
    using demo_parse by (simp add: parseStoredTicket_Inr)
  moreover have "normalizeExpiryToWholeSecond 5999 = 5000" by (simp add: normalizeExpiryToWholeSecond_def)
  moreover have "trim ''X'' = ''X''" by (simp add: trim_noop is_ws_def)
  ultimately show ?thesis
    by (simp add: memory_createPairingTicket_def demo_create_def demo_ticket_normal demo_fields Let_def
        demo_store_def demo_stored_def cleanup_def alist_prune_def createInMemoryProxyTrustStore_def)
qed

lemma demo_confirmable: "confirmable demo_runtime 2 (demo_confirm b) demo_store demo_payload demo_stored"
  by (simp add: confirmable_def demo_confirm_def demo_ticket_normal demo_parse demo_store_def demo_fields
      createInMemoryProxyTrustStore_def demo_stored_def demo_verified)

lemma demo_wf: "memory_wf demo_store"
  by (simp add: demo_store_def memory_wf_def createInMemoryProxyTrustStore_def)

theorem pairing_ticket_single_use_witness:
  "fst (confirmPairingTicket demo_runtime 3 3 (demo_confirm ''c'')
     (fold (memory_step demo_runtime) ([(1, 1, CallCreate demo_create)] @ (2, 2, CallConfirm (demo_confirm ''b'')) # [])
        createInMemoryProxyTrustStore)) \<in> {Inl err_already_confirmed, Inl err_not_found}"
proof (rule pairing_ticket_single_use)
  have "resolve_now (fi_nowMs (demo_confirm ''b'')) 2 = 2" by (simp add: resolve_now_def demo_confirm_def)
  then have "confirmable demo_runtime (resolve_now (fi_nowMs (demo_confirm ''b'')) 2) (demo_confirm ''b'') demo_store
      demo_payload demo_stored"
    using demo_confirmable by simp
  then show "fst (confirmPairingTicket demo_runtime 2 2 (demo_confirm ''b'')
      (fold (memory_step demo_runtime) [(1, 1, CallCreate demo_create)] createInMemoryProxyTrustStore)) =
      Inr (confirmed_pair (demo_confirm ''b'') demo_stored)"
    using confirm_state [OF demo_wf] by (simp add: demo_created_store)
  show "parsePairingTicket demo_runtime (normalizePairingTicketText (fi_ticket (demo_confirm ''b''))) = Inr demo_payload"
    "parsePairingTicket demo_runtime (normalizePairingTicketText (fi_ticket (demo_confirm ''c''))) = Inr demo_payload"
    by (simp_all add: demo_confirm_def demo_ticket_normal demo_parse)
qed simp_all

theorem overlapping_confirms_both_succeed_witness:
  "\<exists>s1 s2 r1 s3 r2 s4.
     confirm_lookup demo_runtime 2 (demo_confirm ''b'') demo_store = (Inr (demo_payload, demo_stored), s1) \<and>
     confirm_lookup demo_runtime 2 (demo_confirm ''c'') s1 = (Inr (demo_payload, demo_stored), s2) \<and>
     confirm_resume demo_runtime 2 2 (demo_confirm ''b'') demo_payload demo_stored s2 = (r1, s3) \<and>
     confirm_resume demo_runtime 2 2 (demo_confirm ''c'') demo_payload demo_stored s3 = (r2, s4) \<and>
     (\<exists>x y. r1 = Inr x \<and> r2 = Inr y) \<and> memory_isPairAllowed s4 ''a'' ''b'' \<and> memory_isPairAllowed s4 ''a'' ''c''"
proof -
  let ?s1 = "cleanup 2 (Some ''K'') demo_store"
  let ?s2 = "cleanup 2 (Some ''K'') ?s1"
  have l: "confirm_lookup demo_runtime 2 (demo_confirm x) s = (Inr (demo_payload, demo_stored), cleanup 2 (Some ''K'') s)"
    if "s \<in> {demo_store, ?s1}" for x s
    using that demo_wf demo_confirmable [of x]
    by (auto simp: confirm_lookup_Inr confirmable_def demo_fields map_of_cleanup split: option.splits)
  obtain r1 s3 where a: "confirm_resume demo_runtime 2 2 (demo_confirm ''b'') demo_payload demo_stored ?s2 = (r1, s3)"
    by fastforce
  obtain r2 s4 where b: "confirm_resume demo_runtime 2 2 (demo_confirm ''c'') demo_payload demo_stored s3 = (r2, s4)"
    by fastforce
  have l1: "confirm_lookup demo_runtime 2 (demo_confirm ''b'') demo_store = (Inr (demo_payload, demo_stored), ?s1)"
    by (rule l) simp
  have l2: "confirm_lookup demo_runtime 2 (demo_confirm ''c'') ?s1 = (Inr (demo_payload, demo_stored), ?s2)"
    by (rule l) simp
  note both = overlapping_confirms_both_succeed [OF demo_wf demo_confirmable demo_confirmable l1 l2 a b]
  have "st_initiatorAgentDid demo_stored = ''a''" "fi_responderAgentDid (demo_confirm x) = x" for x
    by (simp_all add: demo_stored_def demo_confirm_def)
  then show ?thesis using l1 l2 a b both by auto
qed

section \<open>Where trust comes from\<close>


lemma confirm_trusts:
  assumes "memory_wf s" and "fst (confirmPairingTicket rt c c' i s) = Inr r"
  shows "let s' = snd (confirmPairingTicket rt c c' i s) in
          memory_isPairAllowed s' (fr_initiatorAgentDid r) (fi_responderAgentDid i) \<and>
          memory_isPairAllowed s' (fi_responderAgentDid i) (fr_initiatorAgentDid r) \<and>
          memory_isAgentKnown (fr_initiatorAgentDid r) s' \<and> memory_isAgentKnown (fi_responderAgentDid i) s'"
proof -
  obtain p d where "confirmable rt (resolve_now (fi_nowMs i) c) i s p d" and r: "r = confirmed_pair i d"
    using assms confirm_succeeds_iff by blast
  note st = confirm_state [OF assms(1) this(1), of c']
  have resp: "fr_responderAgentDid r = fi_responderAgentDid i" by (simp add: r confirmed_pair_def)
  have "memory_isAgentKnown a (confirm_commit t i k e x s1)"
    if "a = fr_initiatorAgentDid x \<or> a = fr_responderAgentDid x" for a t k e x s1
    using that by (auto simp: memory_isAgentKnown_def confirm_commit_def Let_def upsertPeer_def)
  then show ?thesis
    using resp toPairKey_sym [of "fr_initiatorAgentDid r" "fi_responderAgentDid i"]
    by (simp add: st r Let_def memory_isPairAllowed_def memory_frame)
qed


text \<open>
  A confirmation succeeds exactly when the ticket parses, its id is registered and not already
  confirmed with the same text, the signature verifies under the registered key, neither expiry has
  passed, the issuer matches and the responder is the allowed one; it then returns the registered
  initiator and the caller, makes the pair allowed both ways and both agents known.
\<close>
theorem confirm_exactly_when_confirmable:
  assumes "memory_wf s"
  shows "(fst (confirmPairingTicket rt c c' i s) = Inr r \<longleftrightarrow>
            (\<exists>p d. confirmable rt (resolve_now (fi_nowMs i) c) i s p d \<and> r = confirmed_pair i d)) \<and>
         (fst (confirmPairingTicket rt c c' i s) = Inr r \<longrightarrow>
           (let s' = snd (confirmPairingTicket rt c c' i s) in
            memory_isPairAllowed s' (fr_initiatorAgentDid r) (fi_responderAgentDid i) \<and>
            memory_isPairAllowed s' (fi_responderAgentDid i) (fr_initiatorAgentDid r) \<and>
            memory_isAgentKnown (fr_initiatorAgentDid r) s' \<and> memory_isAgentKnown (fi_responderAgentDid i) s'))"
  using confirm_succeeds_iff [OF assms] confirm_trusts [OF assms] by blast

theorem confirm_exactly_when_confirmable_witness:
  "fst (confirmPairingTicket demo_runtime 2 2 (demo_confirm ''b'') demo_store) =
     Inr (confirmed_pair (demo_confirm ''b'') demo_stored)"
proof -
  have "resolve_now (fi_nowMs (demo_confirm ''b'')) 2 = 2" by (simp add: resolve_now_def demo_confirm_def)
  then show ?thesis
    using confirm_exactly_when_confirmable [OF demo_wf, of demo_runtime 2 2 "demo_confirm ''b''"
        "confirmed_pair (demo_confirm ''b'') demo_stored"] demo_confirmable [of "''b''"]
    by metis
qed

section \<open>Revocation markers\<close>

text \<open>The time a call hands to \<open>cleanup\<close>, if it does.\<close>
fun call_times :: "timed_call \<Rightarrow> ms list" where
  "call_times (clock, _, CallCreate i) = [resolve_now (ci_nowMs i) clock]"
| "call_times (clock, _, CallConfirm i) = [resolve_now (fi_nowMs i) clock]"
| "call_times (clock, _, CallStatus i) = [resolve_now (si_nowMs i) clock]"
| "call_times (clock, _, CallMarkRevoked _) = [clock]"
| "call_times (clock, _, CallIsRevoked _) = [clock]"
| "call_times (_, _, CallUpsertPair _ _) = []"

fun marks :: "string \<Rightarrow> timed_call \<Rightarrow> bool" where
  "marks a (_, _, CallMarkRevoked d) = (d = a)"
| "marks a _ = False"

text \<open>The marker of \<open>a\<close> is still there, or gone because its time is over.\<close>
definition marker_ok :: "string \<Rightarrow> ms \<Rightarrow> ms \<Rightarrow> memory_store \<Rightarrow> bool" where
  "marker_ok a e T s \<longleftrightarrow> memory_wf s \<and>
     (map_of (revokedAgents s) a = Some e \<or> map_of (revokedAgents s) a = None \<and> e \<le> T)"

lemma marker_ok_cleanup: "marker_ok a e T s \<Longrightarrow> t \<le> T \<Longrightarrow> marker_ok a e T (cleanup t k s)"
  by (auto simp: marker_ok_def map_of_cleanup split: if_splits)

lemma revoked_after:
  "revokedAgents (snd (confirmPairingTicket rt c c' i s)) \<in>
     {revokedAgents s, revokedAgents (cleanup (resolve_now (fi_nowMs i) c) None s)}"
  "revokedAgents (snd (memory_createPairingTicket rt c ci s)) = revokedAgents (cleanup (resolve_now (ci_nowMs ci) c) None s)"
  "revokedAgents (snd (resolveTicketStatus rt c si s)) \<in>
     {revokedAgents s, revokedAgents (cleanup (resolve_now (si_nowMs si) c) None s)}"
proof -
  have cl: "revokedAgents (cleanup t k s) = revokedAgents (cleanup t None s)" for t k by (simp add: cleanup_def)
  have "revokedAgents (confirm_commit t i k e r s1) = revokedAgents s1" for t k e r s1
    by (simp add: confirm_commit_def Let_def memory_frame)
  moreover have "revokedAgents (snd (confirm_admit rt t i p d s1)) = revokedAgents s1" for t p d s1
    by (simp add: confirm_admit_def)
  ultimately have "revokedAgents (snd (confirm_resume rt t k i p d s1)) = revokedAgents s1" for t k p d s1
    by (auto simp: confirm_resume_def split: prod.splits sum.splits) (metis snd_conv)+
  moreover have "revokedAgents (snd (confirm_lookup rt t i s)) \<in> {revokedAgents s, revokedAgents (cleanup t None s)}" for t
    using cl by (auto simp: confirm_lookup_def Let_def split: sum.splits option.splits)
  ultimately show "revokedAgents (snd (confirmPairingTicket rt c c' i s)) \<in>
     {revokedAgents s, revokedAgents (cleanup (resolve_now (fi_nowMs i) c) None s)}"
    by (auto simp: confirmPairingTicket_def split: prod.splits sum.splits) (metis snd_conv)+
  show "revokedAgents (snd (memory_createPairingTicket rt c ci s)) = revokedAgents (cleanup (resolve_now (ci_nowMs ci) c) None s)"
    by (simp add: memory_createPairingTicket_def Let_def split: sum.splits)
  show "revokedAgents (snd (resolveTicketStatus rt c si s)) \<in>
     {revokedAgents s, revokedAgents (cleanup (resolve_now (si_nowMs si) c) None s)}"
    using cl by (auto simp: resolveTicketStatus_def Let_def split: sum.splits)
qed

lemma marker_ok_step:
  assumes "marker_ok a e T s" and "\<forall>t \<in> set (call_times call). t \<le> T" and "\<not> marks a call"
  shows "marker_ok a e T (memory_step rt call s)"
proof -
  obtain c c' op where call: "call = (c, c', op)" by (cases call)
  have wf: "memory_wf (memory_step rt call s)" using assms(1) by (simp add: marker_ok_def memory_wf_step)
  have cl: "marker_ok a e T (cleanup t k s)" if "t \<le> T" for t k using assms(1) that by (rule marker_ok_cleanup)
  have via: "marker_ok a e T (memory_step rt call s)"
    if "revokedAgents (memory_step rt call s) = revokedAgents s1" "marker_ok a e T s1" for s1
    using that wf by (simp add: marker_ok_def)
  show ?thesis
  proof (cases op)
    case (CallCreate i)
    then show ?thesis using assms(2) by (intro via [OF _ cl]) (simp_all add: call revoked_after(2))
  next
    case (CallConfirm i)
    then show ?thesis using assms(1,2) revoked_after(1) [of rt c c' i s] via [of s] via [OF _ cl]
      by (auto simp: call)
  next
    case (CallStatus i)
    then show ?thesis using assms(1,2) revoked_after(3) [of rt c i s] via [of s] via [OF _ cl]
      by (auto simp: call)
  next
    case (CallMarkRevoked d)
    then show ?thesis using assms cl [of c None] wf
      by (auto simp: call memory_markAgentRevoked_def Let_def marker_ok_def update_conv' split: sum.splits)
  next
    case (CallIsRevoked d)
    then show ?thesis using assms(1,2) cl [of c None]
      by (auto simp: call memory_isAgentRevoked_def Let_def split: sum.splits)
  next
    case (CallUpsertPair x y)
    then show ?thesis using assms(1) by (intro via [of s]) (simp_all add: call memory_upsertPair_def memory_frame)
  qed
qed

lemma marker_ok_run:
  "marker_ok a e T s \<Longrightarrow> \<forall>call \<in> set calls. (\<forall>t \<in> set (call_times call). t \<le> T) \<and> \<not> marks a call \<Longrightarrow>
   marker_ok a e T (fold (memory_step rt) calls s)"
  by (induction calls arbitrary: s) (simp_all add: marker_ok_step)

text \<open>
  A revocation marker holds for exactly thirty days: after \<open>markAgentRevoked\<close> at time \<open>t\<close> and any
  other calls made up to time \<open>T\<close>, \<open>isAgentRevoked\<close> at \<open>T\<close> answers yes if and only if \<open>T\<close> is before
  \<open>t\<close> plus the marker's lifetime.
\<close>
theorem revocation_marker_lifetime:
  assumes "memory_wf s" and "is_agent_did (ulids rt) a"
    and "\<forall>call \<in> set calls. (\<forall>u \<in> set (call_times call). u \<le> T) \<and> \<not> marks a call"
  shows "fst (memory_isAgentRevoked rt T a
           (fold (memory_step rt) calls (snd (memory_markAgentRevoked rt t a s)))) =
         Inr (T < t + REVOKED_AGENT_MARKER_TTL_MS)"
proof -
  let ?e = "t + REVOKED_AGENT_MARKER_TTL_MS"
  obtain d where d: "parseAgentDid (ulids rt) a = Inr d" using assms(2) by (auto simp: is_agent_did_iff)
  have "marker_ok a ?e T (snd (memory_markAgentRevoked rt t a s))"
    using memory_wf_step [OF assms(1), of rt "(t, t, CallMarkRevoked a)"]
    by (simp add: marker_ok_def memory_markAgentRevoked_def d Let_def update_conv')
  then have "marker_ok a ?e T (fold (memory_step rt) calls (snd (memory_markAgentRevoked rt t a s)))"
    using assms(3) by (rule marker_ok_run)
  then show ?thesis
    by (auto simp: memory_isAgentRevoked_def d Let_def marker_ok_def map_of_cleanup split: option.splits)
qed

theorem revocation_marker_lifetime_witness:
  "fst (memory_isAgentRevoked demo_runtime 9 (demo_did CHR ''1'')
     (fold (memory_step demo_runtime) [(8, 8, CallConfirm (demo_confirm ''b''))]
       (snd (memory_markAgentRevoked demo_runtime 7 (demo_did CHR ''1'') demo_store)))) = Inr True"
proof -
  have "fst (memory_isAgentRevoked demo_runtime 9 (demo_did CHR ''1'')
     (fold (memory_step demo_runtime) [(8, 8, CallConfirm (demo_confirm ''b''))]
       (snd (memory_markAgentRevoked demo_runtime 7 (demo_did CHR ''1'') demo_store)))) =
       Inr (9 < 7 + REVOKED_AGENT_MARKER_TTL_MS)"
    using demo_agent_did
    by (intro revocation_marker_lifetime demo_wf) (simp_all add: demo_runtime_def resolve_now_def demo_confirm_def)
  then show ?thesis by (simp add: REVOKED_AGENT_MARKER_TTL_MS_def)
qed

section \<open>Peers\<close>

definition peers_of :: "memory_store \<Rightarrow> string \<Rightarrow> string set" where
  "peers_of s a = (case agentPeers s a of None \<Rightarrow> {} | Some ps \<Rightarrow> ps)"

text \<open>The peer index is symmetric and lists the pair keys, no more and no less.\<close>
definition peers_inv :: "memory_store \<Rightarrow> bool" where
  "peers_inv s \<longleftrightarrow> (\<forall>a b. b \<in> peers_of s a \<longleftrightarrow> a \<in> peers_of s b) \<and>
     pairKeys s = {toPairKey a b | a b. b \<in> peers_of s a}"

lemma peers_of_upsertPeer:
  "peers_of (upsertPeer l r s) a = (if a = l then insert r (peers_of s l) else peers_of s a)"
  by (simp add: peers_of_def upsertPeer_def)

lemma peers_inv_add:
  assumes "peers_inv s"
    and "\<And>x. peers_of s' x = (if x = b then insert a (if b = a then insert b (peers_of s a) else peers_of s b)
            else if x = a then insert b (peers_of s a) else peers_of s x)"
    and "pairKeys s' = insert (toPairKey a b) (pairKeys s)"
  shows "peers_inv s'"
proof -
  have mem: "y \<in> peers_of s' x \<longleftrightarrow> y \<in> peers_of s x \<or> (x = a \<and> y = b) \<or> (x = b \<and> y = a)" for x y
    using assms(2) [of x] by auto
  show ?thesis
    using assms(1,3) toPairKey_sym [of b a] unfolding peers_inv_def mem by auto
qed

lemma peers_of_cong: "agentPeers s = agentPeers s' \<Longrightarrow> peers_of s = peers_of s'"
  by (simp add: peers_of_def fun_eq_iff)

lemma peers_inv_cong: "agentPeers s' = agentPeers s \<Longrightarrow> pairKeys s' = pairKeys s \<Longrightarrow> peers_inv s' = peers_inv s"
  using peers_of_cong [of s' s] by (simp add: peers_inv_def)

lemma peers_inv_step: "peers_inv s \<Longrightarrow> peers_inv (memory_step rt call s)"
proof -
  assume inv: "peers_inv s"
  obtain c c' op where call: "call = (c, c', op)" by (cases call)
  show ?thesis
  proof (cases op)
    case (CallConfirm i)
    show ?thesis
    proof (rule confirm_cases [of rt c c' i s])
      fix e s' assume "confirmPairingTicket rt c c' i s = (Inl e, s')" "pairKeys s' = pairKeys s" "agentPeers s' = agentPeers s"
      then show ?thesis using inv by (simp add: call CallConfirm peers_inv_cong [of s' s])
    next
      fix p d r s1
      assume "confirmPairingTicket rt c c' i s =
         (Inr r, confirm_commit (resolve_now (fi_nowMs i) c') i (tk_kid p) (st_expiresAtMs d) r s1)"
        and fr: "pairKeys s1 = pairKeys s" "agentPeers s1 = agentPeers s"
      moreover have "peers_inv s1" using inv fr by (simp add: peers_inv_cong [of s1 s])
      moreover have "agentPeers (confirm_commit t i k e r s1) =
          agentPeers (upsertPeer (fr_responderAgentDid r) (fr_initiatorAgentDid r)
            (upsertPeer (fr_initiatorAgentDid r) (fr_responderAgentDid r) s1))" for t k e
        by (simp add: confirm_commit_def Let_def upsertPeer_def)
      note peers_of_cong [OF this]
      ultimately show ?thesis
        by (simp add: call CallConfirm)
          (rule peers_inv_add [of s1 _ "fr_responderAgentDid r" "fr_initiatorAgentDid r"],
           simp_all add: peers_of_upsertPeer memory_frame)
    qed
  next
    case (CallUpsertPair a b)
    then have "memory_step rt call s = memory_upsertPair a b s" by (simp add: call)
    moreover have "peers_inv (memory_upsertPair a b s)"
    proof (rule peers_inv_add [OF inv, of _ b a])
      have "peers_of (s\<lparr>pairKeys := k\<rparr>) = peers_of s" for k by (rule peers_of_cong) simp
      then show "peers_of (memory_upsertPair a b s) x = (if x = b then insert a (if b = a then insert b (peers_of s a)
          else peers_of s b) else if x = a then insert b (peers_of s a) else peers_of s x)" for x
        by (simp add: memory_upsertPair_def peers_of_upsertPeer)
    qed (simp add: memory_frame)
    ultimately show ?thesis by simp
  qed (auto simp: call memory_frame intro!: peers_inv_cong [THEN iffD2, OF _ _ inv])
qed

lemma peers_inv_init: "peers_inv createInMemoryProxyTrustStore"
  by (simp add: peers_inv_def peers_of_def createInMemoryProxyTrustStore_def)

lemma peers_inv_run: "peers_inv s \<Longrightarrow> peers_inv (fold (memory_step rt) calls s)"
  by (induction calls arbitrary: s) (simp_all add: peers_inv_step)

text \<open>
  In every reachable state of the in-memory store the peer index and the pair keys agree: the
  index is symmetric, a pair key is stored exactly for the agents that are each other's peers, and
  an agent is known exactly when it is allowed to talk to one of its peers.
\<close>
theorem peer_index_agrees_with_pairs:
  "let s = fold (memory_step rt) calls createInMemoryProxyTrustStore in
   peers_inv s \<and> (memory_isAgentKnown a s \<longleftrightarrow> (\<exists>b. b \<in> peers_of s a \<and> memory_isPairAllowed s a b))"
proof -
  let ?s = "fold (memory_step rt) calls createInMemoryProxyTrustStore"
  have inv: "peers_inv ?s" by (rule peers_inv_run [OF peers_inv_init])
  then have "memory_isPairAllowed ?s a b" if "b \<in> peers_of ?s a" for b
    using that by (auto simp: peers_inv_def memory_isPairAllowed_def)
  then have "memory_isAgentKnown a ?s \<longleftrightarrow> (\<exists>b. b \<in> peers_of ?s a \<and> memory_isPairAllowed ?s a b)"
    by (auto simp: memory_isAgentKnown_def peers_of_def split: option.splits)
  then show ?thesis using inv by (simp add: Let_def)
qed

end
