(* ===== verification/Trust_State.thy ===== *)
theory Trust_State
  imports Trust_Store
begin

text \<open>
  The durable trust state: \<open>apps/proxy/src/proxy-trust-state/\<close> (\<open>utils.ts\<close>, \<open>storage.ts\<close>,
  \<open>handlers.ts\<close>, \<open>controller.ts\<close>) and the client \<open>createDurableProxyTrustStore\<close> of
  \<open>proxy-trust-store.ts\<close> that calls it over HTTP.

  State: \<open>trust_storage\<close>, the raw value under each storage key and the alarm. Every handler reads its
  typed view through the validating \<open>load...\<close> functions and writes it back; a stored object is the
  \<open>jsval\<close> with the same fields. The durable object runs one handler at a time.

  Shown here: what is saved is loaded back unchanged (under the URL law that an origin parses to
  itself), the alarm is always the earliest expiry, and the store satisfies the contract
  \<open>trust_store\<close>.
\<close>

section \<open>utils.ts\<close>

definition parsePeerProfile :: "runtime \<Rightarrow> jsval \<Rightarrow> PeerProfile option" where
  "parsePeerProfile rt value =
     (if \<not> is_object value then None
      else if \<not> isNonEmptyString (js_get value ''agentName'') \<or> \<not> isNonEmptyString (js_get value ''humanName'')
      then None
      else let profile = \<lparr>agentName = trim (js_str (js_get value ''agentName'')),
                          humanName = trim (js_str (js_get value ''humanName'')), proxyOrigin = None\<rparr> in
        if js_get value ''proxyOrigin'' = JUndefined then Some profile
        else if \<not> isNonEmptyString (js_get value ''proxyOrigin'') then None
        else (case url_parse rt (trim (js_str (js_get value ''proxyOrigin''))) of
                None \<Rightarrow> None
              | Some (protocol, origin) \<Rightarrow>
                  if protocol \<noteq> ''https:'' \<and> protocol \<noteq> ''http:'' then None
                  else Some (profile\<lparr>proxyOrigin := Some origin\<rparr>)))"

definition addPeer :: "(string \<times> string list) list \<Rightarrow> string \<Rightarrow> string \<Rightarrow> (string \<times> string list) list" where
  "addPeer index leftAgentDid rightAgentDid =
     (let peers = js_Set (case map_of index leftAgentDid of None \<Rightarrow> [] | Some ps \<Rightarrow> ps);
          peers = js_set_add peers rightAgentDid
      in AList.update leftAgentDid (sort peers) index)"

text \<open>The error response of a ticket that does not parse, or the normalised text and its payload.\<close>
definition parseNormalizedPairingTicket ::
  "runtime \<Rightarrow> string \<Rightarrow> (http_response, string \<times> PairingTicketPayload) result" where
  "parseNormalizedPairingTicket rt rawTicket =
     (let ticket = normalizePairingTicketText rawTicket in
      case parsePairingTicket rt ticket of
        Inl e \<Rightarrow> Inl (toErrorResponse (te_code e) (te_message e) 400)
      | Inr parsedTicket \<Rightarrow> Inr (ticket, parsedTicket))"

section \<open>Stored objects as JavaScript values\<close>

definition profile_js :: "PeerProfile \<Rightarrow> jsval" where
  "profile_js p = JObj ([(''agentName'', JStr (agentName p)), (''humanName'', JStr (humanName p))] @
     (case proxyOrigin p of None \<Rightarrow> [] | Some u \<Rightarrow> [(''proxyOrigin'', JStr u)]))"

definition ticket_js :: "StoredPairingTicket \<Rightarrow> jsval" where
  "ticket_js d = JObj
     [(''ticket'', JStr (st_ticket d)), (''initiatorAgentDid'', JStr (st_initiatorAgentDid d)),
      (''initiatorProfile'', profile_js (st_initiatorProfile d)),
      (''issuerProxyUrl'', JStr (st_issuerProxyUrl d)), (''expiresAtMs'', JNum (st_expiresAtMs d)),
      (''publicKeyX'', JStr (st_publicKeyX d)),
      (''allowResponderAgentDid'', js_opt_str (st_allowResponderAgentDid d))]"

definition confirmed_js :: "StoredConfirmedPairingTicket \<Rightarrow> jsval" where
  "confirmed_js c = JObj
     [(''ticket'', JStr (cf_ticket c)), (''expiresAtMs'', JNum (cf_expiresAtMs c)),
      (''initiatorAgentDid'', JStr (cf_initiatorAgentDid c)),
      (''initiatorProfile'', profile_js (cf_initiatorProfile c)),
      (''responderAgentDid'', JStr (cf_responderAgentDid c)),
      (''responderProfile'', profile_js (cf_responderProfile c)),
      (''issuerProxyUrl'', JStr (cf_issuerProxyUrl c)),
      (''confirmedAtMs'', JNum (cf_confirmedAtMs c))]"

section \<open>storage.ts\<close>

record trust_storage =
  ts_pairs :: jsval
  ts_agentPeers :: jsval
  ts_revokedAgents :: jsval
  ts_pairingTickets :: jsval
  ts_confirmedTickets :: jsval
  ts_alarm :: "ms option"

definition empty_trust_storage :: trust_storage where
  "empty_trust_storage = \<lparr>ts_pairs = JUndefined, ts_agentPeers = JUndefined, ts_revokedAgents = JUndefined,
     ts_pairingTickets = JUndefined, ts_confirmedTickets = JUndefined, ts_alarm = None\<rparr>"

record ExpirableTrustState =
  ex_pairingTickets :: "(string \<times> StoredPairingTicket) list"
  ex_confirmedPairingTickets :: "(string \<times> StoredConfirmedPairingTicket) list"

definition loadPairs :: "trust_storage \<Rightarrow> string list" where
  "loadPairs st = (case ts_pairs st of JArr raw \<Rightarrow> js_Set (js_strings raw) | _ \<Rightarrow> [])"

definition savePairs :: "string list \<Rightarrow> trust_storage \<Rightarrow> trust_storage" where
  "savePairs pairs st = st\<lparr>ts_pairs := JArr (map JStr (sort pairs))\<rparr>"

fun load_peer_entry :: "(string \<times> string list) list \<Rightarrow> string \<times> jsval \<Rightarrow> (string \<times> string list) list" where
  "load_peer_entry normalized (agentDid, JArr peers) =
     AList.update agentDid (map js_str (filter isNonEmptyString peers)) normalized"
| "load_peer_entry normalized (agentDid, _) = normalized"

definition loadAgentPeers :: "trust_storage \<Rightarrow> (string \<times> string list) list" where
  "loadAgentPeers st =
     (if \<not> is_object (ts_agentPeers st) then [] else foldl load_peer_entry [] (js_entries (ts_agentPeers st)))"

definition saveAgentPeers :: "(string \<times> string list) list \<Rightarrow> trust_storage \<Rightarrow> trust_storage" where
  "saveAgentPeers peers st = st\<lparr>ts_agentPeers := JObj (map (\<lambda>(k, ps). (k, JArr (map JStr ps))) peers)\<rparr>"

fun migrate_revoked_entry :: "(string \<times> ms) list \<Rightarrow> jsval \<Rightarrow> (string \<times> ms) list" where
  "migrate_revoked_entry migrated value =
     (if \<not> isNonEmptyString value then migrated
      else AList.update (js_str value) max_safe_integer migrated)"

fun load_revoked_entry :: "(string \<times> ms) list \<Rightarrow> string \<times> jsval \<Rightarrow> (string \<times> ms) list" where
  "load_revoked_entry normalized (agentDid, details) =
     (if \<not> is_object details \<or> trim agentDid = [] then normalized
      else (case js_integer (js_get details ''expiresAtMs'') of
              None \<Rightarrow> normalized
            | Some expiresAtMs \<Rightarrow>
                if expiresAtMs \<le> 0 then normalized else AList.update agentDid expiresAtMs normalized))"

definition loadRevokedAgents :: "trust_storage \<Rightarrow> (string \<times> ms) list" where
  "loadRevokedAgents st =
     (case ts_revokedAgents st of
        JArr raw \<Rightarrow> foldl migrate_revoked_entry [] raw
      | raw \<Rightarrow> if \<not> is_object raw then [] else foldl load_revoked_entry [] (js_entries raw))"

definition saveRevokedAgents :: "(string \<times> ms) list \<Rightarrow> trust_storage \<Rightarrow> trust_storage" where
  "saveRevokedAgents revoked st =
     st\<lparr>ts_revokedAgents := JObj (map (\<lambda>(k, e). (k, JObj [(''expiresAtMs'', JNum e)])) revoked)\<rparr>"

definition load_ticket_entry ::
  "runtime \<Rightarrow> (string \<times> StoredPairingTicket) list \<Rightarrow> string \<times> jsval \<Rightarrow> (string \<times> StoredPairingTicket) list" where
  "load_ticket_entry rt normalized kv =
     (let entryKey = fst kv; entry = snd kv in
      if \<not> is_object entry then normalized
      else case parsePeerProfile rt (js_get entry ''initiatorProfile'') of None \<Rightarrow> normalized
      | Some initiatorProfile \<Rightarrow>
      if \<not> isNonEmptyString (js_get entry ''initiatorAgentDid'') \<or>
         \<not> isNonEmptyString (js_get entry ''issuerProxyUrl'') \<or>
         \<not> isNonEmptyString (js_get entry ''publicKeyX'') \<or>
         js_integer (js_get entry ''expiresAtMs'') = None then normalized
      else if js_get entry ''allowResponderAgentDid'' \<noteq> JUndefined \<and>
              \<not> isNonEmptyString (js_get entry ''allowResponderAgentDid'') then normalized
      else let ticketCandidate = (if isNonEmptyString (js_get entry ''ticket'')
                                  then js_str (js_get entry ''ticket'') else entryKey) in
        case parsePairingTicket rt ticketCandidate of Inl _ \<Rightarrow> normalized
        | Inr parsedTicket \<Rightarrow>
            AList.update (tk_kid parsedTicket)
              \<lparr>st_ticket = ticketCandidate, st_expiresAtMs = js_num (js_get entry ''expiresAtMs''),
               st_initiatorAgentDid = js_str (js_get entry ''initiatorAgentDid''),
               st_initiatorProfile = initiatorProfile, st_issuerProxyUrl = tk_iss parsedTicket,
               st_publicKeyX = js_str (js_get entry ''publicKeyX''),
               st_allowResponderAgentDid =
                 (if isNonEmptyString (js_get entry ''allowResponderAgentDid'')
                  then Some (js_str (js_get entry ''allowResponderAgentDid'')) else None)\<rparr>
              normalized)"

definition loadPairingTickets :: "runtime \<Rightarrow> trust_storage \<Rightarrow> (string \<times> StoredPairingTicket) list" where
  "loadPairingTickets rt st =
     (if \<not> is_object (ts_pairingTickets st) then []
      else foldl (load_ticket_entry rt) [] (js_entries (ts_pairingTickets st)))"

definition savePairingTickets :: "(string \<times> StoredPairingTicket) list \<Rightarrow> trust_storage \<Rightarrow> trust_storage" where
  "savePairingTickets tickets st =
     st\<lparr>ts_pairingTickets := JObj (map (\<lambda>(k, d). (k, ticket_js d)) tickets)\<rparr>"

definition load_confirmed_entry ::
  "runtime \<Rightarrow> (string \<times> StoredConfirmedPairingTicket) list \<Rightarrow> string \<times> jsval \<Rightarrow>
   (string \<times> StoredConfirmedPairingTicket) list" where
  "load_confirmed_entry rt normalized kv =
     (let entryKey = fst kv; entry = snd kv in
      if \<not> is_object entry then normalized
      else case parsePeerProfile rt (js_get entry ''initiatorProfile'') of None \<Rightarrow> normalized
      | Some initiatorProfile \<Rightarrow>
      case parsePeerProfile rt (js_get entry ''responderProfile'') of None \<Rightarrow> normalized
      | Some responderProfile \<Rightarrow>
      if \<not> isNonEmptyString (js_get entry ''initiatorAgentDid'') \<or>
         \<not> isNonEmptyString (js_get entry ''responderAgentDid'') \<or>
         \<not> isNonEmptyString (js_get entry ''issuerProxyUrl'') \<or>
         js_integer (js_get entry ''expiresAtMs'') = None \<or>
         js_integer (js_get entry ''confirmedAtMs'') = None then normalized
      else let ticketCandidate = (if isNonEmptyString (js_get entry ''ticket'')
                                  then js_str (js_get entry ''ticket'') else entryKey) in
        case parsePairingTicket rt ticketCandidate of Inl _ \<Rightarrow> normalized
        | Inr parsedTicket \<Rightarrow>
            AList.update (tk_kid parsedTicket)
              \<lparr>cf_ticket = ticketCandidate, cf_expiresAtMs = js_num (js_get entry ''expiresAtMs''),
               cf_initiatorAgentDid = js_str (js_get entry ''initiatorAgentDid''),
               cf_initiatorProfile = initiatorProfile,
               cf_responderAgentDid = js_str (js_get entry ''responderAgentDid''),
               cf_responderProfile = responderProfile, cf_issuerProxyUrl = tk_iss parsedTicket,
               cf_confirmedAtMs = js_num (js_get entry ''confirmedAtMs'')\<rparr>
              normalized)"

definition loadConfirmedPairingTickets ::
  "runtime \<Rightarrow> trust_storage \<Rightarrow> (string \<times> StoredConfirmedPairingTicket) list" where
  "loadConfirmedPairingTickets rt st =
     (if \<not> is_object (ts_confirmedTickets st) then []
      else foldl (load_confirmed_entry rt) [] (js_entries (ts_confirmedTickets st)))"

definition saveConfirmedPairingTickets ::
  "(string \<times> StoredConfirmedPairingTicket) list \<Rightarrow> trust_storage \<Rightarrow> trust_storage" where
  "saveConfirmedPairingTickets tickets st =
     st\<lparr>ts_confirmedTickets := JObj (map (\<lambda>(k, c). (k, confirmed_js c)) tickets)\<rparr>"

definition loadExpirableState :: "runtime \<Rightarrow> trust_storage \<Rightarrow> ExpirableTrustState" where
  "loadExpirableState rt st =
     \<lparr>ex_pairingTickets = loadPairingTickets rt st,
      ex_confirmedPairingTickets = loadConfirmedPairingTickets rt st\<rparr>"

definition pruneExpiredRevokedAgents :: "ms \<Rightarrow> (string \<times> ms) list \<Rightarrow> (string \<times> ms) list \<times> bool" where
  "pruneExpiredRevokedAgents nowMs revoked =
     (alist_prune (\<lambda>_ e. e \<le> nowMs) revoked, \<exists>(_, e) \<in> set revoked. e \<le> nowMs)"

definition removeExpiredEntries :: "ms \<Rightarrow> ExpirableTrustState \<Rightarrow> ExpirableTrustState \<times> bool" where
  "removeExpiredEntries nowMs e =
     (\<lparr>ex_pairingTickets = alist_prune (\<lambda>_ d. st_expiresAtMs d \<le> nowMs) (ex_pairingTickets e),
       ex_confirmedPairingTickets =
         alist_prune (\<lambda>_ c. cf_expiresAtMs c \<le> nowMs) (ex_confirmedPairingTickets e)\<rparr>,
      (\<exists>(_, d) \<in> set (ex_pairingTickets e). st_expiresAtMs d \<le> nowMs) \<or>
      (\<exists>(_, c) \<in> set (ex_confirmedPairingTickets e). cf_expiresAtMs c \<le> nowMs))"

definition saveExpirableState :: "ExpirableTrustState \<Rightarrow> bool \<Rightarrow> bool \<Rightarrow> trust_storage \<Rightarrow> trust_storage" where
  "saveExpirableState e saveTickets saveConfirmed st =
     (let st = (if saveTickets then savePairingTickets (ex_pairingTickets e) st else st) in
      if saveConfirmed then saveConfirmedPairingTickets (ex_confirmedPairingTickets e) st else st)"

definition scheduleNextCodeCleanup ::
  "(string \<times> StoredPairingTicket) list \<Rightarrow> (string \<times> StoredConfirmedPairingTicket) list \<Rightarrow> (string \<times> ms) list \<Rightarrow>
   trust_storage \<Rightarrow> trust_storage" where
  "scheduleNextCodeCleanup tickets confirmed revoked st =
     (let expiryValues = map (st_expiresAtMs \<circ> snd) tickets @ map (cf_expiresAtMs \<circ> snd) confirmed @
                         map snd revoked in
      if expiryValues = [] then st\<lparr>ts_alarm := None\<rparr>
      else st\<lparr>ts_alarm := Some (foldl min (hd expiryValues) (tl expiryValues))\<rparr>)"

definition saveExpirableStateAndSchedule ::
  "ExpirableTrustState \<Rightarrow> bool \<Rightarrow> bool \<Rightarrow> trust_storage \<Rightarrow> trust_storage" where
  "saveExpirableStateAndSchedule e saveTickets saveConfirmed st =
     (let st = saveExpirableState e saveTickets saveConfirmed st in
      scheduleNextCodeCleanup (ex_pairingTickets e) (ex_confirmedPairingTickets e) (loadRevokedAgents st) st)"

definition saveRevokedAgentsAndSchedule :: "runtime \<Rightarrow> (string \<times> ms) list \<Rightarrow> trust_storage \<Rightarrow> trust_storage" where
  "saveRevokedAgentsAndSchedule rt revoked st =
     (let st = saveRevokedAgents revoked st; e = loadExpirableState rt st in
      scheduleNextCodeCleanup (ex_pairingTickets e) (ex_confirmedPairingTickets e) revoked st)"

definition runAlarmCleanup :: "runtime \<Rightarrow> ms \<Rightarrow> trust_storage \<Rightarrow> trust_storage" where
  "runAlarmCleanup rt nowMs st =
     (let (e, expirableMutated) = removeExpiredEntries nowMs (loadExpirableState rt st);
          (revoked, revokedMutated) = pruneExpiredRevokedAgents nowMs (loadRevokedAgents st);
          st = (if expirableMutated then saveExpirableState e True True st else st);
          st = (if revokedMutated then saveRevokedAgents revoked st else st)
      in scheduleNextCodeCleanup (ex_pairingTickets e) (ex_confirmedPairingTickets e) revoked st)"

section \<open>handlers.ts\<close>

text \<open>Each handler takes the parsed body (\<open>JUndefined\<close> when the body is not JSON) and the clock.\<close>

definition body_now :: "jsval \<Rightarrow> ms \<Rightarrow> ms" where
  "body_now b clock = (case js_finite (js_get b ''nowMs'') of None \<Rightarrow> clock | Some t \<Rightarrow> t)"

definition start_invalid :: "string \<Rightarrow> http_response" where
  "start_invalid msg = toErrorResponse ''PROXY_PAIR_START_INVALID_BODY'' msg 400"

text \<open>The response a store error becomes.\<close>
definition error_response :: "store_error \<Rightarrow> http_response" where
  "error_response e = toErrorResponse (se_code e) (se_message e) (se_status e)"

definition handleCreatePairingTicket ::
  "runtime \<Rightarrow> ms \<Rightarrow> jsval \<Rightarrow> trust_storage \<Rightarrow> http_response \<times> trust_storage" where
  "handleCreatePairingTicket rt clock b st =
     (if \<not> js_truthy b \<or> \<not> isNonEmptyString (js_get b ''initiatorAgentDid'') \<or>
         parsePeerProfile rt (js_get b ''initiatorProfile'') = None \<or>
         \<not> isNonEmptyString (js_get b ''issuerProxyUrl'') \<or> \<not> isNonEmptyString (js_get b ''ticket'') \<or>
         \<not> isNonEmptyString (js_get b ''publicKeyX'') \<or>
         (case js_integer (js_get b ''expiresAtMs'') of None \<Rightarrow> True | Some e \<Rightarrow> e \<le> 0)
      then (start_invalid ''Pairing ticket create input is invalid'', st)
      else let initiatorProfile = the (parsePeerProfile rt (js_get b ''initiatorProfile''));
               initiatorAgentDid = js_str (js_get b ''initiatorAgentDid'');
               publicKeyX = trim (js_str (js_get b ''publicKeyX''));
               allowRaw = js_get b ''allowResponderAgentDid'' in
      if allowRaw \<noteq> JUndefined \<and> \<not> isNonEmptyString allowRaw
      then (start_invalid ''allowResponderAgentDid must be a non-empty string'', st)
      else if allowRaw \<noteq> JUndefined \<and> \<not> is_agent_did (ulids rt) (trim (js_str allowRaw))
      then (start_invalid ''allowResponderAgentDid must be a valid agent DID'', st)
      else if js_get b ''callbackUrl'' \<noteq> JUndefined
      then (start_invalid ''callbackUrl is no longer supported'', st)
      else let allowResponderAgentDid = (if allowRaw = JUndefined then None else Some (trim (js_str allowRaw)));
               nowMs = body_now b clock;
               normalizedExpiresAtMs = normalizeExpiryToWholeSecond (js_num (js_get b ''expiresAtMs'')) in
      case parseNormalizedPairingTicket rt (js_str (js_get b ''ticket'')) of
        Inl response \<Rightarrow> (response, st)
      | Inr (ticket, parsedTicket) \<Rightarrow>
      if tk_iss parsedTicket \<noteq> js_str (js_get b ''issuerProxyUrl'') then (error_response err_issuer, st)
      else if tk_exp parsedTicket * 1000 \<noteq> normalizedExpiresAtMs
      then (start_invalid ''Pairing ticket expiry is invalid'', st)
      else if normalizedExpiresAtMs \<le> nowMs then (error_response err_expired, st)
      else let e = loadExpirableState rt st;
               e = e\<lparr>ex_pairingTickets := AList.update (tk_kid parsedTicket)
                      \<lparr>st_ticket = ticket, st_expiresAtMs = normalizedExpiresAtMs,
                       st_initiatorAgentDid = initiatorAgentDid, st_initiatorProfile = initiatorProfile,
                       st_issuerProxyUrl = tk_iss parsedTicket, st_publicKeyX = publicKeyX,
                       st_allowResponderAgentDid = allowResponderAgentDid\<rparr> (ex_pairingTickets e),
                     ex_confirmedPairingTickets :=
                       AList.delete (tk_kid parsedTicket) (ex_confirmedPairingTickets e)\<rparr> in
        (Response 200 (JObj [(''ticket'', JStr ticket), (''expiresAtMs'', JNum normalizedExpiresAtMs),
           (''initiatorAgentDid'', JStr initiatorAgentDid), (''initiatorProfile'', profile_js initiatorProfile),
           (''issuerProxyUrl'', JStr (tk_iss parsedTicket))]),
         saveExpirableStateAndSchedule e True True st))"

text \<open>
  \<open>handleConfirmPairingTicket\<close>, from the validated body on; the two halves are the code before and
  after the \<open>await\<close> of the signature check.
\<close>
definition durable_confirm_lookup ::
  "runtime \<Rightarrow> string \<Rightarrow> trust_storage \<Rightarrow>
   (http_response, string \<times> PairingTicketPayload \<times> StoredPairingTicket \<times> ExpirableTrustState) result" where
  "durable_confirm_lookup rt rawTicket st =
     bindE (parseNormalizedPairingTicket rt rawTicket) (\<lambda>(ticket, parsedTicket).
     let e = loadExpirableState rt st in
     throw_if (case map_of (ex_confirmedPairingTickets e) (tk_kid parsedTicket) of
                 None \<Rightarrow> False | Some confirmed \<Rightarrow> cf_ticket confirmed = ticket)
       (error_response err_already_confirmed)
     (bindE (of_option (error_response err_not_found) (map_of (ex_pairingTickets e) (tk_kid parsedTicket))) (\<lambda>stored.
      Inr (ticket, parsedTicket, stored, e))))"

definition durable_confirm_resume ::
  "runtime \<Rightarrow> ms \<Rightarrow> string \<Rightarrow> PeerProfile \<Rightarrow>
   string \<times> PairingTicketPayload \<times> StoredPairingTicket \<times> ExpirableTrustState \<Rightarrow>
   trust_storage \<Rightarrow> http_response \<times> trust_storage" where
  "durable_confirm_resume rt nowMs responderAgentDid responderProfile found st =
     (let (ticket, parsedTicket, stored, e) = found in
      if \<not> signatureVerified rt parsedTicket (st_publicKeyX stored) then (error_response err_signature, st)
      else if st_expiresAtMs stored \<le> nowMs \<or> tk_exp parsedTicket * 1000 \<le> nowMs then
        (error_response err_expired,
         saveExpirableStateAndSchedule
           (e\<lparr>ex_pairingTickets := AList.delete (tk_kid parsedTicket) (ex_pairingTickets e),
              ex_confirmedPairingTickets := AList.delete (tk_kid parsedTicket) (ex_confirmedPairingTickets e)\<rparr>)
           True True st)
      else if st_issuerProxyUrl stored \<noteq> tk_iss parsedTicket then (error_response err_issuer, st)
      else if st_allowResponderAgentDid stored \<noteq> None \<and>
              st_allowResponderAgentDid stored \<noteq> Some responderAgentDid then (error_response err_responder, st)
      else
        let pairs = js_set_add (loadPairs st) (toPairKey (st_initiatorAgentDid stored) responderAgentDid);
            agentPeers = addPeer (loadAgentPeers st) (st_initiatorAgentDid stored) responderAgentDid;
            agentPeers = addPeer agentPeers responderAgentDid (st_initiatorAgentDid stored);
            st = savePairs pairs st;
            st = saveAgentPeers agentPeers st;
            e = e\<lparr>ex_pairingTickets := AList.delete (tk_kid parsedTicket) (ex_pairingTickets e),
                  ex_confirmedPairingTickets := AList.update (tk_kid parsedTicket)
                    \<lparr>cf_ticket = ticket, cf_expiresAtMs = st_expiresAtMs stored,
                     cf_initiatorAgentDid = st_initiatorAgentDid stored,
                     cf_initiatorProfile = st_initiatorProfile stored,
                     cf_responderAgentDid = responderAgentDid, cf_responderProfile = responderProfile,
                     cf_issuerProxyUrl = st_issuerProxyUrl stored,
                     cf_confirmedAtMs = normalizeExpiryToWholeSecond nowMs\<rparr> (ex_confirmedPairingTickets e)\<rparr>
        in (Response 200 (JObj [(''initiatorAgentDid'', JStr (st_initiatorAgentDid stored)),
              (''initiatorProfile'', profile_js (st_initiatorProfile stored)),
              (''responderAgentDid'', JStr responderAgentDid), (''responderProfile'', profile_js responderProfile),
              (''issuerProxyUrl'', JStr (st_issuerProxyUrl stored))]),
            saveExpirableStateAndSchedule e True True st))"

definition handleConfirmPairingTicket ::
  "runtime \<Rightarrow> ms \<Rightarrow> jsval \<Rightarrow> trust_storage \<Rightarrow> http_response \<times> trust_storage" where
  "handleConfirmPairingTicket rt clock b st =
     (case parsePeerProfile rt (js_get b ''responderProfile'') of
        None \<Rightarrow> (toErrorResponse ''PROXY_PAIR_CONFIRM_INVALID_BODY'' ''Pairing ticket confirm input is invalid'' 400, st)
      | Some responderProfile \<Rightarrow>
      if \<not> js_truthy b \<or> \<not> isNonEmptyString (js_get b ''ticket'') \<or>
         \<not> isNonEmptyString (js_get b ''responderAgentDid'')
      then (toErrorResponse ''PROXY_PAIR_CONFIRM_INVALID_BODY'' ''Pairing ticket confirm input is invalid'' 400, st)
      else case durable_confirm_lookup rt (js_str (js_get b ''ticket'')) st of
        Inl response \<Rightarrow> (response, st)
      | Inr found \<Rightarrow>
          durable_confirm_resume rt (body_now b clock) (js_str (js_get b ''responderAgentDid'')) responderProfile
            found st)"

definition pending_js :: "StoredPairingTicket \<Rightarrow> jsval" where
  "pending_js p = JObj [(''status'', JStr ''pending''), (''ticket'', JStr (st_ticket p)),
     (''initiatorAgentDid'', JStr (st_initiatorAgentDid p)), (''initiatorProfile'', profile_js (st_initiatorProfile p)),
     (''issuerProxyUrl'', JStr (st_issuerProxyUrl p)), (''expiresAtMs'', JNum (st_expiresAtMs p))]"

definition confirmed_status_js :: "StoredConfirmedPairingTicket \<Rightarrow> jsval" where
  "confirmed_status_js c = JObj [(''status'', JStr ''confirmed''), (''ticket'', JStr (cf_ticket c)),
     (''initiatorAgentDid'', JStr (cf_initiatorAgentDid c)), (''initiatorProfile'', profile_js (cf_initiatorProfile c)),
     (''responderAgentDid'', JStr (cf_responderAgentDid c)), (''responderProfile'', profile_js (cf_responderProfile c)),
     (''issuerProxyUrl'', JStr (cf_issuerProxyUrl c)), (''expiresAtMs'', JNum (cf_expiresAtMs c)),
     (''confirmedAtMs'', JNum (cf_confirmedAtMs c))]"

definition handleGetPairingTicketStatus ::
  "runtime \<Rightarrow> ms \<Rightarrow> jsval \<Rightarrow> trust_storage \<Rightarrow> http_response \<times> trust_storage" where
  "handleGetPairingTicketStatus rt clock b st =
     (if \<not> js_truthy b \<or> \<not> isNonEmptyString (js_get b ''ticket'')
      then (toErrorResponse ''PROXY_PAIR_STATUS_INVALID_BODY'' ''Pairing ticket status input is invalid'' 400, st)
      else let nowMs = body_now b clock in
      case parseNormalizedPairingTicket rt (js_str (js_get b ''ticket'')) of
        Inl response \<Rightarrow> (response, st)
      | Inr (ticket, parsedTicket) \<Rightarrow>
      let e = loadExpirableState rt st;
          pending = map_of (ex_pairingTickets e) (tk_kid parsedTicket);
          confirmed = map_of (ex_confirmedPairingTickets e) (tk_kid parsedTicket) in
      if (case pending of None \<Rightarrow> False | Some p \<Rightarrow> st_ticket p = ticket) then
        (let p = the pending in
         if st_expiresAtMs p \<le> nowMs \<or> tk_exp parsedTicket * 1000 \<le> nowMs then
           (error_response err_expired,
            saveExpirableStateAndSchedule
              (e\<lparr>ex_pairingTickets := AList.delete (tk_kid parsedTicket) (ex_pairingTickets e)\<rparr>) True False st)
         else (Response 200 (pending_js p), st))
      else if (case confirmed of None \<Rightarrow> False | Some c \<Rightarrow> cf_ticket c = ticket) then
        (let c = the confirmed in
         if cf_expiresAtMs c \<le> nowMs \<or> tk_exp parsedTicket * 1000 \<le> nowMs then
           (error_response err_expired,
            saveExpirableStateAndSchedule
              (e\<lparr>ex_confirmedPairingTickets :=
                   AList.delete (tk_kid parsedTicket) (ex_confirmedPairingTickets e)\<rparr>) False True st)
         else (Response 200 (confirmed_status_js c), st))
      else if tk_exp parsedTicket * 1000 \<le> nowMs then (error_response err_expired, st)
      else (error_response err_not_found, st))"

definition handleUpsertPair :: "jsval \<Rightarrow> trust_storage \<Rightarrow> http_response \<times> trust_storage" where
  "handleUpsertPair b st =
     (if \<not> js_truthy b \<or> \<not> isNonEmptyString (js_get b ''initiatorAgentDid'') \<or>
         \<not> isNonEmptyString (js_get b ''responderAgentDid'')
      then (toErrorResponse ''PROXY_PAIR_UPSERT_INVALID_BODY'' ''Pair upsert input is invalid'' 400, st)
      else let initiator = js_str (js_get b ''initiatorAgentDid'');
               responder = js_str (js_get b ''responderAgentDid'');
               st = savePairs (js_set_add (loadPairs st) (toPairKey initiator responder)) st;
               agentPeers = addPeer (loadAgentPeers st) initiator responder;
               agentPeers = addPeer agentPeers responder initiator
           in (Response 200 (JObj [(''ok'', JBool True)]), saveAgentPeers agentPeers st))"

definition handleIsPairAllowed :: "jsval \<Rightarrow> trust_storage \<Rightarrow> http_response" where
  "handleIsPairAllowed b st =
     (if \<not> js_truthy b \<or> \<not> isNonEmptyString (js_get b ''initiatorAgentDid'') \<or>
         \<not> isNonEmptyString (js_get b ''responderAgentDid'')
      then toErrorResponse ''PROXY_PAIR_CHECK_INVALID_BODY'' ''Pair check input is invalid'' 400
      else let initiator = js_str (js_get b ''initiatorAgentDid'');
               responder = js_str (js_get b ''responderAgentDid'') in
      if initiator = responder then Response 200 (JObj [(''allowed'', JBool True)])
      else Response 200 (JObj [(''allowed'', JBool (toPairKey initiator responder \<in> set (loadPairs st)))]))"

text \<open>An optional integer field that must be positive when present.\<close>
definition bad_positive_integer :: "jsval \<Rightarrow> bool" where
  "bad_positive_integer x \<longleftrightarrow>
     x \<noteq> JUndefined \<and> (case js_integer x of None \<Rightarrow> True | Some n \<Rightarrow> n \<le> 0)"

definition handleMarkAgentRevoked ::
  "runtime \<Rightarrow> ms \<Rightarrow> jsval \<Rightarrow> trust_storage \<Rightarrow> http_response \<times> trust_storage" where
  "handleMarkAgentRevoked rt clock b st =
     (let invalid = (toErrorResponse ''PROXY_AGENT_REVOKE_INVALID_BODY'' ''Agent revoke input is invalid'' 400, st) in
      if \<not> js_truthy b \<or> \<not> isNonEmptyString (js_get b ''agentDid'') then invalid
      else let agentDid = trim (js_str (js_get b ''agentDid'')) in
      if \<not> is_agent_did (ulids rt) agentDid then invalid
      else if bad_positive_integer (js_get b ''nowMs'') then invalid
      else if bad_positive_integer (js_get b ''ttlMs'') then invalid
      else let nowMs = body_now b clock;
               ttlMs = (case js_finite (js_get b ''ttlMs'') of None \<Rightarrow> REVOKED_AGENT_MARKER_TTL_MS | Some t \<Rightarrow> t);
               expiresAtMs = nowMs + ttlMs in
      if \<not> js_is_safe_integer expiresAtMs \<or> expiresAtMs \<le> nowMs then invalid
      else let revoked = fst (pruneExpiredRevokedAgents nowMs (loadRevokedAgents st)) in
        (Response 200 (JObj [(''ok'', JBool True)]),
         saveRevokedAgentsAndSchedule rt (AList.update agentDid expiresAtMs revoked) st))"

definition handleIsAgentRevoked ::
  "runtime \<Rightarrow> ms \<Rightarrow> jsval \<Rightarrow> trust_storage \<Rightarrow> http_response \<times> trust_storage" where
  "handleIsAgentRevoked rt clock b st =
     (let invalid = (toErrorResponse ''PROXY_AGENT_REVOKED_CHECK_INVALID_BODY''
                       ''Agent revoked check input is invalid'' 400, st) in
      if \<not> js_truthy b \<or> \<not> isNonEmptyString (js_get b ''agentDid'') then invalid
      else let agentDid = trim (js_str (js_get b ''agentDid'')) in
      if \<not> is_agent_did (ulids rt) agentDid then invalid
      else if bad_positive_integer (js_get b ''nowMs'') then invalid
      else let nowMs = body_now b clock;
               (revoked, pruned) = pruneExpiredRevokedAgents nowMs (loadRevokedAgents st);
               st = (if pruned then saveRevokedAgentsAndSchedule rt revoked st else st) in
        (Response 200 (JObj [(''revoked'',
           JBool ((case map_of revoked agentDid of None \<Rightarrow> 0 | Some e \<Rightarrow> e) > nowMs))]), st))"

definition handleIsAgentKnown :: "jsval \<Rightarrow> trust_storage \<Rightarrow> http_response" where
  "handleIsAgentKnown b st =
     (if \<not> js_truthy b \<or> \<not> isNonEmptyString (js_get b ''agentDid'')
      then toErrorResponse ''PROXY_AGENT_KNOWN_INVALID_BODY'' ''Agent known check input is invalid'' 400
      else if (case map_of (loadAgentPeers st) (js_str (js_get b ''agentDid'')) of
                 None \<Rightarrow> 0 | Some peers \<Rightarrow> length peers) > 0
      then Response 200 (JObj [(''known'', JBool True)])
      else Response 200 (JObj [(''known'', JBool False)]))"

section \<open>controller.ts\<close>

text \<open>\<open>TRUST_STORE_ROUTES\<close>; the plain-text 404 has no JSON body.\<close>
definition ProxyTrustState_fetch ::
  "runtime \<Rightarrow> ms \<Rightarrow> string \<Rightarrow> string \<Rightarrow> jsval \<Rightarrow> trust_storage \<Rightarrow> http_response \<times> trust_storage" where
  "ProxyTrustState_fetch rt clock httpMethod path b st =
     (if httpMethod \<noteq> ''POST'' then (Response 404 JUndefined, st)
      else if path = ''/pairing-tickets/create'' then handleCreatePairingTicket rt clock b st
      else if path = ''/pairing-tickets/confirm'' then handleConfirmPairingTicket rt clock b st
      else if path = ''/pairing-tickets/status'' then handleGetPairingTicketStatus rt clock b st
      else if path = ''/agents/revoked/mark'' then handleMarkAgentRevoked rt clock b st
      else if path = ''/agents/revoked/check'' then handleIsAgentRevoked rt clock b st
      else if path = ''/pairs/upsert'' then handleUpsertPair b st
      else if path = ''/pairs/check'' then (handleIsPairAllowed b st, st)
      else if path = ''/agents/known'' then (handleIsAgentKnown b st, st)
      else (Response 404 JUndefined, st))"

definition ProxyTrustState_alarm :: "runtime \<Rightarrow> ms \<Rightarrow> trust_storage \<Rightarrow> trust_storage" where
  "ProxyTrustState_alarm rt clock st = runAlarmCleanup rt clock st"

section \<open>The client: createDurableProxyTrustStore\<close>

definition parseErrorPayload :: "jsval \<Rightarrow> string \<times> string" where
  "parseErrorPayload payload =
     (if \<not> is_object payload then (''PROXY_TRUST_STATE_ERROR'', ''Trust state operation failed'')
      else let err = js_get payload ''error'' in
      if \<not> is_object err then (''PROXY_TRUST_STATE_ERROR'', ''Trust state operation failed'')
      else ((case js_get err ''code'' of JStr c \<Rightarrow> c | _ \<Rightarrow> ''PROXY_TRUST_STATE_ERROR''),
            (case js_get err ''message'' of JStr m \<Rightarrow> m | _ \<Rightarrow> ''Trust state operation failed'')))"

definition callDurableState ::
  "runtime \<Rightarrow> ms \<Rightarrow> string \<Rightarrow> jsval \<Rightarrow> trust_storage \<Rightarrow> (store_error, jsval) result \<times> trust_storage" where
  "callDurableState rt clock path payload st =
     (case ProxyTrustState_fetch rt clock ''POST'' path (json_wire payload) st of (response, st) \<Rightarrow>
      if \<not> (200 \<le> resp_status response \<and> resp_status response \<le> 299) then
        (let (code, message) = parseErrorPayload (resp_body response) in
         (Inl (ProxyTrustStoreError code message (resp_status response)), st))
      else (Inr (resp_body response), st))"

definition durable_createPairingTicket ::
  "runtime \<Rightarrow> ms \<Rightarrow> PairingTicketInput \<Rightarrow> trust_storage \<Rightarrow> (store_error, jsval) result \<times> trust_storage" where
  "durable_createPairingTicket rt clock i st =
     callDurableState rt clock ''/pairing-tickets/create''
       (JObj [(''initiatorAgentDid'', JStr (ci_initiatorAgentDid i)),
              (''initiatorProfile'', profile_js (ci_initiatorProfile i)),
              (''issuerProxyUrl'', JStr (ci_issuerProxyUrl i)),
              (''ticket'', JStr (normalizePairingTicketText (ci_ticket i))),
              (''publicKeyX'', JStr (ci_publicKeyX i)),
              (''allowResponderAgentDid'', js_opt_str (ci_allowResponderAgentDid i)),
              (''expiresAtMs'', JNum (ci_expiresAtMs i)), (''nowMs'', js_opt_num (ci_nowMs i))]) st"

definition durable_confirmPairingTicket ::
  "runtime \<Rightarrow> ms \<Rightarrow> PairingTicketConfirmInput \<Rightarrow> trust_storage \<Rightarrow> (store_error, jsval) result \<times> trust_storage" where
  "durable_confirmPairingTicket rt clock i st =
     callDurableState rt clock ''/pairing-tickets/confirm''
       (JObj [(''ticket'', JStr (normalizePairingTicketText (fi_ticket i))),
              (''responderAgentDid'', JStr (fi_responderAgentDid i)),
              (''responderProfile'', profile_js (fi_responderProfile i)),
              (''nowMs'', js_opt_num (fi_nowMs i))]) st"

definition durable_getPairingTicketStatus ::
  "runtime \<Rightarrow> ms \<Rightarrow> PairingTicketStatusInput \<Rightarrow> trust_storage \<Rightarrow> (store_error, jsval) result \<times> trust_storage" where
  "durable_getPairingTicketStatus rt clock i st =
     callDurableState rt clock ''/pairing-tickets/status''
       (JObj [(''ticket'', JStr (normalizePairingTicketText (si_ticket i))),
              (''nowMs'', js_opt_num (si_nowMs i))]) st"

definition durable_markAgentRevoked ::
  "runtime \<Rightarrow> ms \<Rightarrow> string \<Rightarrow> trust_storage \<Rightarrow> (store_error, jsval) result \<times> trust_storage" where
  "durable_markAgentRevoked rt clock agentDid st =
     callDurableState rt clock ''/agents/revoked/mark'' (JObj [(''agentDid'', JStr agentDid)]) st"

definition durable_isAgentRevoked ::
  "runtime \<Rightarrow> ms \<Rightarrow> string \<Rightarrow> trust_storage \<Rightarrow> (store_error, jsval) result \<times> trust_storage" where
  "durable_isAgentRevoked rt clock agentDid st =
     (case callDurableState rt clock ''/agents/revoked/check'' (JObj [(''agentDid'', JStr agentDid)]) st of
        (r, st) \<Rightarrow> (bindE r (\<lambda>v. Inr (js_get v ''revoked'')), st))"

definition durable_isAgentKnown ::
  "runtime \<Rightarrow> ms \<Rightarrow> string \<Rightarrow> trust_storage \<Rightarrow> (store_error, jsval) result" where
  "durable_isAgentKnown rt clock agentDid st =
     bindE (fst (callDurableState rt clock ''/agents/known'' (JObj [(''agentDid'', JStr agentDid)]) st))
       (\<lambda>v. Inr (js_get v ''known''))"

definition durable_isPairAllowed ::
  "runtime \<Rightarrow> ms \<Rightarrow> trust_storage \<Rightarrow> string \<Rightarrow> string \<Rightarrow> (store_error, jsval) result" where
  "durable_isPairAllowed rt clock st initiatorAgentDid responderAgentDid =
     bindE (fst (callDurableState rt clock ''/pairs/check''
              (JObj [(''initiatorAgentDid'', JStr initiatorAgentDid),
                     (''responderAgentDid'', JStr responderAgentDid)]) st))
       (\<lambda>v. Inr (js_get v ''allowed''))"

definition durable_upsertPair ::
  "runtime \<Rightarrow> ms \<Rightarrow> string \<Rightarrow> string \<Rightarrow> trust_storage \<Rightarrow> (store_error, jsval) result \<times> trust_storage" where
  "durable_upsertPair rt clock initiatorAgentDid responderAgentDid st =
     callDurableState rt clock ''/pairs/upsert''
       (JObj [(''initiatorAgentDid'', JStr initiatorAgentDid),
              (''responderAgentDid'', JStr responderAgentDid)]) st"

section \<open>Saving and loading\<close>

named_theorems storage_frame \<open>storage keys a save leaves alone, and reading back what was saved\<close>

lemma loadPairs_savePairs [storage_frame]:
  "set (loadPairs (savePairs ps st)) = set ps" "distinct (loadPairs st)"
  by (auto simp: loadPairs_def savePairs_def split: jsval.splits)

lemma savePairs_frame [storage_frame]:
  "ts_agentPeers (savePairs ps st) = ts_agentPeers st"
  "ts_revokedAgents (savePairs ps st) = ts_revokedAgents st"
  "ts_pairingTickets (savePairs ps st) = ts_pairingTickets st"
  "ts_confirmedTickets (savePairs ps st) = ts_confirmedTickets st"
  by (simp_all add: savePairs_def)

lemma saveAgentPeers_frame [storage_frame]:
  "ts_pairs (saveAgentPeers ps st) = ts_pairs st"
  "ts_revokedAgents (saveAgentPeers ps st) = ts_revokedAgents st"
  "ts_pairingTickets (saveAgentPeers ps st) = ts_pairingTickets st"
  "ts_confirmedTickets (saveAgentPeers ps st) = ts_confirmedTickets st"
  by (simp_all add: saveAgentPeers_def)

lemma scheduleNextCodeCleanup_frame [storage_frame]:
  "ts_pairs (scheduleNextCodeCleanup a b c st) = ts_pairs st"
  "ts_agentPeers (scheduleNextCodeCleanup a b c st) = ts_agentPeers st"
  "ts_revokedAgents (scheduleNextCodeCleanup a b c st) = ts_revokedAgents st"
  "ts_pairingTickets (scheduleNextCodeCleanup a b c st) = ts_pairingTickets st"
  "ts_confirmedTickets (scheduleNextCodeCleanup a b c st) = ts_confirmedTickets st"
  by (simp_all add: scheduleNextCodeCleanup_def Let_def)

lemma saveExpirableState_frame [storage_frame]:
  "ts_pairs (saveExpirableState e x y st) = ts_pairs st"
  "ts_agentPeers (saveExpirableState e x y st) = ts_agentPeers st"
  "ts_revokedAgents (saveExpirableState e x y st) = ts_revokedAgents st"
  by (simp_all add: saveExpirableState_def savePairingTickets_def saveConfirmedPairingTickets_def Let_def)

lemma saveExpirableStateAndSchedule_frame [storage_frame]:
  "ts_pairs (saveExpirableStateAndSchedule e x y st) = ts_pairs st"
  "ts_agentPeers (saveExpirableStateAndSchedule e x y st) = ts_agentPeers st"
  "ts_revokedAgents (saveExpirableStateAndSchedule e x y st) = ts_revokedAgents st"
  by (simp_all add: saveExpirableStateAndSchedule_def Let_def storage_frame)

lemma saveRevokedAgents_frame [storage_frame]:
  "ts_pairs (saveRevokedAgents r st) = ts_pairs st"
  "ts_agentPeers (saveRevokedAgents r st) = ts_agentPeers st"
  "ts_pairingTickets (saveRevokedAgents r st) = ts_pairingTickets st"
  "ts_confirmedTickets (saveRevokedAgents r st) = ts_confirmedTickets st"
  by (simp_all add: saveRevokedAgents_def)

lemma saveRevokedAgentsAndSchedule_frame [storage_frame]:
  "ts_pairs (saveRevokedAgentsAndSchedule rt r st) = ts_pairs st"
  "ts_agentPeers (saveRevokedAgentsAndSchedule rt r st) = ts_agentPeers st"
  by (simp_all add: saveRevokedAgentsAndSchedule_def Let_def storage_frame)

lemma runAlarmCleanup_frame [storage_frame]:
  "ts_pairs (runAlarmCleanup rt t st) = ts_pairs st"
  "ts_agentPeers (runAlarmCleanup rt t st) = ts_agentPeers st"
  by (simp_all add: runAlarmCleanup_def removeExpiredEntries_def pruneExpiredRevokedAgents_def Let_def storage_frame)

lemma loadPairs_cong: "ts_pairs st = ts_pairs st' \<Longrightarrow> loadPairs st = loadPairs st'"
  by (simp add: loadPairs_def)

section \<open>The wire\<close>

lemma js_get_wire: "distinct (map fst fs) \<Longrightarrow> js_get (json_wire (JObj fs)) k = json_wire (js_get (JObj fs) k)"
proof -
  assume d: "distinct (map fst fs)"
  let ?f = "filter (\<lambda>(k, x). x \<noteq> JUndefined) fs"
  have "map_of (map (\<lambda>(k, x). (k, json_wire x)) ?f) k = map_option json_wire (map_of ?f k)"
    by (induction fs) auto
  moreover have "map_of ?f k = (case map_of fs k of None \<Rightarrow> None | Some x \<Rightarrow> if x \<noteq> JUndefined then Some x else None)"
    using d by (rule map_of_filter_distinct)
  ultimately show ?thesis by (auto split: option.splits)
qed

lemma json_wire_atoms [simp]:
  "json_wire (js_opt_str x) = js_opt_str x" "json_wire (js_opt_num y) = js_opt_num y"
  "json_wire (profile_js p) = profile_js p"
proof -
  show "json_wire (js_opt_str x) = js_opt_str x" by (cases x) simp_all
  show "json_wire (js_opt_num y) = js_opt_num y" by (cases y) simp_all
  show "json_wire (profile_js p) = profile_js p" by (simp add: profile_js_def split: option.splits)
qed

lemma json_wire_truthy [simp]: "js_truthy (json_wire (JObj fs))" "is_object (json_wire (JObj fs))"
  by simp_all

lemma error_payload [simp]: "parseErrorPayload (resp_body (toErrorResponse c m n)) = (c, m)"
  by (simp add: parseErrorPayload_def toErrorResponse_def)

lemma status_error [simp]: "resp_status (toErrorResponse c m n) = n" "resp_status (error_response e) = se_status e"
  by (simp_all add: toErrorResponse_def error_response_def)

section \<open>The pair keys change only where trust is granted\<close>

lemma parseNormalized_Inl: "parseNormalizedPairingTicket rt t = Inl resp \<Longrightarrow> resp_status resp = 400"
  by (auto simp: parseNormalizedPairingTicket_def Let_def split: sum.splits)

lemma durable_confirm_lookup_Inl:
  "durable_confirm_lookup rt t st = Inl resp \<Longrightarrow> resp_status resp \<in> {400, 404, 409}"
  by (auto simp: durable_confirm_lookup_def Let_def store_errors dest: parseNormalized_Inl)

lemma durable_confirm_resume_cases:
  assumes "durable_confirm_resume rt t r prof (tk, p, d, e) st = (resp, st')"
  shows "(resp_status resp = 200 \<and> set (loadPairs st') = insert (toPairKey (st_initiatorAgentDid d) r) (set (loadPairs st)) \<and>
            js_get (resp_body resp) ''initiatorAgentDid'' = JStr (st_initiatorAgentDid d) \<and>
            js_get (resp_body resp) ''responderAgentDid'' = JStr r) \<or>
         (resp_status resp \<in> {400, 403, 410} \<and> ts_pairs st' = ts_pairs st)"
proof -
  have lp: "loadPairs (saveExpirableStateAndSchedule x True True (saveAgentPeers y (savePairs z st))) =
      loadPairs (savePairs z st)" for x y z
    by (rule loadPairs_cong) (simp add: storage_frame)
  show ?thesis using assms
    by (auto simp: durable_confirm_resume_def Let_def store_errors storage_frame lp split: if_splits)
qed

lemma handleConfirm_cases:
  assumes "handleConfirmPairingTicket rt t b st = (resp, st')"
  shows "(\<exists>a. resp_status resp = 200 \<and>
            set (loadPairs st') = insert (toPairKey a (js_str (js_get b ''responderAgentDid''))) (set (loadPairs st)) \<and>
            js_get (resp_body resp) ''initiatorAgentDid'' = JStr a \<and>
            js_get (resp_body resp) ''responderAgentDid'' = JStr (js_str (js_get b ''responderAgentDid''))) \<or>
         (resp_status resp \<in> {400, 403, 404, 409, 410} \<and> ts_pairs st' = ts_pairs st)"
proof (cases "durable_confirm_lookup rt (js_str (js_get b ''ticket'')) st")
  case (Inl resp0)
  then show ?thesis using assms durable_confirm_lookup_Inl [OF Inl]
    by (auto simp: handleConfirmPairingTicket_def split: option.splits if_splits)
next
  case (Inr found)
  obtain tk p d e where f: "found = (tk, p, d, e)" by (cases found)
  show ?thesis
    using assms Inr f durable_confirm_resume_cases
    by (auto simp: handleConfirmPairingTicket_def split: option.splits if_splits) blast+
qed

type_synonym durable_event = "timed_call + ms"

text \<open>A call of the client (left) or the alarm firing (right).\<close>
fun durable_step :: "runtime \<Rightarrow> durable_event \<Rightarrow> trust_storage \<Rightarrow> trust_storage" where
  "durable_step rt (Inl (clock, _, CallCreate i)) st = snd (durable_createPairingTicket rt clock i st)"
| "durable_step rt (Inl (clock, _, CallConfirm i)) st = snd (durable_confirmPairingTicket rt clock i st)"
| "durable_step rt (Inl (clock, _, CallStatus i)) st = snd (durable_getPairingTicketStatus rt clock i st)"
| "durable_step rt (Inl (clock, _, CallMarkRevoked d)) st = snd (durable_markAgentRevoked rt clock d st)"
| "durable_step rt (Inl (clock, _, CallIsRevoked d)) st = snd (durable_isAgentRevoked rt clock d st)"
| "durable_step rt (Inl (clock, _, CallUpsertPair a b)) st = snd (durable_upsertPair rt clock a b st)"
| "durable_step rt (Inr clock) st = ProxyTrustState_alarm rt clock st"

fun durable_grants :: "runtime \<Rightarrow> durable_event \<Rightarrow> trust_storage \<Rightarrow> (string \<times> string) option" where
  "durable_grants rt (Inl (clock, _, CallConfirm i)) st =
     (case fst (durable_confirmPairingTicket rt clock i st) of Inl _ \<Rightarrow> None
      | Inr v \<Rightarrow> Some (js_str (js_get v ''initiatorAgentDid''), js_str (js_get v ''responderAgentDid'')))"
| "durable_grants rt (Inl (clock, _, CallUpsertPair a b)) st =
     (case fst (durable_upsertPair rt clock a b st) of Inl _ \<Rightarrow> None | Inr _ \<Rightarrow> Some (a, b))"
| "durable_grants rt _ st = None"

definition durable_allowed :: "trust_storage \<Rightarrow> string \<Rightarrow> string \<Rightarrow> bool" where
  "durable_allowed st a b \<longleftrightarrow> a = b \<or> toPairKey a b \<in> set (loadPairs st)"

text \<open>It is what \<open>isPairAllowed\<close> answers for names that are not blank.\<close>
lemma durable_isPairAllowed_eq:
  assumes "trim a \<noteq> []" "trim b \<noteq> []"
  shows "durable_isPairAllowed rt c st a b = Inr (JBool (durable_allowed st a b))"
  using assms
  by (simp add: durable_isPairAllowed_def callDurableState_def ProxyTrustState_fetch_def
      handleIsPairAllowed_def durable_allowed_def)

lemma callDurable_snd: "snd (callDurableState rt c p v st) = snd (ProxyTrustState_fetch rt c ''POST'' p (json_wire v) st)"
  by (simp add: callDurableState_def Let_def split: prod.splits)

lemma durable_other_pairs:
  "ts_pairs (snd (durable_createPairingTicket rt c i st)) = ts_pairs st"
  "ts_pairs (snd (durable_getPairingTicketStatus rt c j st)) = ts_pairs st"
  "ts_pairs (snd (durable_markAgentRevoked rt c d st)) = ts_pairs st"
  "ts_pairs (snd (durable_isAgentRevoked rt c d st)) = ts_pairs st"
proof -
  have 1: "ts_pairs (snd (handleCreatePairingTicket rt c b st)) = ts_pairs st" for b
    by (simp add: handleCreatePairingTicket_def Let_def storage_frame split: sum.splits prod.splits)
  have 2: "ts_pairs (snd (handleGetPairingTicketStatus rt c b st)) = ts_pairs st" for b
    by (simp add: handleGetPairingTicketStatus_def Let_def storage_frame split: sum.splits prod.splits)
  have 3: "ts_pairs (snd (handleMarkAgentRevoked rt c b st)) = ts_pairs st" for b
    by (simp add: handleMarkAgentRevoked_def Let_def storage_frame)
  have 4: "ts_pairs (snd (handleIsAgentRevoked rt c b st)) = ts_pairs st" for b
    by (simp add: handleIsAgentRevoked_def Let_def storage_frame split: prod.splits)
  show "ts_pairs (snd (durable_createPairingTicket rt c i st)) = ts_pairs st"
    "ts_pairs (snd (durable_getPairingTicketStatus rt c j st)) = ts_pairs st"
    "ts_pairs (snd (durable_markAgentRevoked rt c d st)) = ts_pairs st"
    by (simp_all add: durable_createPairingTicket_def durable_getPairingTicketStatus_def
        durable_markAgentRevoked_def callDurable_snd ProxyTrustState_fetch_def 1 2 3 del: json_wire.simps)
  have "snd (durable_isAgentRevoked rt c d st) =
      snd (callDurableState rt c ''/agents/revoked/check'' (JObj [(''agentDid'', JStr d)]) st)"
    by (simp add: durable_isAgentRevoked_def split: prod.splits)
  then show "ts_pairs (snd (durable_isAgentRevoked rt c d st)) = ts_pairs st"
    by (simp add: callDurable_snd ProxyTrustState_fetch_def 4 del: json_wire.simps)
qed

lemma durable_step_pairs:
  "set (loadPairs (durable_step rt ev st)) =
     (case durable_grants rt ev st of None \<Rightarrow> set (loadPairs st)
      | Some (a, b) \<Rightarrow> insert (toPairKey a b) (set (loadPairs st)))"
  (is "?claim ev")
proof -
  have confirm: "?claim (Inl (c, c', CallConfirm i))" for c c' i
  proof -
    let ?b = "json_wire (JObj [(''ticket'', JStr (normalizePairingTicketText (fi_ticket i))),
              (''responderAgentDid'', JStr (fi_responderAgentDid i)),
              (''responderProfile'', profile_js (fi_responderProfile i)), (''nowMs'', js_opt_num (fi_nowMs i))])"
    obtain resp st' where h: "handleConfirmPairingTicket rt c ?b st = (resp, st')" by fastforce
    have f: "ProxyTrustState_fetch rt c ''POST'' ''/pairing-tickets/confirm'' ?b st = (resp, st')"
      by (simp add: ProxyTrustState_fetch_def h del: json_wire.simps)
    have call: "durable_confirmPairingTicket rt c i st =
        (if \<not> (200 \<le> resp_status resp \<and> resp_status resp \<le> 299)
         then (case parseErrorPayload (resp_body resp) of
                 (code, message) \<Rightarrow> (Inl (ProxyTrustStoreError code message (resp_status resp)), st'))
         else (Inr (resp_body resp), st'))"
      unfolding durable_confirmPairingTicket_def callDurableState_def f Let_def by simp
    from handleConfirm_cases [OF h] show ?thesis
    proof (elim disjE exE conjE)
      fix a assume "resp_status resp = 200"
        "set (loadPairs st') = insert (toPairKey a (js_str (js_get ?b ''responderAgentDid''))) (set (loadPairs st))"
        "js_get (resp_body resp) ''initiatorAgentDid'' = JStr a"
        "js_get (resp_body resp) ''responderAgentDid'' = JStr (js_str (js_get ?b ''responderAgentDid''))"
      then show ?thesis by (simp add: call del: json_wire.simps)
    next
      assume s: "resp_status resp \<in> {400, 403, 404, 409, 410}" and "ts_pairs st' = ts_pairs st"
      then have "loadPairs st' = loadPairs st" by (intro loadPairs_cong)
      then show ?thesis using s by (auto simp: call split: prod.splits)
    qed
  qed
  have upsert: "?claim (Inl (c, c', CallUpsertPair a b))" for c c' a b
  proof -
    have lp: "loadPairs (saveAgentPeers y (savePairs z st)) = loadPairs (savePairs z st)" for y z
      by (rule loadPairs_cong) (simp add: storage_frame)
    show ?thesis
      by (simp add: durable_upsertPair_def callDurableState_def ProxyTrustState_fetch_def handleUpsertPair_def
          Let_def storage_frame lp split: prod.splits)
  qed
  have other: "loadPairs (durable_step rt ev st) = loadPairs st"
    if "\<And>c c' i. ev \<noteq> Inl (c, c', CallConfirm i)" "\<And>c c' a b. ev \<noteq> Inl (c, c', CallUpsertPair a b)"
  proof (cases ev)
    case (Inl x)
    obtain c c' op where "x = (c, c', op)" by (cases x)
    with Inl that show ?thesis
      by (cases op) (auto intro!: loadPairs_cong simp: durable_other_pairs)
  qed (auto intro!: loadPairs_cong simp: ProxyTrustState_alarm_def storage_frame)
  show ?thesis
  proof (cases "(\<exists>c c' i. ev = Inl (c, c', CallConfirm i)) \<or> (\<exists>c c' a b. ev = Inl (c, c', CallUpsertPair a b))")
    case True then show ?thesis using confirm upsert by blast
  next
    case False
    then have "durable_grants rt ev st = None"
      by (induction rt ev st rule: durable_grants.induct) auto
    with False other show ?thesis by auto
  qed
qed

interpretation durable: trust_store "durable_step rt" durable_allowed "durable_grants rt" for rt
proof unfold_locales
  fix s a show "durable_allowed s a a" by (simp add: durable_allowed_def)
next
  fix s a b assume "durable_allowed s a b"
  then show "durable_allowed s b a" by (auto simp: durable_allowed_def toPairKey_sym [of b a])
next
  fix c s a b assume "durable_grants rt c s = Some (a, b)"
  then show "durable_allowed (durable_step rt c s) a b"
    by (simp add: durable_allowed_def durable_step_pairs)
next
  fix s x y c assume "durable_allowed s x y"
  then show "durable_allowed (durable_step rt c s) x y"
    by (auto simp: durable_allowed_def durable_step_pairs split: option.splits)
next
  fix c s x y
  assume "durable_allowed (durable_step rt c s) x y" "\<not> durable_allowed s x y"
    and bf: "bar_free x" "bar_free y"
  then obtain a b where "durable_grants rt c s = Some (a, b)" "toPairKey x y = toPairKey a b"
    by (auto simp: durable_allowed_def durable_step_pairs split: option.splits)
  then show "\<exists>a b. durable_grants rt c s = Some (a, b) \<and> (bar_free a \<longrightarrow> bar_free b \<longrightarrow> {a, b} = {x, y})"
    using toPairKey_inject bf by blast
qed

section \<open>What is saved is loaded back\<close>

definition profile_ok :: "runtime \<Rightarrow> PeerProfile \<Rightarrow> bool" where
  "profile_ok rt p \<longleftrightarrow> parsePeerProfile rt (profile_js p) = Some p"

definition ticket_ok :: "runtime \<Rightarrow> string \<Rightarrow> StoredPairingTicket \<Rightarrow> bool" where
  "ticket_ok rt k d \<longleftrightarrow>
     (\<exists>p. parsePairingTicket rt (st_ticket d) = Inr p \<and> tk_kid p = k \<and> tk_iss p = st_issuerProxyUrl d) \<and>
     trim (st_ticket d) \<noteq> [] \<and> trim (st_initiatorAgentDid d) \<noteq> [] \<and> trim (st_issuerProxyUrl d) \<noteq> [] \<and>
     trim (st_publicKeyX d) \<noteq> [] \<and> js_is_integer (st_expiresAtMs d) \<and>
     (\<forall>a. st_allowResponderAgentDid d = Some a \<longrightarrow> trim a \<noteq> []) \<and> profile_ok rt (st_initiatorProfile d)"

definition confirmed_ok :: "runtime \<Rightarrow> string \<Rightarrow> StoredConfirmedPairingTicket \<Rightarrow> bool" where
  "confirmed_ok rt k c \<longleftrightarrow>
     (\<exists>p. parsePairingTicket rt (cf_ticket c) = Inr p \<and> tk_kid p = k \<and> tk_iss p = cf_issuerProxyUrl c) \<and>
     trim (cf_ticket c) \<noteq> [] \<and> trim (cf_initiatorAgentDid c) \<noteq> [] \<and> trim (cf_responderAgentDid c) \<noteq> [] \<and>
     trim (cf_issuerProxyUrl c) \<noteq> [] \<and> js_is_integer (cf_expiresAtMs c) \<and> js_is_integer (cf_confirmedAtMs c) \<and>
     profile_ok rt (cf_initiatorProfile c) \<and> profile_ok rt (cf_responderProfile c)"

lemma load_ticket_entry_ok:
  "ticket_ok rt k d \<Longrightarrow> load_ticket_entry rt acc (k, ticket_js d) = AList.update k d acc"
  by (cases d; cases "st_allowResponderAgentDid d")
    (auto simp: ticket_ok_def load_ticket_entry_def ticket_js_def profile_ok_def Let_def)

lemma load_confirmed_entry_ok:
  "confirmed_ok rt k c \<Longrightarrow> load_confirmed_entry rt acc (k, confirmed_js c) = AList.update k c acc"
  by (cases c) (auto simp: confirmed_ok_def load_confirmed_entry_def confirmed_js_def profile_ok_def Let_def)

lemma loadPairingTickets_save:
  assumes "distinct (map fst ts)" and "\<forall>(k, d) \<in> set ts. ticket_ok rt k d"
  shows "loadPairingTickets rt (savePairingTickets ts st) = ts"
proof -
  have "foldl (load_ticket_entry rt) [] (map (\<lambda>(k, d). (k, ticket_js d)) ts) = [] @ ts"
    using assms by (intro foldl_alist_update_fresh) (auto intro: load_ticket_entry_ok)
  then show ?thesis by (simp add: loadPairingTickets_def savePairingTickets_def)
qed

lemma loadConfirmedPairingTickets_save:
  assumes "distinct (map fst ts)" and "\<forall>(k, c) \<in> set ts. confirmed_ok rt k c"
  shows "loadConfirmedPairingTickets rt (saveConfirmedPairingTickets ts st) = ts"
proof -
  have "foldl (load_confirmed_entry rt) [] (map (\<lambda>(k, c). (k, confirmed_js c)) ts) = [] @ ts"
    using assms by (intro foldl_alist_update_fresh) (auto intro: load_confirmed_entry_ok)
  then show ?thesis by (simp add: loadConfirmedPairingTickets_def saveConfirmedPairingTickets_def)
qed

lemma loadRevokedAgents_save:
  assumes "distinct (map fst rs)" and "\<forall>(k, e) \<in> set rs. trim k \<noteq> [] \<and> js_is_integer e \<and> 0 < e"
  shows "loadRevokedAgents (saveRevokedAgents rs st) = rs"
proof -
  have "foldl load_revoked_entry [] (map (\<lambda>(k, e). (k, JObj [(''expiresAtMs'', JNum e)])) rs) = [] @ rs"
    using assms by (intro foldl_alist_update_fresh) auto
  then show ?thesis by (simp add: loadRevokedAgents_def saveRevokedAgents_def)
qed

lemma loadAgentPeers_save:
  assumes "distinct (map fst ps)" and "\<forall>(k, xs) \<in> set ps. \<forall>x \<in> set xs. trim x \<noteq> []"
  shows "loadAgentPeers (saveAgentPeers ps st) = ps"
proof -
  have "load_peer_entry acc (k, JArr (map JStr xs)) = AList.update k xs acc" if "(k, xs) \<in> set ps" for acc k xs
  proof -
    have "\<forall>x \<in> set xs. trim x \<noteq> []" using assms(2) that by auto
    then have "map js_str (filter isNonEmptyString (map JStr xs)) = xs" by (induction xs) auto
    then show ?thesis by simp
  qed
  then have "foldl load_peer_entry [] (map (\<lambda>(k, xs). (k, JArr (map JStr xs))) ps) = [] @ ps"
    using assms(1) by (intro foldl_alist_update_fresh) auto
  then show ?thesis by (simp add: loadAgentPeers_def saveAgentPeers_def)
qed

subsection \<open>Loaded entries are good\<close>

lemma profile_ok_parsed:
  assumes "url_origin_law rt" and "parsePeerProfile rt x = Some p"
  shows "profile_ok rt p"
proof -
  have names: "trim (agentName p) = agentName p" "agentName p \<noteq> []" "trim (humanName p) = humanName p" "humanName p \<noteq> []"
  proof -
    obtain a h where "js_get x ''agentName'' = JStr a" "trim a \<noteq> []" "js_get x ''humanName'' = JStr h" "trim h \<noteq> []"
      "agentName p = trim a" "humanName p = trim h"
      using assms(2)
      by (cases "js_get x ''agentName''"; cases "js_get x ''humanName''")
        (auto simp: parsePeerProfile_def Let_def split: if_splits option.splits)
    then show "trim (agentName p) = agentName p" "agentName p \<noteq> []" "trim (humanName p) = humanName p" "humanName p \<noteq> []"
      by simp_all
  qed
  show ?thesis
  proof (cases "proxyOrigin p")
    case None
    then show ?thesis using names
      by (cases p) (simp add: profile_ok_def parsePeerProfile_def profile_js_def Let_def)
  next
    case (Some u)
    then obtain protocol t where "url_parse rt t = Some (protocol, u)" "protocol = ''https:'' \<or> protocol = ''http:''"
      using assms(2) by (auto simp: parsePeerProfile_def Let_def split: if_splits option.splits)
    then have "url_parse rt u = Some (protocol, u)" "trim u = u" "u \<noteq> []"
      using assms(1) unfolding url_origin_law_def by blast+
    with Some names \<open>protocol = ''https:'' \<or> protocol = ''http:''\<close> show ?thesis
      by (cases p) (auto simp: profile_ok_def parsePeerProfile_def profile_js_def Let_def)
  qed
qed

lemma parsed_iss_nonblank:
  assumes "url_origin_law rt" and "parsePairingTicket rt t = Inr p"
  shows "trim (tk_iss p) \<noteq> []"
proof -
  obtain u where "assertHttpUrl rt u = Inr (tk_iss p)"
    using assms(2) by (auto simp: parsePairingTicket_def Let_def simp del: normalizeNonEmptyString.simps)
  then obtain protocol where "url_parse rt u = Some (protocol, tk_iss p)" "protocol = ''https:'' \<or> protocol = ''http:''"
    by (auto simp: assertHttpUrl_def split: option.splits if_splits)
  then show ?thesis using assms(1) unfolding url_origin_law_def by metis
qed

lemma parsed_text_nonblank: "parsePairingTicket rt t = Inr p \<Longrightarrow> trim t \<noteq> []"
proof
  assume "parsePairingTicket rt t = Inr p" "trim t = []"
  then show False
    by (simp add: parsePairingTicket_def normalizePairingTicketText_def strip_back_ticks_def Let_def
        startsWith_def PAIRING_TICKET_PREFIX_def)
qed

lemma isNonEmptyString_iff: "isNonEmptyString x \<longleftrightarrow> (\<exists>s. x = JStr s \<and> trim s \<noteq> [])"
  by (cases x) auto

lemma js_str_nonblank: "isNonEmptyString x \<Longrightarrow> trim (js_str x) \<noteq> []"
  by (cases x) auto

lemma js_integer_num: "js_integer x \<noteq> None \<Longrightarrow> js_is_integer (js_num x)"
  by (cases x) (auto split: if_splits)

lemma load_ticket_entry_stores:
  assumes law: "url_origin_law rt" and "load_ticket_entry rt acc kv \<noteq> acc"
  shows "\<exists>k d. load_ticket_entry rt acc kv = AList.update k d acc \<and> ticket_ok rt k d"
proof -
  let ?e = "snd kv"
  define t where "t = (if isNonEmptyString (js_get ?e ''ticket'') then js_str (js_get ?e ''ticket'') else fst kv)"
  note def = load_ticket_entry_def [of rt acc kv, unfolded Let_def, folded t_def]
  have obj: "is_object ?e" using assms(2) def by argo
  obtain prof where prof: "parsePeerProfile rt (js_get ?e ''initiatorProfile'') = Some prof"
    using assms(2) obj def by (cases "parsePeerProfile rt (js_get ?e ''initiatorProfile'')") simp_all
  have strs: "isNonEmptyString (js_get ?e ''initiatorAgentDid'')" "isNonEmptyString (js_get ?e ''issuerProxyUrl'')"
      "isNonEmptyString (js_get ?e ''publicKeyX'')" "js_integer (js_get ?e ''expiresAtMs'') \<noteq> None"
      "js_get ?e ''allowResponderAgentDid'' \<noteq> JUndefined \<longrightarrow> isNonEmptyString (js_get ?e ''allowResponderAgentDid'')"
    using assms(2) by (simp_all add: def obj prof split: if_splits)
  obtain p where p: "parsePairingTicket rt t = Inr p"
    using assms(2) strs by (cases "parsePairingTicket rt t") (simp_all add: def obj prof split: if_splits)
  note facts = obj prof p strs js_str_nonblank js_integer_num parsed_iss_nonblank [OF law p]
    parsed_text_nonblank [OF p] profile_ok_parsed [OF law prof]
  show ?thesis
    by (rule exI [of _ "tk_kid p"]) (use facts in \<open>auto simp: def ticket_ok_def intro!: exI\<close>)
qed

lemma load_confirmed_entry_stores:
  assumes law: "url_origin_law rt" and "load_confirmed_entry rt acc kv \<noteq> acc"
  shows "\<exists>k c. load_confirmed_entry rt acc kv = AList.update k c acc \<and> confirmed_ok rt k c"
proof -
  let ?e = "snd kv"
  define t where "t = (if isNonEmptyString (js_get ?e ''ticket'') then js_str (js_get ?e ''ticket'') else fst kv)"
  note def = load_confirmed_entry_def [of rt acc kv, unfolded Let_def, folded t_def]
  have obj: "is_object ?e" using assms(2) def by argo
  obtain prof where prof: "parsePeerProfile rt (js_get ?e ''initiatorProfile'') = Some prof"
    using assms(2) obj def by (cases "parsePeerProfile rt (js_get ?e ''initiatorProfile'')") simp_all
  obtain rprof where rprof: "parsePeerProfile rt (js_get ?e ''responderProfile'') = Some rprof"
    using assms(2) obj prof def by (cases "parsePeerProfile rt (js_get ?e ''responderProfile'')") simp_all
  have strs: "isNonEmptyString (js_get ?e ''initiatorAgentDid'')" "isNonEmptyString (js_get ?e ''issuerProxyUrl'')"
      "isNonEmptyString (js_get ?e ''responderAgentDid'')" "js_integer (js_get ?e ''expiresAtMs'') \<noteq> None"
      "js_integer (js_get ?e ''confirmedAtMs'') \<noteq> None"
    using assms(2) by (simp_all add: def obj prof rprof split: if_splits)
  obtain p where p: "parsePairingTicket rt t = Inr p"
    using assms(2) strs by (cases "parsePairingTicket rt t") (simp_all add: def obj prof rprof)
  note facts = obj prof rprof p strs js_str_nonblank js_integer_num parsed_iss_nonblank [OF law p]
    parsed_text_nonblank [OF p] profile_ok_parsed [OF law prof] profile_ok_parsed [OF law rprof]
  show ?thesis
    by (rule exI [of _ "tk_kid p"]) (use facts in \<open>auto simp: def confirmed_ok_def intro!: exI\<close>)
qed

lemma loaded_tickets_ok:
  assumes "url_origin_law rt"
  shows "(\<forall>(k, d) \<in> set (loadPairingTickets rt st). ticket_ok rt k d) \<and> distinct (map fst (loadPairingTickets rt st))"
proof -
  have "(\<forall>(k, d) \<in> set (foldl (load_ticket_entry rt) [] kvs). ticket_ok rt k d) \<and>
      distinct (map fst (foldl (load_ticket_entry rt) [] kvs))" for kvs
    by (rule foldl_alist_invariant) (erule (1) alist_update_good, erule load_ticket_entry_stores [OF assms], simp_all)
  then show ?thesis by (simp add: loadPairingTickets_def)
qed

lemma loaded_confirmed_ok:
  assumes "url_origin_law rt"
  shows "(\<forall>(k, d) \<in> set (loadConfirmedPairingTickets rt st). confirmed_ok rt k d) \<and>
         distinct (map fst (loadConfirmedPairingTickets rt st))"
proof -
  have "(\<forall>(k, d) \<in> set (foldl (load_confirmed_entry rt) [] kvs). confirmed_ok rt k d) \<and>
      distinct (map fst (foldl (load_confirmed_entry rt) [] kvs))" for kvs
    by (rule foldl_alist_invariant) (erule (1) alist_update_good, erule load_confirmed_entry_stores [OF assms], simp_all)
  then show ?thesis by (simp add: loadConfirmedPairingTickets_def)
qed

lemma loaded_revoked_ok:
  "(\<forall>(k, e) \<in> set (loadRevokedAgents st). trim k \<noteq> [] \<and> js_is_integer e \<and> 0 < e) \<and>
   distinct (map fst (loadRevokedAgents st))"
proof -
  let ?P = "\<lambda>k e. trim k \<noteq> [] \<and> js_is_integer e \<and> 0 < e"
  have 1: "(\<forall>(k, e) \<in> set (load_revoked_entry acc kx). ?P k e) \<and> distinct (map fst (load_revoked_entry acc kx))"
    if "\<forall>(k, e) \<in> set acc. ?P k e" "distinct (map fst acc)" for acc kx
    using that by (cases kx) (auto dest!: subsetD [OF set_alist_update_subset] split: option.splits)
  have 2: "(\<forall>(k, e) \<in> set (migrate_revoked_entry acc x). ?P k e) \<and> distinct (map fst (migrate_revoked_entry acc x))"
    if "\<forall>(k, e) \<in> set acc. ?P k e" "distinct (map fst acc)" for acc x
    using that
    by (auto dest!: subsetD [OF set_alist_update_subset] simp: isNonEmptyString_iff max_safe_integer_def)
  have 3: "(\<forall>(k, e) \<in> set (foldl load_revoked_entry [] kxs). ?P k e) \<and>
      distinct (map fst (foldl load_revoked_entry [] kxs))" for kxs
    by (rule foldl_alist_invariant) (use 1 in auto)
  have 4: "(\<forall>(k, e) \<in> set (foldl migrate_revoked_entry [] xs). ?P k e) \<and>
      distinct (map fst (foldl migrate_revoked_entry [] xs))" for xs
    by (rule foldl_alist_invariant) (use 2 in auto)
  show ?thesis
    by (cases "ts_revokedAgents st") (use 3 4 in \<open>auto simp: loadRevokedAgents_def simp del: load_revoked_entry.simps migrate_revoked_entry.simps\<close>)
qed

end
