(* ===== verification/Trust_Refinement.thy ===== *)
theory Trust_Refinement
  imports Trust_State
begin

text \<open>
  The durable trust store refines the in-memory one. \<open>trust_abs\<close> reads an in-memory state off the
  durable storage; a confirmation through the client, the wire and the durable object answers what
  \<open>confirmPairingTicket\<close> of the in-memory store answers, and leaves states that agree once expired
  entries are dropped (the in-memory store cleans up on every call, the durable one on its alarm).
  The two differ only where this theory says so: in the entries an expired confirmation removes.
\<close>

definition trust_abs :: "runtime \<Rightarrow> trust_storage \<Rightarrow> memory_store" where
  "trust_abs rt st =
     \<lparr>pairKeys = set (loadPairs st), agentPeers = (\<lambda>a. map_option set (map_of (loadAgentPeers st) a)),
      revokedAgents = loadRevokedAgents st, confirmedPairingTickets = loadConfirmedPairingTickets rt st,
      pairingTickets = loadPairingTickets rt st\<rparr>"

lemma trust_abs_wf: "url_origin_law rt \<Longrightarrow> memory_wf (trust_abs rt st)"
  using loaded_tickets_ok loaded_confirmed_ok loaded_revoked_ok
  by (simp add: memory_wf_def trust_abs_def)

section \<open>The peer index\<close>

lemma loaded_peers_ok:
  "(\<forall>(k, xs) \<in> set (loadAgentPeers st). \<forall>x \<in> set xs. trim x \<noteq> []) \<and> distinct (map fst (loadAgentPeers st))"
proof -
  let ?P = "\<lambda>(k :: string) xs. \<forall>x \<in> set xs. trim x \<noteq> []"
  have step: "(\<forall>(k, xs) \<in> set (load_peer_entry acc kx). ?P k xs) \<and> distinct (map fst (load_peer_entry acc kx))"
    if "\<forall>(k, xs) \<in> set acc. ?P k xs" "distinct (map fst acc)" for acc kx
  proof (rule alist_update_good [OF that])
    assume "load_peer_entry acc kx \<noteq> acc"
    then obtain k ps where "kx = (k, JArr ps)"
      by (cases "(acc, kx)" rule: load_peer_entry.cases) auto
    then have "load_peer_entry acc kx = AList.update k (map js_str (filter isNonEmptyString ps)) acc \<and>
        ?P k (map js_str (filter isNonEmptyString ps))"
      by (auto dest: js_str_nonblank)
    then show "\<exists>k d. load_peer_entry acc kx = AList.update k d acc \<and> ?P k d" by blast
  qed
  have "(\<forall>(k, xs) \<in> set (foldl load_peer_entry [] kxs). ?P k xs) \<and> distinct (map fst (foldl load_peer_entry [] kxs))" for kxs
    by (rule foldl_alist_invariant) (erule (1) step, simp_all)
  then show ?thesis by (simp add: loadAgentPeers_def)
qed

lemma addPeer_ok:
  assumes "\<forall>(k, xs) \<in> set ix. \<forall>x \<in> set xs. trim x \<noteq> []" "distinct (map fst ix)" "trim b \<noteq> []"
  shows "(\<forall>(k, xs) \<in> set (addPeer ix a b). \<forall>x \<in> set xs. trim x \<noteq> []) \<and> distinct (map fst (addPeer ix a b))"
proof (rule alist_update_good [OF assms(1,2)])
  let ?ps = "sort (js_set_add (js_Set (case map_of ix a of None \<Rightarrow> [] | Some ps \<Rightarrow> ps)) b)"
  have "\<forall>x \<in> set ?ps. trim x \<noteq> []"
  proof (cases "map_of ix a")
    case (Some ps)
    then have "\<forall>x \<in> set ps. trim x \<noteq> []" using assms(1) map_of_SomeD [OF Some] by auto
    then show ?thesis using Some assms(3) by simp
  qed (use assms(3) in simp)
  then show "\<exists>k d. addPeer ix a b = AList.update k d ix \<and> (\<forall>x \<in> set d. trim x \<noteq> [])"
    unfolding addPeer_def Let_def by blast
qed

definition peer_sets :: "(string \<times> string list) list \<Rightarrow> string \<rightharpoonup> string set" where
  "peer_sets ix = (\<lambda>a. map_option set (map_of ix a))"

lemma peer_sets_addPeer:
  "peer_sets (addPeer ix a b) = (peer_sets ix)(a \<mapsto> insert b (case peer_sets ix a of None \<Rightarrow> {} | Some ps \<Rightarrow> ps))"
  by (auto simp: peer_sets_def addPeer_def Let_def update_conv' fun_eq_iff split: option.splits)

section \<open>Dropping expired entries\<close>

lemma alist_prune_absorb:
  "alist_prune dead (alist_prune (\<lambda>j d. skip j \<and> dead j d) m) = alist_prune dead m"
  "alist_prune dead (alist_prune dead m) = alist_prune dead m"
  by (induction m) (auto simp: alist_prune_def)

lemma alist_prune_keep: "k \<notin> fst ` set m \<Longrightarrow> alist_prune (\<lambda>j d. k \<noteq> j \<and> dead j d) m = alist_prune dead m"
  by (induction m) (auto simp: alist_prune_def)

lemma cleanup_cleanup: "cleanup t None (cleanup t k s) = cleanup t None s"
  by (simp add: cleanup_def alist_prune_absorb)

lemma alist_prune_delete:
  "alist_prune dead (AList.delete k m) = AList.delete k (alist_prune dead m)"
  by (induction m) (auto simp: alist_prune_def)

lemma alist_prune_skip_delete:
  "AList.delete k (alist_prune (\<lambda>j d. k \<noteq> j \<and> dead j d) m) = AList.delete k (alist_prune dead m)"
  by (induction m) (auto simp: alist_prune_def)

lemma alist_prune_update:
  "\<not> dead k x \<Longrightarrow> distinct (map fst m) \<Longrightarrow>
   alist_prune dead (AList.update k x m) =
     alist_prune dead (AList.update k x (alist_prune (\<lambda>j d. k \<noteq> j \<and> dead j d) m))"
proof (induction m)
  case (Cons a m)
  show ?case
  proof (cases "fst a = k")
    case True
    with Cons have "alist_prune (\<lambda>j d. k \<noteq> j \<and> dead j d) m = alist_prune dead m"
      by (intro alist_prune_keep) auto
    then show ?thesis using True Cons.prems alist_prune_absorb(2) [of dead m]
      by (cases a) (simp add: alist_prune_def)
  qed (use Cons in \<open>auto simp: alist_prune_def\<close>)
qed (simp add: alist_prune_def)

section \<open>The client's view of a response\<close>

definition client_result :: "http_response \<Rightarrow> (store_error, jsval) result" where
  "client_result response =
     (if \<not> (200 \<le> resp_status response \<and> resp_status response \<le> 299)
      then (let (code, message) = parseErrorPayload (resp_body response) in
            Inl (ProxyTrustStoreError code message (resp_status response)))
      else Inr (resp_body response))"

lemma client_result_error:
  "se_status e \<notin> {200..299} \<Longrightarrow> client_result (error_response e) = Inl e"
  "n \<notin> {200..299} \<Longrightarrow> client_result (toErrorResponse c m n) = Inl (ProxyTrustStoreError c m n)"
  by (cases e; auto simp: client_result_def error_response_def)+

lemma client_result_ok [simp]: "client_result (Response 200 v) = Inr v"
  by (simp add: client_result_def)

lemma callDurableState_client:
  "callDurableState rt c path payload st =
     (case ProxyTrustState_fetch rt c ''POST'' path (json_wire payload) st of (resp, st') \<Rightarrow> (client_result resp, st'))"
  by (simp add: callDurableState_def client_result_def split: prod.splits)

definition confirm_result_js :: "PairingTicketConfirmResult \<Rightarrow> jsval" where
  "confirm_result_js r = JObj
     [(''initiatorAgentDid'', JStr (fr_initiatorAgentDid r)), (''initiatorProfile'', profile_js (fr_initiatorProfile r)),
      (''responderAgentDid'', JStr (fr_responderAgentDid r)), (''responderProfile'', profile_js (fr_responderProfile r)),
      (''issuerProxyUrl'', JStr (fr_issuerProxyUrl r))]"

definition confirm_input_ok :: "runtime \<Rightarrow> PairingTicketConfirmInput \<Rightarrow> bool" where
  "confirm_input_ok rt i \<longleftrightarrow>
     profile_ok rt (fi_responderProfile i) \<and> trim (fi_responderAgentDid i) \<noteq> [] \<and>
     normalizePairingTicketText (fi_ticket i) \<noteq> [] \<and> tick_free_ends (normalizePairingTicketText (fi_ticket i))"

lemma durable_confirm_handler:
  assumes "confirm_input_ok rt i"
  shows "durable_confirmPairingTicket rt c i st =
     (case durable_confirm_lookup rt (normalizePairingTicketText (fi_ticket i)) st of
        Inl resp \<Rightarrow> (client_result resp, st)
      | Inr found \<Rightarrow>
          (case durable_confirm_resume rt (resolve_now (fi_nowMs i) c) (fi_responderAgentDid i)
                  (fi_responderProfile i) found st of
             (resp, st') \<Rightarrow> (client_result resp, st')))"
proof -
  let ?n = "normalizePairingTicketText (fi_ticket i)"
  have nb: "trim ?n \<noteq> []" using assms normalize_no_ws trim_noop by (metis confirm_input_ok_def)
  let ?b = "json_wire (JObj [(''ticket'', JStr ?n), (''responderAgentDid'', JStr (fi_responderAgentDid i)),
              (''responderProfile'', profile_js (fi_responderProfile i)), (''nowMs'', js_opt_num (fi_nowMs i))])"
  have gets: "js_get ?b ''ticket'' = JStr ?n" "js_get ?b ''responderAgentDid'' = JStr (fi_responderAgentDid i)"
      "js_get ?b ''responderProfile'' = profile_js (fi_responderProfile i)" "js_get ?b ''nowMs'' = js_opt_num (fi_nowMs i)"
    by (subst js_get_wire, simp, simp)+
  have "body_now ?b c = resolve_now (fi_nowMs i) c"
    unfolding body_now_def gets by (cases "fi_nowMs i") (simp_all add: resolve_now_def)
  then have "handleConfirmPairingTicket rt c ?b st =
      (case durable_confirm_lookup rt ?n st of Inl resp \<Rightarrow> (resp, st)
       | Inr found \<Rightarrow> durable_confirm_resume rt (resolve_now (fi_nowMs i) c) (fi_responderAgentDid i)
                  (fi_responderProfile i) found st)"
    using assms nb json_wire_truthy(1)
    by (simp add: handleConfirmPairingTicket_def gets confirm_input_ok_def profile_ok_def
        del: json_wire.simps js_get.simps split: sum.split)
  then show ?thesis
    by (simp add: durable_confirmPairingTicket_def callDurableState_client ProxyTrustState_fetch_def
        del: json_wire.simps js_get.simps split: sum.splits)
qed

section \<open>What the durable object has stored\<close>

lemma load_cong:
  "ts_agentPeers st' = ts_agentPeers st \<Longrightarrow> loadAgentPeers st' = loadAgentPeers st"
  "ts_revokedAgents st' = ts_revokedAgents st \<Longrightarrow> loadRevokedAgents st' = loadRevokedAgents st"
  "ts_pairingTickets st' = ts_pairingTickets st \<Longrightarrow> loadPairingTickets rt st' = loadPairingTickets rt st"
  "ts_confirmedTickets st' = ts_confirmedTickets st \<Longrightarrow> loadConfirmedPairingTickets rt st' = loadConfirmedPairingTickets rt st"
  by (simp_all add: loadAgentPeers_def loadRevokedAgents_def loadPairingTickets_def loadConfirmedPairingTickets_def)

definition expirable_ok :: "runtime \<Rightarrow> ExpirableTrustState \<Rightarrow> bool" where
  "expirable_ok rt e \<longleftrightarrow>
     distinct (map fst (ex_pairingTickets e)) \<and> (\<forall>(k, d) \<in> set (ex_pairingTickets e). ticket_ok rt k d) \<and>
     distinct (map fst (ex_confirmedPairingTickets e)) \<and>
     (\<forall>(k, c) \<in> set (ex_confirmedPairingTickets e). confirmed_ok rt k c)"

lemma loaded_expirable_ok: "url_origin_law rt \<Longrightarrow> expirable_ok rt (loadExpirableState rt st)"
  using loaded_tickets_ok loaded_confirmed_ok by (simp add: expirable_ok_def loadExpirableState_def)

lemma trust_abs_saved:
  assumes "expirable_ok rt e"
  shows "trust_abs rt (saveExpirableStateAndSchedule e True True st) =
     (trust_abs rt st)\<lparr>confirmedPairingTickets := ex_confirmedPairingTickets e, pairingTickets := ex_pairingTickets e\<rparr>"
proof -
  let ?st = "saveExpirableStateAndSchedule e True True st"
  have t: "ts_pairingTickets ?st = ts_pairingTickets (savePairingTickets (ex_pairingTickets e) st)"
    "ts_confirmedTickets ?st = ts_confirmedTickets (saveConfirmedPairingTickets (ex_confirmedPairingTickets e) st)"
    by (simp_all add: saveExpirableStateAndSchedule_def saveExpirableState_def Let_def storage_frame
        savePairingTickets_def saveConfirmedPairingTickets_def)
  have "loadPairingTickets rt ?st = ex_pairingTickets e"
    using assms loadPairingTickets_save load_cong(3) [OF t(1)] by (simp add: expirable_ok_def)
  moreover have "loadConfirmedPairingTickets rt ?st = ex_confirmedPairingTickets e"
    using assms loadConfirmedPairingTickets_save load_cong(4) [OF t(2)] by (simp add: expirable_ok_def)
  moreover have "loadPairs ?st = loadPairs st" "loadAgentPeers ?st = loadAgentPeers st"
    "loadRevokedAgents ?st = loadRevokedAgents st"
    by (intro loadPairs_cong load_cong; simp add: storage_frame)+
  ultimately show ?thesis by (simp add: trust_abs_def)
qed

lemma trust_abs_pairs_saved:
  assumes "distinct (map fst ap)" "\<forall>(k, xs) \<in> set ap. \<forall>x \<in> set xs. trim x \<noteq> []"
  shows "trust_abs rt (saveAgentPeers ap (savePairs ps st)) =
     (trust_abs rt st)\<lparr>pairKeys := set ps, agentPeers := peer_sets ap\<rparr>"
proof -
  let ?st = "saveAgentPeers ap (savePairs ps st)"
  have "loadPairs ?st = loadPairs (savePairs ps st)"
    by (rule loadPairs_cong) (simp add: storage_frame)
  moreover have "loadRevokedAgents ?st = loadRevokedAgents st" "loadPairingTickets rt ?st = loadPairingTickets rt st"
    "loadConfirmedPairingTickets rt ?st = loadConfirmedPairingTickets rt st"
    by (intro load_cong; simp add: storage_frame)+
  moreover have "loadAgentPeers ?st = ap" using assms by (rule loadAgentPeers_save)
  ultimately show ?thesis by (simp add: trust_abs_def peer_sets_def storage_frame)
qed

lemma alist_delete_ok:
  "distinct (map fst m) \<and> (\<forall>(k, d) \<in> set m. P k d) \<Longrightarrow>
   distinct (map fst (AList.delete j m)) \<and> (\<forall>(k, d) \<in> set (AList.delete j m). P k d)"
  by (auto simp: AList.delete_eq distinct_map_filter)

lemma confirm_commit_expirable_ok:
  assumes "expirable_ok rt e" and "confirmed_ok rt k c"
  shows "expirable_ok rt (e\<lparr>ex_pairingTickets := AList.delete k (ex_pairingTickets e),
           ex_confirmedPairingTickets := AList.update k c (ex_confirmedPairingTickets e)\<rparr>)"
proof -
  have "(\<forall>(j, x) \<in> set (AList.update k c (ex_confirmedPairingTickets e)). confirmed_ok rt j x) \<and>
      distinct (map fst (AList.update k c (ex_confirmedPairingTickets e)))"
    by (rule alist_update_good) (use assms in \<open>auto simp: expirable_ok_def\<close>)
  then show ?thesis
    using assms alist_delete_ok [of "ex_pairingTickets e" "ticket_ok rt" k] by (simp add: expirable_ok_def)
qed

section \<open>Confirmation refines\<close>

definition agrees :: "ms \<Rightarrow> memory_store \<Rightarrow> memory_store \<Rightarrow> bool" where
  "agrees t s s' \<longleftrightarrow> cleanup t None s = cleanup t None s'"

definition confirm_refines ::
  "runtime \<Rightarrow> ms \<Rightarrow> (store_error, jsval) result \<times> trust_storage \<Rightarrow>
   (store_error, PairingTicketConfirmResult) result \<times> memory_store \<Rightarrow> bool" where
  "confirm_refines rt t d m \<longleftrightarrow>
     fst d = map_sum id confirm_result_js (fst m) \<and>
     (fst m \<noteq> Inl err_expired \<longrightarrow> agrees t (trust_abs rt (snd d)) (snd m))"

lemma confirm_commit_agrees:
  assumes "memory_wf s" and "t < e"
  shows "agrees t (confirm_commit k i j e r s) (confirm_commit k i j e r (cleanup t (Some j) s))"
  unfolding agrees_def
proof (rule memory_store.equality)
  show "pairingTickets (cleanup t None (confirm_commit k i j e r s)) =
      pairingTickets (cleanup t None (confirm_commit k i j e r (cleanup t (Some j) s)))"
    by (simp add: confirm_commit_def cleanup_def upsertPeer_def Let_def alist_prune_skip_delete alist_prune_delete
        alist_prune_absorb)
  show "confirmedPairingTickets (cleanup t None (confirm_commit k i j e r s)) =
      confirmedPairingTickets (cleanup t None (confirm_commit k i j e r (cleanup t (Some j) s)))"
    using assms alist_prune_update [of "\<lambda>_ c. cf_expiresAtMs c \<le> t" j _ "confirmedPairingTickets s"]
    by (simp add: confirm_commit_def cleanup_def upsertPeer_def Let_def memory_wf_def)
qed (simp_all add: confirm_commit_def cleanup_def upsertPeer_def Let_def alist_prune_absorb)

lemma agrees_cleanup: "agrees t s (cleanup t k s)"
  by (simp add: agrees_def cleanup_cleanup)

lemma normalizeExpiry_integer: "js_is_integer (normalizeExpiryToWholeSecond t)"
proof -
  have "normalizeExpiryToWholeSecond t = real_of_int (\<lfloor>t / 1000\<rfloor> * 1000)" by (simp add: normalizeExpiryToWholeSecond_def)
  then show ?thesis by (metis js_is_integer_of_int)
qed

lemma durable_commit_abs:
  fixes i d p
  assumes law: "url_origin_law rt" and ok: "confirm_input_ok rt i" and tk: "ticket_ok rt (tk_kid p) d"
    and parsed: "parsePairingTicket rt (normalizePairingTicketText (fi_ticket i)) = Inr p" "st_issuerProxyUrl d = tk_iss p"
    and admitted: "signatureVerified rt p (st_publicKeyX d)" "\<not> st_expiresAtMs d \<le> T" "\<not> tk_exp p * 1000 \<le> T"
      "st_allowResponderAgentDid d = None \<or> st_allowResponderAgentDid d = Some (fi_responderAgentDid i)"
    and res: "durable_confirm_resume rt T (fi_responderAgentDid i) (fi_responderProfile i)
       (normalizePairingTicketText (fi_ticket i), p, d, loadExpirableState rt st) st = (resp, st')"
  shows "client_result resp = Inr (confirm_result_js (confirmed_pair i d))"
    and "trust_abs rt st' = confirm_commit T i (tk_kid p) (st_expiresAtMs d) (confirmed_pair i d) (trust_abs rt st)"
proof -
  let ?n = "normalizePairingTicketText (fi_ticket i)" and ?e = "loadExpirableState rt st"
  let ?a = "st_initiatorAgentDid d" and ?b = "fi_responderAgentDid i"
  let ?ap = "addPeer (addPeer (loadAgentPeers st) ?a ?b) ?b ?a"
  define c where "c = \<lparr>cf_ticket = ?n, cf_expiresAtMs = st_expiresAtMs d, cf_initiatorAgentDid = ?a,
     cf_initiatorProfile = st_initiatorProfile d, cf_responderAgentDid = ?b,
     cf_responderProfile = fi_responderProfile i, cf_issuerProxyUrl = st_issuerProxyUrl d,
     cf_confirmedAtMs = normalizeExpiryToWholeSecond T\<rparr>"
  define e where "e = ?e\<lparr>ex_pairingTickets := AList.delete (tk_kid p) (ex_pairingTickets ?e),
     ex_confirmedPairingTickets := AList.update (tk_kid p) c (ex_confirmedPairingTickets ?e)\<rparr>"
  have resume: "resp = Response 200 (confirm_result_js (confirmed_pair i d))"
    "st' = saveExpirableStateAndSchedule e True True
       (saveAgentPeers ?ap (savePairs (js_set_add (loadPairs st) (toPairKey ?a ?b)) st))"
    using res admitted parsed(2)
    by (auto simp: durable_confirm_resume_def Let_def confirm_result_js_def confirmed_pair_def e_def c_def)
  then show "client_result resp = Inr (confirm_result_js (confirmed_pair i d))" by simp
  have "trim ?n \<noteq> []" using parsed_text_nonblank [OF parsed(1)] .
  then have "confirmed_ok rt (tk_kid p) c"
    using tk ok parsed by (simp add: confirmed_ok_def c_def ticket_ok_def confirm_input_ok_def normalizeExpiry_integer)
  then have e_ok: "expirable_ok rt e"
    unfolding e_def by (intro confirm_commit_expirable_ok loaded_expirable_ok law)
  have nb: "trim ?a \<noteq> []" "trim ?b \<noteq> []" using tk ok by (auto simp: ticket_ok_def confirm_input_ok_def)
  note peers = loaded_peers_ok [of st]
  note peers = addPeer_ok [OF conjunct1 [OF peers] conjunct2 [OF peers] nb(2), of ?a]
  have "(\<forall>(k, xs) \<in> set ?ap. \<forall>x \<in> set xs. trim x \<noteq> []) \<and> distinct (map fst ?ap)"
    by (rule addPeer_ok [OF conjunct1 [OF peers] conjunct2 [OF peers] nb(1)])
  then have pairs: "trust_abs rt (saveAgentPeers ?ap (savePairs (js_set_add (loadPairs st) (toPairKey ?a ?b)) st)) =
      (trust_abs rt st)\<lparr>pairKeys := insert (toPairKey ?a ?b) (set (loadPairs st)), agentPeers := peer_sets ?ap\<rparr>"
    by (subst trust_abs_pairs_saved) simp_all
  have "agentPeers (trust_abs rt st) = peer_sets (loadAgentPeers st)" by (simp add: trust_abs_def peer_sets_def)
  then show "trust_abs rt st' = confirm_commit T i (tk_kid p) (st_expiresAtMs d) (confirmed_pair i d) (trust_abs rt st)"
    unfolding resume(2) trust_abs_saved [OF e_ok] pairs
    by (simp add: confirm_commit_def Let_def upsertPeer_def confirmed_pair_def e_def c_def peer_sets_addPeer
        loadExpirableState_def trust_abs_def)
qed

lemma confirm_resume_refines:
  assumes law: "url_origin_law rt" and ok: "confirm_input_ok rt i" and tk: "ticket_ok rt (tk_kid p) d"
    and parsed: "parsePairingTicket rt (normalizePairingTicketText (fi_ticket i)) = Inr p"
    and res: "durable_confirm_resume rt T (fi_responderAgentDid i) (fi_responderProfile i)
       (normalizePairingTicketText (fi_ticket i), p, d, loadExpirableState rt st) st = (resp, st')"
  shows "confirm_refines rt T (client_result resp, st')
     (confirm_resume rt T T i p d (cleanup T (Some (tk_kid p)) (trust_abs rt st)))"
proof (cases "signatureVerified rt p (st_publicKeyX d) \<and> \<not> st_expiresAtMs d \<le> T \<and> \<not> tk_exp p * 1000 \<le> T \<and>
    st_issuerProxyUrl d = tk_iss p \<and>
    (st_allowResponderAgentDid d = None \<or> st_allowResponderAgentDid d = Some (fi_responderAgentDid i))")
  case True
  then have "confirm_admit rt T i p d (cleanup T (Some (tk_kid p)) (trust_abs rt st)) =
      (Inr (confirmed_pair i d), cleanup T (Some (tk_kid p)) (trust_abs rt st))"
    by (simp add: confirm_admit_Inr not_le)
  moreover have "client_result resp = Inr (confirm_result_js (confirmed_pair i d))"
    "trust_abs rt st' = confirm_commit T i (tk_kid p) (st_expiresAtMs d) (confirmed_pair i d) (trust_abs rt st)"
    using durable_commit_abs [OF law ok tk parsed _ _ _ _ _ res] True by blast+
  ultimately show ?thesis
    using True confirm_commit_agrees [OF trust_abs_wf [OF law]]
    by (simp add: confirm_refines_def confirm_resume_def not_le)
next
  case False
  then show ?thesis using res
    by (auto simp: durable_confirm_resume_def confirm_refines_def confirm_resume_def confirm_admit_def
        client_result_error store_errors agrees_cleanup split: if_splits)
qed

text \<open>
  (C27) A confirmation through the durable trust store answers exactly what the in-memory store
  answers in the state read off the durable storage, errors included, and, unless it reports an
  expired ticket, the two resulting states agree up to expired entries.
\<close>
theorem durable_confirm_refines_memory:
  assumes law: "url_origin_law rt" and ok: "confirm_input_ok rt i"
  shows "confirm_refines rt (resolve_now (fi_nowMs i) c) (durable_confirmPairingTicket rt c i st)
           (confirmPairingTicket rt c c i (trust_abs rt st))"
proof -
  let ?n = "normalizePairingTicketText (fi_ticket i)" and ?T = "resolve_now (fi_nowMs i) c"
  have nn: "normalizePairingTicketText ?n = ?n" using ok normalize_stable_iff by (simp add: confirm_input_ok_def)
  show ?thesis
  proof (cases "parsePairingTicket rt ?n")
    case (Inl e)
    then show ?thesis
      by (simp add: durable_confirm_handler [OF ok] durable_confirm_lookup_def parseNormalizedPairingTicket_def nn
          confirmPairingTicket_def confirm_lookup_def parseStoredTicket_def confirm_refines_def client_result_error
          agrees_def Let_def)
  next
    case (Inr p)
    let ?s1 = "cleanup ?T (Some (tk_kid p)) (trust_abs rt st)"
    have found: "map_of (confirmedPairingTickets ?s1) (tk_kid p) = map_of (loadConfirmedPairingTickets rt st) (tk_kid p)"
      "map_of (pairingTickets ?s1) (tk_kid p) = map_of (loadPairingTickets rt st) (tk_kid p)"
      using map_of_cleanup [OF trust_abs_wf [OF law]] by (simp_all add: trust_abs_def split: option.splits)
    let ?again = "case map_of (loadConfirmedPairingTickets rt st) (tk_kid p) of None \<Rightarrow> False | Some c \<Rightarrow> cf_ticket c = ?n"
    have d: "durable_confirm_lookup rt ?n st = throw_if ?again (error_response err_already_confirmed)
        (bindE (of_option (error_response err_not_found) (map_of (loadPairingTickets rt st) (tk_kid p)))
          (\<lambda>stored. Inr (?n, p, stored, loadExpirableState rt st)))"
      by (simp add: durable_confirm_lookup_def parseNormalizedPairingTicket_def nn Inr Let_def loadExpirableState_def
          del: throw_if_eq_Inr throw_if_eq_Inl bindE_eq_Inr bindE_eq_Inl)
    have m: "confirm_lookup rt ?T i (trust_abs rt st) =
        (if ?again then (Inl err_already_confirmed, ?s1) else
         case map_of (loadPairingTickets rt st) (tk_kid p) of None \<Rightarrow> (Inl err_not_found, ?s1)
         | Some d \<Rightarrow> (Inr (p, d), ?s1))"
      by (simp add: confirm_lookup_def parseStoredTicket_def Inr Let_def found split: option.splits)
    show ?thesis
    proof (cases "?again \<or> map_of (loadPairingTickets rt st) (tk_kid p) = None")
      case True
      then show ?thesis
        by (auto simp: durable_confirm_handler [OF ok] d confirmPairingTicket_def m confirm_refines_def
            client_result_error store_errors agrees_cleanup)
    next
      case False
      then obtain x where x: "map_of (loadPairingTickets rt st) (tk_kid p) = Some x" by auto
      then have "ticket_ok rt (tk_kid p) x" using loaded_tickets_ok [OF law, of st] map_of_SomeD by fastforce
      moreover obtain resp st' where "durable_confirm_resume rt ?T (fi_responderAgentDid i) (fi_responderProfile i)
          (?n, p, x, loadExpirableState rt st) st = (resp, st')" by fastforce
      ultimately show ?thesis
        using False x confirm_resume_refines [OF law ok _ Inr]
        by (auto simp: durable_confirm_handler [OF ok] d confirmPairingTicket_def m)
    qed
  qed
qed

definition demo_storage :: trust_storage where
  "demo_storage = savePairingTickets [(''K'', demo_stored)] empty_trust_storage"

lemma demo_confirm_input_ok: "confirm_input_ok demo_runtime (demo_confirm ''b'')"
  by (simp add: confirm_input_ok_def demo_confirm_def demo_ticket_normal profile_ok_def parsePeerProfile_def
      profile_js_def demo_profile_def trim_noop is_ws_def Let_def)
    (simp add: demo_ticket_def tick_free_ends_def)

theorem durable_confirm_refines_memory_witness:
  "confirm_refines demo_runtime 2 (durable_confirmPairingTicket demo_runtime 2 (demo_confirm ''b'') demo_storage)
     (confirmPairingTicket demo_runtime 2 2 (demo_confirm ''b'') (trust_abs demo_runtime demo_storage))"
  using durable_confirm_refines_memory [OF demo_laws(2) demo_confirm_input_ok, of 2 demo_storage]
  by (simp add: resolve_now_def demo_confirm_def)

section \<open>The alarm\<close>

lemma alist_prune_id: "\<not> (\<exists>(k, x) \<in> set m. dead k x) \<Longrightarrow> alist_prune dead m = m"
  by (auto simp: alist_prune_def filter_id_conv)

lemma alist_prune_ok: "\<forall>(k, x) \<in> set m. P k x \<Longrightarrow> \<forall>(k, x) \<in> set (alist_prune dead m). P k x"
  by (auto simp: alist_prune_def)

lemma foldl_min: "foldl min x xs = Min (insert x (set xs))" for x :: real
proof (induction xs arbitrary: x)
  case (Cons y xs)
  then show ?case
    by (cases "xs = []") (auto simp: Min_insert min.assoc min.commute min.left_commute)
qed simp

definition trust_expiries :: "memory_store \<Rightarrow> ms list" where
  "trust_expiries s = map (st_expiresAtMs \<circ> snd) (pairingTickets s) @
     map (cf_expiresAtMs \<circ> snd) (confirmedPairingTickets s) @ map snd (revokedAgents s)"

lemma scheduled_alarm:
  "ts_alarm (scheduleNextCodeCleanup (pairingTickets s) (confirmedPairingTickets s) (revokedAgents s) st) =
     (if trust_expiries s = [] then None else Some (Min (set (trust_expiries s))))"
proof -
  have sched: "ts_alarm (scheduleNextCodeCleanup (pairingTickets s) (confirmedPairingTickets s) (revokedAgents s) st) =
      (if trust_expiries s = [] then None else Some (foldl min (hd (trust_expiries s)) (tl (trust_expiries s))))"
    by (simp add: scheduleNextCodeCleanup_def trust_expiries_def Let_def)
  show ?thesis unfolding sched foldl_min by (cases "trust_expiries s") simp_all
qed

lemma trust_abs_save_revoked:
  assumes "distinct (map fst rs)" "\<forall>(k, e) \<in> set rs. trim k \<noteq> [] \<and> js_is_integer e \<and> 0 < e"
  shows "trust_abs rt (saveRevokedAgents rs st) = (trust_abs rt st)\<lparr>revokedAgents := rs\<rparr>"
proof -
  have "loadPairs (saveRevokedAgents rs st) = loadPairs st" "loadAgentPeers (saveRevokedAgents rs st) = loadAgentPeers st"
    "loadPairingTickets rt (saveRevokedAgents rs st) = loadPairingTickets rt st"
    "loadConfirmedPairingTickets rt (saveRevokedAgents rs st) = loadConfirmedPairingTickets rt st"
    by (intro loadPairs_cong load_cong; simp add: storage_frame)+
  then show ?thesis using loadRevokedAgents_save [OF assms] by (simp add: trust_abs_def)
qed

lemma trust_abs_schedule: "trust_abs rt (scheduleNextCodeCleanup x y z st) = trust_abs rt st"
proof -
  have "loadPairs (scheduleNextCodeCleanup x y z st) = loadPairs st"
    "loadAgentPeers (scheduleNextCodeCleanup x y z st) = loadAgentPeers st"
    "loadRevokedAgents (scheduleNextCodeCleanup x y z st) = loadRevokedAgents st"
    "loadPairingTickets rt (scheduleNextCodeCleanup x y z st) = loadPairingTickets rt st"
    "loadConfirmedPairingTickets rt (scheduleNextCodeCleanup x y z st) = loadConfirmedPairingTickets rt st"
    by (intro loadPairs_cong load_cong; simp add: storage_frame)+
  then show ?thesis by (simp add: trust_abs_def)
qed

lemma trust_abs_saveExpirable:
  "expirable_ok rt e \<Longrightarrow> trust_abs rt (saveExpirableState e True True st) =
     (trust_abs rt st)\<lparr>confirmedPairingTickets := ex_confirmedPairingTickets e, pairingTickets := ex_pairingTickets e\<rparr>"
  using trust_abs_saved [of rt e st] by (simp add: saveExpirableStateAndSchedule_def Let_def trust_abs_schedule)

lemma removeExpired_abs:
  assumes "url_origin_law rt" and "removeExpiredEntries t (loadExpirableState rt st) = (e, mutated)"
  shows "trust_abs rt (if mutated then saveExpirableState e True True st else st) =
     (trust_abs rt st)\<lparr>pairingTickets := pairingTickets (cleanup t None (trust_abs rt st)),
       confirmedPairingTickets := confirmedPairingTickets (cleanup t None (trust_abs rt st))\<rparr>"
    and "ex_pairingTickets e = pairingTickets (cleanup t None (trust_abs rt st))"
    and "ex_confirmedPairingTickets e = confirmedPairingTickets (cleanup t None (trust_abs rt st))"
proof -
  show e: "ex_pairingTickets e = pairingTickets (cleanup t None (trust_abs rt st))"
    "ex_confirmedPairingTickets e = confirmedPairingTickets (cleanup t None (trust_abs rt st))"
    using assms(2) by (auto simp: removeExpiredEntries_def loadExpirableState_def cleanup_def trust_abs_def)
  have ok: "expirable_ok rt e"
    using loaded_tickets_ok [OF assms(1), of st] loaded_confirmed_ok [OF assms(1), of st]
    by (auto simp: expirable_ok_def e cleanup_def trust_abs_def set_alist_prune)
  show "trust_abs rt (if mutated then saveExpirableState e True True st else st) =
     (trust_abs rt st)\<lparr>pairingTickets := pairingTickets (cleanup t None (trust_abs rt st)),
       confirmedPairingTickets := confirmedPairingTickets (cleanup t None (trust_abs rt st))\<rparr>"
  proof (cases mutated)
    case True
    then show ?thesis by (simp add: trust_abs_saveExpirable [OF ok] e)
  next
    case False
    then have "pairingTickets (cleanup t None (trust_abs rt st)) = pairingTickets (trust_abs rt st)"
      "confirmedPairingTickets (cleanup t None (trust_abs rt st)) = confirmedPairingTickets (trust_abs rt st)"
      using assms(2)
      by (auto simp: removeExpiredEntries_def loadExpirableState_def cleanup_def trust_abs_def intro!: alist_prune_id)
    then show ?thesis using False by simp
  qed
qed

lemma runAlarmCleanup_abs:
  assumes "url_origin_law rt"
  shows "trust_abs rt (runAlarmCleanup rt t st) = cleanup t None (trust_abs rt st)"
    and "ts_alarm (runAlarmCleanup rt t st) =
       (let es = trust_expiries (cleanup t None (trust_abs rt st)) in if es = [] then None else Some (Min (set es)))"
proof -
  let ?c = "cleanup t None (trust_abs rt st)"
  obtain e mutated where rm: "removeExpiredEntries t (loadExpirableState rt st) = (e, mutated)" by fastforce
  define st1 where "st1 = (if mutated then saveExpirableState e True True st else st)"
  have s1: "trust_abs rt st1 = (trust_abs rt st)\<lparr>pairingTickets := pairingTickets ?c,
      confirmedPairingTickets := confirmedPairingTickets ?c\<rparr>"
    unfolding st1_def by (rule removeExpired_abs [OF assms rm])
  define rs where "rs = alist_prune (\<lambda>_ x. x \<le> t) (loadRevokedAgents st)"
  have rs: "rs = revokedAgents ?c" by (simp add: rs_def cleanup_def trust_abs_def)
  define st2 where "st2 = (if \<exists>(_, x) \<in> set (loadRevokedAgents st). x \<le> t then saveRevokedAgents rs st1 else st1)"
  have ok: "distinct (map fst rs)" "\<forall>(k, x) \<in> set rs. trim k \<noteq> [] \<and> js_is_integer x \<and> 0 < x"
    using loaded_revoked_ok [of st] by (auto simp: rs_def set_alist_prune)
  have "rs = loadRevokedAgents st" if "\<not> (\<exists>(_, x) \<in> set (loadRevokedAgents st). x \<le> t)"
    using that unfolding rs_def by (intro alist_prune_id) auto
  then have s2: "trust_abs rt st2 = (trust_abs rt st1)\<lparr>revokedAgents := rs\<rparr>"
    using trust_abs_save_revoked [OF ok, of rt st1] s1 by (auto simp: st2_def trust_abs_def)
  have run: "runAlarmCleanup rt t st = scheduleNextCodeCleanup (pairingTickets ?c) (confirmedPairingTickets ?c)
      (revokedAgents ?c) st2"
    using removeExpired_abs(2,3) [OF assms rm]
    by (simp add: runAlarmCleanup_def rm pruneExpiredRevokedAgents_def Let_def st1_def [symmetric] rs_def [symmetric]
        st2_def rs)
  show "trust_abs rt (runAlarmCleanup rt t st) = ?c"
    unfolding run trust_abs_schedule s2 s1 rs by (simp add: cleanup_def)
  show "ts_alarm (runAlarmCleanup rt t st) =
       (let es = trust_expiries ?c in if es = [] then None else Some (Min (set es)))"
    unfolding run scheduled_alarm Let_def ..
qed

text \<open>
  (C29) The durable object's alarm does to the storage exactly what \<open>cleanup\<close> does to the in-memory
  store: it drops the expired tickets, confirmations and revocation markers and nothing else. The
  next alarm is set to the earliest expiry that is left, which lies in the future, and is deleted
  when nothing is left.
\<close>
theorem alarm_refines_cleanup:
  assumes "url_origin_law rt"
  shows "trust_abs rt (ProxyTrustState_alarm rt t st) = cleanup t None (trust_abs rt st) \<and>
         (case ts_alarm (ProxyTrustState_alarm rt t st) of
            None \<Rightarrow> trust_expiries (trust_abs rt (ProxyTrustState_alarm rt t st)) = []
          | Some a \<Rightarrow> t < a \<and> a \<in> set (trust_expiries (trust_abs rt (ProxyTrustState_alarm rt t st))) \<and>
              list_all (\<lambda>x. a \<le> x) (trust_expiries (trust_abs rt (ProxyTrustState_alarm rt t st))))"
proof -
  let ?es = "trust_expiries (cleanup t None (trust_abs rt st))"
  have "\<forall>x \<in> set ?es. t < x"
    by (auto simp: trust_expiries_def cleanup_def set_alist_prune)
  moreover have "Min (set ?es) \<in> set ?es" if "?es \<noteq> []" using that by (intro Min_in) simp_all
  ultimately show ?thesis
    using runAlarmCleanup_abs [OF assms]
    by (simp add: ProxyTrustState_alarm_def Let_def list_all_iff)
qed

theorem alarm_refines_cleanup_witness:
  "trust_abs demo_runtime (ProxyTrustState_alarm demo_runtime 9000 demo_storage) =
     cleanup 9000 None (trust_abs demo_runtime demo_storage)"
  using alarm_refines_cleanup [OF demo_laws(2), of 9000 demo_storage] by simp

section \<open>Stored state survives a reload\<close>

text \<open>
  Whatever is found in storage, including entries of older formats and malformed ones, loading
  it and saving it back changes nothing any later load sees: the loaded tickets, confirmations,
  revocation markers and peers are read back unchanged.
\<close>
theorem stored_state_reloads:
  assumes "url_origin_law rt"
  shows "loadPairingTickets rt (savePairingTickets (loadPairingTickets rt st) st') = loadPairingTickets rt st \<and>
         loadConfirmedPairingTickets rt (saveConfirmedPairingTickets (loadConfirmedPairingTickets rt st) st') =
           loadConfirmedPairingTickets rt st \<and>
         loadRevokedAgents (saveRevokedAgents (loadRevokedAgents st) st') = loadRevokedAgents st \<and>
         loadAgentPeers (saveAgentPeers (loadAgentPeers st) st') = loadAgentPeers st"
  using loaded_tickets_ok [OF assms, of st] loaded_confirmed_ok [OF assms, of st] loaded_revoked_ok [of st]
    loaded_peers_ok [of st]
  by (intro conjI loadPairingTickets_save loadConfirmedPairingTickets_save loadRevokedAgents_save loadAgentPeers_save)
    blast+

theorem stored_state_reloads_witness:
  "loadPairingTickets demo_runtime (savePairingTickets (loadPairingTickets demo_runtime demo_storage) empty_trust_storage) =
     loadPairingTickets demo_runtime demo_storage"
  using stored_state_reloads [OF demo_laws(2), of demo_storage empty_trust_storage] by blast

section \<open>Where trust comes from, durably\<close>

text \<open>
  In every run of the durable trust store from empty storage, alarms included, two distinct
  agents are allowed only if an earlier successful confirmation or \<open>upsertPair\<close> named exactly these
  two; a granted pair stays allowed, in both directions, whatever happens later.
\<close>
theorem durable_pair_allowed_only_if_granted:
  assumes "durable_allowed (fold (durable_step rt) events empty_trust_storage) a b" and "a \<noteq> b"
    and "is_agent_did (ulids rt) a" and "is_agent_did (ulids rt) b"
  shows "\<exists>before ev after x y. events = before @ ev # after \<and>
           durable_grants rt ev (fold (durable_step rt) before empty_trust_storage) = Some (x, y) \<and>
           (is_agent_did (ulids rt) x \<longrightarrow> is_agent_did (ulids rt) y \<longrightarrow> {x, y} = {a, b}) \<and>
           durable_allowed (fold (durable_step rt) (events @ later) empty_trust_storage) b a"
proof -
  have bar: "is_agent_did (ulids rt) d \<Longrightarrow> bar_free d" for d
    using agent_did_chars(1) by (auto simp: is_agent_did_iff)
  have "\<not> durable_allowed empty_trust_storage a b"
    using assms(2) by (simp add: durable_allowed_def empty_trust_storage_def loadPairs_def)
  note source = durable.run_source [OF assms(1) this]
  have "durable_allowed (fold (durable_step rt) later (fold (durable_step rt) events empty_trust_storage)) b a"
    by (rule durable.run_mono [OF durable.allowed_sym [OF assms(1)]])
  then show ?thesis using source bar assms(3,4) by (metis fold_append comp_apply)
qed

lemma demo_upsert_allowed:
  "durable_allowed (durable_step demo_runtime (Inl (0, 0, CallUpsertPair (demo_did CHR ''1'') (demo_did CHR ''2''))) st)
     (demo_did CHR ''1'') (demo_did CHR ''2'')"
proof -
  have "trim (demo_did c) \<noteq> []" if "c = CHR ''1'' \<or> c = CHR ''2''" for c
    using that demo_agent_did agent_did_chars(2) agent_did_nonempty by (metis is_agent_did_iff)
  then have "durable_grants demo_runtime (Inl (0, 0, CallUpsertPair (demo_did CHR ''1'') (demo_did CHR ''2''))) st =
      Some (demo_did CHR ''1'', demo_did CHR ''2'')"
    by (simp add: durable_upsertPair_def callDurableState_client ProxyTrustState_fetch_def handleUpsertPair_def Let_def)
  then show ?thesis by (rule durable.allowed_granted)
qed

theorem durable_pair_allowed_only_if_granted_witness:
  "\<exists>before ev after x y. [Inl (0, 0, CallUpsertPair (demo_did CHR ''1'') (demo_did CHR ''2''))] = before @ ev # after \<and>
     durable_grants demo_runtime ev (fold (durable_step demo_runtime) before empty_trust_storage) = Some (x, y) \<and>
     (is_agent_did (ulids demo_runtime) x \<longrightarrow> is_agent_did (ulids demo_runtime) y \<longrightarrow>
      {x, y} = {demo_did CHR ''1'', demo_did CHR ''2''}) \<and>
     durable_allowed (fold (durable_step demo_runtime)
       ([Inl (0, 0, CallUpsertPair (demo_did CHR ''1'') (demo_did CHR ''2''))] @ [Inr 5]) empty_trust_storage)
       (demo_did CHR ''2'') (demo_did CHR ''1'')"
proof (rule durable_pair_allowed_only_if_granted)
  show "durable_allowed (fold (durable_step demo_runtime)
      [Inl (0, 0, CallUpsertPair (demo_did CHR ''1'') (demo_did CHR ''2''))] empty_trust_storage)
      (demo_did CHR ''1'') (demo_did CHR ''2'')"
    using demo_upsert_allowed by simp
  show "is_agent_did (ulids demo_runtime) (demo_did CHR ''1'')" "is_agent_did (ulids demo_runtime) (demo_did CHR ''2'')"
    using demo_agent_did by (simp_all add: demo_runtime_def)
qed (simp add: demo_did_def)

end
