(* ===== verification/Trust_Policy.thy ===== *)
theory Trust_Policy
  imports Trust_Refinement
begin

text \<open>
  The guards in front of a delivery: \<open>apps/proxy/src/trust-policy.ts\<close> on the answers of a trust store,
  and the group authorizer of \<open>apps/proxy/src/group-trust.ts\<close> on the registry's membership checks. A
  store call that rejects is on the left of its answer; the membership check of the registry client
  is an argument, with its rejections.
\<close>

section \<open>trust-policy.ts\<close>

definition assertKnownTrustedAgent :: "('e, bool) result \<Rightarrow> (app_error, unit) result" where
  "assertKnownTrustedAgent isAgentKnown =
     (case isAgentKnown of
        Inl _ \<Rightarrow> Inl (AppError ''PROXY_AUTH_DEPENDENCY_UNAVAILABLE'' ''Proxy trust state is unavailable'' 503)
      | Inr known \<Rightarrow>
          if \<not> known then Inl (AppError ''PROXY_AUTH_FORBIDDEN'' ''Verified caller is not trusted'' 403) else Inr ())"

definition assertTrustedPair :: "('e, bool) result \<Rightarrow> (app_error, unit) result" where
  "assertTrustedPair isPairAllowed =
     (case isPairAllowed of
        Inl _ \<Rightarrow> Inl (AppError ''PROXY_PAIR_STATE_UNAVAILABLE'' ''Pairing state is unavailable'' 503)
      | Inr allowed \<Rightarrow>
          if \<not> allowed then Inl (AppError ''PROXY_AUTH_FORBIDDEN'' ''Verified caller is not trusted for recipient'' 403)
          else Inr ())"

text \<open>The answer of the durable client as a JavaScript truth value.\<close>
definition truthy_answer :: "('e, jsval) result \<Rightarrow> ('e, bool) result" where
  "truthy_answer r = bindE r (\<lambda>v. Inr (js_truthy v))"

section \<open>group-trust.ts\<close>

text \<open>What a registry call rejects with: an \<open>AppError\<close> or anything else.\<close>
datatype service_failure = AppFailure app_error | OtherFailure

definition group_invalid :: app_error where
  "group_invalid = AppError ''PROXY_HOOK_GROUP_INVALID'' ''X-Claw-Group-Id must be a valid group ID'' 400"

definition group_forbidden :: app_error where
  "group_forbidden = AppError ''PROXY_AUTH_FORBIDDEN'' ''Verified caller is not trusted for recipient'' 403"

fun toMembershipDependencyError :: "service_failure \<Rightarrow> app_error" where
  "toMembershipDependencyError (AppFailure e) =
     (if ae_code e = ''PROXY_AUTH_FORBIDDEN'' \<or> ae_code e = ''PROXY_HOOK_GROUP_INVALID'' then e
      else if ae_code e = ''IDENTITY_SERVICE_UNAUTHORIZED''
      then AppError ''PROXY_INTERNAL_AUTH_UNAUTHORIZED'' ''Proxy internal service authorization failed'' 503
      else if ae_code e = ''IDENTITY_SERVICE_INVALID_INPUT'' then group_invalid
      else AppError ''PROXY_GROUP_MEMBERSHIP_UNAVAILABLE'' ''Group membership verification is unavailable'' 503)"
| "toMembershipDependencyError OtherFailure =
     AppError ''PROXY_GROUP_MEMBERSHIP_UNAVAILABLE'' ''Group membership verification is unavailable'' 503"

text \<open>\<open>Promise.all\<close> of two calls: when both reject, the one that settles first is reported.\<close>
definition promise_all2 :: "bool \<Rightarrow> ('e, 'a) result \<Rightarrow> ('e, 'b) result \<Rightarrow> ('e, 'a \<times> 'b) result" where
  "promise_all2 leftFirst l r =
     (case (l, r) of
        (Inr a, Inr b) \<Rightarrow> Inr (a, b)
      | (Inl e, Inr _) \<Rightarrow> Inl e
      | (Inr _, Inl e) \<Rightarrow> Inl e
      | (Inl e, Inl f) \<Rightarrow> Inl (if leftFirst then e else f))"

definition createRegistryGroupTrustAuthorizer ::
  "ulid_lib \<Rightarrow> (string \<Rightarrow> string \<Rightarrow> (service_failure, bool) result) \<Rightarrow> bool \<Rightarrow> string \<Rightarrow> string \<Rightarrow> string \<Rightarrow>
   (app_error, unit) result" where
  "createRegistryGroupTrustAuthorizer ul checkGroupMembership senderFirst groupId senderAgentDid recipientAgentDid =
     (case parseGroupId ul groupId of Inl _ \<Rightarrow> Inl group_invalid | Inr normalizedGroupId \<Rightarrow>
      case parseAgentDid ul senderAgentDid of Inl _ \<Rightarrow> Inl group_invalid | Inr _ \<Rightarrow>
      case parseAgentDid ul recipientAgentDid of Inl _ \<Rightarrow> Inl group_invalid | Inr _ \<Rightarrow>
      case promise_all2 senderFirst (checkGroupMembership normalizedGroupId senderAgentDid)
             (checkGroupMembership normalizedGroupId recipientAgentDid) of
        Inl e \<Rightarrow> Inl (toMembershipDependencyError e)
      | Inr (senderIsMember, recipientIsMember) \<Rightarrow>
          if \<not> senderIsMember \<or> \<not> recipientIsMember
          then Inl (toMembershipDependencyError (AppFailure group_forbidden)) else Inr ())"

definition normalizeOptionalNonEmpty :: "string option \<Rightarrow> string option" where
  "normalizeOptionalNonEmpty value =
     (case value of None \<Rightarrow> None | Some s \<Rightarrow> if length (trim s) > 0 then Some (trim s) else None)"

text \<open>The credentials the authorizer is built with, or \<open>None\<close>: no group authorizer.\<close>
definition resolveRegistryGroupTrustAuthorizer :: "string option \<Rightarrow> string option \<Rightarrow> (string \<times> string) option" where
  "resolveRegistryGroupTrustAuthorizer serviceIdRaw serviceSecretRaw =
     (case (normalizeOptionalNonEmpty serviceIdRaw, normalizeOptionalNonEmpty serviceSecretRaw) of
        (Some serviceId, Some serviceSecret) \<Rightarrow> Some (serviceId, serviceSecret)
      | _ \<Rightarrow> None)"

section \<open>What the guards let through\<close>

text \<open>
  The guard on a pair, asked through the durable trust store about two agent DIDs, lets the
  request pass exactly when the pair is allowed and refuses it with 403 otherwise; it never reports
  the store as unavailable for agent DIDs.
\<close>
theorem trusted_pair_guard:
  assumes "is_agent_did ul a" and "is_agent_did ul b"
  shows "assertTrustedPair (truthy_answer (durable_isPairAllowed rt clock st a b)) =
         (if durable_allowed st a b then Inr ()
          else Inl (AppError ''PROXY_AUTH_FORBIDDEN'' ''Verified caller is not trusted for recipient'' 403))"
proof -
  have nb: "trim d \<noteq> []" if "is_agent_did ul d" for d
    using that agent_did_chars(2) agent_did_nonempty by (metis is_agent_did_iff)
  show ?thesis
    using durable_isPairAllowed_eq [of a b rt clock st] nb assms
    by (simp add: truthy_answer_def assertTrustedPair_def)
qed

theorem trusted_pair_guard_witness:
  "assertTrustedPair (truthy_answer (durable_isPairAllowed demo_runtime 0 empty_trust_storage
     (demo_did CHR ''1'') (demo_did CHR ''2''))) =
   Inl (AppError ''PROXY_AUTH_FORBIDDEN'' ''Verified caller is not trusted for recipient'' 403)"
  using trusted_pair_guard [OF demo_agent_did, of demo_runtime 0 empty_trust_storage]
  by (simp add: durable_allowed_def empty_trust_storage_def loadPairs_def demo_did_def)

text \<open>
  The group authorizer passes exactly when the group id parses, both parties are agent DIDs and
  the registry confirms that both are members of the normalised group; a membership check that fails
  never counts as membership.
\<close>
lemma group_authorizer_iff:
  "createRegistryGroupTrustAuthorizer ul check f g s r = Inr () \<longleftrightarrow>
   (\<exists>n. parseGroupId ul g = Inr n \<and> is_agent_did ul s \<and> is_agent_did ul r \<and>
        check n s = Inr True \<and> check n r = Inr True)"
  by (auto simp: createRegistryGroupTrustAuthorizer_def promise_all2_def is_agent_did_iff split: sum.splits if_splits)

end
