(* ===== verification/Relay_Session.thy ===== *)
theory Relay_Session
  imports Relay_Sockets Trust_Policy
begin

text \<open>
  The relay session of one agent, a durable object: \<open>apps/proxy/src/agent-relay-session/core.ts\<close>, with
  \<open>parsers.ts\<close>, \<open>rpc.ts\<close>, \<open>errors.ts\<close> and \<open>websocket.ts\<close>.

  The session's state is its storage, the socket tracker, the deliveries in flight and the sockets
  the platform holds for it. Storage operations let no other event in. The wait for the connector's
  answer does: a delivery is split there into \<open>deliver_begin\<close> and \<open>deliver_finish\<close>, and a pass over the queue
  is followed by an arbitrary change of the session before its result is stored.
  Fresh ids are arguments. Request ids are assumed not to name properties of \<open>Object.prototype\<close>.

  Shown here: redelivery of a request is answered from its receipt, the queue stays within its
  bound under every interleaving, receipts are shown and updated only for their owner, frames are
  enqueued only for trusted pairs; and where the code loses information: the group of a queued
  delivery, deliveries queued while another waits for its answer, and receipts of a request id that
  a second sender reuses.
\<close>

section \<open>Inputs (types.ts, parsers.ts)\<close>

record RelayReceiptRecordInput =
  ri_requestId :: string
  ri_senderAgentDid :: string
  ri_recipientAgentDid :: string
  ri_status :: ReceiptStatus
  ri_reason :: "string option"

record RelayReceiptLookupInput =
  rl_requestId :: string
  rl_senderAgentDid :: string

record RelayDeliveryResult =
  dr_deliveryId :: string
  dr_state :: RelayDeliveryState
  dr_delivered :: bool
  dr_queued :: bool
  dr_connectedSockets :: nat
  dr_queueDepth :: nat

definition trimmed_opt :: "jsval \<Rightarrow> string option" where
  "trimmed_opt v = (if isNonEmptyString v then Some (trim (js_str v)) else None)"

text \<open>The parsers throw a \<open>TypeError\<close>; only that they throw matters to their callers.\<close>
definition parseDeliveryInput :: "runtime \<Rightarrow> jsval \<Rightarrow> RelayDeliveryInput option" where
  "parseDeliveryInput rt value =
     (if \<not> is_object value then None
      else if \<not> is_str (js_get value ''requestId'') \<or> \<not> is_str (js_get value ''senderAgentDid'') \<or>
              \<not> is_str (js_get value ''recipientAgentDid'') then None
      else if js_get value ''replyTo'' \<noteq> JUndefined \<and> \<not> isNonEmptyString (js_get value ''replyTo'') then None
      else if is_str (js_get value ''replyTo'') \<and> url_parse rt (js_str (js_get value ''replyTo'')) = None then None
      else if isNonEmptyString (js_get value ''groupId'') \<and>
              (case parseGroupId (ulids rt) (trim (js_str (js_get value ''groupId''))) of Inl _ \<Rightarrow> True | Inr _ \<Rightarrow> False) then None
      else if \<not> isNonEmptyString (js_get value ''groupId'') \<and> js_get value ''groupId'' \<noteq> JUndefined then None
      else Some
        \<lparr>in_requestId = js_str (js_get value ''requestId''), in_senderAgentDid = js_str (js_get value ''senderAgentDid''),
         in_recipientAgentDid = js_str (js_get value ''recipientAgentDid''), in_payload = js_get value ''payload'',
         in_deliverySource = trimmed_opt (js_get value ''deliverySource''), in_groupId = trimmed_opt (js_get value ''groupId''),
         in_conversationId = trimmed_opt (js_get value ''conversationId''), in_replyTo = trimmed_opt (js_get value ''replyTo'')\<rparr>)"

definition parse_receipt_status :: "jsval \<Rightarrow> ReceiptStatus option" where
  "parse_receipt_status v =
     (if v = JStr ''delivered_to_webhook'' then Some receipt_delivered_to_webhook
      else if v = JStr ''dead_lettered'' then Some receipt_dead_lettered else None)"

definition parseReceiptRecordInput :: "jsval \<Rightarrow> RelayReceiptRecordInput option" where
  "parseReceiptRecordInput value =
     (if \<not> is_object value then None
      else if \<not> isNonEmptyString (js_get value ''requestId'') \<or> \<not> isNonEmptyString (js_get value ''senderAgentDid'') \<or>
              \<not> isNonEmptyString (js_get value ''recipientAgentDid'') then None
      else case parse_receipt_status (js_get value ''status'') of None \<Rightarrow> None
      | Some status \<Rightarrow> Some
        \<lparr>ri_requestId = trim (js_str (js_get value ''requestId'')),
         ri_senderAgentDid = trim (js_str (js_get value ''senderAgentDid'')),
         ri_recipientAgentDid = trim (js_str (js_get value ''recipientAgentDid'')), ri_status = status,
         ri_reason = trimmed_opt (js_get value ''reason'')\<rparr>)"

definition parseReceiptLookupInput :: "jsval \<Rightarrow> RelayReceiptLookupInput option" where
  "parseReceiptLookupInput value =
     (if \<not> is_object value then None
      else if \<not> isNonEmptyString (js_get value ''requestId'') \<or> \<not> isNonEmptyString (js_get value ''senderAgentDid'') then None
      else Some \<lparr>rl_requestId = trim (js_str (js_get value ''requestId'')),
                 rl_senderAgentDid = trim (js_str (js_get value ''senderAgentDid''))\<rparr>)"

definition toRelayDeliveryResult :: "nat \<Rightarrow> string \<Rightarrow> nat \<Rightarrow> RelayDeliveryState \<Rightarrow> RelayDeliveryResult" where
  "toRelayDeliveryResult connectedSockets deliveryId queueDepth st =
     \<lparr>dr_deliveryId = deliveryId, dr_state = st, dr_delivered = (st = state_delivered), dr_queued = (st = state_queued),
      dr_connectedSockets = connectedSockets, dr_queueDepth = queueDepth\<rparr>"

section \<open>Session state (core.ts)\<close>

record relay_session =
  se_storage :: relay_storage
  se_tracker :: tracker
  se_transport :: transport
  se_sockets :: "socket list"
  se_dids :: "(socket \<times> string) list"
  se_attachments :: "(socket \<times> jsval) list"

definition session_active :: "ms \<Rightarrow> relay_session \<Rightarrow> socket list \<times> relay_session" where
  "session_active nowMs se =
     (let (ss, t) = getActiveSockets (se_sockets se) nowMs (se_tracker se) in (ss, se\<lparr>se_tracker := t\<rparr>))"

definition session_load :: "ms \<Rightarrow> relay_session \<Rightarrow> RelayQueueState \<times> relay_session" where
  "session_load nowMs se = (let (q, st) = loadQueueState nowMs (se_storage se) in (q, se\<lparr>se_storage := st\<rparr>))"

definition session_save :: "RelayQueueState \<Rightarrow> relay_session \<Rightarrow> relay_session" where
  "session_save q se = se\<lparr>se_storage := saveQueueState q (se_storage se)\<rparr>"

definition scheduleNextAlarm :: "RelayQueueState \<Rightarrow> ms \<Rightarrow> relay_session \<Rightarrow> relay_session" where
  "scheduleNextAlarm q nowMs se =
     (let (ss, se) = session_active nowMs se
      in se\<lparr>se_storage := scheduleNextRelayAlarm q nowMs (ss \<noteq> []) (se_storage se)\<rparr>)"

text \<open>\<open>onSchedule\<close> of the socket handlers: \<open>queueManager.scheduleFromStorage\<close>.\<close>
definition session_schedule :: "ms \<Rightarrow> relay_session \<Rightarrow> relay_session" where
  "session_schedule nowMs se = (let (q, se) = session_load nowMs se in scheduleNextAlarm q nowMs se)"

section \<open>Delivery (core.ts)\<close>

datatype relay_failure = RelayQueueFull | RetryBudgetExhausted

text \<open>What the first attempt came to when the code next waits.\<close>
datatype attempt = NotTried | AttemptThrew | AwaitingAck string

record deliver_wait =
  dw_queue :: RelayQueueState
  dw_sockets :: nat
  dw_attempt :: attempt

text \<open>What a delivery takes from outside: fresh ids, the clock of the frame, and how sending goes.\<close>
record deliver_env =
  de_deliveryId :: string
  de_frameId :: string
  de_frameClock :: ms
  de_sends :: "socket \<Rightarrow> bool"
  de_bytes :: "DeliverFrame \<Rightarrow> nat option"
  de_random :: real

text \<open>\<open>deliverToConnector\<close> up to the wait for the connector.\<close>
definition deliver_begin ::
  "RelayDeliveryPolicy \<Rightarrow> ms \<Rightarrow> deliver_env \<Rightarrow> RelayDeliveryInput \<Rightarrow> relay_session \<Rightarrow>
   (RelayDeliveryResult + deliver_wait) \<times> relay_session" where
  "deliver_begin pol nowMs env input se =
     (let (q, se) = session_load nowMs se;
          new = (let (sockets, se) = session_active nowMs se in
            if sockets \<noteq> [] \<and> getPendingCount (se_transport se) < maxInFlightDeliveries pol then
              (let (waiting, tr, t) = sendDeliverFrame pol (de_sends env) (de_bytes env) (de_frameId env) (de_frameClock env)
                     (hd sockets) input (se_transport se) (se_tracker se)
               in (Inr \<lparr>dw_queue = q, dw_sockets = length sockets,
                        dw_attempt = (if waiting then AwaitingAck (de_frameId env) else AttemptThrew)\<rparr>,
                   se\<lparr>se_transport := tr, se_tracker := t\<rparr>))
            else (Inr \<lparr>dw_queue = q, dw_sockets = length sockets, dw_attempt = NotTried\<rparr>, se)) in
      case map_of (qs_receipts q) (in_requestId input) of
        None \<Rightarrow> new
      | Some existingReceipt \<Rightarrow>
          if rc_expiresAtMs existingReceipt > nowMs \<and> rc_senderAgentDid existingReceipt = in_senderAgentDid input \<and>
             rc_recipientAgentDid existingReceipt = in_recipientAgentDid input
          then (let (sockets, se) = session_active nowMs se
                in (Inl (toRelayDeliveryResult (length sockets) (rc_deliveryId existingReceipt) (length (qs_deliveries q))
                          (rc_state existingReceipt)), se))
          else new)"

definition new_receipt :: "RelayDeliveryPolicy \<Rightarrow> ms \<Rightarrow> string \<Rightarrow> RelayDeliveryInput \<Rightarrow> RelayDeliveryState \<Rightarrow> RelayDeliveryReceipt" where
  "new_receipt pol nowMs deliveryId input st =
     \<lparr>rc_requestId = in_requestId input, rc_deliveryId = deliveryId, rc_expiresAtMs = nowMs + queueTtlMs pol,
      rc_senderAgentDid = in_senderAgentDid input, rc_recipientAgentDid = in_recipientAgentDid input, rc_state = st,
      rc_reason = None, rc_statusUpdatedAt = toIso nowMs\<rparr>"

definition queuedDelivery :: "RelayDeliveryPolicy \<Rightarrow> ms \<Rightarrow> deliver_env \<Rightarrow> RelayDeliveryInput \<Rightarrow> nat \<Rightarrow> QueuedRelayDelivery" where
  "queuedDelivery pol nowMs env input priorAttempts =
     \<lparr>qd_deliveryId = de_deliveryId env, qd_requestId = in_requestId input, qd_senderAgentDid = in_senderAgentDid input,
      qd_recipientAgentDid = in_recipientAgentDid input, qd_payload = in_payload input,
      qd_deliverySource = in_deliverySource input, qd_groupId = None, qd_conversationId = in_conversationId input,
      qd_replyTo = in_replyTo input, qd_createdAtMs = nowMs, qd_attemptCount = priorAttempts,
      qd_expiresAtMs = nowMs + queueTtlMs pol,
      qd_nextAttemptAtMs = nowMs + computeRetryDelayMs pol priorAttempts (de_random env)\<rparr>"

text \<open>The rest of \<open>deliverToConnector\<close>, in the session as it is when the wait ends.\<close>
definition deliver_finish ::
  "RelayDeliveryPolicy \<Rightarrow> ms \<Rightarrow> deliver_env \<Rightarrow> RelayDeliveryInput \<Rightarrow> send_outcome \<Rightarrow> deliver_wait \<Rightarrow> relay_session \<Rightarrow>
   (relay_failure, RelayDeliveryResult) result \<times> relay_session" where
  "deliver_finish pol nowMs env input outcome w se =
     (let priorAttempts = (if dw_attempt w = NotTried then 0 else 1 :: nat);
          accepted = (case dw_attempt w of AwaitingAck _ \<Rightarrow> outcome = SendAccepted | _ \<Rightarrow> False);
          q = dw_queue w in
      if accepted then
        let q = q\<lparr>qs_receipts := upsertReceipt (new_receipt pol nowMs (de_deliveryId env) input state_delivered) (qs_receipts q)\<rparr>;
            se = scheduleNextAlarm q nowMs (session_save q se)
        in (Inr (toRelayDeliveryResult (dw_sockets w) (de_deliveryId env) (length (qs_deliveries q)) state_delivered), se)
      else if priorAttempts \<ge> retryMaxAttempts pol then (Inl RetryBudgetExhausted, se)
      else if length (qs_deliveries q) \<ge> queueMaxMessagesPerAgent pol then (Inl RelayQueueFull, se)
      else
        let d = queuedDelivery pol nowMs env input priorAttempts;
            q = \<lparr>qs_deliveries = qs_deliveries q @ [d],
                 qs_receipts = upsertReceipt (new_receipt pol nowMs (de_deliveryId env) input state_queued) (qs_receipts q)\<rparr>;
            se = scheduleNextAlarm q nowMs (session_save q se)
        in (Inr (toRelayDeliveryResult (dw_sockets w) (de_deliveryId env) (length (qs_deliveries q)) state_queued), se))"

text \<open>The whole call; \<open>meanwhile\<close> is what other events do to the session during the wait.\<close>
definition deliverToConnector ::
  "RelayDeliveryPolicy \<Rightarrow> ms \<Rightarrow> deliver_env \<Rightarrow> RelayDeliveryInput \<Rightarrow> send_outcome \<Rightarrow> (relay_session \<Rightarrow> relay_session) \<Rightarrow> relay_session \<Rightarrow>
   (relay_failure, RelayDeliveryResult) result \<times> relay_session" where
  "deliverToConnector pol nowMs env input outcome meanwhile se =
     (case deliver_begin pol nowMs env input se of
        (Inl r, se) \<Rightarrow> (Inr r, se)
      | (Inr w, se) \<Rightarrow>
          deliver_finish pol nowMs env input outcome w
            (case dw_attempt w of AwaitingAck _ \<Rightarrow> meanwhile se | _ \<Rightarrow> se))"

section \<open>Receipts (core.ts)\<close>

fun receipt_state :: "ReceiptStatus \<Rightarrow> RelayDeliveryState" where
  "receipt_state receipt_delivered_to_webhook = state_delivered_to_webhook"
| "receipt_state receipt_dead_lettered = state_dead_lettered"

text \<open>A send that throws is ignored.\<close>
definition send_best_effort :: "(socket \<Rightarrow> bool) \<Rightarrow> ConnectorFrame \<Rightarrow> socket list \<Rightarrow> tracker \<Rightarrow> tracker" where
  "send_best_effort sends frame ss t = fold (\<lambda>s t. if sends s then log_call (Sent s frame) t else t) ss t"

definition pushReceiptFrameToActiveSockets ::
  "(socket \<Rightarrow> bool) \<Rightarrow> string \<Rightarrow> ms \<Rightarrow> string \<Rightarrow> string option \<Rightarrow> ReceiptStatus \<Rightarrow> string \<Rightarrow> relay_session \<Rightarrow> relay_session" where
  "pushReceiptFrameToActiveSockets sends uid nowMs originalFrameId reason status toAgentDid se =
     (let frame = toReceiptFramePayload uid nowMs originalFrameId toAgentDid status reason;
          (ss, se) = session_active nowMs se
      in se\<lparr>se_tracker := send_best_effort sends frame ss (se_tracker se)\<rparr>)"

definition recordDeliveryReceipt ::
  "RelayDeliveryPolicy \<Rightarrow> (socket \<Rightarrow> bool) \<Rightarrow> string \<Rightarrow> string \<Rightarrow> ms \<Rightarrow> RelayReceiptRecordInput \<Rightarrow> relay_session \<Rightarrow> relay_session" where
  "recordDeliveryReceipt pol sends freshId frameId nowMs input se =
     (let (q, se) = session_load nowMs se;
          existing = map_of (qs_receipts q) (ri_requestId input) in
      if (case existing of None \<Rightarrow> False
          | Some e \<Rightarrow> rc_senderAgentDid e \<noteq> ri_senderAgentDid input \<or> rc_recipientAgentDid e \<noteq> ri_recipientAgentDid input)
      then se
      else
        let receipt = \<lparr>rc_requestId = ri_requestId input,
                       rc_deliveryId = (case existing of None \<Rightarrow> freshId | Some e \<Rightarrow> rc_deliveryId e),
                       rc_expiresAtMs = nowMs + queueTtlMs pol, rc_senderAgentDid = ri_senderAgentDid input,
                       rc_recipientAgentDid = ri_recipientAgentDid input, rc_state = receipt_state (ri_status input),
                       rc_reason = ri_reason input, rc_statusUpdatedAt = toIso nowMs\<rparr>;
            q = q\<lparr>qs_receipts := AList.update (ri_requestId input) receipt (qs_receipts q)\<rparr>;
            se = scheduleNextAlarm q nowMs (session_save q se) in
        if map_option rc_state existing \<noteq> Some (receipt_state (ri_status input)) \<or>
           (case existing of None \<Rightarrow> None | Some e \<Rightarrow> rc_reason e) \<noteq> ri_reason input
        then pushReceiptFrameToActiveSockets sends frameId nowMs (ri_requestId input) (ri_reason input) (ri_status input)
               (ri_recipientAgentDid input) se
        else se)"

text \<open>\<open>None\<close> is the answer \<open>found: false\<close>.\<close>
definition getDeliveryReceipt :: "ms \<Rightarrow> RelayReceiptLookupInput \<Rightarrow> relay_session \<Rightarrow> RelayDeliveryReceipt option \<times> relay_session" where
  "getDeliveryReceipt nowMs input se =
     (let (q, se) = session_load nowMs se in
      case map_of (qs_receipts q) (rl_requestId input) of
        None \<Rightarrow> (None, se)
      | Some existing \<Rightarrow> if rc_senderAgentDid existing \<noteq> rl_senderAgentDid input then (None, se) else (Some existing, se))"

section \<open>Alarm and reconnect (core.ts, queue-manager.ts)\<close>

text \<open>Sends the heartbeats; the \<open>i\<close>-th fresh id is \<open>uid i\<close>.\<close>
fun heartbeat_loop :: "(socket \<Rightarrow> bool) \<Rightarrow> (nat \<Rightarrow> string) \<Rightarrow> ms \<Rightarrow> nat \<Rightarrow> socket list \<Rightarrow> tracker \<Rightarrow> tracker" where
  "heartbeat_loop sends uid nowMs i [] t = t"
| "heartbeat_loop sends uid nowMs i (s # ss) t =
     heartbeat_loop sends uid nowMs (Suc i) ss (sendHeartbeatFrame sends (uid i) s nowMs t)"

text \<open>\<open>processQueueDeliveries\<close> with the sockets of the session, up to the point where its result is there.\<close>
definition session_process ::
  "RelayDeliveryPolicy \<Rightarrow> ms \<Rightarrow> queue_env \<Rightarrow> RelayQueueState \<Rightarrow> relay_session \<Rightarrow> (RelayQueueState \<times> bool) \<times> relay_session" where
  "session_process pol nowMs env q se =
     (if qs_deliveries q = [] then ((q, False), se)
      else let (ss, se) = session_active nowMs se in (processQueueDeliveries pol nowMs (ss \<noteq> []) env q, se))"

text \<open>The alarm handler up to the end of the pass; the queue and whether it changed are kept for later.\<close>
definition alarm_begin ::
  "RelayDeliveryPolicy \<Rightarrow> (socket \<Rightarrow> bool) \<Rightarrow> (nat \<Rightarrow> string) \<Rightarrow> ms \<Rightarrow> queue_env \<Rightarrow> relay_session \<Rightarrow>
   (RelayQueueState \<times> bool) \<times> relay_session" where
  "alarm_begin pol sends uid nowMs env se =
     (let (ss, se) = session_active nowMs se;
          se = se\<lparr>se_tracker := heartbeat_loop sends uid nowMs 0 ss (se_tracker se)\<rparr>;
          (q, se) = session_load nowMs se
      in session_process pol nowMs env q se)"

definition queue_finish :: "ms \<Rightarrow> RelayQueueState \<times> bool \<Rightarrow> relay_session \<Rightarrow> relay_session" where
  "queue_finish nowMs r se =
     (let (q, mutated) = r in scheduleNextAlarm q nowMs (if mutated then session_save q se else se))"

definition AgentRelaySession_alarm ::
  "RelayDeliveryPolicy \<Rightarrow> (socket \<Rightarrow> bool) \<Rightarrow> (nat \<Rightarrow> string) \<Rightarrow> ms \<Rightarrow> queue_env \<Rightarrow> (relay_session \<Rightarrow> relay_session) \<Rightarrow>
   relay_session \<Rightarrow> relay_session" where
  "AgentRelaySession_alarm pol sends uid nowMs env meanwhile se =
     (let (r, se) = alarm_begin pol sends uid nowMs env se in queue_finish nowMs r (meanwhile se))"

text \<open>\<open>drainQueueOnReconnect\<close> in the session, up to the end of its pass; \<open>queue_finish\<close> is the rest.\<close>
definition drain_begin ::
  "RelayDeliveryPolicy \<Rightarrow> ms \<Rightarrow> queue_env \<Rightarrow> relay_session \<Rightarrow> (RelayQueueState \<times> bool) \<times> relay_session" where
  "drain_begin pol nowMs env se =
     (let (q, se) = session_load nowMs se;
          moved = (\<exists>d \<in> set (qs_deliveries q). qd_nextAttemptAtMs d > nowMs);
          ((q, processed), se) = session_process pol nowMs env (q\<lparr>qs_deliveries := advance_all nowMs (qs_deliveries q)\<rparr>) se
      in ((q, moved \<or> processed), se))"

fun receipt_status_of :: "RelayDeliveryState \<Rightarrow> ReceiptStatus option" where
  "receipt_status_of state_delivered_to_webhook = Some receipt_delivered_to_webhook"
| "receipt_status_of state_dead_lettered = Some receipt_dead_lettered"
| "receipt_status_of _ = None"

fun drain_receipts :: "(socket \<Rightarrow> bool) \<Rightarrow> (nat \<Rightarrow> string) \<Rightarrow> ms \<Rightarrow> nat \<Rightarrow> receipts \<Rightarrow> relay_session \<Rightarrow> relay_session" where
  "drain_receipts sends uid nowMs i [] se = se"
| "drain_receipts sends uid nowMs i ((_, r) # rs) se =
     drain_receipts sends uid nowMs (Suc i) rs
       (if rc_expiresAtMs r \<le> nowMs then se
        else case receipt_status_of (rc_state r) of None \<Rightarrow> se
        | Some status \<Rightarrow> pushReceiptFrameToActiveSockets sends (uid i) nowMs (rc_requestId r) (rc_reason r) status
            (rc_recipientAgentDid r) se)"

definition drainReceiptFramesOnReconnect :: "(socket \<Rightarrow> bool) \<Rightarrow> (nat \<Rightarrow> string) \<Rightarrow> ms \<Rightarrow> relay_session \<Rightarrow> relay_session" where
  "drainReceiptFramesOnReconnect sends uid nowMs se =
     (let (ss, se) = session_active nowMs se in
      if ss = [] then se
      else let (q, se) = session_load nowMs se in drain_receipts sends uid nowMs 0 (qs_receipts q) se)"

section \<open>Socket identities and connecting (core.ts)\<close>

definition rememberSocketAgentDid :: "socket \<Rightarrow> string \<Rightarrow> relay_session \<Rightarrow> relay_session" where
  "rememberSocketAgentDid s agentDid se =
     se\<lparr>se_dids := AList.update s agentDid (se_dids se),
        se_attachments := AList.update s (JObj [(''connectorAgentDid'', JStr agentDid)]) (se_attachments se)\<rparr>"

definition readSocketAgentDid :: "socket \<Rightarrow> relay_session \<Rightarrow> string option \<times> relay_session" where
  "readSocketAgentDid s se =
     (case map_of (se_dids se) s of
        Some remembered \<Rightarrow> (Some remembered, se)
      | None \<Rightarrow>
          (case map_of (se_attachments se) s of None \<Rightarrow> (None, se)
           | Some attachment \<Rightarrow>
               if is_str (js_get attachment ''connectorAgentDid'')
               then (let agentDid = js_str (js_get attachment ''connectorAgentDid'')
                     in (Some agentDid, se\<lparr>se_dids := AList.update s agentDid (se_dids se)\<rparr>))
               else (None, se)))"

definition forgetSocketAgentDid :: "socket \<Rightarrow> relay_session \<Rightarrow> relay_session" where
  "forgetSocketAgentDid s se = se\<lparr>se_dids := AList.delete s (se_dids se)\<rparr>"

text \<open>
  \<open>handleConnect\<close> up to its response: \<open>server\<close> is the new socket. The two drains it starts are not
  awaited; they are the separate steps \<open>drain_begin\<close>/\<open>queue_finish\<close> and \<open>drainReceiptFramesOnReconnect\<close>.
\<close>
definition handleConnect :: "ms \<Rightarrow> socket \<Rightarrow> string option \<Rightarrow> string option \<Rightarrow> relay_session \<Rightarrow> http_response \<times> relay_session" where
  "handleConnect nowMs server upgradeHeader didHeader se =
     (if map_option toLowerCase upgradeHeader \<noteq> Some ''websocket''
      then (Response 426 (JStr ''Expected websocket upgrade''), se)
      else let connectorAgentDid = (case didHeader of None \<Rightarrow> [] | Some h \<Rightarrow> trim h) in
        if connectorAgentDid = [] then (Response 400 (JStr ''Missing connector agent DID''), se)
        else
          let (activeSockets, se) = session_active nowMs se;
              t = fold (\<lambda>s t. closeSocket s RELAY_SOCKET_SUPERSEDED_CLOSE_CODE ''superseded_by_new_connection'' t)
                    activeSockets (se_tracker se);
              se = se\<lparr>se_tracker := t, se_sockets := se_sockets se @ [server]\<rparr>;
              se = rememberSocketAgentDid server connectorAgentDid se;
              se = se\<lparr>se_tracker := touchSocketAck server nowMs (se_tracker se)\<rparr>
          in (Response 101 JUndefined, se))"

section \<open>Requests to the session (core.ts, rpc.ts)\<close>

definition delivery_input_js :: "RelayDeliveryInput \<Rightarrow> jsval" where
  "delivery_input_js i = json_wire (JObj
     [(''requestId'', JStr (in_requestId i)), (''senderAgentDid'', JStr (in_senderAgentDid i)),
      (''recipientAgentDid'', JStr (in_recipientAgentDid i)), (''payload'', in_payload i),
      (''deliverySource'', js_opt_str (in_deliverySource i)), (''groupId'', js_opt_str (in_groupId i)),
      (''conversationId'', js_opt_str (in_conversationId i)), (''replyTo'', js_opt_str (in_replyTo i))])"

definition delivery_result_js :: "RelayDeliveryResult \<Rightarrow> jsval" where
  "delivery_result_js r = JObj
     [(''deliveryId'', JStr (dr_deliveryId r)), (''state'', JStr (state_str (dr_state r))),
      (''delivered'', JBool (dr_delivered r)), (''queued'', JBool (dr_queued r)),
      (''connectedSockets'', JNum (real (dr_connectedSockets r))), (''queueDepth'', JNum (real (dr_queueDepth r)))]"

definition receipt_result_js :: "RelayDeliveryReceipt option \<Rightarrow> jsval" where
  "receipt_result_js r =
     (case r of None \<Rightarrow> JObj [(''found'', JBool False)]
      | Some r \<Rightarrow> json_wire (JObj [(''found'', JBool True), (''receipt'', receipt_js r)]))"

text \<open>What a request to the session takes from outside.\<close>
record session_env =
  sv_now :: ms
  sv_server :: socket
  sv_freshId :: string
  sv_frameId :: string
  sv_deliver :: deliver_env
  sv_outcome :: send_outcome
  sv_meanwhile :: "relay_session \<Rightarrow> relay_session"

record session_request =
  sr_method :: string
  sr_path :: string
  sr_upgrade :: "string option"
  sr_did :: "string option"
  sr_body :: "jsval option"

definition AgentRelaySession_fetch ::
  "runtime \<Rightarrow> RelayDeliveryPolicy \<Rightarrow> session_env \<Rightarrow> session_request \<Rightarrow> relay_session \<Rightarrow> http_response \<times> relay_session" where
  "AgentRelaySession_fetch rt pol v request se =
     (if sr_path request = ''/v1/relay/connect''
      then handleConnect (sv_now v) (sv_server v) (sr_upgrade request) (sr_did request) se
      else if sr_method request = ''POST'' \<and> sr_path request = ''/rpc/deliver-to-connector'' then
        (case Option.bind (sr_body request) (parseDeliveryInput rt) of
           None \<Rightarrow> (Response 400 (JStr ''Invalid relay delivery input''), se)
         | Some input \<Rightarrow>
             (case deliverToConnector pol (sv_now v) (sv_deliver v) input (sv_outcome v) (sv_meanwhile v) se of
                (Inr result, se) \<Rightarrow> (Response 202 (delivery_result_js result), se)
              | (Inl RelayQueueFull, se) \<Rightarrow> (toErrorResponse ''PROXY_RELAY_QUEUE_FULL'' ''Target relay queue is full'' 507, se)
              | (Inl RetryBudgetExhausted, se) \<Rightarrow> (Response 502 (JStr ''Relay delivery failed''), se)))
      else if sr_method request = ''POST'' \<and> sr_path request = ''/rpc/record-delivery-receipt'' then
        (case Option.bind (sr_body request) parseReceiptRecordInput of
           None \<Rightarrow> (Response 400 (JStr ''Invalid relay receipt input''), se)
         | Some input \<Rightarrow>
             (Response 202 (JObj [(''accepted'', JBool True)]),
              recordDeliveryReceipt pol (de_sends (sv_deliver v)) (sv_freshId v) (sv_frameId v) (sv_now v) input se))
      else if sr_method request = ''POST'' \<and> sr_path request = ''/rpc/get-delivery-receipt'' then
        (case Option.bind (sr_body request) parseReceiptLookupInput of
           None \<Rightarrow> (Response 400 (JStr ''Invalid relay receipt lookup input''), se)
         | Some input \<Rightarrow>
             (let (r, se) = getDeliveryReceipt (sv_now v) input se in (Response 200 (receipt_result_js r), se)))
      else (Response 404 (JStr ''Not found''), se))"

datatype session_error = RelaySessionDeliveryError (sd_code: string) (sd_message: string) (sd_status: nat)

definition response_ok :: "http_response \<Rightarrow> bool" where
  "response_ok r \<longleftrightarrow> 200 \<le> resp_status r \<and> resp_status r \<le> 299"

definition str_or :: "jsval \<Rightarrow> string \<Rightarrow> string" where
  "str_or v d = (if is_str v then js_str v else d)"

text \<open>\<open>deliverToRelaySession\<close> on the response of the session.\<close>
definition deliverToRelaySession :: "http_response \<Rightarrow> (session_error, jsval) result" where
  "deliverToRelaySession response =
     (if \<not> response_ok response then
        let error = js_get (resp_body response) ''error'' in
        Inl (RelaySessionDeliveryError (str_or (js_get error ''code'') ''PROXY_RELAY_DELIVERY_FAILED'')
               (str_or (js_get error ''message'') ''Relay session delivery RPC failed'') (resp_status response))
      else Inr (resp_body response))"

definition recordRelayDeliveryReceipt :: "http_response \<Rightarrow> (session_error, unit) result" where
  "recordRelayDeliveryReceipt response =
     (if \<not> response_ok response then
        Inl (RelaySessionDeliveryError ''PROXY_RELAY_RECEIPT_WRITE_FAILED'' ''Relay delivery receipt write RPC failed''
               (resp_status response))
      else Inr ())"

definition getRelayDeliveryReceipt :: "http_response \<Rightarrow> (session_error, jsval) result" where
  "getRelayDeliveryReceipt response =
     (if \<not> response_ok response then
        Inl (RelaySessionDeliveryError ''PROXY_RELAY_RECEIPT_READ_FAILED'' ''Relay delivery receipt read RPC failed''
               (resp_status response))
      else Inr (resp_body response))"

definition deliver_request :: "RelayDeliveryInput \<Rightarrow> session_request" where
  "deliver_request input =
     \<lparr>sr_method = ''POST'', sr_path = ''/rpc/deliver-to-connector'', sr_upgrade = None, sr_did = None,
      sr_body = Some (delivery_input_js input)\<rparr>"

section \<open>Frames from the connector (core.ts, websocket.ts)\<close>

text \<open>
  \<open>handleEnqueueFrame\<close>: \<open>stub\<close> sends a request to the recipient's session in the world \<open>'w\<close> of the other
  sessions (\<open>Inl\<close>: the call rejects with this message); \<open>isPairAllowed\<close> and \<open>authorizer\<close> ask the trust
  store and the group authorizer. Each is \<open>None\<close> when it is not configured.
\<close>
definition handleEnqueueFrame ::
  "(session_request \<Rightarrow> 'w \<Rightarrow> (string, http_response) result \<times> 'w) option \<Rightarrow>
   (string \<Rightarrow> string \<Rightarrow> ('e, bool) result) option \<Rightarrow> (string \<Rightarrow> string \<Rightarrow> string \<Rightarrow> (app_error, unit) result) option \<Rightarrow>
   socket \<Rightarrow> EnqueueFrame \<Rightarrow> relay_session \<Rightarrow> 'w \<Rightarrow> (bool \<times> string option) \<times> relay_session \<times> 'w" where
  "handleEnqueueFrame stub isPairAllowed authorizer s frame se w =
     (let (did, se) = readSocketAgentDid s se in
      case did of None \<Rightarrow> ((False, Some ''Relay sender identity is unavailable for this websocket''), se, w)
      | Some senderAgentDid \<Rightarrow>
      case stub of None \<Rightarrow> ((False, Some ''Relay session namespace is unavailable''), se, w)
      | Some fetch \<Rightarrow>
      case isPairAllowed of None \<Rightarrow> ((False, Some ''Relay trust state is unavailable''), se, w)
      | Some allowed \<Rightarrow>
        let groupId = (case ef_groupId frame of None \<Rightarrow> [] | Some g \<Rightarrow> g);
            trusted = (if trim groupId \<noteq> [] then
                         (case authorizer of None \<Rightarrow> Inl ''Group membership verification is unavailable''
                          | Some authorize \<Rightarrow>
                              (case authorize groupId senderAgentDid (ef_toAgentDid frame) of
                                 Inl e \<Rightarrow> Inl (ae_message e) | Inr _ \<Rightarrow> Inr ()))
                       else (case assertTrustedPair (allowed senderAgentDid (ef_toAgentDid frame)) of
                               Inl e \<Rightarrow> Inl (ae_message e) | Inr _ \<Rightarrow> Inr ())) in
        case trusted of Inl reason \<Rightarrow> ((False, Some reason), se, w)
        | Inr _ \<Rightarrow>
            (case fetch (deliver_request (toRelayDeliveryInputFromEnqueueFrame frame senderAgentDid)) w of
               (Inl message, w) \<Rightarrow> ((False, Some message), se, w)
             | (Inr response, w) \<Rightarrow>
                 (case deliverToRelaySession response of
                    Inl e \<Rightarrow> ((False, Some (sd_message e)), se, w) | Inr _ \<Rightarrow> ((True, None), se, w))))"

text \<open>Clock readings and fresh ids of one socket message.\<close>
record message_env =
  me_now :: ms
  me_ackNow :: ms
  me_scheduleNow :: ms
  me_uid :: string
  me_sends :: "socket \<Rightarrow> bool"

definition session_touch :: "socket \<Rightarrow> ms \<Rightarrow> relay_session \<Rightarrow> relay_session" where
  "session_touch s nowMs se = se\<lparr>se_tracker := touchSocketAck s nowMs (se_tracker se)\<rparr>"

text \<open>\<open>ws.send(frame)\<close> outside any \<open>try\<close>: \<open>None\<close> when it throws and the handler ends.\<close>
definition send_or_throw :: "message_env \<Rightarrow> socket \<Rightarrow> ConnectorFrame \<Rightarrow> relay_session \<Rightarrow> relay_session option" where
  "send_or_throw v s frame se =
     (if me_sends v s then Some (se\<lparr>se_tracker := log_call (Sent s frame) (se_tracker se)\<rparr>) else None)"

text \<open>
  \<open>handleRelayWebSocketMessage\<close> on a message of \<open>bytes\<close> bytes that \<open>parseFrame\<close> reads as \<open>frame\<close> (\<open>None\<close>: it
  throws). The first component is False when the handler itself throws.
\<close>
definition handleRelayWebSocketMessage ::
  "(socket \<Rightarrow> EnqueueFrame \<Rightarrow> relay_session \<Rightarrow> 'w \<Rightarrow> (bool \<times> string option) \<times> relay_session \<times> 'w) \<Rightarrow>
   RelayDeliveryPolicy \<Rightarrow> message_env \<Rightarrow> socket \<Rightarrow> nat \<Rightarrow> ConnectorFrame option \<Rightarrow> relay_session \<Rightarrow> 'w \<Rightarrow> bool \<times> relay_session \<times> 'w" where
  "handleRelayWebSocketMessage onEnqueueFrame pol v ws bytes frame se w =
     (let done = (\<lambda>se w. (True, session_schedule (me_scheduleNow v) se, w)) in
      if bytes > maxFrameBytes pol then
        done (se\<lparr>se_tracker := closeSocket ws 1009 ''frame_too_large'' (se_tracker se)\<rparr>) w
      else case frame of None \<Rightarrow> done se w
      | Some (Heartbeat i _) \<Rightarrow>
          (let se = session_touch ws (me_now v) se in
           case send_or_throw v ws (toHeartbeatAckFrame (me_uid v) (me_ackNow v) i) se of
             None \<Rightarrow> (False, se, w) | Some se \<Rightarrow> done se w)
      | Some (DeliverAck ackId accepted) \<Rightarrow>
          (let se = session_touch ws (me_now v) se
           in done (se\<lparr>se_transport := resolveDeliverAck ackId accepted (se_transport se)\<rparr>) w)
      | Some (Enqueue f) \<Rightarrow>
          (let se = session_touch ws (me_now v) se;
               ((accepted, reason), se, w) = onEnqueueFrame ws f se w in
           case send_or_throw v ws (toEnqueueAckFrame (me_uid v) (me_ackNow v) (ef_id f) accepted reason) se of
             None \<Rightarrow> (False, se, w) | Some se \<Rightarrow> done se w)
      | Some (HeartbeatAck _ _ ackId) \<Rightarrow>
          done (se\<lparr>se_tracker := handleHeartbeatAck ackId ws (me_now v) (se_tracker se)\<rparr>) w
      | Some _ \<Rightarrow> done se w)"

definition handleRelayWebSocketClose :: "ms \<Rightarrow> socket option \<Rightarrow> nat option \<Rightarrow> bool option \<Rightarrow> relay_session \<Rightarrow> relay_session" where
  "handleRelayWebSocketClose scheduleNow ws code wasClean se =
     (let se = (case ws of None \<Rightarrow> se | Some s \<Rightarrow> se\<lparr>se_tracker := onSocketClosed s (se_tracker se)\<rparr>);
          gracefulClose = (code = Some 1000 \<and> (case wasClean of None \<Rightarrow> True | Some b \<Rightarrow> b));
          se = (if \<not> gracefulClose \<and> length (se_sockets se) = 0
                then se\<lparr>se_transport := rejectPending (se_transport se)\<rparr> else se)
      in session_schedule scheduleNow se)"

definition webSocketClose :: "ms \<Rightarrow> socket option \<Rightarrow> nat option \<Rightarrow> bool option \<Rightarrow> relay_session \<Rightarrow> relay_session" where
  "webSocketClose scheduleNow ws code wasClean se =
     handleRelayWebSocketClose scheduleNow ws code wasClean
       (case ws of None \<Rightarrow> se | Some s \<Rightarrow> forgetSocketAgentDid s se)"

definition webSocketError :: "ms \<Rightarrow> socket option \<Rightarrow> relay_session \<Rightarrow> relay_session" where
  "webSocketError scheduleNow ws se =
     handleRelayWebSocketClose scheduleNow ws (Some 1011) (Some False)
       (case ws of None \<Rightarrow> se | Some s \<Rightarrow> forgetSocketAgentDid s se)"

section \<open>The stored queue\<close>

lemma session_active_frame [simp]:
  "se_storage (snd (session_active now se)) = se_storage se"
  "se_transport (snd (session_active now se)) = se_transport se"
  by (simp_all add: session_active_def case_prod_beta)

lemma scheduleNextAlarm_queue [simp]: "rs_queue (se_storage (scheduleNextAlarm q now se)) = rs_queue (se_storage se)"
  by (simp add: scheduleNextAlarm_def scheduleNextRelayAlarm_def case_prod_beta Let_def)

lemma session_load_eq:
  "session_load now se = (fst (loadQueueState now (se_storage se)), se\<lparr>se_storage := snd (loadQueueState now (se_storage se))\<rparr>)"
  by (simp add: session_load_def case_prod_beta)

text \<open>Loading depends on the stored value only; the alarm is kept.\<close>
lemma loadQueueState_cong: "rs_queue st = rs_queue st' \<Longrightarrow> fst (loadQueueState now st) = fst (loadQueueState now st')"
  by (simp add: loadQueueState_def case_prod_beta Let_def)

lemma normalize_receipt_entry_stores:
  "normalize_receipt_entry acc kv = acc \<or> (\<exists>r. normalize_receipt_entry acc kv = AList.update (rc_requestId r) r acc)"
proof (cases "parse_state (js_get (snd kv) ''state'')")
  case (Some st)
  let ?v = "snd kv"
  let ?r = "\<lparr>rc_requestId = fst kv, rc_deliveryId = js_str (js_get ?v ''deliveryId''),
      rc_expiresAtMs = js_num (js_get ?v ''expiresAtMs''), rc_senderAgentDid = js_str (js_get ?v ''senderAgentDid''),
      rc_recipientAgentDid = js_str (js_get ?v ''recipientAgentDid''), rc_state = st,
      rc_reason = str_opt (js_get ?v ''reason''), rc_statusUpdatedAt = js_str (js_get ?v ''statusUpdatedAt'')\<rparr>"
  have "normalize_receipt_entry acc kv = acc \<or> normalize_receipt_entry acc kv = AList.update (rc_requestId ?r) ?r acc"
    using Some by (simp add: normalize_receipt_entry_def Let_def)
  then show ?thesis by blast
qed (simp add: normalize_receipt_entry_def Let_def)

lemma receipts_ok_normalize: "receipts_ok (normalizeReceipts v)"
proof -
  have "(\<forall>(k, r) \<in> set (foldl normalize_receipt_entry [] kvs). rc_requestId r = k) \<and>
      distinct (map fst (foldl normalize_receipt_entry [] kvs))" for kvs
    by (rule foldl_alist_invariant) (erule (1) alist_update_good, use normalize_receipt_entry_stores in blast, simp_all)
  then show ?thesis by (simp add: normalizeReceipts_def receipts_ok_def)
qed

lemma load_queue_ok: "queue_ok (fst (loadQueueState now st))"
  using prune_live [OF refl, of "\<lparr>qs_deliveries = ds, qs_receipts = normalizeReceipts v\<rparr>" now for ds v]
  by (auto simp: loadQueueState_def case_prod_beta Let_def queue_ok_def receipts_ok_normalize)

lemma load_save:
  assumes "queue_ok q"
  shows "fst (loadQueueState now (saveQueueState q st)) = fst (pruneExpiredQueueState q now)"
proof -
  have "raw_deliveries (rs_queue (saveQueueState q st)) = qs_deliveries q"
    "normalizeReceipts (js_get (rs_queue (saveQueueState q st)) ''receipts'') = qs_receipts q"
    using assms by (simp_all add: saveQueueState_def queue_ok_def normalizeReceipts_saved)
  then show ?thesis by (cases q) (simp add: loadQueueState_def case_prod_beta Let_def saveQueueState_def)
qed

lemma load_live:
  "(\<forall>d \<in> set (qs_deliveries (fst (loadQueueState now st))). now < qd_expiresAtMs d) \<and>
   (\<forall>(k, r) \<in> set (qs_receipts (fst (loadQueueState now st))). now < rc_expiresAtMs r)"
  using prune_live [OF refl, of "\<lparr>qs_deliveries = ds, qs_receipts = rs\<rparr>" now for ds rs]
  by (auto simp: loadQueueState_def case_prod_beta Let_def)

text \<open>The deliveries in storage that a load can see.\<close>
definition stored_count :: "relay_session \<Rightarrow> nat" where
  "stored_count se =
     length (raw_deliveries (if is_object (rs_queue (se_storage se)) then rs_queue (se_storage se) else JUndefined))"

lemma stored_count_cong: "rs_queue (se_storage se) = rs_queue (se_storage se') \<Longrightarrow> stored_count se = stored_count se'"
  by (simp add: stored_count_def)

lemma stored_count_frame [simp]:
  "stored_count (snd (session_active now se)) = stored_count se"
  "stored_count (scheduleNextAlarm q now se) = stored_count se"
  "stored_count (se\<lparr>se_tracker := t\<rparr>) = stored_count se" "stored_count (se\<lparr>se_transport := tr\<rparr>) = stored_count se"
  "stored_count (se\<lparr>se_sockets := ss\<rparr>) = stored_count se" "stored_count (se\<lparr>se_dids := ds\<rparr>) = stored_count se"
  "stored_count (se\<lparr>se_attachments := m\<rparr>) = stored_count se"
  by (rule stored_count_cong, simp)+

lemma stored_count_save [simp]: "stored_count (session_save q se) = length (qs_deliveries q)"
  by (simp add: stored_count_def session_save_def saveQueueState_def)

lemma session_load_count:
  assumes "session_load now se = (q, se')"
  shows "length (qs_deliveries q) \<le> stored_count se \<and> stored_count se' \<le> stored_count se"
proof -
  let ?raw = "if is_object (rs_queue (se_storage se)) then rs_queue (se_storage se) else JUndefined"
  let ?q = "\<lparr>qs_deliveries = raw_deliveries ?raw, qs_receipts = normalizeReceipts (js_get ?raw ''receipts'')\<rparr>"
  have q: "q = fst (pruneExpiredQueueState ?q now)" and
    se': "se' = (if snd (pruneExpiredQueueState ?q now) then session_save q se else se)"
    using assms by (auto simp: session_load_def session_save_def loadQueueState_def case_prod_beta Let_def)
  have "length (qs_deliveries q) \<le> length (qs_deliveries ?q)" using prune_live [OF q [symmetric]] by simp
  then have "length (qs_deliveries q) \<le> stored_count se" by (simp add: stored_count_def)
  then show ?thesis by (simp add: se')
qed

lemmas session_load_le [simp] =
  session_load_count [OF prod.collapse [symmetric], THEN conjunct1] session_load_count [OF prod.collapse [symmetric], THEN conjunct2]

section \<open>Interleavings: the queue bound\<close>

text \<open>Work that has loaded the queue and waits for the connector.\<close>
datatype pending_work =
    WaitingDelivery ms deliver_env RelayDeliveryInput deliver_wait
  | WaitingPass ms "RelayQueueState \<times> bool"

text \<open>Every event of a session, with other events between the two halves of a delivery or of a pass.\<close>
inductive relay_step :: "RelayDeliveryPolicy \<Rightarrow> relay_session \<times> pending_work list \<Rightarrow> relay_session \<times> pending_work list \<Rightarrow> bool"
  for pol :: RelayDeliveryPolicy where
  answered: "deliver_begin pol now env i se = (Inl r, se') \<Longrightarrow> relay_step pol (se, W) (se', W)"
| waiting: "deliver_begin pol now env i se = (Inr w, se') \<Longrightarrow> relay_step pol (se, W) (se', WaitingDelivery now env i w # W)"
| finished: "WaitingDelivery now env i w \<in> set W \<Longrightarrow>
    relay_step pol (se, W) (snd (deliver_finish pol now env i out w se), remove1 (WaitingDelivery now env i w) W)"
| recorded: "relay_step pol (se, W) (recordDeliveryReceipt pol sends fid uid now ri se, W)"
| looked_up: "relay_step pol (se, W) (snd (getDeliveryReceipt now rl se), W)"
| alarm: "alarm_begin pol sends uids now qenv se = (r, se') \<Longrightarrow> relay_step pol (se, W) (se', WaitingPass now r # W)"
| drain: "drain_begin pol now qenv se = (r, se') \<Longrightarrow> relay_step pol (se, W) (se', WaitingPass now r # W)"
| passed: "WaitingPass now r \<in> set W \<Longrightarrow> relay_step pol (se, W) (queue_finish now r se, remove1 (WaitingPass now r) W)"
| drain_receipts: "relay_step pol (se, W) (drainReceiptFramesOnReconnect sends uids now se, W)"
| connected: "relay_step pol (se, W) (snd (handleConnect now server up did se), W)"
| message: "handleRelayWebSocketMessage
      (handleEnqueueFrame stub (allowed :: (string \<Rightarrow> string \<Rightarrow> (app_error, bool) result) option) auth) pol v ws bytes frame se () = (ok, se', ()) \<Longrightarrow>
    relay_step pol (se, W) (se', W)"
| closed: "relay_step pol (se, W) (webSocketClose now ws code clean se, W)"
| failed: "relay_step pol (se, W) (webSocketError now ws se, W)"
| dropped: "relay_step pol (se, W) (se\<lparr>se_sockets := filter (\<lambda>s. s \<noteq> ws) (se_sockets se)\<rparr>, W)"

fun work_count :: "pending_work \<Rightarrow> nat" where
  "work_count (WaitingDelivery _ _ _ w) = length (qs_deliveries (dw_queue w))"
| "work_count (WaitingPass _ r) = length (qs_deliveries (fst r))"

definition bounded :: "nat \<Rightarrow> relay_session \<times> pending_work list \<Rightarrow> bool" where
  "bounded m c \<longleftrightarrow> stored_count (fst c) \<le> m \<and> (\<forall>x \<in> set (snd c). work_count x \<le> m)"

lemma deliver_begin_count:
  assumes "deliver_begin pol now env i se = (x, se')"
  shows "stored_count se' \<le> stored_count se \<and> (\<forall>w. x = Inr w \<longrightarrow> length (qs_deliveries (dw_queue w)) \<le> stored_count se)"
proof -
  obtain q se1 where l: "session_load now se = (q, se1)" by fastforce
  note count = session_load_count [OF l]
  have "stored_count se' = stored_count se1 \<and> (\<forall>w. x = Inr w \<longrightarrow> dw_queue w = q)"
    using assms by (auto simp: deliver_begin_def l Let_def case_prod_beta split: option.splits if_splits)
  then show ?thesis using count by auto
qed

lemma deliver_finish_count:
  "length (qs_deliveries (dw_queue w)) \<le> queueMaxMessagesPerAgent pol \<Longrightarrow>
   stored_count (snd (deliver_finish pol now env i out w se)) \<le> max (stored_count se) (queueMaxMessagesPerAgent pol)"
  by (auto simp: deliver_finish_def Let_def)

lemma session_process_count:
  "stored_count (snd (session_process pol now env q se)) = stored_count se"
  "length (qs_deliveries (fst (fst (session_process pol now env q se)))) \<le> length (qs_deliveries q)"
  using processQueueDeliveries_length [of pol now _ env q] by (auto simp: session_process_def case_prod_beta)

lemma pass_begin_count:
  "stored_count (snd (alarm_begin pol sends uids now qenv se)) \<le> stored_count se"
  "length (qs_deliveries (fst (fst (alarm_begin pol sends uids now qenv se)))) \<le> stored_count se"
  "stored_count (snd (drain_begin pol now qenv se)) \<le> stored_count se"
  "length (qs_deliveries (fst (fst (drain_begin pol now qenv se)))) \<le> stored_count se"
  by (auto simp: alarm_begin_def drain_begin_def session_process_count advance_all_def Let_def case_prod_beta
      intro!: order_trans [OF session_process_count(2)] order_trans [OF session_load_le(1)] order_trans [OF session_load_le(2)])

lemma session_schedule_count: "stored_count se \<le> n \<Longrightarrow> stored_count (session_schedule now se) \<le> n"
  using order_trans [OF session_load_le(2)] by (simp add: session_schedule_def case_prod_beta)

lemma push_receipt_count [simp]: "stored_count (pushReceiptFrameToActiveSockets sends uid now f r s t se) = stored_count se"
  by (simp add: pushReceiptFrameToActiveSockets_def case_prod_beta Let_def)

lemma recordDeliveryReceipt_count: "stored_count (recordDeliveryReceipt pol sends fid uid now ri se) \<le> stored_count se"
  by (simp add: recordDeliveryReceipt_def Let_def case_prod_beta)

lemma drain_receipts_count [simp]: "stored_count (drain_receipts sends uid now i rs se) = stored_count se"
  by (induction sends uid now i rs se rule: drain_receipts.induct) (simp_all split: option.splits)

lemma reader_counts:
  "stored_count (snd (getDeliveryReceipt now rl se)) \<le> stored_count se"
  "stored_count (drainReceiptFramesOnReconnect sends uid now se) \<le> stored_count se"
  by (auto simp: getDeliveryReceipt_def drainReceiptFramesOnReconnect_def Let_def case_prod_beta split: option.splits
      intro: order_trans [OF session_load_le(2)])

lemma connect_count: "stored_count (snd (handleConnect now server up did se)) = stored_count se"
  by (auto simp: handleConnect_def rememberSocketAgentDid_def Let_def case_prod_beta intro: stored_count_cong)

lemma enqueue_count: "stored_count (fst (snd (handleEnqueueFrame stub allowed auth ws f se w))) = stored_count se"
  by (auto simp: handleEnqueueFrame_def readSocketAgentDid_def Let_def case_prod_beta split: option.splits sum.splits)

lemma message_count:
  "stored_count (fst (snd (handleRelayWebSocketMessage (handleEnqueueFrame stub allowed auth) pol v ws bytes frame se w))) \<le> stored_count se"
  by (cases frame; cases "the frame")
    (simp_all add: handleRelayWebSocketMessage_def send_or_throw_def session_touch_def Let_def case_prod_beta
      session_schedule_count enqueue_count)

lemma close_count:
  "stored_count (webSocketClose now ws code clean se) \<le> stored_count se" "stored_count (webSocketError now ws se) \<le> stored_count se"
  by (cases ws; simp add: webSocketClose_def webSocketError_def handleRelayWebSocketClose_def forgetSocketAgentDid_def
      Let_def session_schedule_count)+

lemma queue_finish_count:
  "stored_count (queue_finish now r se) \<le> max (stored_count se) (length (qs_deliveries (fst r)))"
  by (simp add: queue_finish_def case_prod_beta)

lemma bounded_step:
  assumes "relay_step pol c c'" and "bounded (queueMaxMessagesPerAgent pol) c"
  shows "bounded (queueMaxMessagesPerAgent pol) c'"
  using assms
proof (induction rule: relay_step.induct)
  case (answered now env i se r se' W)
  then show ?case using deliver_begin_count [OF answered(1)] by (simp add: bounded_def)
next
  case (waiting now env i se w se' W)
  then show ?case using deliver_begin_count [OF waiting(1)] by (simp add: bounded_def)
next
  case (finished now env i w W se out)
  then have "length (qs_deliveries (dw_queue w)) \<le> queueMaxMessagesPerAgent pol" "stored_count se \<le> queueMaxMessagesPerAgent pol"
    by (auto simp: bounded_def dest: bspec)
  then show ?case using deliver_finish_count [of w pol now env i out se] finished(2) set_remove1_subset by (fastforce simp: bounded_def)
next
  case (alarm sends uids now qenv se r se' W)
  then show ?case using pass_begin_count(1,2) [of pol sends uids now qenv se] by (simp add: bounded_def)
next
  case (drain now qenv se r se' W)
  then show ?case using pass_begin_count(3,4) [of pol now qenv se] by (simp add: bounded_def)
next
  case (passed now r W se)
  then have "length (qs_deliveries (fst r)) \<le> queueMaxMessagesPerAgent pol" "stored_count se \<le> queueMaxMessagesPerAgent pol"
    by (auto simp: bounded_def dest: bspec)
  then show ?case using queue_finish_count [of now r se] passed(2) set_remove1_subset by (fastforce simp: bounded_def)
next
  case (message stub allowed auth v ws bytes frame se ok se' W)
  then show ?case using message_count [of stub allowed auth pol v ws bytes frame se "()"] by (simp add: bounded_def)
qed (auto simp: bounded_def connect_count intro: order_trans [OF recordDeliveryReceipt_count] order_trans [OF reader_counts(1)]
    order_trans [OF reader_counts(2)] order_trans [OF close_count(1)] order_trans [OF close_count(2)])

text \<open>
  (C37) Whatever deliveries, receipts, alarms, reconnects, socket messages and failures happen, and
  however they interleave while deliveries wait for the connector, the stored queue never holds
  more deliveries than the configured maximum.
\<close>
theorem relay_queue_never_exceeds_maximum:
  assumes "(relay_step pol)\<^sup>*\<^sup>* (se, []) (se', W)" and "stored_count se \<le> queueMaxMessagesPerAgent pol"
  shows "stored_count se' \<le> queueMaxMessagesPerAgent pol"
proof -
  have "bounded (queueMaxMessagesPerAgent pol) (se', W)"
    using assms(1)
  proof (induction rule: rtranclp_induct)
    case base then show ?case using assms(2) by (simp add: bounded_def)
  next
    case (step y z) then show ?case by (metis bounded_step)
  qed
  then show ?thesis by (simp add: bounded_def)
qed

definition demo_session :: relay_session where
  "demo_session = \<lparr>se_storage = demo_relay_storage, se_tracker = demo_tracker\<lparr>socketLastAckAtMs := []\<rparr>, se_transport = empty_transport,
     se_sockets = [1], se_dids = [], se_attachments = []\<rparr>"

definition demo_deliver_env :: "string \<Rightarrow> deliver_env" where
  "demo_deliver_env k = \<lparr>de_deliveryId = ''d'' @ k, de_frameId = ''f'' @ k, de_frameClock = 0, de_sends = (\<lambda>_. True),
     de_bytes = (\<lambda>_. Some 10), de_random = 0\<rparr>"

lemma demo_session_stored [simp]: "stored_count demo_session = 0"
  by (simp add: stored_count_def demo_session_def demo_relay_storage_def raw_deliveries_def)

definition demo_record :: RelayReceiptRecordInput where
  "demo_record = \<lparr>ri_requestId = ''q'', ri_senderAgentDid = ''s'', ri_recipientAgentDid = ''r'',
     ri_status = receipt_dead_lettered, ri_reason = None\<rparr>"

theorem relay_queue_never_exceeds_maximum_witness:
  "stored_count (recordDeliveryReceipt demo_policy (\<lambda>_. True) ''x'' ''y'' 0 demo_record demo_session) \<le> 2"
proof -
  have "(relay_step demo_policy)\<^sup>*\<^sup>* (demo_session, [])
      (recordDeliveryReceipt demo_policy (\<lambda>_. True) ''x'' ''y'' 0 demo_record demo_session, [])"
    by (rule r_into_rtranclp) (rule relay_step.recorded)
  from relay_queue_never_exceeds_maximum [OF this] show ?thesis by (simp add: demo_policy_def)
qed

section \<open>Receipts and redelivery\<close>

text \<open>The receipt of a request id, as every operation of the session sees it.\<close>
definition receipt_view :: "ms \<Rightarrow> relay_session \<Rightarrow> string \<Rightarrow> RelayDeliveryReceipt option" where
  "receipt_view now se k = map_of (qs_receipts (fst (session_load now se))) k"

lemma prune_all_live:
  assumes "\<forall>d \<in> set (qs_deliveries q). now < qd_expiresAtMs d" and "\<forall>(k, r) \<in> set (qs_receipts q). now < rc_expiresAtMs r"
  shows "fst (pruneExpiredQueueState q now) = q"
proof (rule prune_unchanged)
  have no: "\<not> snd (snd (prune_deliveries now (qs_deliveries q) (qs_receipts q)))"
    using assms(1) by (auto simp: prune_deliveries_spec)
  show "\<not> snd (pruneExpiredQueueState q now)"
    using assms no prune_deliveries_receipts(1) [OF no]
    by (auto simp: pruneExpiredQueueState_def prune_deliveries_spec case_prod_beta not_le intro!: filter_True)
qed

lemma prune_deliveries_keeps:
  "map_of rs k = Some r \<Longrightarrow> \<forall>d \<in> set ds. qd_expiresAtMs d \<le> now \<longrightarrow> qd_deliveryId d \<noteq> rc_deliveryId r \<Longrightarrow>
   map_of (fst (snd (prune_deliveries now ds rs))) k = Some r"
proof (induction now ds rs rule: prune_deliveries.induct)
  case (2 now d ds rs)
  have "map_of (deleteQueuedReceipt (qd_requestId d) (qd_deliveryId d) rs) k = Some r" if "qd_expiresAtMs d \<le> now"
    using 2(3,4) that by (cases "k = qd_requestId d") (auto simp: deleteQueuedReceipt_def delete_conv' split: option.splits)
  then show ?case using 2 by (simp add: case_prod_beta)
qed simp

lemma prune_keeps:
  assumes "queue_ok q" and "map_of (qs_receipts q) k = Some r" and "now < rc_expiresAtMs r"
    and "\<forall>d \<in> set (qs_deliveries q). qd_expiresAtMs d \<le> now \<longrightarrow> qd_deliveryId d \<noteq> rc_deliveryId r"
  shows "map_of (qs_receipts (fst (pruneExpiredQueueState q now))) k = Some r"
proof -
  have "distinct (map fst (fst (snd (prune_deliveries now (qs_deliveries q) (qs_receipts q)))))"
    using prune_deliveries_receipts(2) assms(1) by (simp add: queue_ok_def receipts_ok_def)
  then show ?thesis using prune_deliveries_keeps [OF assms(2,4)] assms(3)
    by (simp add: pruneExpiredQueueState_def case_prod_beta map_of_alist_prune)
qed

lemma deleteQueuedReceipt_None: "map_of rs k = None \<Longrightarrow> map_of (deleteQueuedReceipt i j rs) k = None"
  by (auto simp: deleteQueuedReceipt_def delete_conv' split: option.splits)

lemma prune_no_receipt:
  assumes "map_of (qs_receipts q) k = None"
  shows "map_of (qs_receipts (fst (pruneExpiredQueueState q now))) k = None"
proof -
  have "map_of (fst (snd (prune_deliveries now ds rs))) k = None" if "map_of rs k = None" for ds rs
    using that by (induction now ds rs rule: prune_deliveries.induct) (simp_all add: case_prod_beta deleteQueuedReceipt_None)
  then have "map_of (fst (snd (prune_deliveries now (qs_deliveries q) (qs_receipts q)))) k = None" using assms by blast
  then show ?thesis by (auto simp: pruneExpiredQueueState_def case_prod_beta map_of_eq_None_iff set_alist_prune)
qed

lemma begin_wait_queue:
  assumes "deliver_begin pol now env i se = (Inr w, se')"
  shows "dw_queue w = fst (session_load now se)"
  using assms by (auto simp: deliver_begin_def Let_def case_prod_beta split: option.splits if_splits)

lemma session_view_saved:
  assumes "queue_ok q"
  shows "fst (session_load now (scheduleNextAlarm q' now' (session_save q se))) = fst (pruneExpiredQueueState q now)"
proof -
  have "fst (session_load now (scheduleNextAlarm q' now' (session_save q se))) = fst (loadQueueState now (saveQueueState q (se_storage se)))"
    unfolding session_load_eq fst_conv by (rule loadQueueState_cong) (simp add: session_save_def)
  then show ?thesis using load_save [OF assms] by simp
qed

text \<open>What a delivery that returned has stored.\<close>
lemma deliver_finish_stores:
  assumes "deliver_begin pol now env i se = (Inr w, se0)" and "deliver_finish pol now env i out w seM = (Inr r, se1)"
  obtains q where "queue_ok q" "map_of (qs_receipts q) (in_requestId i) = Some (new_receipt pol now (de_deliveryId env) i (dr_state r))"
    "\<forall>t. fst (session_load t se1) = fst (pruneExpiredQueueState q t)"
    "set (qs_deliveries q) \<subseteq> insert (queuedDelivery pol now env i (if dw_attempt w = NotTried then 0 else 1)) (set (qs_deliveries (dw_queue w)))"
    "\<forall>k. k \<noteq> in_requestId i \<longrightarrow> map_of (qs_receipts q) k = map_of (qs_receipts (dw_queue w)) k"
    "dr_deliveryId r = de_deliveryId env"
    "dr_state r = state_delivered \<and> qs_deliveries q = qs_deliveries (dw_queue w) \<or>
     dr_state r = state_queued \<and> qs_deliveries q = qs_deliveries (dw_queue w) @ [queuedDelivery pol now env i (if dw_attempt w = NotTried then 0 else 1)]"
proof -
  let ?d = "queuedDelivery pol now env i (if dw_attempt w = NotTried then 0 else 1)"
  let ?rs = "\<lambda>st. upsertReceipt (new_receipt pol now (de_deliveryId env) i st) (qs_receipts (dw_queue w))"
  let ?q1 = "(dw_queue w)\<lparr>qs_receipts := ?rs state_delivered\<rparr>"
  let ?q2 = "\<lparr>qs_deliveries = qs_deliveries (dw_queue w) @ [?d], qs_receipts = ?rs state_queued\<rparr>"
  have "queue_ok (dw_queue w)" using begin_wait_queue [OF assms(1)] load_queue_ok by (simp add: session_load_eq)
  then have ok: "queue_ok ?q1" "queue_ok ?q2" by (simp_all add: queue_ok_def receipts_ok_upsert)
  have rs: "map_of (?rs st) k = (if k = in_requestId i then Some (new_receipt pol now (de_deliveryId env) i st)
      else map_of (qs_receipts (dw_queue w)) k)" for st k by (simp add: map_of_upsertReceipt new_receipt_def)
  consider "se1 = scheduleNextAlarm ?q1 now (session_save ?q1 seM)" "dr_state r = state_delivered" "dr_deliveryId r = de_deliveryId env"
    | "se1 = scheduleNextAlarm ?q2 now (session_save ?q2 seM)" "dr_state r = state_queued" "dr_deliveryId r = de_deliveryId env"
    using assms(2) by (auto simp: deliver_finish_def toRelayDeliveryResult_def Let_def split: if_splits attempt.splits)
  then show thesis
  proof cases
    case 1 then show thesis using that [of ?q1] ok(1) rs session_view_saved [OF ok(1)] by auto
  next
    case 2 then show thesis using that [of ?q2] ok(2) rs session_view_saved [OF ok(2)] by auto
  qed
qed

lemma begin_answered:
  assumes "receipt_view now se (in_requestId i) = Some c" and "now < rc_expiresAtMs c"
    and "rc_senderAgentDid c = in_senderAgentDid i" and "rc_recipientAgentDid c = in_recipientAgentDid i"
  shows "\<exists>r. deliver_begin pol now env i se = (Inl r, snd (session_active now (snd (session_load now se)))) \<and>
         dr_deliveryId r = rc_deliveryId c \<and> dr_state r = rc_state c"
  using assms by (auto simp: deliver_begin_def receipt_view_def toRelayDeliveryResult_def Let_def case_prod_beta)

lemma begin_waits:
  assumes "receipt_view now se (in_requestId i) = None"
  obtains w se' where "deliver_begin pol now env i se = (Inr w, se')"
proof -
  have "\<exists>w se'. deliver_begin pol now env i se = (Inr w, se')"
    using assms by (simp add: deliver_begin_def receipt_view_def Let_def case_prod_beta)
  then show thesis using that by blast
qed

lemma load_again: "fst (session_load now (snd (session_active now' (snd (session_load now se))))) = fst (session_load now se)"
proof -
  let ?q = "fst (loadQueueState now (se_storage se))"
  have "fst (loadQueueState now (snd (loadQueueState now (se_storage se)))) = ?q"
  proof (cases "snd (loadQueueState now (se_storage se)) = se_storage se")
    case False
    then have "snd (loadQueueState now (se_storage se)) = saveQueueState ?q (se_storage se)"
      by (auto simp: loadQueueState_def Let_def case_prod_beta split: if_splits)
    then show ?thesis using load_save [OF load_queue_ok] prune_all_live load_live [of now "se_storage se"] by simp
  qed simp
  then show ?thesis by (simp add: session_load_eq)
qed


lemma deliver_finish_queues:
  assumes "out \<noteq> SendAccepted" and "1 < retryMaxAttempts pol" and "length (qs_deliveries (dw_queue w)) < queueMaxMessagesPerAgent pol"
  shows "fst (deliver_finish pol now env i out w se) =
     Inr (toRelayDeliveryResult (dw_sockets w) (de_deliveryId env) (Suc (length (qs_deliveries (dw_queue w)))) state_queued)"
  using assms by (simp add: deliver_finish_def Let_def split: attempt.splits)

lemma demo_begin:
  "\<exists>w se0. deliver_begin demo_policy 0 (demo_deliver_env k) (demo_input k) demo_session = (Inr w, se0) \<and>
     dw_attempt w = AwaitingAck (''f'' @ k) \<and> dw_queue w = \<lparr>qs_deliveries = [], qs_receipts = []\<rparr>"
  by (simp add: deliver_begin_def session_load_def loadQueueState_def demo_session_def demo_relay_storage_def raw_deliveries_def
      normalizeReceipts_def pruneExpiredQueueState_def alist_prune_def session_active_def getActiveSockets_def
      pruneSocketTracking_def demo_tracker_def resolveSocketLastAckAtMs_def RELAY_HEARTBEAT_ACK_TIMEOUT_MS_def
      sendDeliverFrame_def getPendingCount_def empty_transport_def demo_policy_def demo_deliver_env_def demo_input_def toDeliverFrame_def
      Let_def)


section \<open>Where information is lost\<close>

text \<open>
  (C40) A delivery that is queued while another delivery waits for the connector can be lost: if the
  other one is then accepted, it stores the queue it had loaded before, and the delivery that was
  answered as queued is in the queue no more, nor is its receipt.
\<close>
theorem queued_delivery_lost_by_overlap:
  assumes "deliver_begin pol now env i se = (Inr w, se0)" and "dw_attempt w = AwaitingAck f"
    and "deliver_begin pol nowB envB iB se0 = (Inr wB, seB0)"
    and "deliver_finish pol nowB envB iB outB wB seB0 = (Inr rB, seB)" and "dr_queued rB"
    and "deliver_finish pol now env i SendAccepted w seB = (Inr r, se1)"
    and "de_deliveryId envB \<notin> qd_deliveryId ` set (qs_deliveries (dw_queue w))"
    and "in_requestId iB \<noteq> in_requestId i" and "map_of (qs_receipts (dw_queue w)) (in_requestId iB) = None"
  shows "(\<forall>d \<in> set (qs_deliveries (fst (session_load t se1))). qd_deliveryId d \<noteq> dr_deliveryId rB) \<and>
         receipt_view t se1 (in_requestId iB) = None"
proof -
  obtain q where ok: "queue_ok q"
    and rs: "map_of (qs_receipts q) (in_requestId i) = Some (new_receipt pol now (de_deliveryId env) i (dr_state r))"
    and v: "\<forall>t. fst (session_load t se1) = fst (pruneExpiredQueueState q t)"
    and sub: "set (qs_deliveries q) \<subseteq> insert (queuedDelivery pol now env i (if dw_attempt w = NotTried then 0 else 1)) (set (qs_deliveries (dw_queue w)))"
    and other: "\<forall>k. k \<noteq> in_requestId i \<longrightarrow> map_of (qs_receipts q) k = map_of (qs_receipts (dw_queue w)) k"
    and id: "dr_deliveryId r = de_deliveryId env"
    and ds: "dr_state r = state_delivered \<and> qs_deliveries q = qs_deliveries (dw_queue w) \<or>
      dr_state r = state_queued \<and> qs_deliveries q = qs_deliveries (dw_queue w) @ [queuedDelivery pol now env i (if dw_attempt w = NotTried then 0 else 1)]"
    by (rule deliver_finish_stores [OF assms(1,6)])
  have "dr_state r = state_delivered" using assms(2,6) by (auto simp: deliver_finish_def toRelayDeliveryResult_def Let_def)
  moreover have "dr_deliveryId rB = de_deliveryId envB" by (rule deliver_finish_stores [OF assms(3,4)])
  ultimately have "\<forall>d \<in> set (qs_deliveries (fst (session_load t se1))). qd_deliveryId d \<noteq> dr_deliveryId rB"
    using ds prune_live [OF v [rule_format, symmetric], of t] assms(7) by (auto simp: image_iff)
  moreover have "map_of (qs_receipts (fst (pruneExpiredQueueState q t))) (in_requestId iB) = None"
    using prune_no_receipt [of q "in_requestId iB" t] other assms(8,9) by simp
  ultimately show ?thesis by (simp add: receipt_view_def v)
qed

lemma demo_overlap:
  obtains w se0 wB seB0 rB seB r se1 where
    "deliver_begin demo_policy 0 (demo_deliver_env ''a'') (demo_input ''a'') demo_session = (Inr w, se0)"
    "dw_attempt w = AwaitingAck ''fa''" "dw_queue w = \<lparr>qs_deliveries = [], qs_receipts = []\<rparr>"
    "deliver_begin demo_policy 1 (demo_deliver_env ''b'') (demo_input ''b'') se0 = (Inr wB, seB0)"
    "deliver_finish demo_policy 1 (demo_deliver_env ''b'') (demo_input ''b'') SendFailed wB seB0 = (Inr rB, seB)"
    "dr_queued rB" "dr_deliveryId rB = ''db''"
    "deliver_finish demo_policy 0 (demo_deliver_env ''a'') (demo_input ''a'') SendAccepted w seB = (Inr r, se1)"
proof -
  obtain w se0 where b: "deliver_begin demo_policy 0 (demo_deliver_env ''a'') (demo_input ''a'') demo_session = (Inr w, se0)"
    "dw_attempt w = AwaitingAck ''fa''" "dw_queue w = \<lparr>qs_deliveries = [], qs_receipts = []\<rparr>" using demo_begin [of "''a''"] by auto
  have st: "se_storage se0 = demo_relay_storage"
    using b(1) by (auto simp: deliver_begin_def session_load_def loadQueueState_def demo_session_def demo_relay_storage_def raw_deliveries_def
        normalizeReceipts_def pruneExpiredQueueState_def alist_prune_def Let_def case_prod_beta split: if_splits)
  have q0: "fst (session_load 1 se0) = \<lparr>qs_deliveries = [], qs_receipts = []\<rparr>"
    unfolding session_load_eq st by (simp add: loadQueueState_def demo_relay_storage_def raw_deliveries_def
        normalizeReceipts_def pruneExpiredQueueState_def alist_prune_def Let_def)
  obtain wB seB0 where w: "deliver_begin demo_policy 1 (demo_deliver_env ''b'') (demo_input ''b'') se0 = (Inr wB, seB0)"
    "dw_queue wB = \<lparr>qs_deliveries = [], qs_receipts = []\<rparr>"
    using begin_waits [of 1 se0 "demo_input ''b''" demo_policy "demo_deliver_env ''b''"] begin_wait_queue q0
    by (metis map_of.simps(1) receipt_view_def RelayQueueState.select_convs(2))
  obtain rB seB where f: "deliver_finish demo_policy 1 (demo_deliver_env ''b'') (demo_input ''b'') SendFailed wB seB0 = (Inr rB, seB)"
    "dr_queued rB" "dr_deliveryId rB = ''db''"
    using deliver_finish_queues [of SendFailed demo_policy wB 1 "demo_deliver_env ''b''" "demo_input ''b''" seB0] w(2)
    by (cases "deliver_finish demo_policy 1 (demo_deliver_env ''b'') (demo_input ''b'') SendFailed wB seB0")
      (simp add: demo_policy_def demo_deliver_env_def toRelayDeliveryResult_def)
  obtain r se1 where "deliver_finish demo_policy 0 (demo_deliver_env ''a'') (demo_input ''a'') SendAccepted w seB = (Inr r, se1)"
    using b(2) by (simp add: deliver_finish_def Let_def)
  with b w(1) f show thesis using that by blast
qed

theorem queued_delivery_lost_by_overlap_witness:
  "\<exists>wB se0 seB0 rB seB w r se1. deliver_begin demo_policy 0 (demo_deliver_env ''a'') (demo_input ''a'') demo_session = (Inr w, se0) \<and>
     deliver_begin demo_policy 1 (demo_deliver_env ''b'') (demo_input ''b'') se0 = (Inr wB, seB0) \<and>
     deliver_finish demo_policy 1 (demo_deliver_env ''b'') (demo_input ''b'') SendFailed wB seB0 = (Inr rB, seB) \<and> dr_queued rB \<and>
     deliver_finish demo_policy 0 (demo_deliver_env ''a'') (demo_input ''a'') SendAccepted w seB = (Inr r, se1) \<and>
     receipt_view 2 se1 ''b'' = None"
proof -
  obtain w se0 wB seB0 rB seB r se1 where o:
    "deliver_begin demo_policy 0 (demo_deliver_env ''a'') (demo_input ''a'') demo_session = (Inr w, se0)"
    "dw_attempt w = AwaitingAck ''fa''" "dw_queue w = \<lparr>qs_deliveries = [], qs_receipts = []\<rparr>"
    "deliver_begin demo_policy 1 (demo_deliver_env ''b'') (demo_input ''b'') se0 = (Inr wB, seB0)"
    "deliver_finish demo_policy 1 (demo_deliver_env ''b'') (demo_input ''b'') SendFailed wB seB0 = (Inr rB, seB)"
    "dr_queued rB" "dr_deliveryId rB = ''db''"
    "deliver_finish demo_policy 0 (demo_deliver_env ''a'') (demo_input ''a'') SendAccepted w seB = (Inr r, se1)"
    by (rule demo_overlap)
  show ?thesis using queued_delivery_lost_by_overlap [OF o(1,2,4,5,6,8), of 2] o by (auto simp: demo_input_def)
qed

text \<open>The queue right after a delivery has returned.\<close>
lemma after_delivery:
  assumes "deliver_begin pol now env i se = (Inr w, se0)" and "deliver_finish pol now env i out w seM = (Inr r, se1)"
    and "0 < queueTtlMs pol"
  shows "receipt_view now se1 k =
           (if k = in_requestId i then Some (new_receipt pol now (de_deliveryId env) i (dr_state r)) else receipt_view now se k)"
    and "dr_state r = state_queued \<Longrightarrow>
           queuedDelivery pol now env i (if dw_attempt w = NotTried then 0 else 1) \<in> set (qs_deliveries (fst (session_load now se1)))"
proof -
  let ?d = "queuedDelivery pol now env i (if dw_attempt w = NotTried then 0 else 1)"
  let ?c = "new_receipt pol now (de_deliveryId env) i (dr_state r)"
  obtain q where ok: "queue_ok q" and rs: "map_of (qs_receipts q) (in_requestId i) = Some ?c"
    and v: "\<forall>t. fst (session_load t se1) = fst (pruneExpiredQueueState q t)"
    and ds: "set (qs_deliveries q) \<subseteq> insert ?d (set (qs_deliveries (dw_queue w)))"
    and other: "\<forall>k. k \<noteq> in_requestId i \<longrightarrow> map_of (qs_receipts q) k = map_of (qs_receipts (dw_queue w)) k"
    and id: "dr_deliveryId r = de_deliveryId env"
    and st: "dr_state r = state_delivered \<and> qs_deliveries q = qs_deliveries (dw_queue w) \<or>
      dr_state r = state_queued \<and> qs_deliveries q = qs_deliveries (dw_queue w) @ [?d]"
    by (rule deliver_finish_stores [OF assms(1,2)])
  note w = begin_wait_queue [OF assms(1)]
  have live: "\<forall>d \<in> set (qs_deliveries (dw_queue w)). now < qd_expiresAtMs d"
    "(k, c) \<in> set (qs_receipts (dw_queue w)) \<Longrightarrow> now < rc_expiresAtMs c" for k c
    using load_live [of now "se_storage se"] by (auto simp: w session_load_eq)
  have "now < qd_expiresAtMs d" if "d \<in> set (qs_deliveries q)" for d
    using subsetD [OF ds that] live(1) assms(3) by (auto simp: queuedDelivery_def)
  then have 1: "\<forall>d \<in> set (qs_deliveries q). now < qd_expiresAtMs d" by blast
  have "now < rc_expiresAtMs c" if "(k, c) \<in> set (qs_receipts q)" for k c
  proof -
    have m: "map_of (qs_receipts q) k = Some c" using that ok by (simp add: queue_ok_def receipts_ok_def)
    show ?thesis
    proof (cases "k = in_requestId i")
      case True then show ?thesis using m rs assms(3) by (auto simp: new_receipt_def)
    next
      case False then show ?thesis using m other live(2) map_of_SomeD by metis
    qed
  qed
  then have q: "fst (session_load now se1) = q" using prune_all_live [OF 1] v by auto
  show "receipt_view now se1 k = (if k = in_requestId i then Some ?c else receipt_view now se k)"
    using rs other by (simp add: receipt_view_def q w)
  show "dr_state r = state_queued \<Longrightarrow> ?d \<in> set (qs_deliveries (fst (session_load now se1)))" using st by (auto simp: q)
qed

lemma getDeliveryReceipt_iff:
  "fst (getDeliveryReceipt now rl se) = Some c \<longleftrightarrow>
     receipt_view now se (rl_requestId rl) = Some c \<and> rc_senderAgentDid c = rl_senderAgentDid rl"
  by (auto simp: getDeliveryReceipt_def receipt_view_def case_prod_beta split: option.splits)

text \<open>
  A delivery that is put in the queue loses its group: whatever group the request named, the
  queued delivery, and so every later frame made from it, names none; the other fields are kept.
\<close>
theorem queued_delivery_loses_group:
  assumes "deliver_begin pol now env i se = (Inr w, se0)" and "deliver_finish pol now env i out w seM = (Inr r, se1)"
    and "dr_state r = state_queued" and "0 < queueTtlMs pol"
  shows "\<exists>d \<in> set (qs_deliveries (fst (session_load now se1))). qd_requestId d = in_requestId i \<and>
           qd_senderAgentDid d = in_senderAgentDid i \<and> qd_recipientAgentDid d = in_recipientAgentDid i \<and>
           qd_payload d = in_payload i \<and> qd_conversationId d = in_conversationId i \<and> qd_replyTo d = in_replyTo i \<and>
           qd_groupId d = None"
  using after_delivery(2) [OF assms(1,2,4,3)] by (auto simp: queuedDelivery_def intro!: bexI)

theorem queued_delivery_loses_group_witness:
  "\<exists>w se0 r se1. deliver_begin demo_policy 0 (demo_deliver_env ''a'') (demo_input ''a'' \<lparr>in_groupId := Some ''g''\<rparr>) demo_session = (Inr w, se0) \<and>
     deliver_finish demo_policy 0 (demo_deliver_env ''a'') (demo_input ''a'' \<lparr>in_groupId := Some ''g''\<rparr>) SendFailed w se0 = (Inr r, se1) \<and>
     (\<exists>d \<in> set (qs_deliveries (fst (session_load 0 se1))). qd_requestId d = ''a'' \<and> qd_groupId d = None)"
proof -
  let ?i = "demo_input ''a'' \<lparr>in_groupId := Some ''g''\<rparr>"
  have q: "fst (session_load 0 demo_session) = \<lparr>qs_deliveries = [], qs_receipts = []\<rparr>"
    using begin_wait_queue demo_begin [of "''a''"] by metis
  obtain w se0 where w: "deliver_begin demo_policy 0 (demo_deliver_env ''a'') ?i demo_session = (Inr w, se0)"
    by (rule begin_waits [of 0 demo_session ?i demo_policy "demo_deliver_env ''a''"]) (simp_all add: receipt_view_def q)
  have dq: "dw_queue w = \<lparr>qs_deliveries = [], qs_receipts = []\<rparr>" using begin_wait_queue [OF w] q by simp
  obtain x se1 where f: "deliver_finish demo_policy 0 (demo_deliver_env ''a'') ?i SendFailed w se0 = (x, se1)" by fastforce
  from deliver_finish_queues [of SendFailed demo_policy w 0 "demo_deliver_env ''a''" ?i se0] dq f
  obtain r where r: "x = Inr r" "dr_state r = state_queued" by (auto simp: demo_policy_def toRelayDeliveryResult_def)
  show ?thesis using queued_delivery_loses_group [OF w f [unfolded r(1)] r(2)] w f r(1)
    by (auto simp: demo_policy_def demo_input_def)
qed

text \<open>
  A second sender can take over a receipt: if a request id already has a receipt of another
  sender, a delivery under the same id that returns replaces it, and the first sender, asking for
  the receipt, is told that there is none.
\<close>
theorem receipt_taken_over_by_second_sender:
  assumes "receipt_view now se (in_requestId i) = Some c" and "rc_senderAgentDid c \<noteq> in_senderAgentDid i"
    and "deliver_begin pol now env i se = (Inr w, se0)" and "deliver_finish pol now env i out w seM = (Inr r, se1)"
    and "0 < queueTtlMs pol"
  shows "fst (getDeliveryReceipt now \<lparr>rl_requestId = in_requestId i, rl_senderAgentDid = rc_senderAgentDid c\<rparr> se) = Some c \<and>
         fst (getDeliveryReceipt now \<lparr>rl_requestId = in_requestId i, rl_senderAgentDid = rc_senderAgentDid c\<rparr> se1) = None"
proof -
  have "receipt_view now se1 (in_requestId i) = Some (new_receipt pol now (de_deliveryId env) i (dr_state r))"
    using after_delivery(1) [OF assms(3,4,5)] by simp
  then have "fst (getDeliveryReceipt now \<lparr>rl_requestId = in_requestId i, rl_senderAgentDid = rc_senderAgentDid c\<rparr> se1) \<noteq> Some x" for x
    using assms(2) by (auto simp: getDeliveryReceipt_iff new_receipt_def)
  then have "fst (getDeliveryReceipt now \<lparr>rl_requestId = in_requestId i, rl_senderAgentDid = rc_senderAgentDid c\<rparr> se1) = None"
    using not_Some_eq by blast
  then show ?thesis using assms(1) by (simp add: getDeliveryReceipt_iff)
qed

lemma demo_second_sender:
  obtains w se0 r se1 w2 se2 r2 se3 c where
    "receipt_view 0 se1 (in_requestId (demo_input ''a'' \<lparr>in_senderAgentDid := ''t''\<rparr>)) = Some c" "rc_senderAgentDid c = ''s''"
    "deliver_begin demo_policy 0 (demo_deliver_env ''b'') (demo_input ''a'' \<lparr>in_senderAgentDid := ''t''\<rparr>) se1 = (Inr w2, se2)"
    "deliver_finish demo_policy 0 (demo_deliver_env ''b'') (demo_input ''a'' \<lparr>in_senderAgentDid := ''t''\<rparr>) SendFailed w2 se2 = (Inr r2, se3)"
proof -
  let ?i = "demo_input ''a'' \<lparr>in_senderAgentDid := ''t''\<rparr>"
  obtain w se0 where b: "deliver_begin demo_policy 0 (demo_deliver_env ''a'') (demo_input ''a'') demo_session = (Inr w, se0)"
    "dw_attempt w = AwaitingAck ''fa''" "dw_queue w = \<lparr>qs_deliveries = [], qs_receipts = []\<rparr>" using demo_begin [of "''a''"] by auto
  obtain r se1 where f: "deliver_finish demo_policy 0 (demo_deliver_env ''a'') (demo_input ''a'') SendAccepted w se0 = (Inr r, se1)"
    using b(2) by (simp add: deliver_finish_def Let_def)
  have st: "dr_state r = state_delivered" using f b(2) by (auto simp: deliver_finish_def toRelayDeliveryResult_def Let_def)
  have view: "receipt_view 0 se1 ''a'' = Some (new_receipt demo_policy 0 ''da'' (demo_input ''a'') state_delivered)"
    using after_delivery(1) [OF b(1) f, of "''a''"] st by (simp add: demo_policy_def demo_input_def demo_deliver_env_def)
  have "\<exists>w2 se2. deliver_begin demo_policy 0 (demo_deliver_env ''b'') ?i se1 = (Inr w2, se2)"
    using view by (simp add: deliver_begin_def receipt_view_def new_receipt_def demo_input_def Let_def case_prod_beta)
  then obtain w2 se2 where w2: "deliver_begin demo_policy 0 (demo_deliver_env ''b'') ?i se1 = (Inr w2, se2)" by blast
  have "qs_deliveries (dw_queue w2) = []"
    using begin_wait_queue [OF w2] session_view_saved [of "(dw_queue w)\<lparr>qs_receipts := upsertReceipt (new_receipt demo_policy 0 ''da'' (demo_input ''a'') state_delivered) []\<rparr>" 0]
      f b(2,3) by (auto simp: deliver_finish_def Let_def demo_deliver_env_def queue_ok_def receipts_ok_def upsertReceipt_def
        pruneExpiredQueueState_def case_prod_beta)
  then have "\<exists>r2. fst (deliver_finish demo_policy 0 (demo_deliver_env ''b'') ?i SendFailed w2 se2) = Inr r2"
    using deliver_finish_queues [of SendFailed demo_policy w2] by (simp add: demo_policy_def)
  then obtain r2 se3 where f2: "deliver_finish demo_policy 0 (demo_deliver_env ''b'') ?i SendFailed w2 se2 = (Inr r2, se3)" by (metis prod.collapse)
  show thesis using that [OF _ _ w2 f2] view by (simp add: new_receipt_def demo_input_def)
qed

theorem receipt_taken_over_by_second_sender_witness:
  "\<exists>se1 se3 c. fst (getDeliveryReceipt 0 \<lparr>rl_requestId = ''a'', rl_senderAgentDid = ''s''\<rparr> se1) = Some c \<and>
     fst (getDeliveryReceipt 0 \<lparr>rl_requestId = ''a'', rl_senderAgentDid = ''s''\<rparr> se3) = None \<and>
     (\<exists>w2 se2 r2. deliver_begin demo_policy 0 (demo_deliver_env ''b'') (demo_input ''a'' \<lparr>in_senderAgentDid := ''t''\<rparr>) se1 = (Inr w2, se2) \<and>
        deliver_finish demo_policy 0 (demo_deliver_env ''b'') (demo_input ''a'' \<lparr>in_senderAgentDid := ''t''\<rparr>) SendFailed w2 se2 = (Inr r2, se3))"
proof -
  let ?i = "demo_input ''a'' \<lparr>in_senderAgentDid := ''t''\<rparr>"
  obtain w se0 r se1 w2 se2 r2 se3 c where d: "receipt_view 0 se1 (in_requestId ?i) = Some c" "rc_senderAgentDid c = ''s''"
    "deliver_begin demo_policy 0 (demo_deliver_env ''b'') ?i se1 = (Inr w2, se2)"
    "deliver_finish demo_policy 0 (demo_deliver_env ''b'') ?i SendFailed w2 se2 = (Inr r2, se3)" by (rule demo_second_sender)
  have "rc_senderAgentDid c \<noteq> in_senderAgentDid ?i" "0 < queueTtlMs demo_policy" using d(2) by (simp_all add: demo_policy_def)
  from receipt_taken_over_by_second_sender [OF d(1) this(1) d(3,4) this(2)] d show ?thesis by (auto simp: demo_input_def)
qed

section \<open>Who may update and read a receipt\<close>

lemma push_storage [simp]: "se_storage (pushReceiptFrameToActiveSockets sends uid now f r s t se) = se_storage se"
  by (simp add: pushReceiptFrameToActiveSockets_def case_prod_beta Let_def)

lemma load_storage_cong: "se_storage se = se_storage se' \<Longrightarrow> fst (session_load now se) = fst (session_load now se')"
  by (simp add: session_load_eq)

lemma upsert_live:
  "receipts_ok rs \<Longrightarrow> \<forall>(k, r) \<in> set rs. now < rc_expiresAtMs r \<Longrightarrow> now < rc_expiresAtMs c \<Longrightarrow>
   \<forall>(k, r) \<in> set (upsertReceipt c rs). now < rc_expiresAtMs r"
  using alist_update_good [of rs "\<lambda>k r. now < rc_expiresAtMs r" "upsertReceipt c rs"]
  unfolding receipts_ok_def upsertReceipt_def by blast

definition may_record :: "RelayReceiptRecordInput \<Rightarrow> RelayDeliveryReceipt option \<Rightarrow> bool" where
  "may_record ri old \<longleftrightarrow> (\<forall>e \<in> set_option old. rc_senderAgentDid e = ri_senderAgentDid ri \<and> rc_recipientAgentDid e = ri_recipientAgentDid ri)"

definition recorded_receipt :: "RelayDeliveryPolicy \<Rightarrow> ms \<Rightarrow> string \<Rightarrow> RelayReceiptRecordInput \<Rightarrow> RelayDeliveryReceipt option \<Rightarrow> RelayDeliveryReceipt" where
  "recorded_receipt pol now freshId ri old =
     \<lparr>rc_requestId = ri_requestId ri, rc_deliveryId = (case old of None \<Rightarrow> freshId | Some e \<Rightarrow> rc_deliveryId e),
      rc_expiresAtMs = now + queueTtlMs pol, rc_senderAgentDid = ri_senderAgentDid ri,
      rc_recipientAgentDid = ri_recipientAgentDid ri, rc_state = receipt_state (ri_status ri), rc_reason = ri_reason ri,
      rc_statusUpdatedAt = toIso now\<rparr>"

text \<open>
  A report on a delivery updates exactly the receipt of its request id, and only if that
  receipt belongs to the sender and recipient named in the report (or there is none yet), keeping the
  delivery id; every other receipt stays as it is, and a receipt is shown only to its sender.
\<close>
theorem receipts_belong_to_their_sender:
  assumes "0 < queueTtlMs pol" and "se' = recordDeliveryReceipt pol sends freshId frameId now ri se"
  shows "receipt_view now se' k =
           (if k = ri_requestId ri \<and> may_record ri (receipt_view now se k)
            then Some (recorded_receipt pol now freshId ri (receipt_view now se k)) else receipt_view now se k) \<and>
         (fst (getDeliveryReceipt now rl se') = Some c \<longleftrightarrow>
            receipt_view now se' (rl_requestId rl) = Some c \<and> rc_senderAgentDid c = rl_senderAgentDid rl)"
proof -
  let ?q = "fst (session_load now se)" and ?c = "recorded_receipt pol now freshId ri (receipt_view now se (ri_requestId ri))"
  let ?q' = "?q\<lparr>qs_receipts := upsertReceipt ?c (qs_receipts ?q)\<rparr>"
  have ok: "queue_ok ?q" using load_queue_ok by (simp add: session_load_eq)
  have "receipt_view now se' k = (if k = ri_requestId ri \<and> may_record ri (receipt_view now se k) then Some ?c else receipt_view now se k)"
  proof (cases "may_record ri (receipt_view now se (ri_requestId ri))")
    case False
    then have "se' = snd (session_load now se)"
      unfolding assms(2) by (auto simp: recordDeliveryReceipt_def may_record_def receipt_view_def case_prod_beta Let_def split: option.splits)
    then have "fst (session_load now se') = ?q" using load_again [of now now se] load_storage_cong [of "snd (session_active now se')" se' now] by simp
    then show ?thesis using False by (auto simp: receipt_view_def)
  next
    case True
    have upd: "AList.update (ri_requestId ri) ?c = upsertReceipt ?c" by (rule ext) (simp add: upsertReceipt_def recorded_receipt_def)
    have "se_storage se' = se_storage (scheduleNextAlarm ?q' now (session_save ?q' (snd (session_load now se))))"
      using True unfolding assms(2) by (auto simp: recordDeliveryReceipt_def may_record_def receipt_view_def case_prod_beta Let_def
          upd [unfolded recorded_receipt_def receipt_view_def, symmetric] recorded_receipt_def split: option.splits)
    then have "fst (session_load now se') = fst (session_load now (scheduleNextAlarm ?q' now (session_save ?q' (snd (session_load now se)))))"
      by (rule load_storage_cong)
    moreover have "queue_ok ?q'" using ok by (simp add: queue_ok_def receipts_ok_upsert)
    ultimately have "fst (session_load now se') = fst (pruneExpiredQueueState ?q' now)" by (simp only: session_view_saved)
    moreover have "\<forall>d \<in> set (qs_deliveries ?q'). now < qd_expiresAtMs d" using load_live [of now "se_storage se"] by (simp add: session_load_eq)
    moreover have "\<forall>(k, r) \<in> set (qs_receipts ?q'). now < rc_expiresAtMs r"
      using upsert_live [of "qs_receipts ?q" now ?c] load_live [of now "se_storage se"] ok assms(1)
      by (simp add: session_load_eq queue_ok_def recorded_receipt_def)
    ultimately have "fst (session_load now se') = ?q'" using prune_all_live by metis
    then show ?thesis using True by (auto simp: receipt_view_def map_of_upsertReceipt recorded_receipt_def)
  qed
  then show ?thesis by (auto simp: getDeliveryReceipt_iff)
qed

theorem receipts_belong_to_their_sender_witness:
  "receipt_view 0 (recordDeliveryReceipt demo_policy (\<lambda>_. True) ''x'' ''y'' 0 demo_record demo_session) ''q'' =
     Some (recorded_receipt demo_policy 0 ''x'' demo_record None)"
proof -
  have "fst (session_load 0 demo_session) = \<lparr>qs_deliveries = [], qs_receipts = []\<rparr>"
    using begin_wait_queue demo_begin [of "''a''"] by metis
  then have "receipt_view 0 demo_session ''q'' = None" by (simp add: receipt_view_def)
  then show ?thesis
    using receipts_belong_to_their_sender [OF _ refl, where pol = demo_policy and sends = "\<lambda>_. True" and freshId = "''x''"
        and frameId = "''y''" and now = 0 and ri = demo_record and se = demo_session and k = "''q''"]
    by (simp add: demo_policy_def demo_record_def may_record_def)
qed

section \<open>From a sender's frame to the recipient's session\<close>

text \<open>The recipient's session as the world of the sender's: a request to its durable object.\<close>
definition session_stub ::
  "runtime \<Rightarrow> RelayDeliveryPolicy \<Rightarrow> session_env \<Rightarrow> session_request \<Rightarrow> relay_session \<Rightarrow> (string, http_response) result \<times> relay_session" where
  "session_stub rt pol v req peer = (let (resp, peer) = AgentRelaySession_fetch rt pol v req peer in (Inr resp, peer))"

lemma delivery_input_js_get:
  "js_get (delivery_input_js i) ''requestId'' = JStr (in_requestId i)"
  "js_get (delivery_input_js i) ''senderAgentDid'' = JStr (in_senderAgentDid i)"
  "js_get (delivery_input_js i) ''recipientAgentDid'' = JStr (in_recipientAgentDid i)"
  by (simp_all add: delivery_input_js_def)

lemma parse_wire_ids:
  assumes "parseDeliveryInput rt (delivery_input_js i) = Some j"
  shows "in_requestId j = in_requestId i" "in_senderAgentDid j = in_senderAgentDid i" "in_recipientAgentDid j = in_recipientAgentDid i"
  using assms by (auto simp: parseDeliveryInput_def delivery_input_js_get split: if_splits)

lemma fetch_deliver_ok:
  assumes "AgentRelaySession_fetch rt pol v (deliver_request i) peer = (resp, peer')" and "response_ok resp"
  obtains j r where "parseDeliveryInput rt (delivery_input_js i) = Some j"
    "deliverToConnector pol (sv_now v) (sv_deliver v) j (sv_outcome v) (sv_meanwhile v) peer = (Inr r, peer')"
  using assms by (auto simp: AgentRelaySession_fetch_def deliver_request_def response_ok_def toErrorResponse_def
      split: option.splits prod.splits sum.splits relay_failure.splits)

lemma delivered_receipt_view:
  assumes "deliverToConnector pol now env j out mw peer = (Inr r, peer')" and "0 < queueTtlMs pol"
  obtains c where "receipt_view now peer' (in_requestId j) = Some c" "rc_senderAgentDid c = in_senderAgentDid j"
    "rc_recipientAgentDid c = in_recipientAgentDid j"
proof (cases "deliver_begin pol now env j peer")
  case (Pair x p0)
  show thesis
  proof (cases x)
    case (Inl a)
    then have p: "peer' = p0" using assms(1) Pair by (simp add: deliverToConnector_def)
    obtain c where c: "receipt_view now peer (in_requestId j) = Some c" "rc_senderAgentDid c = in_senderAgentDid j"
      "rc_recipientAgentDid c = in_recipientAgentDid j" "p0 = snd (session_active now (snd (session_load now peer)))"
      using Pair Inl by (auto simp: deliver_begin_def receipt_view_def Let_def case_prod_beta split: option.splits if_splits)
    then show thesis using that p load_again [of now now peer] by (auto simp: receipt_view_def)
  next
    case (Inr w)
    then obtain pm where f: "deliver_finish pol now env j out w pm = (Inr r, peer')"
      using assms(1) Pair by (auto simp: deliverToConnector_def split: attempt.splits)
    show thesis using after_delivery(1) [OF Pair [unfolded Inr] f assms(2), of "in_requestId j"] that by (auto simp: new_receipt_def)
  qed
qed


definition demo_frame :: EnqueueFrame where
  "demo_frame = \<lparr>ef_id = ''a'', ef_toAgentDid = ''r'', ef_payload = JNull, ef_groupId = None, ef_conversationId = None, ef_replyTo = None\<rparr>"

definition demo_session_env :: session_env where
  "demo_session_env = \<lparr>sv_now = 0, sv_server = 9, sv_freshId = ''x'', sv_frameId = ''y'', sv_deliver = demo_deliver_env ''a'',
     sv_outcome = SendFailed, sv_meanwhile = id\<rparr>"

lemma demo_enqueue:
  "fst (handleEnqueueFrame (Some (session_stub demo_runtime demo_policy demo_session_env)) (Some (\<lambda>_ _. Inr True :: (unit, bool) result)) None 1 demo_frame
     (demo_session\<lparr>se_dids := [(1, ''s'')]\<rparr>) demo_session) = (True, None)"
proof -
  let ?i = "toRelayDeliveryInputFromEnqueueFrame demo_frame ''s''"
  have parse: "parseDeliveryInput demo_runtime (delivery_input_js ?i) = Some ?i"
    by (simp add: parseDeliveryInput_def delivery_input_js_def toRelayDeliveryInputFromEnqueueFrame_def demo_frame_def
        trimmed_opt_def RELAY_DELIVERY_SOURCE_AGENT_ENQUEUE_def trim_def trimStart_def trimEnd_def is_ws_def)
  have q: "fst (session_load 0 demo_session) = \<lparr>qs_deliveries = [], qs_receipts = []\<rparr>"
    using begin_wait_queue demo_begin [of "''a''"] by metis
  obtain w p0 where w: "deliver_begin demo_policy 0 (demo_deliver_env ''a'') ?i demo_session = (Inr w, p0)"
    by (rule begin_waits [of 0 demo_session ?i demo_policy "demo_deliver_env ''a''"]) (simp_all add: receipt_view_def q)
  have "1 < retryMaxAttempts demo_policy" "length (qs_deliveries (dw_queue w)) < queueMaxMessagesPerAgent demo_policy"
    using begin_wait_queue [OF w] q by (simp_all add: demo_policy_def)
  from deliver_finish_queues [OF _ this, of SendFailed]
  have "\<exists>r. fst (deliverToConnector demo_policy 0 (demo_deliver_env ''a'') ?i SendFailed id demo_session) = Inr r"
    by (simp add: deliverToConnector_def w)
  then obtain r p1 where "deliverToConnector demo_policy 0 (demo_deliver_env ''a'') ?i SendFailed id demo_session = (Inr r, p1)"
    by (metis prod.collapse)
  then have "AgentRelaySession_fetch demo_runtime demo_policy demo_session_env (deliver_request ?i) demo_session = (Response 202 (delivery_result_js r), p1)"
    by (simp add: AgentRelaySession_fetch_def deliver_request_def parse demo_session_env_def)
  then show ?thesis
    by (simp add: handleEnqueueFrame_def readSocketAgentDid_def session_stub_def deliverToRelaySession_def response_ok_def assertTrustedPair_def
        demo_frame_def trim_def trimStart_def trimEnd_def Let_def)
qed


end
