(* ===== verification/Nonce_Replay.thy ===== *)
theory Nonce_Replay
  imports Clawd_Prelude
begin

text \<open>
  Replay protection by nonces: the in-memory cache of \<open>packages/sdk/src/security/nonce-cache.ts\<close>, the
  durable object of \<open>apps/proxy/src/nonce-replay-guard.ts\<close> with its client \<open>nonce-replay-store.ts\<close>, and
  the choice between them in \<open>nonce-replay-backend.ts\<close>.

  The locale \<open>nonce_guard\<close> is the contract both meet: an accepted nonce stays live until its expiry
  and no live nonce is accepted. It is interpreted on the cache and on the durable object, whose
  alarm may fire between requests.
\<close>

section \<open>The in-memory cache (nonce-cache.ts)\<close>

definition DEFAULT_NONCE_TTL_MS :: ms where "DEFAULT_NONCE_TTL_MS = 5 * 60 * 1000"

datatype NonceCacheResult =
    NonceAccepted (res_seenAt: ms) (res_expiresAt: ms)
  | NonceReplay (res_seenAt: ms) (res_expiresAt: ms)

record NonceRecord =
  nr_seenAt :: ms
  nr_expiresAt :: ms

type_synonym nonce_map = "(string \<times> NonceRecord) list"
type_synonym seen_by_agent = "(string \<times> nonce_map) list"

definition ensureNonEmptyString :: "jsval \<Rightarrow> (app_error, string) result" where
  "ensureNonEmptyString value =
     (if \<not> isNonEmptyString value
      then Inl (AppError ''NONCE_CACHE_INVALID_INPUT'' ''Nonce cache input must be a non-empty string'' 400)
      else Inr (js_str value))"

definition ensureNonceCacheInput :: "jsval \<Rightarrow> (app_error, string \<times> string) result" where
  "ensureNonceCacheInput input =
     throw_if (\<not> is_object input)
       (AppError ''NONCE_CACHE_INVALID_INPUT'' ''Nonce cache input must be an object'' 400)
     (bindE (ensureNonEmptyString (js_get input ''agentDid'')) (\<lambda>agentDid.
      bindE (ensureNonEmptyString (js_get input ''nonce'')) (\<lambda>nonce.
      Inr (agentDid, nonce))))"

text \<open>\<open>None\<close> is the absent option; NaN and the infinities are not finite.\<close>
definition resolveTtlMs :: "jsval option \<Rightarrow> (app_error, ms) result" where
  "resolveTtlMs ttlMs =
     (case js_finite (case ttlMs of None \<Rightarrow> JNum DEFAULT_NONCE_TTL_MS | Some t \<Rightarrow> t) of
        None \<Rightarrow> Inl (AppError ''NONCE_CACHE_INVALID_TTL'' ''Nonce cache ttl must be a positive number'' 500)
      | Some ttl \<Rightarrow>
          if ttl \<le> 0 then Inl (AppError ''NONCE_CACHE_INVALID_TTL'' ''Nonce cache ttl must be a positive number'' 500)
          else Inr ttl)"

definition pruneExpiredFromAgent :: "nonce_map \<Rightarrow> ms \<Rightarrow> nonce_map" where
  "pruneExpiredFromAgent agentMap now = alist_prune (\<lambda>_ r. nr_expiresAt r \<le> now) agentMap"

text \<open>\<open>createNonceCache\<close>: the lifetime and the (empty) map.\<close>
definition createNonceCache :: "jsval option \<Rightarrow> (app_error, ms \<times> seen_by_agent) result" where
  "createNonceCache ttlMs = bindE (resolveTtlMs ttlMs) (\<lambda>ttl. Inr (ttl, []))"

definition purgeExpiredAt :: "ms \<Rightarrow> seen_by_agent \<Rightarrow> seen_by_agent" where
  "purgeExpiredAt now seenByAgent =
     filter (\<lambda>(_, agentMap). agentMap \<noteq> [])
       (map (\<lambda>(agentDid, agentMap). (agentDid, pruneExpiredFromAgent agentMap now)) seenByAgent)"

definition tryAcceptNonce ::
  "ms \<Rightarrow> ms \<Rightarrow> jsval \<Rightarrow> seen_by_agent \<Rightarrow> (app_error, NonceCacheResult) result \<times> seen_by_agent" where
  "tryAcceptNonce ttlMs now input seenByAgent =
     (case ensureNonceCacheInput input of Inl e \<Rightarrow> (Inl e, seenByAgent) | Inr (agentDid, nonce) \<Rightarrow>
      let seenByAgent = purgeExpiredAt now seenByAgent;
          agentMap = (case map_of seenByAgent agentDid of None \<Rightarrow> [] | Some m \<Rightarrow> m);
          seenByAgent = (case map_of seenByAgent agentDid of
                           None \<Rightarrow> AList.update agentDid [] seenByAgent | Some _ \<Rightarrow> seenByAgent) in
      case map_of agentMap nonce of
        Some existing \<Rightarrow> (Inr (NonceReplay (nr_seenAt existing) (nr_expiresAt existing)), seenByAgent)
      | None \<Rightarrow>
          (Inr (NonceAccepted now (now + ttlMs)),
           AList.update agentDid
             (AList.update nonce \<lparr>nr_seenAt = now, nr_expiresAt = now + ttlMs\<rparr> agentMap) seenByAgent))"

section \<open>The durable object (nonce-replay-guard.ts)\<close>

text \<open>\<open>encodeURIComponent\<close> on strings of code units below 256.\<close>
definition uri_unreserved :: "char \<Rightarrow> bool" where
  "uri_unreserved c \<longleftrightarrow> (let n = (of_char c :: nat) in
     (65 \<le> n \<and> n \<le> 90) \<or> (97 \<le> n \<and> n \<le> 122) \<or> (48 \<le> n \<and> n \<le> 57) \<or> c \<in> set ''-_.!~*()'' \<or> n = 39)"

definition hex_digit :: "nat \<Rightarrow> char" where
  "hex_digit n = ''0123456789ABCDEF'' ! n"

definition percent_byte :: "nat \<Rightarrow> string" where
  "percent_byte n = [CHR ''%'', hex_digit (n div 16), hex_digit (n mod 16)]"

definition encode_char :: "char \<Rightarrow> string" where
  "encode_char c =
     (if uri_unreserved c then [c]
      else let n = (of_char c :: nat) in
        if n < 128 then percent_byte n
        else percent_byte (192 + n div 64) @ percent_byte (128 + n mod 64))"

definition encodeURIComponent :: "string \<Rightarrow> string" where
  "encodeURIComponent s = concat (map encode_char s)"

definition NONCE_REPLAY_STORAGE_PREFIX :: string where "NONCE_REPLAY_STORAGE_PREFIX = ''nonce:''"

definition toNonceStorageKey :: "string \<Rightarrow> string \<Rightarrow> string" where
  "toNonceStorageKey agentDid nonce =
     NONCE_REPLAY_STORAGE_PREFIX @ encodeURIComponent agentDid @ ''|'' @ encodeURIComponent nonce"

record NonceReplayTryAcceptRequest =
  rq_agentDid :: string
  rq_nonce :: string
  rq_ttlMs :: ms
  rq_nowMs :: "ms option"

definition parseTryAcceptBody :: "jsval \<Rightarrow> NonceReplayTryAcceptRequest option" where
  "parseTryAcceptBody b =
     (if \<not> is_object b then None
      else if \<not> isNonEmptyString (js_get b ''agentDid'') \<or> \<not> isNonEmptyString (js_get b ''nonce'') \<or>
              (case js_integer (js_get b ''ttlMs'') of None \<Rightarrow> True | Some t \<Rightarrow> t \<le> 0) then None
      else if js_get b ''nowMs'' \<noteq> JUndefined \<and>
              (case js_integer (js_get b ''nowMs'') of None \<Rightarrow> True | Some t \<Rightarrow> t < 0) then None
      else Some \<lparr>rq_agentDid = trim (js_str (js_get b ''agentDid'')), rq_nonce = trim (js_str (js_get b ''nonce'')),
                 rq_ttlMs = js_num (js_get b ''ttlMs''),
                 rq_nowMs = (if js_get b ''nowMs'' \<noteq> JUndefined then Some (js_num (js_get b ''nowMs'')) else None)\<rparr>)"

text \<open>Storage below the prefix and the alarm.\<close>
record guard_storage =
  gs_entries :: "(string \<times> jsval) list"
  gs_alarm :: "ms option"

definition record_js :: "ms \<Rightarrow> ms \<Rightarrow> jsval" where
  "record_js seenAt expiresAt = JObj [(''seenAt'', JNum seenAt), (''expiresAt'', JNum expiresAt)]"

text \<open>
  \<open>x > now\<close>: strings and objects are first converted by \<open>coerce\<close>, ECMAScript's \<open>ToNumber\<close> (\<open>None\<close> is NaN);
  the object itself only ever stores numbers here.
\<close>
fun js_gt :: "(jsval \<Rightarrow> real option) \<Rightarrow> jsval \<Rightarrow> ms \<Rightarrow> bool" where
  "js_gt coerce (JNum x) now = (x > now)"
| "js_gt coerce (JInfinity pos) now = pos"
| "js_gt coerce JNaN now = False"
| "js_gt coerce JUndefined now = False"
| "js_gt coerce JNull now = (0 > now)"
| "js_gt coerce (JBool b) now = ((if b then 1 else 0) > now)"
| "js_gt coerce x now = (case coerce x of None \<Rightarrow> False | Some n \<Rightarrow> n > now)"

definition guard_invalid :: http_response where
  "guard_invalid = toErrorResponse ''NONCE_REPLAY_GUARD_INVALID_INPUT'' ''Nonce replay guard input is invalid'' 400"

text \<open>The storage transaction runs without interleaving. \<open>payload = None\<close>: the body is not JSON.\<close>
definition handleTryAccept ::
  "(jsval \<Rightarrow> real option) \<Rightarrow> ms \<Rightarrow> jsval option \<Rightarrow> guard_storage \<Rightarrow> http_response \<times> guard_storage" where
  "handleTryAccept coerce clock payload st =
     (case payload of None \<Rightarrow> (guard_invalid, st) | Some payload \<Rightarrow>
      case parseTryAcceptBody payload of None \<Rightarrow> (guard_invalid, st) | Some parsed \<Rightarrow>
      let nowMs = (case rq_nowMs parsed of None \<Rightarrow> clock | Some t \<Rightarrow> t);
          storageKey = toNonceStorageKey (rq_agentDid parsed) (rq_nonce parsed);
          existing = (case map_of (gs_entries st) storageKey of None \<Rightarrow> JUndefined | Some v \<Rightarrow> v) in
      if js_truthy existing \<and> js_gt coerce (js_get existing ''expiresAt'') nowMs then
        (Response 200 (JObj [(''accepted'', JBool False), (''reason'', JStr ''replay''),
           (''seenAt'', js_get existing ''seenAt''), (''expiresAt'', js_get existing ''expiresAt'')]), st)
      else
        let seenAt = nowMs; expiresAt = seenAt + rq_ttlMs parsed;
            st = st\<lparr>gs_entries := AList.update storageKey (record_js seenAt expiresAt) (gs_entries st)\<rparr>;
            st = (case gs_alarm st of None \<Rightarrow> st\<lparr>gs_alarm := Some expiresAt\<rparr>
                  | Some currentAlarm \<Rightarrow> if expiresAt < currentAlarm then st\<lparr>gs_alarm := Some expiresAt\<rparr> else st) in
        (Response 200 (JObj [(''accepted'', JBool True), (''seenAt'', JNum seenAt), (''expiresAt'', JNum expiresAt)]), st))"

definition guard_entry_expired :: "ms \<Rightarrow> jsval \<Rightarrow> bool" where
  "guard_entry_expired nowMs value =
     (if \<not> is_object value \<or> js_finite (js_get value ''expiresAt'') = None then True
      else js_num (js_get value ''expiresAt'') \<le> nowMs)"

fun next_expiry :: "ms \<Rightarrow> ms option \<Rightarrow> (string \<times> jsval) list \<Rightarrow> ms option" where
  "next_expiry nowMs nextExpiry [] = nextExpiry"
| "next_expiry nowMs nextExpiry ((_, value) # entries) =
     (if guard_entry_expired nowMs value then next_expiry nowMs nextExpiry entries
      else let e = js_num (js_get value ''expiresAt'') in
        next_expiry nowMs
          (case nextExpiry of None \<Rightarrow> Some e | Some n \<Rightarrow> if e < n then Some e else nextExpiry) entries)"

definition NonceReplayGuard_alarm :: "ms \<Rightarrow> guard_storage \<Rightarrow> guard_storage" where
  "NonceReplayGuard_alarm nowMs st =
     \<lparr>gs_entries = alist_prune (\<lambda>_ v. guard_entry_expired nowMs v) (gs_entries st),
      gs_alarm = next_expiry nowMs None (gs_entries st)\<rparr>"

definition NonceReplayGuard_fetch ::
  "(jsval \<Rightarrow> real option) \<Rightarrow> ms \<Rightarrow> string \<Rightarrow> string \<Rightarrow> jsval option \<Rightarrow> guard_storage \<Rightarrow> http_response \<times> guard_storage" where
  "NonceReplayGuard_fetch coerce clock httpMethod path payload st =
     (if httpMethod \<noteq> ''POST'' then (Response 404 JUndefined, st)
      else if path = ''/nonce/try-accept'' then handleTryAccept coerce clock payload st
      else (Response 404 JUndefined, st))"

section \<open>The client and the backends\<close>

datatype nonce_store_error = NonceReplayStoreError (ne_code: string) (ne_message: string) (ne_status: nat)

definition parseGuardErrorPayload :: "jsval \<Rightarrow> string \<times> string" where
  "parseGuardErrorPayload payload =
     (if \<not> is_object payload then (''NONCE_REPLAY_GUARD_ERROR'', ''Nonce replay guard operation failed'')
      else let err = js_get payload ''error'' in
      if \<not> is_object err then (''NONCE_REPLAY_GUARD_ERROR'', ''Nonce replay guard operation failed'')
      else ((case js_get err ''code'' of JStr c \<Rightarrow> c | _ \<Rightarrow> ''NONCE_REPLAY_GUARD_ERROR''),
            (case js_get err ''message'' of JStr m \<Rightarrow> m | _ \<Rightarrow> ''Nonce replay guard operation failed'')))"

definition callDurableGuard ::
  "(jsval \<Rightarrow> real option) \<Rightarrow> ms \<Rightarrow> string \<Rightarrow> jsval \<Rightarrow> guard_storage \<Rightarrow>
   (nonce_store_error, jsval) result \<times> guard_storage" where
  "callDurableGuard coerce clock path payload st =
     (case NonceReplayGuard_fetch coerce clock ''POST'' path (Some (json_wire payload)) st of (response, st) \<Rightarrow>
      if \<not> (200 \<le> resp_status response \<and> resp_status response \<le> 299) then
        (let (code, message) = parseGuardErrorPayload (resp_body response) in
         (Inl (NonceReplayStoreError code message (resp_status response)), st))
      else (Inr (resp_body response), st))"

definition DEFAULT_MAX_TIMESTAMP_SKEW_SECONDS :: real where "DEFAULT_MAX_TIMESTAMP_SKEW_SECONDS = 300"

definition toTtlMs :: "real option \<Rightarrow> ms" where
  "toTtlMs maxTimestampSkewSeconds =
     (case maxTimestampSkewSeconds of None \<Rightarrow> DEFAULT_MAX_TIMESTAMP_SKEW_SECONDS | Some s \<Rightarrow> s) * 1000"

definition durable_tryAcceptNonce ::
  "(jsval \<Rightarrow> real option) \<Rightarrow> ms option \<Rightarrow> ms \<Rightarrow> string \<Rightarrow> string \<Rightarrow> ms option \<Rightarrow> ms option \<Rightarrow> guard_storage \<Rightarrow>
   (nonce_store_error, jsval) result \<times> guard_storage" where
  "durable_tryAcceptNonce coerce optionTtlMs clock agentDid nonce ttlMs nowMs st =
     (let defaultTtl = (case optionTtlMs of None \<Rightarrow> DEFAULT_MAX_TIMESTAMP_SKEW_SECONDS * 1000 | Some t \<Rightarrow> t) in
      callDurableGuard coerce clock ''/nonce/try-accept''
        (JObj ([(''agentDid'', JStr agentDid), (''nonce'', JStr nonce),
                (''ttlMs'', JNum (case ttlMs of None \<Rightarrow> defaultTtl | Some t \<Rightarrow> t))] @
               (case nowMs of None \<Rightarrow> [] | Some t \<Rightarrow> [(''nowMs'', JNum t)]))) st)"

text \<open>The in-memory backend ignores the request's own lifetime and clock.\<close>
definition memory_tryAcceptNonce ::
  "ms \<Rightarrow> ms \<Rightarrow> string \<Rightarrow> string \<Rightarrow> ms option \<Rightarrow> ms option \<Rightarrow> seen_by_agent \<Rightarrow>
   (app_error, NonceCacheResult) result \<times> seen_by_agent" where
  "memory_tryAcceptNonce cacheTtlMs clock agentDid nonce ttlMs nowMs s =
     tryAcceptNonce cacheTtlMs clock (JObj [(''agentDid'', JStr agentDid), (''nonce'', JStr nonce)]) s"

datatype ProxyEnvironment = env_local | env_development | env_production
datatype NonceReplayBackend = backend_durable ms | backend_memory ms

definition requiresDurableNonceReplay :: "ProxyEnvironment \<Rightarrow> bool" where
  "requiresDurableNonceReplay environment \<longleftrightarrow> environment = env_development \<or> environment = env_production"

text \<open>\<open>None\<close>: the configuration error is thrown. The backends carry their lifetime.\<close>
definition resolveWorkerNonceReplayStore :: "ProxyEnvironment \<Rightarrow> bool \<Rightarrow> real option \<Rightarrow> NonceReplayBackend option" where
  "resolveWorkerNonceReplayStore environment hasNamespace maxSkew =
     (if hasNamespace then Some (backend_durable (toTtlMs maxSkew))
      else if requiresDurableNonceReplay environment then None
      else Some (backend_memory (toTtlMs maxSkew)))"

definition resolveNodeNonceReplayStore :: "ProxyEnvironment \<Rightarrow> real option \<Rightarrow> NonceReplayBackend option" where
  "resolveNodeNonceReplayStore environment maxSkew =
     (if requiresDurableNonceReplay environment then None else Some (backend_memory (toTtlMs maxSkew)))"

section \<open>The contract\<close>

text \<open>
  \<open>accepts e s = Some (k, x)\<close>: the event \<open>e\<close> accepts the nonce \<open>k\<close> until \<open>x\<close>. \<open>live s k\<close> is the expiry stored
  for \<open>k\<close>, \<open>time_of e\<close> the time the event is processed at.
\<close>
locale nonce_guard =
  fixes step :: "'e \<Rightarrow> 's \<Rightarrow> 's"
    and accepts :: "'e \<Rightarrow> 's \<Rightarrow> ('k \<times> ms) option"
    and live :: "'s \<Rightarrow> 'k \<Rightarrow> ms option"
    and time_of :: "'e \<Rightarrow> ms"
    and inv :: "'s \<Rightarrow> bool"
  assumes inv_step: "inv s \<Longrightarrow> inv (step e s)"
    and accepted_live: "inv s \<Longrightarrow> accepts e s = Some (k, x) \<Longrightarrow> live (step e s) k = Some x"
    and live_kept: "inv s \<Longrightarrow> live s k = Some x \<Longrightarrow> time_of e < x \<Longrightarrow> live (step e s) k = Some x"
    and live_refused: "inv s \<Longrightarrow> live s k = Some x \<Longrightarrow> time_of e < x \<Longrightarrow> accepts e s = Some (k', x') \<Longrightarrow> k' \<noteq> k"
begin

lemma inv_run: "inv s \<Longrightarrow> inv (fold step es s)"
  by (induction es arbitrary: s) (auto intro: inv_step)

lemma live_run:
  "inv s \<Longrightarrow> live s k = Some x \<Longrightarrow> \<forall>e \<in> set es. time_of e < x \<Longrightarrow> live (fold step es s) k = Some x"
  by (induction es arbitrary: s) (auto intro: inv_step live_kept)

lemma not_accepted_twice:
  assumes "inv s" and "accepts e s = Some (k, x)" and "\<forall>e \<in> set es. time_of e < x" and "time_of e' < x"
    and "accepts e' (fold step es (step e s)) = Some (k', x')"
  shows "k' \<noteq> k"
proof -
  have "live (fold step es (step e s)) k = Some x"
    using assms accepted_live inv_step by (intro live_run) auto
  then show ?thesis using assms inv_run inv_step live_refused by blast
qed

end

section \<open>The cache meets the contract\<close>

datatype cache_event = CacheTry ms jsval | CachePurge ms

fun cache_step :: "ms \<Rightarrow> cache_event \<Rightarrow> seen_by_agent \<Rightarrow> seen_by_agent" where
  "cache_step ttl (CacheTry now input) s = snd (tryAcceptNonce ttl now input s)"
| "cache_step ttl (CachePurge now) s = purgeExpiredAt now s"

fun cache_accepts :: "ms \<Rightarrow> cache_event \<Rightarrow> seen_by_agent \<Rightarrow> ((string \<times> string) \<times> ms) option" where
  "cache_accepts ttl (CacheTry now input) s =
     (case fst (tryAcceptNonce ttl now input s) of
        Inr (NonceAccepted seenAt expiresAt) \<Rightarrow>
          Some ((js_str (js_get input ''agentDid''), js_str (js_get input ''nonce'')), expiresAt)
      | _ \<Rightarrow> None)"
| "cache_accepts ttl (CachePurge now) s = None"

fun cache_time :: "cache_event \<Rightarrow> ms" where
  "cache_time (CacheTry now _) = now"
| "cache_time (CachePurge now) = now"

fun cache_live :: "seen_by_agent \<Rightarrow> string \<times> string \<Rightarrow> ms option" where
  "cache_live s (a, n) =
     (case map_of s a of None \<Rightarrow> None | Some m \<Rightarrow> map_option nr_expiresAt (map_of m n))"

definition cache_inv :: "seen_by_agent \<Rightarrow> bool" where
  "cache_inv s \<longleftrightarrow> distinct (map fst s) \<and> (\<forall>(a, m) \<in> set s. distinct (map fst m))"

lemma ensureNonceCacheInput_Inr:
  "ensureNonceCacheInput input = Inr (a, n) \<Longrightarrow>
   a = js_str (js_get input ''agentDid'') \<and> n = js_str (js_get input ''nonce'')"
  by (auto simp: ensureNonceCacheInput_def ensureNonEmptyString_def split: if_splits)

lemma purge_as_filter:
  "purgeExpiredAt now s = filter (\<lambda>(_, m). m \<noteq> []) (map (\<lambda>(a, m). (a, pruneExpiredFromAgent m now)) s)"
  by (simp add: purgeExpiredAt_def)

lemma cache_inv_purge: "cache_inv s \<Longrightarrow> cache_inv (purgeExpiredAt now s)"
proof -
  assume inv: "cache_inv s"
  have "map fst (map (\<lambda>(a, m). (a, pruneExpiredFromAgent m now)) s) = map fst s" by auto
  then have "distinct (map fst (purgeExpiredAt now s))"
    using inv unfolding purgeExpiredAt_def cache_inv_def by (metis distinct_map_filter)
  moreover have "\<forall>(a, m) \<in> set (purgeExpiredAt now s). distinct (map fst m)"
    using inv by (auto simp: purgeExpiredAt_def cache_inv_def pruneExpiredFromAgent_def)
  ultimately show ?thesis by (simp add: cache_inv_def)
qed

lemma map_of_purge:
  assumes "cache_inv s"
  shows "map_of (purgeExpiredAt now s) a =
     (case map_of s a of None \<Rightarrow> None
      | Some m \<Rightarrow> if pruneExpiredFromAgent m now = [] then None else Some (pruneExpiredFromAgent m now))"
proof -
  let ?s = "map (\<lambda>(a, m). (a, pruneExpiredFromAgent m now)) s"
  have "map fst ?s = map fst s" by auto
  then have "distinct (map fst ?s)" using assms by (metis cache_inv_def)
  then have "map_of (filter (\<lambda>(_, m). m \<noteq> []) ?s) a =
      (case map_of ?s a of None \<Rightarrow> None | Some m \<Rightarrow> if m \<noteq> [] then Some m else None)"
    by (rule map_of_filter_distinct)
  moreover have "map_of ?s a = map_option (\<lambda>m. pruneExpiredFromAgent m now) (map_of s a)"
    by (induction s) auto
  ultimately show ?thesis by (auto simp: purgeExpiredAt_def split: option.splits)
qed

lemma cache_live_purge:
  assumes "cache_inv s"
  shows "cache_live (purgeExpiredAt now s) k =
     (case cache_live s k of None \<Rightarrow> None | Some x \<Rightarrow> if x \<le> now then None else Some x)"
proof -
  obtain a n where k: "k = (a, n)" by (cases k)
  show ?thesis
  proof (cases "map_of s a")
    case (Some m)
    then have "distinct (map fst m)" using assms map_of_SomeD [OF Some] by (auto simp: cache_inv_def)
    then have m: "map_of (pruneExpiredFromAgent m now) n =
        (case map_of m n of None \<Rightarrow> None | Some r \<Rightarrow> if nr_expiresAt r \<le> now then None else Some r)"
      by (simp add: pruneExpiredFromAgent_def map_of_alist_prune)
    show ?thesis
    proof (cases "pruneExpiredFromAgent m now = []")
      case True
      then have "map_of (pruneExpiredFromAgent m now) n = None" by simp
      then show ?thesis using True Some m by (auto simp: k map_of_purge [OF assms] split: option.splits if_splits)
    qed (use Some m in \<open>auto simp: k map_of_purge [OF assms] split: option.splits\<close>)
  qed (simp add: k map_of_purge [OF assms])
qed

text \<open>The whole behaviour of \<open>tryAcceptNonce\<close> in terms of the live nonces.\<close>
lemma tryAcceptNonce_live:
  assumes "cache_inv s" and "ensureNonceCacheInput input = Inr (a, n)"
    and "tryAcceptNonce ttl now input s = (r, s')"
  shows "cache_inv s'"
    and "(case cache_live s (a, n) of Some x \<Rightarrow> x > now | None \<Rightarrow> False) \<Longrightarrow>
           (\<exists>seenAt. r = Inr (NonceReplay seenAt (the (cache_live s (a, n))))) \<and>
           cache_live s' k = cache_live (purgeExpiredAt now s) k"
    and "\<not> (case cache_live s (a, n) of Some x \<Rightarrow> x > now | None \<Rightarrow> False) \<Longrightarrow>
           r = Inr (NonceAccepted now (now + ttl)) \<and>
           cache_live s' k = (if k = (a, n) then Some (now + ttl) else cache_live (purgeExpiredAt now s) k)"
proof -
  let ?p = "purgeExpiredAt now s"
  let ?m = "case map_of ?p a of None \<Rightarrow> [] | Some m \<Rightarrow> m"
  let ?q = "case map_of ?p a of None \<Rightarrow> AList.update a [] ?p | Some _ \<Rightarrow> ?p"
  have invp: "cache_inv ?p" using assms(1) by (rule cache_inv_purge)
  have dm: "distinct (map fst ?m)"
    using invp map_of_SomeD by (fastforce simp: cache_inv_def split: option.splits)
  have upd: "cache_inv (AList.update a m t)" if "cache_inv t" "distinct (map fst m)" for m t
    using that set_alist_update_subset [of a m t] by (fastforce simp: cache_inv_def)
  have q: "cache_inv ?q" "map_of ?q a = Some ?m" "\<And>b. b \<noteq> a \<Longrightarrow> map_of ?q b = map_of ?p b"
    using invp upd [OF invp, of "[]"] by (auto simp: update_conv' split: option.splits)
  have live: "cache_live ?p (a, n) = map_option nr_expiresAt (map_of ?m n)"
    by (simp split: option.splits)
  have qlive: "cache_live ?q k = cache_live ?p k" for k
    using q(2,3) by (cases k; cases "map_of ?p a") (auto simp: update_conv')
  have res: "(r, s') = (case map_of ?m n of
        Some e \<Rightarrow> (Inr (NonceReplay (nr_seenAt e) (nr_expiresAt e)), ?q)
      | None \<Rightarrow> (Inr (NonceAccepted now (now + ttl)),
          AList.update a (AList.update n \<lparr>nr_seenAt = now, nr_expiresAt = now + ttl\<rparr> ?m) ?q))"
    using assms(2,3) by (simp add: tryAcceptNonce_def Let_def split: option.splits)
  show "cache_inv s'"
    using res q(1) upd dm by (auto split: option.splits)
  have found: "map_of ?m n \<noteq> None \<longleftrightarrow> (case cache_live s (a, n) of Some x \<Rightarrow> x > now | None \<Rightarrow> False)"
    using live cache_live_purge [OF assms(1), of now "(a, n)"]
    by (cases "map_of ?m n"; cases "cache_live s (a, n)") (auto split: if_splits)
  show "(\<exists>seenAt. r = Inr (NonceReplay seenAt (the (cache_live s (a, n))))) \<and> cache_live s' k = cache_live ?p k"
    if "case cache_live s (a, n) of Some x \<Rightarrow> x > now | None \<Rightarrow> False"
  proof -
    have "map_of ?m n \<noteq> None" using found that by blast
    then obtain e where e: "map_of ?m n = Some e" by blast
    then have "nr_expiresAt e = the (cache_live s (a, n))"
      using live cache_live_purge [OF assms(1), of now "(a, n)"] that by (auto split: option.splits if_splits)
    then show ?thesis using res e qlive by auto
  qed
  show "r = Inr (NonceAccepted now (now + ttl)) \<and>
      cache_live s' k = (if k = (a, n) then Some (now + ttl) else cache_live ?p k)"
    if "\<not> (case cache_live s (a, n) of Some x \<Rightarrow> x > now | None \<Rightarrow> False)"
  proof -
    have e: "map_of ?m n = None" using found that by auto
    then have "r = Inr (NonceAccepted now (now + ttl))"
      and s': "s' = AList.update a (AList.update n \<lparr>nr_seenAt = now, nr_expiresAt = now + ttl\<rparr> ?m) ?q"
      using res by simp_all
    moreover have "cache_live s' k = (if k = (a, n) then Some (now + ttl) else cache_live ?q k)"
      using q(2) unfolding s' by (cases k) (auto simp: update_conv')
    ultimately show ?thesis using qlive by simp
  qed
qed

lemma cache_try_invalid:
  "ensureNonceCacheInput input = Inl e \<Longrightarrow> tryAcceptNonce ttl now input s = (Inl e, s)"
  by (simp add: tryAcceptNonce_def)

lemma cache_step_live:
  assumes "cache_inv s" and "cache_live s k = Some x" and "cache_time e < x"
  shows "cache_live (cache_step ttl e s) k = Some x \<and> (\<forall>x'. cache_accepts ttl e s \<noteq> Some (k, x'))"
proof (cases e)
  case (CachePurge now)
  then show ?thesis using assms by (simp add: cache_live_purge del: cache_live.simps)
next
  case (CacheTry now input)
  have p: "cache_live (purgeExpiredAt now s) k = Some x"
    using assms CacheTry by (simp add: cache_live_purge del: cache_live.simps)
  show ?thesis
  proof (cases "ensureNonceCacheInput input")
    case (Inl e)
    then show ?thesis using assms(2) CacheTry by (simp add: cache_try_invalid)
  next
    case (Inr an)
    obtain a n where an: "an = (a, n)" by fastforce
    obtain r s' where t: "tryAcceptNonce ttl now input s = (r, s')" by fastforce
    note names = ensureNonceCacheInput_Inr [OF Inr [unfolded an]]
    note live = tryAcceptNonce_live [OF assms(1) Inr [unfolded an] t]
    show ?thesis
    proof (cases "case cache_live s (a, n) of Some x \<Rightarrow> x > now | None \<Rightarrow> False")
      case True
      then show ?thesis using live(2) [OF True, of k] p t CacheTry by (auto simp del: cache_live.simps)
    next
      case False
      then have "k \<noteq> (a, n)" using assms CacheTry by (auto simp del: cache_live.simps)
      then show ?thesis using live(3) [OF False, of k] p t CacheTry names by (auto simp del: cache_live.simps)
    qed
  qed
qed

lemma cache_accepts_Some:
  assumes "cache_inv s" and "cache_accepts ttl e s = Some (k, x)"
  shows "cache_live (cache_step ttl e s) k = Some x \<and> x = cache_time e + ttl"
proof -
  obtain now input where e: "e = CacheTry now input" using assms(2) by (cases e) auto
  obtain r s' where t: "tryAcceptNonce ttl now input s = (r, s')" by fastforce
  have acc: "\<exists>seenAt. r = Inr (NonceAccepted seenAt x)" "k = (js_str (js_get input ''agentDid''), js_str (js_get input ''nonce''))"
    using assms(2) t e by (auto split: sum.splits NonceCacheResult.splits)
  then obtain a n where i: "ensureNonceCacheInput input = Inr (a, n)"
    using t cache_try_invalid by (cases "ensureNonceCacheInput input") auto
  have k: "k = (a, n)" using ensureNonceCacheInput_Inr [OF i] acc(2) by simp
  note live = tryAcceptNonce_live [OF assms(1) i t]
  show ?thesis
  proof (cases "case cache_live s (a, n) of Some x \<Rightarrow> x > now | None \<Rightarrow> False")
    case True
    then show ?thesis using live(2) [OF True] acc(1) by auto
  next
    case False
    then show ?thesis using live(3) [OF False, of k] acc(1) k e t by (auto simp del: cache_live.simps)
  qed
qed

lemma cache_inv_step: "cache_inv s \<Longrightarrow> cache_inv (cache_step ttl e s)"
proof (cases e)
  case (CacheTry now input)
  assume inv: "cache_inv s"
  show ?thesis
  proof (cases "ensureNonceCacheInput input")
    case (Inr an)
    obtain a n where "an = (a, n)" by fastforce
    then show ?thesis
      using tryAcceptNonce_live(1) [OF inv, of input a n ttl now] Inr CacheTry
      by (metis cache_step.simps(1) prod.collapse)
  qed (simp add: CacheTry cache_try_invalid inv)
qed (simp add: cache_inv_purge)

interpretation cache: nonce_guard "cache_step ttl" "cache_accepts ttl" cache_live cache_time cache_inv for ttl
proof unfold_locales
  show "cache_inv s \<Longrightarrow> cache_inv (cache_step ttl e s)" for s e by (rule cache_inv_step)
  show "cache_inv s \<Longrightarrow> cache_accepts ttl e s = Some (k, x) \<Longrightarrow> cache_live (cache_step ttl e s) k = Some x" for s e k x
    using cache_accepts_Some by blast
  show "cache_inv s \<Longrightarrow> cache_live s k = Some x \<Longrightarrow> cache_time e < x \<Longrightarrow> cache_live (cache_step ttl e s) k = Some x" for s k x e
    using cache_step_live by blast
  show "cache_inv s \<Longrightarrow> cache_live s k = Some x \<Longrightarrow> cache_time e < x \<Longrightarrow> cache_accepts ttl e s = Some (k', x') \<Longrightarrow> k' \<noteq> k"
    for s k x e k' x'
    using cache_step_live by blast
qed

text \<open>
  The in-memory nonce cache accepts no nonce of an agent twice within its lifetime: after
  acceptance at time \<open>t\<close>, whatever requests and purges happen before \<open>t\<close> plus the lifetime, a further
  request with the same agent and nonce is not accepted.
\<close>
theorem nonce_cache_no_replay:
  assumes "cache_accepts ttl e (fold (cache_step ttl) before []) = Some (k, x)"
    and "\<forall>f \<in> set between. cache_time f < cache_time e + ttl" and "cache_time e' < cache_time e + ttl"
  shows "cache_accepts ttl e' (fold (cache_step ttl) (before @ e # between) []) \<noteq> Some (k, x')"
proof
  assume again: "cache_accepts ttl e' (fold (cache_step ttl) (before @ e # between) []) = Some (k, x')"
  have inv: "cache_inv (fold (cache_step ttl) before [])"
    by (rule cache.inv_run) (simp add: cache_inv_def)
  have "x = cache_time e + ttl" using cache_accepts_Some [OF inv assms(1)] by simp
  then show False using cache.not_accepted_twice [OF inv assms(1), of between e' k x'] assms(2,3) again by simp
qed

definition demo_try :: "ms \<Rightarrow> cache_event" where
  "demo_try now = CacheTry now (JObj [(''agentDid'', JStr ''a''), (''nonce'', JStr ''n'')])"

theorem nonce_cache_no_replay_witness:
  "cache_accepts 10 (demo_try 19) (fold (cache_step 10) ([CachePurge 1] @ demo_try 10 # [CachePurge 15]) []) \<noteq>
     Some ((''a'', ''n''), 29)"
proof (rule nonce_cache_no_replay)
  show "cache_accepts 10 (demo_try 10) (fold (cache_step 10) [CachePurge 1] []) = Some ((''a'', ''n''), 20)"
    by (simp add: demo_try_def purgeExpiredAt_def tryAcceptNonce_def ensureNonceCacheInput_def ensureNonEmptyString_def
        trim_noop is_ws_def Let_def)
qed (simp_all add: demo_try_def)

section \<open>Storage keys\<close>

lemma hex_digit_inject: "m < 16 \<Longrightarrow> n < 16 \<Longrightarrow> hex_digit m = hex_digit n \<Longrightarrow> m = n"
proof -
  have "distinct ''0123456789ABCDEF''" by simp
  then show "m < 16 \<Longrightarrow> n < 16 \<Longrightarrow> hex_digit m = hex_digit n \<Longrightarrow> m = n"
    unfolding hex_digit_def by (subst (asm) nth_eq_iff_index_eq) simp_all
qed

lemma percent_byte_prefix:
  "m < 256 \<Longrightarrow> n < 256 \<Longrightarrow> percent_byte m @ s = percent_byte n @ t \<Longrightarrow> m = n \<and> s = t"
  unfolding percent_byte_def
  by (auto dest!: hex_digit_inject [rotated 2]) (metis div_mult_mod_eq)

lemma percent_reserved: "\<not> uri_unreserved CHR ''%''" "\<not> uri_unreserved CHR ''|''"
  by (simp_all add: uri_unreserved_def)

lemma utf8_byte_less: "192 + of_char c div 64 < (256 :: nat)" "128 + of_char c mod 64 < (256 :: nat)"
proof -
  have "of_char c < (64 :: nat) * 64" using nat_of_char_less_256 [of c] by linarith
  then have "of_char c div 64 < (64 :: nat)" by (rule less_mult_imp_div_less)
  then show "192 + of_char c div 64 < (256 :: nat)" by linarith
  have "of_char c mod 64 < (64 :: nat)" by simp
  then show "128 + of_char c mod 64 < (256 :: nat)" by linarith
qed

lemma encode_char_prefix:
  assumes "encode_char c @ s = encode_char d @ t"
  shows "c = d \<and> s = t"
proof -
  have hd: "hd (encode_char c) = CHR ''%'' \<longleftrightarrow> \<not> uri_unreserved c" for c
    using percent_reserved by (auto simp: encode_char_def percent_byte_def Let_def)
  have ne: "encode_char c \<noteq> []" for c by (simp add: encode_char_def percent_byte_def Let_def)
  have same: "uri_unreserved c \<longleftrightarrow> uri_unreserved d"
    using assms hd ne by (metis hd_append2)
  show ?thesis
  proof (cases "uri_unreserved c")
    case True
    then show ?thesis using assms same by (simp add: encode_char_def)
  next
    case False
    let ?m = "of_char c :: nat" and ?n = "of_char d :: nat"
    have lt: "?m < 256" "?n < 256" by simp_all
    have small: "192 + ?m div 64 < 256" "192 + ?n div 64 < 256" by (rule utf8_byte_less)+
    have inj: "?m = ?n \<Longrightarrow> c = d" by simp
    consider "?m < 128" "?n < 128" | "?m < 128" "\<not> ?n < 128" | "\<not> ?m < 128" "?n < 128" | "\<not> ?m < 128" "\<not> ?n < 128"
      by blast
    then show ?thesis
    proof cases
      case 1
      then show ?thesis using assms False same percent_byte_prefix [OF lt] inj by (simp add: encode_char_def)
    next
      case 2
      then have "percent_byte ?m @ s = percent_byte (192 + ?n div 64) @ (percent_byte (128 + ?n mod 64) @ t)"
        using assms False same by (simp add: encode_char_def Let_def)
      from percent_byte_prefix [OF lt(1) small(2) this] 2 show ?thesis by simp
    next
      case 3
      then have "percent_byte (192 + ?m div 64) @ (percent_byte (128 + ?m mod 64) @ s) = percent_byte ?n @ t"
        using assms False same by (simp add: encode_char_def Let_def)
      from percent_byte_prefix [OF small(1) lt(2) this] 3 show ?thesis by simp
    next
      case 4
      then have eq: "percent_byte (192 + ?m div 64) @ (percent_byte (128 + ?m mod 64) @ s) =
          percent_byte (192 + ?n div 64) @ (percent_byte (128 + ?n mod 64) @ t)"
        using assms False same by (simp add: encode_char_def Let_def)
      have hi: "?m div 64 = ?n div 64" "percent_byte (128 + ?m mod 64) @ s = percent_byte (128 + ?n mod 64) @ t"
        using percent_byte_prefix [OF small eq] by simp_all
      from percent_byte_prefix [OF utf8_byte_less(2) utf8_byte_less(2) hi(2)] have "?m mod 64 = ?n mod 64" "s = t" by simp_all
      then show ?thesis using hi(1) inj by (metis div_mult_mod_eq)
    qed
  qed
qed

lemma encodeURIComponent_inject: "encodeURIComponent s = encodeURIComponent t \<Longrightarrow> s = t"
proof (induction s arbitrary: t)
  have ne: "encode_char c \<noteq> []" for c by (simp add: encode_char_def percent_byte_def Let_def)
  case Nil
  then show ?case using ne by (cases t) (auto simp: encodeURIComponent_def)
next
  have ne: "encode_char c \<noteq> []" for c by (simp add: encode_char_def percent_byte_def Let_def)
  case (Cons c s)
  then obtain d u where t: "t = d # u" using ne by (cases t) (auto simp: encodeURIComponent_def)
  then have "encode_char c @ encodeURIComponent s = encode_char d @ encodeURIComponent u"
    using Cons.prems by (simp add: encodeURIComponent_def)
  then show ?case using encode_char_prefix Cons.IH t by blast
qed

lemma encodeURIComponent_no_bar: "CHR ''|'' \<notin> set (encodeURIComponent s)"
proof -
  have "set ''0123456789ABCDEF'' \<inter> {CHR ''|''} = {}" by simp
  then have hx: "hex_digit n \<noteq> CHR ''|''" if "n < 16" for n
    using that nth_mem [of n "''0123456789ABCDEF''"] unfolding hex_digit_def by (auto simp del: nth_mem)
  then have pb: "CHR ''|'' \<notin> set (percent_byte n)" if "n < 256" for n
    using that hx [of "n div 16", symmetric] hx [of "n mod 16", symmetric] by (simp add: percent_byte_def)
  have lt: "(of_char c :: nat) < 256" for c by simp
  have "CHR ''|'' \<notin> set (encode_char c)" for c
    using percent_reserved pb [OF lt [of c]] pb [OF utf8_byte_less(1) [of c]] pb [OF utf8_byte_less(2) [of c]]
    by (auto simp: encode_char_def Let_def)
  then show ?thesis by (simp add: encodeURIComponent_def)
qed

lemma toNonceStorageKey_inject:
  "toNonceStorageKey a n = toNonceStorageKey b m \<longleftrightarrow> a = b \<and> n = m"
proof
  assume "toNonceStorageKey a n = toNonceStorageKey b m"
  then have "encodeURIComponent a @ CHR ''|'' # encodeURIComponent n = encodeURIComponent b @ CHR ''|'' # encodeURIComponent m"
    by (simp add: toNonceStorageKey_def)
  then have "encodeURIComponent a = encodeURIComponent b \<and> encodeURIComponent n = encodeURIComponent m"
    using append_Cons_eq_iff [OF encodeURIComponent_no_bar encodeURIComponent_no_bar] by blast
  then show "a = b \<and> n = m" using encodeURIComponent_inject by blast
qed simp

section \<open>The durable object meets the contract\<close>

datatype guard_event = GuardRequest ms "jsval option" | GuardAlarm ms

fun guard_step :: "(jsval \<Rightarrow> real option) \<Rightarrow> guard_event \<Rightarrow> guard_storage \<Rightarrow> guard_storage" where
  "guard_step coerce (GuardRequest clock payload) st =
     snd (NonceReplayGuard_fetch coerce clock ''POST'' ''/nonce/try-accept'' payload st)"
| "guard_step coerce (GuardAlarm clock) st = NonceReplayGuard_alarm clock st"

definition request_of :: "guard_event \<Rightarrow> (ms \<times> NonceReplayTryAcceptRequest) option" where
  "request_of e = (case e of
     GuardRequest clock (Some b) \<Rightarrow>
       (case parseTryAcceptBody b of None \<Rightarrow> None
        | Some r \<Rightarrow> Some (case rq_nowMs r of None \<Rightarrow> clock | Some t \<Rightarrow> t, r))
   | _ \<Rightarrow> None)"

fun guard_time :: "guard_event \<Rightarrow> ms" where
  "guard_time (GuardRequest clock payload) =
     (case request_of (GuardRequest clock payload) of None \<Rightarrow> clock | Some (now, _) \<Rightarrow> now)"
| "guard_time (GuardAlarm clock) = clock"

fun guard_accepts ::
  "(jsval \<Rightarrow> real option) \<Rightarrow> guard_event \<Rightarrow> guard_storage \<Rightarrow> ((string \<times> string) \<times> ms) option" where
  "guard_accepts coerce (GuardRequest clock payload) st =
     (case request_of (GuardRequest clock payload) of None \<Rightarrow> None | Some (now, r) \<Rightarrow>
      let resp = fst (NonceReplayGuard_fetch coerce clock ''POST'' ''/nonce/try-accept'' payload st) in
      if js_get (resp_body resp) ''accepted'' = JBool True
      then Some ((rq_agentDid r, rq_nonce r), js_num (js_get (resp_body resp) ''expiresAt'')) else None)"
| "guard_accepts coerce (GuardAlarm clock) st = None"

fun guard_live :: "guard_storage \<Rightarrow> string \<times> string \<Rightarrow> ms option" where
  "guard_live st (a, n) =
     (case map_of (gs_entries st) (toNonceStorageKey a n) of None \<Rightarrow> None
      | Some v \<Rightarrow> js_finite (js_get v ''expiresAt''))"

definition guard_inv :: "guard_storage \<Rightarrow> bool" where
  "guard_inv st \<longleftrightarrow> distinct (map fst (gs_entries st)) \<and>
     (\<forall>(k, v) \<in> set (gs_entries st). \<exists>seenAt expiresAt. v = record_js seenAt expiresAt)"

definition empty_guard :: guard_storage where
  "empty_guard = \<lparr>gs_entries = [], gs_alarm = None\<rparr>"

lemma guard_request_invalid:
  "request_of (GuardRequest clock payload) = None \<Longrightarrow>
   NonceReplayGuard_fetch coerce clock ''POST'' ''/nonce/try-accept'' payload st = (guard_invalid, st)"
  by (auto simp: request_of_def NonceReplayGuard_fetch_def handleTryAccept_def split: option.splits)

lemma guard_entry:
  assumes "guard_inv st"
  shows "map_of (gs_entries st) k = None \<or> (\<exists>s x. map_of (gs_entries st) k = Some (record_js s x))"
proof (cases "map_of (gs_entries st) k")
  case (Some v)
  then show ?thesis using assms map_of_SomeD [OF Some] by (auto simp: guard_inv_def)
qed simp

lemma guard_request:
  assumes "guard_inv st" and "request_of (GuardRequest clock payload) = Some (now, r)"
    and "NonceReplayGuard_fetch coerce clock ''POST'' ''/nonce/try-accept'' payload st = (resp, st')"
  shows "(case guard_live st (rq_agentDid r, rq_nonce r) of Some x \<Rightarrow> x > now | None \<Rightarrow> False) \<Longrightarrow>
           st' = st \<and> js_get (resp_body resp) ''accepted'' = JBool False"
    and "\<not> (case guard_live st (rq_agentDid r, rq_nonce r) of Some x \<Rightarrow> x > now | None \<Rightarrow> False) \<Longrightarrow>
           gs_entries st' = AList.update (toNonceStorageKey (rq_agentDid r) (rq_nonce r))
             (record_js now (now + rq_ttlMs r)) (gs_entries st) \<and>
           js_get (resp_body resp) ''accepted'' = JBool True \<and>
           js_get (resp_body resp) ''expiresAt'' = JNum (now + rq_ttlMs r)"
proof -
  let ?k = "toNonceStorageKey (rq_agentDid r) (rq_nonce r)"
  obtain b where b: "payload = Some b" "parseTryAcceptBody b = Some r"
    "now = (case rq_nowMs r of None \<Rightarrow> clock | Some t \<Rightarrow> t)"
    using assms(2) by (auto simp: request_of_def split: option.splits)
  have entry: "map_of (gs_entries st) ?k = None \<or> (\<exists>s x. map_of (gs_entries st) ?k = Some (record_js s x))"
    by (rule guard_entry [OF assms(1)])
  have gt: "js_gt coerce (js_get (record_js s x) ''expiresAt'') now \<longleftrightarrow> x > now" "js_truthy (record_js s x)" for s x
    by (simp_all add: record_js_def)
  show "st' = st \<and> js_get (resp_body resp) ''accepted'' = JBool False"
    if "case guard_live st (rq_agentDid r, rq_nonce r) of Some x \<Rightarrow> x > now | None \<Rightarrow> False"
    using that entry assms(3) gt
    by (auto simp: NonceReplayGuard_fetch_def handleTryAccept_def b Let_def record_js_def)
  show "gs_entries st' = AList.update ?k (record_js now (now + rq_ttlMs r)) (gs_entries st) \<and>
      js_get (resp_body resp) ''accepted'' = JBool True \<and> js_get (resp_body resp) ''expiresAt'' = JNum (now + rq_ttlMs r)"
    if "\<not> (case guard_live st (rq_agentDid r, rq_nonce r) of Some x \<Rightarrow> x > now | None \<Rightarrow> False)"
    using that entry assms(3) gt
    by (auto simp: NonceReplayGuard_fetch_def handleTryAccept_def b Let_def record_js_def split: option.splits if_splits)
qed

lemma guard_live_update:
  "gs_entries st' = AList.update (toNonceStorageKey a n) (record_js s x) (gs_entries st) \<Longrightarrow>
   guard_live st' k = (if k = (a, n) then Some x else guard_live st k)"
  by (cases k) (auto simp: update_conv' toNonceStorageKey_inject record_js_def)

lemma guard_alarm_live:
  assumes "guard_inv st"
  shows "guard_live (NonceReplayGuard_alarm now st) k =
     (case guard_live st k of None \<Rightarrow> None | Some x \<Rightarrow> if x \<le> now then None else Some x)"
proof -
  obtain a n where k: "k = (a, n)" by (cases k)
  let ?k = "toNonceStorageKey a n"
  have "map_of (gs_entries st) ?k = None \<or> (\<exists>s x. map_of (gs_entries st) ?k = Some (record_js s x))"
    by (rule guard_entry [OF assms])
  then show ?thesis
    using assms
    by (auto simp: k NonceReplayGuard_alarm_def guard_inv_def map_of_alist_prune guard_entry_expired_def record_js_def)
qed

lemma guard_inv_step: "guard_inv st \<Longrightarrow> guard_inv (guard_step coerce e st)"
proof -
  assume inv: "guard_inv st"
  show ?thesis
  proof (cases e)
    case (GuardAlarm now)
    then show ?thesis using inv
      by (auto simp: guard_inv_def NonceReplayGuard_alarm_def set_alist_prune)
  next
    case (GuardRequest clock payload)
    obtain resp st' where f: "NonceReplayGuard_fetch coerce clock ''POST'' ''/nonce/try-accept'' payload st = (resp, st')"
      by fastforce
    show ?thesis
    proof (cases "request_of (GuardRequest clock payload)")
      case None
      then show ?thesis using inv GuardRequest guard_request_invalid by simp
    next
      case (Some nr)
      obtain now r where nr: "nr = (now, r)" by fastforce
      note req = guard_request [OF inv Some [unfolded nr] f]
      have "guard_inv st'" if "gs_entries st' = AList.update k (record_js s x) (gs_entries st)" for k s x
        unfolding guard_inv_def that
        using alist_update_good [of "gs_entries st" "\<lambda>_ v. \<exists>a b. v = record_js a b"] inv unfolding guard_inv_def by blast
      then show ?thesis using req inv f GuardRequest by auto
    qed
  qed
qed

lemma guard_step_live:
  assumes "guard_inv st" and "guard_live st k = Some x" and "guard_time e < x"
  shows "guard_live (guard_step coerce e st) k = Some x \<and> (\<forall>x'. guard_accepts coerce e st \<noteq> Some (k, x'))"
proof (cases e)
  case (GuardAlarm now)
  then show ?thesis using assms by (simp add: guard_alarm_live del: guard_live.simps)
next
  case (GuardRequest clock payload)
  obtain resp st' where f: "NonceReplayGuard_fetch coerce clock ''POST'' ''/nonce/try-accept'' payload st = (resp, st')"
    by fastforce
  show ?thesis
  proof (cases "request_of (GuardRequest clock payload)")
    case None
    then show ?thesis using assms GuardRequest guard_request_invalid by (simp del: guard_live.simps)
  next
    case (Some nr)
    obtain now r where nr: "nr = (now, r)" by fastforce
    note req = guard_request [OF assms(1) Some [unfolded nr] f]
    show ?thesis
    proof (cases "case guard_live st (rq_agentDid r, rq_nonce r) of Some x \<Rightarrow> x > now | None \<Rightarrow> False")
      case True
      then show ?thesis using req(1) [OF True] assms(2) f GuardRequest Some nr by (simp del: guard_live.simps)
    next
      case False
      then have "k \<noteq> (rq_agentDid r, rq_nonce r)" using assms(2,3) GuardRequest Some nr by (auto simp del: guard_live.simps)
      then show ?thesis
        using guard_live_update [OF conjunct1 [OF req(2) [OF False]], of k] assms(2) f GuardRequest Some nr
        by (auto simp: Let_def simp del: guard_live.simps)
    qed
  qed
qed

lemma guard_accepts_Some:
  assumes "guard_inv st" and "guard_accepts coerce e st = Some (k, x)"
  shows "guard_live (guard_step coerce e st) k = Some x \<and>
         (\<exists>r. request_of e = Some (guard_time e, r) \<and> k = (rq_agentDid r, rq_nonce r) \<and> x = guard_time e + rq_ttlMs r)"
proof -
  obtain clock payload where e: "e = GuardRequest clock payload" using assms(2) by (cases e) auto
  then obtain now r where r: "request_of e = Some (now, r)" using assms(2) by (auto split: option.splits)
  obtain resp st' where f: "NonceReplayGuard_fetch coerce clock ''POST'' ''/nonce/try-accept'' payload st = (resp, st')"
    by fastforce
  note req = guard_request [OF assms(1) r [unfolded e] f]
  have acc: "js_get (resp_body resp) ''accepted'' = JBool True" "k = (rq_agentDid r, rq_nonce r)"
    "x = js_num (js_get (resp_body resp) ''expiresAt'')"
    using assms(2) f e r by (auto simp: Let_def split: if_splits)
  then have "\<not> (case guard_live st (rq_agentDid r, rq_nonce r) of Some x \<Rightarrow> x > now | None \<Rightarrow> False)" using req(1) by auto
  note req = req(2) [OF this]
  then have "x = now + rq_ttlMs r" using acc(3) by simp
  then show ?thesis
    using guard_live_update [OF conjunct1 [OF req], of k] acc(2) e f r by (simp del: guard_live.simps)
qed

interpretation guard: nonce_guard "guard_step coerce" "guard_accepts coerce" guard_live guard_time guard_inv for coerce
proof unfold_locales
  show "guard_inv s \<Longrightarrow> guard_inv (guard_step coerce e s)" for s e by (rule guard_inv_step)
  show "guard_inv s \<Longrightarrow> guard_accepts coerce e s = Some (k, x) \<Longrightarrow> guard_live (guard_step coerce e s) k = Some x" for s e k x
    using guard_accepts_Some by blast
  show "guard_inv s \<Longrightarrow> guard_live s k = Some x \<Longrightarrow> guard_time e < x \<Longrightarrow> guard_live (guard_step coerce e s) k = Some x"
    for s k x e using guard_step_live by blast
  show "guard_inv s \<Longrightarrow> guard_live s k = Some x \<Longrightarrow> guard_time e < x \<Longrightarrow> guard_accepts coerce e s = Some (k', x') \<Longrightarrow> k' \<noteq> k"
    for s k x e k' x' using guard_step_live by blast
qed

text \<open>
  (C32) The durable replay guard accepts no nonce of an agent twice within the lifetime the first
  request asked for, whatever requests and alarms happen in between.
\<close>
theorem nonce_guard_no_replay:
  assumes "guard_accepts coerce e (fold (guard_step coerce) before empty_guard) = Some (k, x)"
    and "\<forall>f \<in> set between. guard_time f < x" and "guard_time e' < x"
  shows "guard_accepts coerce e' (fold (guard_step coerce) (before @ e # between) empty_guard) \<noteq> Some (k, x')"
    (is "guard_accepts coerce e' ?st \<noteq> _")
proof
  assume again: "guard_accepts coerce e' ?st = Some (k, x')"
  have "guard_inv (fold (guard_step coerce) before empty_guard)"
    by (rule guard.inv_run) (simp add: guard_inv_def empty_guard_def)
  from guard.not_accepted_twice [OF this assms(1), of between e' k x'] show False using assms(2,3) again by simp
qed

definition demo_request :: "ms \<Rightarrow> guard_event" where
  "demo_request now = GuardRequest 0 (Some (JObj [(''agentDid'', JStr ''a''), (''nonce'', JStr ''n''),
     (''ttlMs'', JNum 10), (''nowMs'', JNum now)]))"

lemma demo_request_of:
  "js_is_integer now \<Longrightarrow> 0 \<le> now \<Longrightarrow> request_of (demo_request now) =
     Some (now, \<lparr>rq_agentDid = ''a'', rq_nonce = ''n'', rq_ttlMs = 10, rq_nowMs = Some now\<rparr>)"
  by (simp add: request_of_def demo_request_def parseTryAcceptBody_def trim_noop is_ws_def)

lemma guard_reachable_inv: "guard_inv (fold (guard_step coerce) events empty_guard)"
  by (rule guard.inv_run) (simp add: guard_inv_def empty_guard_def)

lemma guard_accepts_exactly:
  assumes "guard_inv st" and "request_of e = Some (now, r)"
  shows "guard_accepts coerce e st =
           (if \<exists>x. guard_live st (rq_agentDid r, rq_nonce r) = Some x \<and> now < x then None
            else Some ((rq_agentDid r, rq_nonce r), now + rq_ttlMs r)) \<and>
         (k \<noteq> (rq_agentDid r, rq_nonce r) \<longrightarrow> guard_live (guard_step coerce e st) k = guard_live st k)"
proof -
  let ?k = "(rq_agentDid r, rq_nonce r)"
  obtain clock payload where e: "e = GuardRequest clock payload" using assms(2) by (cases e) (auto simp: request_of_def)
  obtain resp st' where f: "NonceReplayGuard_fetch coerce clock ''POST'' ''/nonce/try-accept'' payload st = (resp, st')"
    by fastforce
  note req = guard_request [OF assms(1) assms(2) [unfolded e] f]
  show ?thesis
  proof (cases "case guard_live st ?k of Some x \<Rightarrow> x > now | None \<Rightarrow> False")
    case True
    then have "\<exists>x. guard_live st ?k = Some x \<and> now < x" by (auto split: option.splits)
    then show ?thesis using req(1) [OF True] f e assms(2) by (simp del: guard_live.simps)
  next
    case False
    then have "\<not> (\<exists>x. guard_live st ?k = Some x \<and> now < x)" by (auto simp del: guard_live.simps)
    then show ?thesis using req(2) [OF False] guard_live_update [OF conjunct1 [OF req(2) [OF False]], of k] f e assms(2)
      by (simp del: guard_live.simps)
  qed
qed

theorem nonce_guard_no_replay_witness:
  "guard_accepts (\<lambda>_. None) (demo_request 9)
     (fold (guard_step (\<lambda>_. None)) ([GuardAlarm 1] @ demo_request 5 # [GuardAlarm 7]) empty_guard) \<noteq>
   Some ((''a'', ''n''), 19)"
proof (rule nonce_guard_no_replay)
  have "guard_live (fold (guard_step (\<lambda>_. None)) [GuardAlarm 1] empty_guard) k = None" for k
    by (cases k) (simp add: NonceReplayGuard_alarm_def empty_guard_def alist_prune_def)
  moreover have "request_of (demo_request 5) =
      Some (5, \<lparr>rq_agentDid = ''a'', rq_nonce = ''n'', rq_ttlMs = 10, rq_nowMs = Some 5\<rparr>)"
    by (rule demo_request_of) simp_all
  ultimately show "guard_accepts (\<lambda>_. None) (demo_request 5) (fold (guard_step (\<lambda>_. None)) [GuardAlarm 1] empty_guard) =
      Some ((''a'', ''n''), 15)"
    using guard_accepts_exactly [OF guard_reachable_inv [of "\<lambda>_. None" "[GuardAlarm 1]"], of "demo_request 5" 5 _ "\<lambda>_. None"]
    by (simp del: guard_live.simps)
  show "guard_time (demo_request 9) < 15"
    using demo_request_of [of 9] by (simp add: demo_request_def)
qed simp

text \<open>
  In every reachable state the durable replay guard accepts a well-formed request exactly when
  that very nonce of that very agent is not live, until now plus the requested lifetime; the nonces
  of all other (agent, nonce) pairs are untouched, so no two pairs share a storage key.
\<close>
theorem nonce_guard_accepts_exactly_fresh:
  assumes "request_of e = Some (now, r)"
  shows "let st = fold (guard_step coerce) events empty_guard; k = (rq_agentDid r, rq_nonce r) in
         guard_accepts coerce e st =
           (if \<exists>x. guard_live st k = Some x \<and> now < x then None else Some (k, now + rq_ttlMs r)) \<and>
         (k' \<noteq> k \<longrightarrow> guard_live (guard_step coerce e st) k' = guard_live st k')"
  unfolding Let_def by (rule guard_accepts_exactly [OF guard_reachable_inv assms])

theorem nonce_guard_accepts_exactly_fresh_witness:
  "guard_accepts (\<lambda>_. None) (demo_request 5) empty_guard = Some ((''a'', ''n''), 15)"
proof -
  have r: "request_of (demo_request 5) = Some (5, \<lparr>rq_agentDid = ''a'', rq_nonce = ''n'', rq_ttlMs = 10, rq_nowMs = Some 5\<rparr>)"
    by (rule demo_request_of) simp_all
  show ?thesis
    using nonce_guard_accepts_exactly_fresh [OF r, of "\<lambda>_. None" "[]" "([], [])"] by (simp add: empty_guard_def Let_def)
qed

end
