(* ===== verification/Claims.thy ===== *)
theory Claims
  imports Pairing_Ticket
begin

text \<open>
  The claims of identity tokens and revocation lists: \<open>packages/protocol/src/ait.ts\<close> and \<open>crl.ts\<close>, the
  verification of the tokens that carry them (\<open>packages/sdk/src/jwt/ait-jwt.ts\<close>, \<open>crl-jwt.ts\<close>), and the message
  an agent signs to register (\<open>agent-registration-proof.ts\<close>).

  The npm package zod reads the shape of an object (that it has exactly the named properties, of the
  named types); that reading is a parameter (\<open>ait_shape\<close>, \<open>crl_shape\<close>). What the schemas demand beyond the
  shape is defined here. The package jose is a parameter as well: reading the protected header of a
  token, and checking a token under a key for a type and an issuer.
\<close>

section \<open>Issuers (ait.ts, crl.ts)\<close>

definition is_url_stop :: "char \<Rightarrow> bool" where
  "is_url_stop c \<longleftrightarrow> c \<in> {CHR ''/'', CHR ''?'', CHR ''#''}"

text \<open>The group of \<open>/^https?:\/\/([^/?#]+)(?:[/?#]|$)/i\<close>.\<close>
definition issuer_authority :: "string \<Rightarrow> string option" where
  "issuer_authority issuer =
     (let rest = (if startsWith (toLowerCase issuer) ''http://'' then Some (drop 7 issuer)
                  else if startsWith (toLowerCase issuer) ''https://'' then Some (drop 8 issuer) else None) in
      case rest of None \<Rightarrow> None
      | Some r \<Rightarrow> if takeWhile (\<lambda>c. \<not> is_url_stop c) r = [] then None else Some (takeWhile (\<lambda>c. \<not> is_url_stop c) r))"

definition all_digits :: "string \<Rightarrow> bool" where
  "all_digits s \<longleftrightarrow> list_all (\<lambda>c. 48 \<le> (of_char c :: nat) \<and> (of_char c :: nat) \<le> 57) s"

definition parseIssuerHostname :: "string \<Rightarrow> string option" where
  "parseIssuerHostname issuer =
     (case issuer_authority issuer of None \<Rightarrow> None
      | Some authoritySegment \<Rightarrow>
          if CHR ''@'' \<in> set authoritySegment \<or> startsWith authoritySegment ''['' then None
          else (case js_split (CHR '':'') authoritySegment of
                  [hostname] \<Rightarrow> if hostname = [] then None else Some (toLowerCase hostname)
                | [hostname, rawPort] \<Rightarrow>
                    if hostname = [] \<or> (rawPort \<noteq> [] \<and> \<not> all_digits rawPort) then None else Some (toLowerCase hostname)
                | _ \<Rightarrow> None))"

section \<open>Identity tokens (ait.ts)\<close>

definition MAX_AGENT_NAME_LENGTH :: nat where "MAX_AGENT_NAME_LENGTH = 64"
definition MAX_AGENT_DESCRIPTION_LENGTH :: nat where "MAX_AGENT_DESCRIPTION_LENGTH = 280"
definition MAX_FRAMEWORK_LENGTH :: nat where "MAX_FRAMEWORK_LENGTH = 32"
definition ED25519_PUBLIC_KEY_LENGTH :: nat where "ED25519_PUBLIC_KEY_LENGTH = 32"

text \<open>\<open>/^[A-Za-z0-9._ -]{1,64}$/\<close>\<close>
definition agent_name_char :: "char \<Rightarrow> bool" where
  "agent_name_char c \<longleftrightarrow>
     (let n = (of_char c :: nat) in
      65 \<le> n \<and> n \<le> 90 \<or> 97 \<le> n \<and> n \<le> 122 \<or> 48 \<le> n \<and> n \<le> 57 \<or> c \<in> {CHR ''.'', CHR ''_'', CHR '' '', CHR ''-''})"

definition validateAgentName :: "string \<Rightarrow> bool" where
  "validateAgentName name \<longleftrightarrow> 1 \<le> length name \<and> length name \<le> MAX_AGENT_NAME_LENGTH \<and> list_all agent_name_char name"

record AitClaims =
  ait_iss :: string
  ait_sub :: string
  ait_ownerDid :: string
  ait_name :: string
  ait_framework :: string
  ait_description :: "string option"
  ait_kty :: string
  ait_crv :: string
  ait_x :: string
  ait_iat :: real
  ait_nbf :: real
  ait_exp :: real
  ait_jti :: string

text \<open>\<open>z.number().int().nonnegative()\<close>; from version 4 on zod demands a safe integer.\<close>
definition nonneg_int :: "real \<Rightarrow> bool" where
  "nonneg_int x \<longleftrightarrow> js_is_safe_integer x \<and> 0 \<le> x"

text \<open>\<open>aitClaimsSchema\<close> on an object of the right shape.\<close>
definition aitClaimsSchema :: "runtime \<Rightarrow> AitClaims \<Rightarrow> bool" where
  "aitClaimsSchema rt claims \<longleftrightarrow>
     ait_iss claims \<noteq> [] \<and> ait_sub claims \<noteq> [] \<and> ait_ownerDid claims \<noteq> [] \<and> validateAgentName (ait_name claims) \<and>
     ait_framework claims \<noteq> [] \<and> length (ait_framework claims) \<le> MAX_FRAMEWORK_LENGTH \<and> \<not> hasControlChars (ait_framework claims) \<and>
     (case ait_description claims of None \<Rightarrow> True
      | Some d \<Rightarrow> length d \<le> MAX_AGENT_DESCRIPTION_LENGTH \<and> \<not> hasControlChars d) \<and>
     ait_kty claims = ''OKP'' \<and> ait_crv claims = ''Ed25519'' \<and> ait_x claims \<noteq> [] \<and>
     nonneg_int (ait_iat claims) \<and> nonneg_int (ait_nbf claims) \<and> nonneg_int (ait_exp claims) \<and> ait_jti claims \<noteq> [] \<and>
     (case parseIssuerHostname (ait_iss claims) of None \<Rightarrow> False
      | Some issuerAuthority \<Rightarrow>
          (case parseAgentDid (ulids rt) (ait_sub claims) of Inl _ \<Rightarrow> False | Inr p \<Rightarrow> did_authority p = issuerAuthority) \<and>
          (case parseHumanDid (ulids rt) (ait_ownerDid claims) of Inl _ \<Rightarrow> False | Inr p \<Rightarrow> did_authority p = issuerAuthority)) \<and>
     (case decodeBase64url rt (ait_x claims) of Inl _ \<Rightarrow> False | Inr bs \<Rightarrow> length bs = ED25519_PUBLIC_KEY_LENGTH) \<and>
     (case parseUlid (ulids rt) (ait_jti claims) of Inl _ \<Rightarrow> False | Inr _ \<Rightarrow> True) \<and>
     ait_nbf claims < ait_exp claims \<and> ait_iat claims < ait_exp claims"

section \<open>Revocation lists (crl.ts)\<close>

record Revocation =
  rv_jti :: string
  rv_agentDid :: string
  rv_reason :: "string option"
  rv_revokedAt :: real

record CrlClaims =
  crl_iss :: string
  crl_jti :: string
  crl_iat :: real
  crl_exp :: real
  crl_revocations :: "Revocation list"

definition crlClaimsSchema :: "ulid_lib \<Rightarrow> CrlClaims \<Rightarrow> bool" where
  "crlClaimsSchema ul claims \<longleftrightarrow>
     crl_iss claims \<noteq> [] \<and> crl_jti claims \<noteq> [] \<and> nonneg_int (crl_iat claims) \<and> nonneg_int (crl_exp claims) \<and>
     crl_revocations claims \<noteq> [] \<and>
     list_all (\<lambda>r. rv_jti r \<noteq> [] \<and> rv_agentDid r \<noteq> [] \<and>
                (case rv_reason r of None \<Rightarrow> True | Some s \<Rightarrow> length s \<le> 280) \<and> nonneg_int (rv_revokedAt r) \<and>
                \<not> hasControlChars (rv_agentDid r)) (crl_revocations claims) \<and>
     (case parseIssuerHostname (crl_iss claims) of None \<Rightarrow> False
      | Some issuerAuthority \<Rightarrow>
          list_all (\<lambda>r. (case parseAgentDid ul (rv_agentDid r) of Inl _ \<Rightarrow> False | Inr p \<Rightarrow> did_authority p = issuerAuthority) \<and>
                        (case parseUlid ul (rv_jti r) of Inl _ \<Rightarrow> False | Inr _ \<Rightarrow> True)) (crl_revocations claims)) \<and>
     crl_iat claims < crl_exp claims"

section \<open>Tokens (ait-jwt.ts, crl-jwt.ts)\<close>

text \<open>
  \<open>token_header\<close>: \<open>decodeProtectedHeader\<close>. \<open>token_payload\<close>: \<open>decodeJwt\<close>. \<open>token_verify now token x typ issuer\<close>: the
  payload that \<open>jwtVerify\<close> returns at time \<open>now\<close> for the Ed25519 key \<open>x\<close>. \<open>token_sign typ kid payload x d\<close>:
  \<open>SignJWT\<close>. \<open>None\<close> when they throw. \<open>ait_value\<close> and \<open>crl_value\<close> are the claims as JavaScript objects.
\<close>
record jose_lib =
  token_header :: "string \<Rightarrow> jsval option"
  token_payload :: "string \<Rightarrow> jsval option"
  token_verify :: "ms \<Rightarrow> string \<Rightarrow> string \<Rightarrow> string \<Rightarrow> string option \<Rightarrow> jsval option"
  token_sign :: "string \<Rightarrow> string \<Rightarrow> jsval \<Rightarrow> string \<Rightarrow> string \<Rightarrow> string option"
  ait_shape :: "jsval \<Rightarrow> AitClaims option"
  crl_shape :: "jsval \<Rightarrow> CrlClaims option"

definition opt_field :: "string \<Rightarrow> string option \<Rightarrow> (string \<times> jsval) list" where
  "opt_field k v = (case v of None \<Rightarrow> [] | Some s \<Rightarrow> [(k, JStr s)])"

definition ait_value :: "AitClaims \<Rightarrow> jsval" where
  "ait_value c = JObj ([(''iss'', JStr (ait_iss c)), (''sub'', JStr (ait_sub c)), (''ownerDid'', JStr (ait_ownerDid c)),
     (''name'', JStr (ait_name c)), (''framework'', JStr (ait_framework c))] @ opt_field ''description'' (ait_description c) @
     [(''cnf'', JObj [(''jwk'', JObj [(''kty'', JStr (ait_kty c)), (''crv'', JStr (ait_crv c)), (''x'', JStr (ait_x c))])]),
      (''iat'', JNum (ait_iat c)), (''nbf'', JNum (ait_nbf c)), (''exp'', JNum (ait_exp c)), (''jti'', JStr (ait_jti c))])"

definition revocation_value :: "Revocation \<Rightarrow> jsval" where
  "revocation_value r = JObj ([(''jti'', JStr (rv_jti r)), (''agentDid'', JStr (rv_agentDid r))] @
     opt_field ''reason'' (rv_reason r) @ [(''revokedAt'', JNum (rv_revokedAt r))])"

definition crl_value :: "CrlClaims \<Rightarrow> jsval" where
  "crl_value c = JObj [(''iss'', JStr (crl_iss c)), (''jti'', JStr (crl_jti c)), (''iat'', JNum (crl_iat c)),
     (''exp'', JNum (crl_exp c)), (''revocations'', JArr (map revocation_value (crl_revocations c)))]"

definition parseAitClaims :: "runtime \<Rightarrow> jose_lib \<Rightarrow> jsval \<Rightarrow> AitClaims option" where
  "parseAitClaims rt jl v =
     (case ait_shape jl v of None \<Rightarrow> None | Some c \<Rightarrow> if aitClaimsSchema rt c then Some c else None)"

definition parseCrlClaims :: "ulid_lib \<Rightarrow> jose_lib \<Rightarrow> jsval \<Rightarrow> CrlClaims option" where
  "parseCrlClaims ul jl v =
     (case crl_shape jl v of None \<Rightarrow> None | Some c \<Rightarrow> if crlClaimsSchema ul c then Some c else None)"

text \<open>A verification key: the id and the public key.\<close>
record VerificationKey =
  vk_kid :: string
  vk_x :: string

datatype jwt_error = InvalidHeader string | UnknownKid string | JwtForeign

definition header_kid :: "string \<Rightarrow> jsval \<Rightarrow> (jwt_error, string) result" where
  "header_kid typ header =
     (if js_get header ''alg'' \<noteq> JStr ''EdDSA'' then Inl (InvalidHeader (typ @ '' token must use alg=EdDSA''))
      else if js_get header ''typ'' \<noteq> JStr typ then Inl (InvalidHeader (typ @ '' token must use typ='' @ typ))
      else (case js_get header ''kid'' of
              JStr kid \<Rightarrow> if kid = [] then Inl (InvalidHeader (typ @ '' token missing protected kid header'')) else Inr kid
            | _ \<Rightarrow> Inl (InvalidHeader (typ @ '' token missing protected kid header''))))"

definition ensureAitProtectedHeader :: "jsval \<Rightarrow> (jwt_error, string) result" where
  "ensureAitProtectedHeader header = header_kid ''AIT'' header"

definition verifyAIT :: "runtime \<Rightarrow> jose_lib \<Rightarrow> ms \<Rightarrow> string \<Rightarrow> VerificationKey list \<Rightarrow> string option \<Rightarrow> (jwt_error, AitClaims) result" where
  "verifyAIT rt jl now token registryKeys expectedIssuer =
     bindE (of_option JwtForeign (token_header jl token)) (\<lambda>header.
     bindE (ensureAitProtectedHeader header) (\<lambda>kid.
     bindE (of_option (UnknownKid kid) (find (\<lambda>item. vk_kid item = kid) registryKeys)) (\<lambda>key.
     bindE (of_option JwtForeign (token_verify jl now token (vk_x key) ''AIT'' expectedIssuer)) (\<lambda>payload.
     of_option JwtForeign (parseAitClaims rt jl payload)))))"

definition verifyCRL :: "ulid_lib \<Rightarrow> jose_lib \<Rightarrow> ms \<Rightarrow> string \<Rightarrow> VerificationKey list \<Rightarrow> string option \<Rightarrow> (jwt_error, CrlClaims) result" where
  "verifyCRL ul jl now token registryKeys expectedIssuer =
     bindE (of_option JwtForeign (token_header jl token)) (\<lambda>header.
     bindE (header_kid ''CRL'' header) (\<lambda>kid.
     bindE (of_option (UnknownKid kid) (find (\<lambda>entry. vk_kid entry = kid) registryKeys)) (\<lambda>key.
     bindE (of_option JwtForeign (token_verify jl now token (vk_x key) ''CRL'' expectedIssuer)) (\<lambda>payload.
     of_option JwtForeign (parseCrlClaims ul jl payload)))))"

definition decodeAIT :: "runtime \<Rightarrow> jose_lib \<Rightarrow> string \<Rightarrow> (jwt_error, string \<times> AitClaims) result" where
  "decodeAIT rt jl token =
     bindE (of_option JwtForeign (token_header jl token)) (\<lambda>header.
     bindE (ensureAitProtectedHeader header) (\<lambda>kid.
     bindE (of_option JwtForeign (token_payload jl token)) (\<lambda>payload.
     bindE (of_option JwtForeign (parseAitClaims rt jl payload)) (\<lambda>claims. Inr (kid, claims)))))"

text \<open>The key pair is the two texts of \<open>encodeEd25519KeypairBase64url\<close>.\<close>
definition signAIT :: "runtime \<Rightarrow> jose_lib \<Rightarrow> AitClaims \<Rightarrow> string \<Rightarrow> bytes \<times> bytes \<Rightarrow> (jwt_error, string) result" where
  "signAIT rt jl claims0 signerKid keypair =
     bindE (of_option JwtForeign (parseAitClaims rt jl (ait_value claims0))) (\<lambda>claims.
     of_option JwtForeign (token_sign jl ''AIT'' signerKid (ait_value claims)
       (encodeBase64url rt (fst keypair)) (encodeBase64url rt (snd keypair))))"

definition signCRL :: "runtime \<Rightarrow> jose_lib \<Rightarrow> CrlClaims \<Rightarrow> string \<Rightarrow> bytes \<times> bytes \<Rightarrow> (jwt_error, string) result" where
  "signCRL rt jl claims0 signerKid keypair =
     bindE (of_option JwtForeign (parseCrlClaims (ulids rt) jl (crl_value claims0))) (\<lambda>claims.
     of_option JwtForeign (token_sign jl ''CRL'' signerKid (crl_value claims)
       (encodeBase64url rt (fst keypair)) (encodeBase64url rt (snd keypair))))"

section \<open>The registration message (agent-registration-proof.ts)\<close>

record AgentRegistrationProofMessageInput =
  rp_challengeId :: string
  rp_nonce :: string
  rp_ownerDid :: string
  rp_publicKey :: string
  rp_name :: string
  rp_framework :: "string option"
  rp_ttlDays :: "int option"

definition AGENT_REGISTRATION_PROOF_VERSION :: string where
  "AGENT_REGISTRATION_PROOF_VERSION = ''clawdentity.register.v1''"

definition opt_text :: "string option \<Rightarrow> string" where
  "opt_text v = (case v of None \<Rightarrow> [] | Some s \<Rightarrow> s)"

definition canonicalizeAgentRegistrationProof :: "AgentRegistrationProofMessageInput \<Rightarrow> string" where
  "canonicalizeAgentRegistrationProof i =
     js_join newline
       [AGENT_REGISTRATION_PROOF_VERSION, ''challengeId:'' @ rp_challengeId i, ''nonce:'' @ rp_nonce i,
        ''ownerDid:'' @ rp_ownerDid i, ''publicKey:'' @ rp_publicKey i, ''name:'' @ rp_name i,
        ''framework:'' @ opt_text (rp_framework i), ''ttlDays:'' @ opt_text (map_option int_str (rp_ttlDays i))]"

section \<open>What a verified token says\<close>

lemma find_Some_in: "find P xs = Some x \<Longrightarrow> x \<in> set xs \<and> P x"
  by (auto simp: find_Some_iff)

lemma parseAitClaims_Some: "parseAitClaims rt jl v = Some c \<longleftrightarrow> ait_shape jl v = Some c \<and> aitClaimsSchema rt c"
  by (auto simp: parseAitClaims_def split: option.splits)

lemma parseCrlClaims_Some: "parseCrlClaims ul jl v = Some c \<longleftrightarrow> crl_shape jl v = Some c \<and> crlClaimsSchema ul c"
  by (auto simp: parseCrlClaims_def split: option.splits)

text \<open>
  A token is accepted exactly under a key of the list that its header names, when the library
  accepts it for the type and the issuer, and its claims pass the schema.
\<close>
lemma verifyAIT_iff:
  "verifyAIT rt jl now token keys issuer = Inr c \<longleftrightarrow>
     (\<exists>header kid key payload. token_header jl token = Some header \<and> ensureAitProtectedHeader header = Inr kid \<and>
        find (\<lambda>item. vk_kid item = kid) keys = Some key \<and> token_verify jl now token (vk_x key) ''AIT'' issuer = Some payload \<and>
        ait_shape jl payload = Some c \<and> aitClaimsSchema rt c)"
  by (auto simp: verifyAIT_def parseAitClaims_Some)

lemma verifyCRL_iff:
  "verifyCRL ul jl now token keys issuer = Inr c \<longleftrightarrow>
     (\<exists>header kid key payload. token_header jl token = Some header \<and> header_kid ''CRL'' header = Inr kid \<and>
        find (\<lambda>item. vk_kid item = kid) keys = Some key \<and> token_verify jl now token (vk_x key) ''CRL'' issuer = Some payload \<and>
        crl_shape jl payload = Some c \<and> crlClaimsSchema ul c)"
  by (auto simp: verifyCRL_def parseCrlClaims_Some)

lemma aitClaimsSchema_authority:
  assumes "aitClaimsSchema rt c"
  shows "\<exists>h p q. parseIssuerHostname (ait_iss c) = Some h \<and> parseAgentDid (ulids rt) (ait_sub c) = Inr p \<and> did_authority p = h \<and>
    parseHumanDid (ulids rt) (ait_ownerDid c) = Inr q \<and> did_authority q = h"
  using assms unfolding aitClaimsSchema_def
  by (cases "parseIssuerHostname (ait_iss c)"; cases "parseAgentDid (ulids rt) (ait_sub c)"; cases "parseHumanDid (ulids rt) (ait_ownerDid c)") simp_all

lemma aitClaimsSchema_key:
  assumes "aitClaimsSchema rt c"
  shows "\<exists>bs. decodeBase64url rt (ait_x c) = Inr bs \<and> length bs = 32"
  using assms unfolding aitClaimsSchema_def ED25519_PUBLIC_KEY_LENGTH_def
  by (cases "decodeBase64url rt (ait_x c)") simp_all

end
