(* ===== verification/Request_Origin.thy ===== *)
theory Request_Origin
  imports Clawd_Prelude
begin

text \<open>
  The origin a request came to: \<open>packages/common/src/request-origin.ts\<close>. The host's \<open>URL\<close> class is the
  parameter \<open>url_lib\<close>.
\<close>

text \<open>A parsed URL and what the host's \<open>URL\<close> class does: parsing and the assignment of three properties.\<close>
record parsed_url =
  u_protocol :: string
  u_hostname :: string
  u_port :: string
  u_origin :: string
  u_href :: string
  u_pathname :: string
  u_search :: string

record url_lib =
  new_URL :: "string \<Rightarrow> string option \<Rightarrow> parsed_url option"
  set_protocol :: "string \<Rightarrow> parsed_url \<Rightarrow> parsed_url"
  set_hostname :: "string \<Rightarrow> parsed_url \<Rightarrow> parsed_url"
  set_port :: "string \<Rightarrow> parsed_url \<Rightarrow> parsed_url"

text \<open>A request as the middleware reads it; header names are in lower case.\<close>
record proxy_request =
  rq_method :: string
  rq_path :: string
  rq_url :: string
  rq_headers :: "(string \<times> string) list"
  rq_body :: "nat list"

definition rq_header :: "proxy_request \<Rightarrow> string \<Rightarrow> string option" where
  "rq_header rq name = map_of (rq_headers rq) name"

definition firstHeaderValue :: "string option \<Rightarrow> string option" where
  "firstHeaderValue value =
     (case value of None \<Rightarrow> None | Some v \<Rightarrow> find (\<lambda>part. length part > 0) (map trim (js_split (CHR '','') v)))"

definition normalizeHostname :: "string \<Rightarrow> string" where
  "normalizeHostname hostname =
     (let normalized = toLowerCase (trim hostname) in
      if startsWith normalized ''['' \<and> endsWith normalized '']'' then butlast (tl normalized) else normalized)"

definition isLoopbackHostname :: "string \<Rightarrow> bool" where
  "isLoopbackHostname hostname \<longleftrightarrow>
     normalizeHostname hostname \<in> {''localhost'', ''127.0.0.1'', ''0.0.0.0'', ''::1''}"

definition strip_colon :: "string \<Rightarrow> string" where
  "strip_colon s = (if endsWith s '':'' then butlast s else s)"

definition resolveRequestOrigin :: "url_lib \<Rightarrow> proxy_request \<Rightarrow> string option" where
  "resolveRequestOrigin ul rq =
     (let fallbackUrl = new_URL ul (rq_url rq) None;
          host = (case firstHeaderValue (rq_header rq ''x-forwarded-host'') of
                    Some h \<Rightarrow> Some h | None \<Rightarrow> firstHeaderValue (rq_header rq ''host''))
      in case host of
           None \<Rightarrow> map_option u_origin fallbackUrl
         | Some h \<Rightarrow>
             let proto = (case firstHeaderValue (rq_header rq ''x-forwarded-proto'') of
                            Some p \<Rightarrow> p
                          | None \<Rightarrow> (case fallbackUrl of Some u \<Rightarrow> strip_colon (u_protocol u) | None \<Rightarrow> ''https''))
             in (case new_URL ul (proto @ ''://'' @ h) None of
                   Some u \<Rightarrow> Some (u_origin u)
                 | None \<Rightarrow> map_option u_origin fallbackUrl))"

end
