(* ===== verification/Agent_Registration.thy ===== *)
theory Agent_Registration
  imports Http_Signature Claims Date_Time Request_Origin
begin

text \<open>
  Registering an agent, up to the database: \<open>apps/registry/src/agent-registration/\<close>. A human asks for a
  challenge, the agent signs a message that names the challenge and what is to be registered, and the
  registry builds the agent and the claims of its first identity token; a token can be reissued later.

  Clock readings, fresh ids and random bytes are arguments. \<open>Date.parse\<close> of a text that \<open>toISOString\<close> has
  just printed is the time itself. Errors carry code, message and status, not the details.

  Shown: the exact condition under which a registration proof is accepted, that the signed message
  determines what is registered, that the claims of a registration always pass the checks of the protocol
  (so that the token verifies everywhere), and the one second in which a reissue cannot succeed.
\<close>

section \<open>Environments and issuers (constants.ts, runtime-environment.ts)\<close>

datatype RuntimeEnvironment = EnvLocal | EnvDevelopment | EnvProduction

definition shouldExposeVerboseErrors :: "RuntimeEnvironment \<Rightarrow> bool" where
  "shouldExposeVerboseErrors environment \<longleftrightarrow> environment \<noteq> EnvProduction"

definition DEFAULT_AGENT_FRAMEWORK :: string where "DEFAULT_AGENT_FRAMEWORK = ''generic''"
definition DEFAULT_AGENT_TTL_DAYS :: real where "DEFAULT_AGENT_TTL_DAYS = 30"
definition MIN_AGENT_TTL_DAYS :: real where "MIN_AGENT_TTL_DAYS = 1"
definition MAX_AGENT_TTL_DAYS :: real where "MAX_AGENT_TTL_DAYS = 90"
definition DAY_IN_SECONDS :: real where "DAY_IN_SECONDS = 24 * 60 * 60"
definition ED25519_SIGNATURE_LENGTH :: nat where "ED25519_SIGNATURE_LENGTH = 64"
definition AGENT_REGISTRATION_CHALLENGE_TTL_SECONDS :: real where "AGENT_REGISTRATION_CHALLENGE_TTL_SECONDS = 5 * 60"

lemmas registration_constants = DEFAULT_AGENT_FRAMEWORK_def DEFAULT_AGENT_TTL_DAYS_def MIN_AGENT_TTL_DAYS_def
  MAX_AGENT_TTL_DAYS_def DAY_IN_SECONDS_def ED25519_SIGNATURE_LENGTH_def AGENT_REGISTRATION_CHALLENGE_TTL_SECONDS_def

fun REGISTRY_ISSUER_BY_ENVIRONMENT :: "RuntimeEnvironment \<Rightarrow> string" where
  "REGISTRY_ISSUER_BY_ENVIRONMENT EnvLocal = ''http://127.0.0.1:8788''"
| "REGISTRY_ISSUER_BY_ENVIRONMENT EnvDevelopment = ''https://dev.registry.clawdentity.com''"
| "REGISTRY_ISSUER_BY_ENVIRONMENT EnvProduction = ''https://registry.clawdentity.com''"

definition resolveRegistryIssuer :: "RuntimeEnvironment \<Rightarrow> string option \<Rightarrow> string" where
  "resolveRegistryIssuer environment issuerUrl =
     (case map_option trim issuerUrl of
        Some explicitIssuer \<Rightarrow> if length explicitIssuer > 0 then explicitIssuer else REGISTRY_ISSUER_BY_ENVIRONMENT environment
      | None \<Rightarrow> REGISTRY_ISSUER_BY_ENVIRONMENT environment)"

text \<open>\<open>None\<close>: an \<open>Error\<close> is thrown.\<close>
definition resolveDidAuthorityFromIssuer :: "url_lib \<Rightarrow> string \<Rightarrow> string option" where
  "resolveDidAuthorityFromIssuer ul issuer =
     (case new_URL ul issuer None of
        None \<Rightarrow> None
      | Some parsedIssuer \<Rightarrow>
          let authority = toLowerCase (trim (u_hostname parsedIssuer)) in
          if length authority = 0 then None else Some authority)"

section \<open>Errors (errors.ts)\<close>

definition hidden :: "RuntimeEnvironment \<Rightarrow> string \<Rightarrow> string" where
  "hidden environment msg = (if shouldExposeVerboseErrors environment then msg else ''Request could not be processed'')"

definition invalidRegistration :: "RuntimeEnvironment \<Rightarrow> app_error" where
  "invalidRegistration environment =
     AppError ''AGENT_REGISTRATION_INVALID'' (hidden environment ''Agent registration payload is invalid'') 400"

definition invalidRegistrationChallenge :: "RuntimeEnvironment \<Rightarrow> app_error" where
  "invalidRegistrationChallenge environment =
     AppError ''AGENT_REGISTRATION_CHALLENGE_INVALID'' (hidden environment ''Agent registration challenge payload is invalid'') 400"

definition registrationProofError :: "RuntimeEnvironment \<Rightarrow> string \<Rightarrow> string \<Rightarrow> app_error" where
  "registrationProofError environment code msg = AppError code (hidden environment msg) 400"

section \<open>Payloads (parsing.ts, types.ts)\<close>

text \<open>The messages per field, in the order of the first message.\<close>
type_synonym field_errors = "(string \<times> string list) list"

definition addFieldError :: "field_errors \<Rightarrow> string \<Rightarrow> string \<Rightarrow> field_errors" where
  "addFieldError fieldErrors field msg =
     AList.update field ((case map_of fieldErrors field of None \<Rightarrow> [] | Some errors \<Rightarrow> errors) @ [msg]) fieldErrors"

record AgentRegistrationBody =
  rb_name :: string
  rb_framework :: "string option"
  rb_publicKey :: string
  rb_ttlDays :: "real option"
  rb_challengeId :: string
  rb_challengeSignature :: string

text \<open>Each parser returns its value and the errors so far.\<close>
definition parseName :: "jsval \<Rightarrow> field_errors \<Rightarrow> string \<times> field_errors" where
  "parseName input fieldErrors =
     (case input of
        JStr s \<Rightarrow>
          let value = trim s in
          (value, if validateAgentName value then fieldErrors
                  else addFieldError fieldErrors ''name'' ''name contains invalid characters or length'')
      | _ \<Rightarrow> ([], addFieldError fieldErrors ''name'' ''name is required''))"

definition parseFramework :: "jsval \<Rightarrow> field_errors \<Rightarrow> string option \<times> field_errors" where
  "parseFramework input fieldErrors =
     (case input of
        JUndefined \<Rightarrow> (None, fieldErrors)
      | JStr s \<Rightarrow>
          let value = trim s in
          if length value = 0 then (None, addFieldError fieldErrors ''framework'' ''framework is required'')
          else
            let e1 = (if length value > MAX_FRAMEWORK_LENGTH
                      then addFieldError fieldErrors ''framework'' ''framework must be at most 32 characters'' else fieldErrors);
                e2 = (if hasControlChars value then addFieldError e1 ''framework'' ''framework contains control characters'' else e1)
            in (Some value, e2)
      | _ \<Rightarrow> (None, addFieldError fieldErrors ''framework'' ''framework must be a string''))"

text \<open>A required base64url field of a fixed number of bytes: \<open>parsePublicKey\<close>, \<open>parseChallengeSignature\<close>.\<close>
definition parse_bytes_field :: "runtime \<Rightarrow> string \<Rightarrow> string \<Rightarrow> nat \<Rightarrow> jsval \<Rightarrow> field_errors \<Rightarrow> string \<times> field_errors" where
  "parse_bytes_field rt field msg n input fieldErrors =
     (case input of
        JStr s \<Rightarrow>
          let value = trim s in
          if length value = 0 then ([], addFieldError fieldErrors field (field @ '' is required''))
          else (case decodeBase64url rt value of
                  Inl _ \<Rightarrow> (value, addFieldError fieldErrors field msg)
                | Inr bs \<Rightarrow> (value, if length bs \<noteq> n then addFieldError fieldErrors field msg else fieldErrors))
      | _ \<Rightarrow> ([], addFieldError fieldErrors field (field @ '' is required'')))"

definition parsePublicKey :: "runtime \<Rightarrow> jsval \<Rightarrow> field_errors \<Rightarrow> string \<times> field_errors" where
  "parsePublicKey rt = parse_bytes_field rt ''publicKey'' ''publicKey must be a base64url-encoded 32-byte Ed25519 key'' ED25519_PUBLIC_KEY_LENGTH"

definition parseChallengeSignature :: "runtime \<Rightarrow> jsval \<Rightarrow> field_errors \<Rightarrow> string \<times> field_errors" where
  "parseChallengeSignature rt =
     parse_bytes_field rt ''challengeSignature'' ''challengeSignature must be a base64url-encoded Ed25519 signature'' ED25519_SIGNATURE_LENGTH"

definition parseTtlDays :: "jsval \<Rightarrow> field_errors \<Rightarrow> real option \<times> field_errors" where
  "parseTtlDays input fieldErrors =
     (case input of
        JUndefined \<Rightarrow> (None, fieldErrors)
      | JNum x \<Rightarrow>
          if \<not> js_is_integer x then (None, addFieldError fieldErrors ''ttlDays'' ''ttlDays must be an integer'')
          else if x < MIN_AGENT_TTL_DAYS \<or> x > MAX_AGENT_TTL_DAYS
          then (None, addFieldError fieldErrors ''ttlDays'' ''ttlDays must be between 1 and 90'')
          else (Some x, fieldErrors)
      | _ \<Rightarrow> (None, addFieldError fieldErrors ''ttlDays'' ''ttlDays must be a number''))"

definition parseChallengeId :: "ulid_lib \<Rightarrow> jsval \<Rightarrow> field_errors \<Rightarrow> string \<times> field_errors" where
  "parseChallengeId ul input fieldErrors =
     (case input of
        JStr s \<Rightarrow>
          let value = trim s in
          if length value = 0 then ([], addFieldError fieldErrors ''challengeId'' ''challengeId is required'')
          else (value, case parseUlid ul value of
                         Inl _ \<Rightarrow> addFieldError fieldErrors ''challengeId'' ''challengeId must be a ULID'' | Inr _ \<Rightarrow> fieldErrors)
      | _ \<Rightarrow> ([], addFieldError fieldErrors ''challengeId'' ''challengeId is required''))"

text \<open>\<open>!payload || typeof payload !== "object" || Array.isArray(payload)\<close> refuses all but plain objects.\<close>
definition parseAgentRegistrationChallengeBody :: "runtime \<Rightarrow> RuntimeEnvironment \<Rightarrow> jsval \<Rightarrow> (app_error, string) result" where
  "parseAgentRegistrationChallengeBody rt environment payload =
     (case payload of
        JObj _ \<Rightarrow>
          (case parsePublicKey rt (js_get payload ''publicKey'') [] of
             (publicKey, fieldErrors) \<Rightarrow>
               if length fieldErrors > 0 then Inl (invalidRegistrationChallenge environment) else Inr publicKey)
      | _ \<Rightarrow> Inl (invalidRegistrationChallenge environment))"

definition parse_registration_fields :: "runtime \<Rightarrow> jsval \<Rightarrow> AgentRegistrationBody \<times> field_errors" where
  "parse_registration_fields rt payload =
     (case parseName (js_get payload ''name'') [] of (name, e) \<Rightarrow>
      case parseFramework (js_get payload ''framework'') e of (framework, e) \<Rightarrow>
      case parsePublicKey rt (js_get payload ''publicKey'') e of (publicKey, e) \<Rightarrow>
      case parseTtlDays (js_get payload ''ttlDays'') e of (ttlDays, e) \<Rightarrow>
      case parseChallengeId (ulids rt) (js_get payload ''challengeId'') e of (challengeId, e) \<Rightarrow>
      case parseChallengeSignature rt (js_get payload ''challengeSignature'') e of (challengeSignature, e) \<Rightarrow>
        (\<lparr>rb_name = name, rb_framework = framework, rb_publicKey = publicKey, rb_ttlDays = ttlDays,
          rb_challengeId = challengeId, rb_challengeSignature = challengeSignature\<rparr>, e))"

definition parseAgentRegistrationBody :: "runtime \<Rightarrow> RuntimeEnvironment \<Rightarrow> jsval \<Rightarrow> (app_error, AgentRegistrationBody) result" where
  "parseAgentRegistrationBody rt environment payload =
     (case payload of
        JObj _ \<Rightarrow>
          (case parse_registration_fields rt payload of
             (parsed, fieldErrors) \<Rightarrow> if length fieldErrors > 0 then Inl (invalidRegistration environment) else Inr parsed)
      | _ \<Rightarrow> Inl (invalidRegistration environment))"

section \<open>Challenges (challenge.ts)\<close>

record AgentRegistrationChallenge =
  rc_id :: string
  rc_ownerId :: string
  rc_publicKey :: string
  rc_nonce :: string
  rc_status :: string
  rc_expiresAt :: string
  rc_usedAt :: "string option"
  rc_createdAt :: string
  rc_updatedAt :: string

text \<open>The time of the call, a fresh id and the random bytes are the arguments \<open>nowMs\<close>, \<open>challengeId\<close>, \<open>nonceBytes\<close>.\<close>
definition buildAgentRegistrationChallenge ::
  "runtime \<Rightarrow> RuntimeEnvironment \<Rightarrow> ms \<Rightarrow> string \<Rightarrow> bytes \<Rightarrow> jsval \<Rightarrow> string \<Rightarrow> (app_error, AgentRegistrationChallenge) result" where
  "buildAgentRegistrationChallenge rt environment nowMs challengeId nonceBytes payload ownerId =
     bindE (parseAgentRegistrationChallengeBody rt environment payload) (\<lambda>publicKey.
     Inr \<lparr>rc_id = challengeId, rc_ownerId = ownerId, rc_publicKey = publicKey, rc_nonce = encodeBase64url rt nonceBytes,
          rc_status = ''pending'', rc_expiresAt = addSeconds nowMs AGENT_REGISTRATION_CHALLENGE_TTL_SECONDS, rc_usedAt = None,
          rc_createdAt = toIso nowMs, rc_updatedAt = toIso nowMs\<rparr>)"

section \<open>Proofs (proof.ts)\<close>

definition proof_message :: "AgentRegistrationBody \<Rightarrow> AgentRegistrationChallenge \<Rightarrow> string \<Rightarrow> AgentRegistrationProofMessageInput" where
  "proof_message body challenge ownerDid =
     \<lparr>rp_challengeId = rc_id challenge, rp_nonce = rc_nonce challenge, rp_ownerDid = ownerDid, rp_publicKey = rb_publicKey body,
      rp_name = rb_name body, rp_framework = rb_framework body, rp_ttlDays = map_option floor (rb_ttlDays body)\<rparr>"

text \<open>\<open>None\<close> as an error: the library's verification threw.\<close>
definition verifyAgentRegistrationOwnershipProof ::
  "runtime \<Rightarrow> http_crypto \<Rightarrow> (string \<Rightarrow> ms option) \<Rightarrow> RuntimeEnvironment \<Rightarrow> ms \<Rightarrow> AgentRegistrationBody \<Rightarrow> AgentRegistrationChallenge \<Rightarrow> string \<Rightarrow>
   (app_error option, unit) result" where
  "verifyAgentRegistrationOwnershipProof rt hc date_parse environment nowMs body challenge ownerDid =
     (let err = (\<lambda>code msg. Some (registrationProofError environment code msg)) in
      throw_if (rc_status challenge \<noteq> ''pending'')
        (err ''AGENT_REGISTRATION_CHALLENGE_REPLAYED'' ''Registration challenge has already been used'')
      (throw_if (case date_parse (rc_expiresAt challenge) of None \<Rightarrow> True | Some t \<Rightarrow> t \<le> nowMs)
        (err ''AGENT_REGISTRATION_CHALLENGE_EXPIRED'' ''Registration challenge has expired'')
      (throw_if (rc_publicKey challenge \<noteq> rb_publicKey body)
        (err ''AGENT_REGISTRATION_PROOF_MISMATCH'' ''Registration challenge does not match the provided public key'')
      (bindE (catchE (decodeBase64url rt (rb_challengeSignature body))
               (err ''AGENT_REGISTRATION_PROOF_INVALID'' ''Registration challenge signature is invalid'')) (\<lambda>signatureBytes.
       bindE (catchE (decodeBase64url rt (rb_publicKey body))
               (err ''AGENT_REGISTRATION_PROOF_INVALID'' ''Registration challenge signature is invalid'')) (\<lambda>publicKeyBytes.
       let canonical = canonicalizeAgentRegistrationProof (proof_message body challenge ownerDid) in
       bindE (of_option None (noble_verify hc signatureBytes (utf8_encode hc canonical) publicKeyBytes)) (\<lambda>verified.
       throw_if (\<not> verified) (err ''AGENT_REGISTRATION_PROOF_INVALID'' ''Registration challenge signature is invalid'')
         (Inr ()))))))))"

section \<open>New agents and reissued tokens (creation.ts)\<close>

record registered_agent =
  ra_id :: string
  ra_did :: string
  ra_ownerDid :: string
  ra_name :: string
  ra_framework :: string
  ra_publicKey :: string
  ra_currentJti :: string
  ra_ttlDays :: real
  ra_expiresAt :: string
  ra_updatedAt :: string

definition seconds_of :: "ms \<Rightarrow> real" where
  "seconds_of t = real_of_int \<lfloor>t / 1000\<rfloor>"

definition agent_claims ::
  "string \<Rightarrow> string \<Rightarrow> string \<Rightarrow> string \<Rightarrow> string \<Rightarrow> string \<Rightarrow> real \<Rightarrow> real \<Rightarrow> string \<Rightarrow> AitClaims" where
  "agent_claims iss sub ownerDid name framework x iat expS jti =
     \<lparr>ait_iss = iss, ait_sub = sub, ait_ownerDid = ownerDid, ait_name = name, ait_framework = framework, ait_description = None,
      ait_kty = ''OKP'', ait_crv = ''Ed25519'', ait_x = x, ait_iat = iat, ait_nbf = iat, ait_exp = expS, ait_jti = jti\<rparr>"

definition nullish :: "'a option \<Rightarrow> 'a \<Rightarrow> 'a" where
  "nullish v d = (case v of None \<Rightarrow> d | Some x \<Rightarrow> x)"

text \<open>\<open>None\<close>: the issuer or the id does not make a DID.\<close>
definition buildAgentRegistrationFromParsed ::
  "runtime \<Rightarrow> url_lib \<Rightarrow> ms \<Rightarrow> string \<Rightarrow> string \<Rightarrow> AgentRegistrationBody \<Rightarrow> string \<Rightarrow> string \<Rightarrow> (registered_agent \<times> AitClaims) option" where
  "buildAgentRegistrationFromParsed rt ul issuedAtMs agentId currentJti body ownerDid issuer =
     (let issuedAtSeconds = seconds_of issuedAtMs;
          ttlDays = nullish (rb_ttlDays body) DEFAULT_AGENT_TTL_DAYS;
          framework = nullish (rb_framework body) DEFAULT_AGENT_FRAMEWORK;
          ttlSeconds = ttlDays * DAY_IN_SECONDS;
          expiresAt = addSeconds issuedAtMs ttlSeconds
      in case resolveDidAuthorityFromIssuer ul issuer of None \<Rightarrow> None
         | Some didAuthority \<Rightarrow>
             (case makeAgentDid (ulids rt) didAuthority agentId of Inl _ \<Rightarrow> None
              | Inr agentDid \<Rightarrow>
                  Some (\<lparr>ra_id = agentId, ra_did = agentDid, ra_ownerDid = ownerDid, ra_name = rb_name body, ra_framework = framework,
                         ra_publicKey = rb_publicKey body, ra_currentJti = currentJti, ra_ttlDays = ttlDays, ra_expiresAt = expiresAt,
                         ra_updatedAt = toIso issuedAtMs\<rparr>,
                        agent_claims issuer agentDid ownerDid (rb_name body) framework (rb_publicKey body)
                          issuedAtSeconds (issuedAtSeconds + ttlSeconds) currentJti)))"

text \<open>Expiry text, \<open>exp\<close> and days of a reissued token.\<close>
definition resolveReissueExpiry :: "(string \<Rightarrow> ms option) \<Rightarrow> string option \<Rightarrow> ms \<Rightarrow> string \<times> real \<times> real" where
  "resolveReissueExpiry date_parse previousExpiresAt issuedAtMs =
     (let issuedAtSeconds = seconds_of issuedAtMs;
          defaultTtlSeconds = DEFAULT_AGENT_TTL_DAYS * DAY_IN_SECONDS;
          fallback = (addSeconds issuedAtMs defaultTtlSeconds, issuedAtSeconds + defaultTtlSeconds, DEFAULT_AGENT_TTL_DAYS)
      in case previousExpiresAt of
           None \<Rightarrow> fallback
         | Some text \<Rightarrow>
             if text = [] then fallback
             else (case date_parse text of
                     None \<Rightarrow> fallback
                   | Some previousExpiryMs \<Rightarrow>
                       if previousExpiryMs \<le> issuedAtMs then fallback
                       else let previousExpirySeconds = seconds_of previousExpiryMs;
                                remainingSeconds = max 1 (previousExpirySeconds - issuedAtSeconds);
                                ttlDays = min MAX_AGENT_TTL_DAYS (max MIN_AGENT_TTL_DAYS (real_of_int \<lceil>remainingSeconds / DAY_IN_SECONDS\<rceil>))
                            in (toIso previousExpiryMs, previousExpirySeconds, ttlDays)))"

definition buildAgentReissue ::
  "(string \<Rightarrow> ms option) \<Rightarrow> ms \<Rightarrow> string \<Rightarrow> string \<Rightarrow> string \<Rightarrow> string \<Rightarrow> string \<Rightarrow> string option \<Rightarrow> string \<Rightarrow> string option \<Rightarrow> string \<Rightarrow>
   registered_agent \<times> AitClaims" where
  "buildAgentReissue date_parse issuedAtMs currentJti agentId did ownerDid name framework0 publicKey previousExpiresAt issuer =
     (let framework = nullish framework0 DEFAULT_AGENT_FRAMEWORK in
      case resolveReissueExpiry date_parse previousExpiresAt issuedAtMs of
        (expiresAt, expS, ttlDays) \<Rightarrow>
          (\<lparr>ra_id = agentId, ra_did = did, ra_ownerDid = ownerDid, ra_name = name, ra_framework = framework, ra_publicKey = publicKey,
            ra_currentJti = currentJti, ra_ttlDays = ttlDays, ra_expiresAt = expiresAt, ra_updatedAt = toIso issuedAtMs\<rparr>,
           agent_claims issuer did ownerDid name framework publicKey (seconds_of issuedAtMs) expS currentJti))"

section \<open>What parsed payloads satisfy\<close>

lemma addFieldError_nonempty [simp]: "addFieldError e f m \<noteq> []"
  unfolding addFieldError_def by (cases e) (auto split: if_splits)

lemma parseName_Nil: "parseName v e = (x, []) \<longleftrightarrow> (\<exists>s. v = JStr s \<and> x = trim s \<and> validateAgentName x \<and> e = [])"
  by (auto simp: parseName_def Let_def split: jsval.splits if_splits)

lemma parseFramework_Nil:
  "parseFramework v e = (x, []) \<longleftrightarrow>
     e = [] \<and> (v = JUndefined \<and> x = None \<or>
       (\<exists>s. v = JStr s \<and> x = Some (trim s) \<and> trim s \<noteq> [] \<and> length (trim s) \<le> MAX_FRAMEWORK_LENGTH \<and> \<not> hasControlChars (trim s)))"
  by (cases v) (auto simp: parseFramework_def Let_def not_less)

lemma parse_bytes_field_Nil:
  "parse_bytes_field rt f m n v e = (x, []) \<longleftrightarrow>
     e = [] \<and> (\<exists>s bs. v = JStr s \<and> x = trim s \<and> x \<noteq> [] \<and> decodeBase64url rt x = Inr bs \<and> length bs = n)"
  by (cases v) (auto simp: parse_bytes_field_def Let_def split: sum.splits)

lemma parseTtlDays_Nil:
  "parseTtlDays v e = (x, []) \<longleftrightarrow>
     e = [] \<and> (v = JUndefined \<and> x = None \<or> (\<exists>t. v = JNum t \<and> x = Some t \<and> js_is_integer t \<and> 1 \<le> t \<and> t \<le> 90))"
  by (cases v) (auto simp: parseTtlDays_def registration_constants not_less)

lemma parseChallengeId_Nil:
  "parseChallengeId ul v e = (x, []) \<longleftrightarrow>
     e = [] \<and> (\<exists>s p. v = JStr s \<and> x = trim s \<and> x \<noteq> [] \<and> parseUlid ul x = Inr p)"
  by (cases v) (auto simp: parseChallengeId_def Let_def split: sum.splits)

lemmas parsers_Nil = parseName_Nil parseFramework_Nil parse_bytes_field_Nil parseTtlDays_Nil parseChallengeId_Nil

text \<open>What every parsed registration has.\<close>
definition body_ok :: "runtime \<Rightarrow> AgentRegistrationBody \<Rightarrow> bool" where
  "body_ok rt b \<longleftrightarrow>
     validateAgentName (rb_name b) \<and>
     (\<forall>f. rb_framework b = Some f \<longrightarrow> f \<noteq> [] \<and> length f \<le> MAX_FRAMEWORK_LENGTH \<and> \<not> hasControlChars f) \<and>
     (\<exists>bs. decodeBase64url rt (rb_publicKey b) = Inr bs \<and> length bs = ED25519_PUBLIC_KEY_LENGTH) \<and> rb_publicKey b \<noteq> [] \<and>
     (\<forall>t. rb_ttlDays b = Some t \<longrightarrow> js_is_integer t \<and> 1 \<le> t \<and> t \<le> 90) \<and>
     (\<exists>p. parseUlid (ulids rt) (rb_challengeId b) = Inr p) \<and>
     (\<exists>bs. decodeBase64url rt (rb_challengeSignature b) = Inr bs \<and> length bs = ED25519_SIGNATURE_LENGTH)"

lemma parsed_body_ok:
  assumes "parseAgentRegistrationBody rt env payload = Inr b"
  shows "body_ok rt b"
proof -
  have "parse_registration_fields rt payload = (b, [])"
    using assms by (auto simp: parseAgentRegistrationBody_def split: jsval.splits prod.splits if_splits)
  then show ?thesis
    unfolding parse_registration_fields_def parsePublicKey_def parseChallengeSignature_def body_ok_def
    by (auto simp: parsers_Nil split: prod.splits)
qed

section \<open>The proof\<close>

text \<open>
  A registration proof is accepted exactly when the challenge is still pending and not expired, was
  made for the key that is registered, and the signature verifies under that key over the message that
  names the challenge, its nonce, the owner, the key, the name, the framework and the lifetime.
\<close>
theorem registration_proof_accepted_iff:
  "verifyAgentRegistrationOwnershipProof rt hc date_parse env nowMs body challenge ownerDid = Inr () \<longleftrightarrow>
     rc_status challenge = ''pending'' \<and> (\<exists>t. date_parse (rc_expiresAt challenge) = Some t \<and> nowMs < t) \<and>
     rc_publicKey challenge = rb_publicKey body \<and>
     (\<exists>signature publicKey. decodeBase64url rt (rb_challengeSignature body) = Inr signature \<and>
        decodeBase64url rt (rb_publicKey body) = Inr publicKey \<and>
        noble_verify hc signature
          (utf8_encode hc (canonicalizeAgentRegistrationProof (proof_message body challenge ownerDid))) publicKey = Some True)"
  unfolding verifyAgentRegistrationOwnershipProof_def Let_def
  by (auto simp: not_le split: option.splits)

lemma is_digit_digit: "n < 10 \<Longrightarrow> of_char (char_of (48 + n) :: char) = 48 + n" for n :: nat
  by (simp add: of_char_of)

lemma parse_decimal_append: "parse_decimal (s @ [c]) = parse_decimal s * 10 + (of_char c - 48)"
  by (simp add: parse_decimal_def)

lemma parse_decimal_nat_str: "parse_decimal (nat_str n) = n"
proof (induction n rule: nat_str.induct)
  case (1 n)
  show ?case
  proof (cases "n < 10")
    case True
    then show ?thesis by (simp add: nat_str.simps[of n] parse_decimal_def)
  next
    case False
    then show ?thesis using 1 by (simp add: nat_str.simps[of n] parse_decimal_append)
  qed
qed

lemma nat_str_inject [simp]: "nat_str m = nat_str n \<longleftrightarrow> m = n"
  by (metis parse_decimal_nat_str)

lemma nat_str_digits: "c \<in> set (nat_str n) \<Longrightarrow> 48 \<le> (of_char c :: nat)"
  by (induction n rule: nat_str.induct) (subst (asm) (2) nat_str.simps, auto split: if_splits)

lemma nat_str_nonempty [simp]: "nat_str n \<noteq> []"
  by (subst nat_str.simps) simp

text \<open>The lines of the message.\<close>
definition proof_lines :: "AgentRegistrationProofMessageInput \<Rightarrow> string list" where
  "proof_lines i =
     [AGENT_REGISTRATION_PROOF_VERSION, ''challengeId:'' @ rp_challengeId i, ''nonce:'' @ rp_nonce i,
      ''ownerDid:'' @ rp_ownerDid i, ''publicKey:'' @ rp_publicKey i, ''name:'' @ rp_name i,
      ''framework:'' @ opt_text (rp_framework i), ''ttlDays:'' @ opt_text (map_option int_str (rp_ttlDays i))]"

lemma canonical_proof_lines: "canonicalizeAgentRegistrationProof i = js_join [CHR 0x0A] (proof_lines i)"
  by (simp add: canonicalizeAgentRegistrationProof_def proof_lines_def newline_def)

lemma agent_name_no_newline: "validateAgentName n \<Longrightarrow> CHR 0x0A \<notin> set n"
  by (auto simp: validateAgentName_def list_all_iff agent_name_char_def Let_def)

lemma no_control_no_newline: "\<not> hasControlChars s \<Longrightarrow> CHR 0x0A \<notin> set s"
  by (induction s) (auto split: if_splits)

definition one_line :: "string list \<Rightarrow> bool" where
  "one_line ss \<longleftrightarrow> (\<forall>s \<in> set ss. CHR 0x0A \<notin> set s)"

lemma proof_lines_one_line:
  assumes "body_ok rt b" "one_line [rc_id c, rc_nonce c, ownerDid, rb_publicKey b]"
  shows "\<forall>l \<in> set (proof_lines (proof_message b c ownerDid)). CHR 0x0A \<notin> set l"
proof -
  have "CHR 0x0A \<notin> set (opt_text (rb_framework b))"
    using assms(1) no_control_no_newline by (cases "rb_framework b") (auto simp: opt_text_def body_ok_def)
  moreover have "CHR 0x0A \<notin> set (opt_text (map_option int_str (map_option floor (rb_ttlDays b))))"
    using assms(1) by (cases "rb_ttlDays b") (auto simp: opt_text_def body_ok_def int_str_def dest: nat_str_digits)
  moreover have "CHR 0x0A \<notin> set (rb_name b)" using assms(1) agent_name_no_newline by (auto simp: body_ok_def)
  moreover have "CHR 0x0A \<notin> set AGENT_REGISTRATION_PROOF_VERSION" by (simp add: AGENT_REGISTRATION_PROOF_VERSION_def)
  ultimately show ?thesis using assms(2) by (simp add: proof_lines_def proof_message_def one_line_def)
qed

lemma opt_text_inject:
  "\<forall>f. x = Some f \<longrightarrow> f \<noteq> [] \<Longrightarrow> \<forall>f. y = Some f \<longrightarrow> f \<noteq> [] \<Longrightarrow> opt_text x = opt_text y \<Longrightarrow> x = y"
  by (cases x; cases y) (auto simp: opt_text_def)

lemma int_str_inject: "0 \<le> i \<Longrightarrow> 0 \<le> j \<Longrightarrow> int_str i = int_str j \<Longrightarrow> i = j"
  by (simp add: int_str_def)

lemma ttl_inject:
  assumes "js_is_integer t" "js_is_integer u" "1 \<le> t" "1 \<le> u" "int_str \<lfloor>t\<rfloor> = int_str \<lfloor>u\<rfloor>"
  shows "t = (u :: real)"
proof -
  have "\<lfloor>t\<rfloor> = \<lfloor>u\<rfloor>" using int_str_inject[OF _ _ assms(5)] assms(3,4) by simp
  then show ?thesis using assms(1,2) by (simp add: js_is_integer_def)
qed

lemma ttl_text_inject:
  assumes "\<forall>t. x = Some t \<longrightarrow> js_is_integer t \<and> 1 \<le> t" "\<forall>t. y = Some t \<longrightarrow> js_is_integer t \<and> 1 \<le> t"
    and "opt_text (map_option int_str (map_option floor x)) = opt_text (map_option int_str (map_option floor y))"
  shows "x = (y :: real option)"
proof -
  have "int_str i \<noteq> []" for i by (simp add: int_str_def)
  then have "map_option int_str (map_option floor x) = map_option int_str (map_option floor y)"
    using assms(3) by (intro opt_text_inject) auto
  then show ?thesis
    using assms(1,2) ttl_inject[of "the x" "the y"] by (cases x; cases y) simp_all
qed

text \<open>
  The signed message determines the registration: two parsed payloads with the same message, for
  challenges, owners and keys that are single lines, agree on the challenge, its nonce, the owner, the
  key, the name, the framework and the lifetime. A proof made for one registration is good for no other.
\<close>
theorem registration_message_determines:
  assumes "parseAgentRegistrationBody rt env payload = Inr b" and "parseAgentRegistrationBody rt env' payload' = Inr b'"
    and "one_line [rc_id c, rc_nonce c, owner, rb_publicKey b]" and "one_line [rc_id c', rc_nonce c', owner', rb_publicKey b']"
    and "canonicalizeAgentRegistrationProof (proof_message b c owner) = canonicalizeAgentRegistrationProof (proof_message b' c' owner')"
  shows "rc_id c = rc_id c' \<and> rc_nonce c = rc_nonce c' \<and> owner = owner' \<and> rb_publicKey b = rb_publicKey b' \<and>
    rb_name b = rb_name b' \<and> rb_framework b = rb_framework b' \<and> rb_ttlDays b = rb_ttlDays b'"
proof -
  note ok = parsed_body_ok[OF assms(1)] parsed_body_ok[OF assms(2)]
  have "proof_lines (proof_message b c owner) = proof_lines (proof_message b' c' owner')"
    by (rule js_join_inject[OF _ _ proof_lines_one_line[OF ok(1) assms(3)] proof_lines_one_line[OF ok(2) assms(4)]])
       (use assms(5) in \<open>simp_all add: canonical_proof_lines proof_lines_def\<close>)
  then have eqs: "rc_id c = rc_id c'" "rc_nonce c = rc_nonce c'" "owner = owner'" "rb_publicKey b = rb_publicKey b'" "rb_name b = rb_name b'"
    "opt_text (rb_framework b) = opt_text (rb_framework b')"
    "opt_text (map_option int_str (map_option floor (rb_ttlDays b))) = opt_text (map_option int_str (map_option floor (rb_ttlDays b')))"
    by (simp_all add: proof_lines_def proof_message_def)
  have "rb_framework b = rb_framework b'"
    using ok eqs(6) by (intro opt_text_inject) (auto simp: body_ok_def)
  moreover have "rb_ttlDays b = rb_ttlDays b'"
    using ok eqs(7) by (intro ttl_text_inject) (auto simp: body_ok_def)
  ultimately show ?thesis using eqs by simp
qed

section \<open>Issued tokens pass the protocol's checks\<close>

lemma seconds_of_nonneg: "0 \<le> t \<Longrightarrow> 0 \<le> seconds_of t"
  by (simp add: seconds_of_def)

lemma seconds_of_le: "seconds_of t \<le> t / 1000"
  unfolding seconds_of_def by (rule of_int_floor_le)

lemma seconds_of_int [simp]: "js_is_integer (seconds_of t)"
  by (simp add: seconds_of_def)

text \<open>The largest time value a \<open>Date\<close> can have.\<close>
definition max_date :: ms where "max_date = 8640000000000000"

lemma safe_secondsI:
  assumes "0 \<le> t" "t \<le> max_date" "0 \<le> d" "d \<le> 90 * 86400" "js_is_integer d"
  shows "nonneg_int (seconds_of t + d)"
  using assms seconds_of_nonneg[OF assms(1)] seconds_of_le[of t]
  by (auto simp: nonneg_int_def js_is_safe_integer_def max_safe_integer_def max_date_def)

text \<open>The part of the schema that does not speak of the times.\<close>
lemma agent_claims_schema:
  assumes "validateAgentName name" "framework \<noteq> []" "length framework \<le> MAX_FRAMEWORK_LENGTH" "\<not> hasControlChars framework"
    and "x \<noteq> []" "decodeBase64url rt x = Inr bs" "length bs = ED25519_PUBLIC_KEY_LENGTH"
    and "parseIssuerHostname iss = Some h" "parseAgentDid (ulids rt) sub = Inr p" "did_authority p = h"
    and "parseHumanDid (ulids rt) owner = Inr q" "did_authority q = h" "parseUlid (ulids rt) jti = Inr u"
  shows "aitClaimsSchema rt (agent_claims iss sub owner name framework x iat expS jti) \<longleftrightarrow>
    nonneg_int iat \<and> nonneg_int expS \<and> iat < expS"
proof -
  have "sub \<noteq> []" using agent_did_nonempty[OF assms(9)] .
  moreover have "owner \<noteq> []" using assms(11) by (auto simp: parseHumanDid_def parseDid_def)
  moreover have "iss \<noteq> []" using assms(8) by (auto simp: parseIssuerHostname_def issuer_authority_def startsWith_def toLowerCase_def)
  moreover have "jti \<noteq> []" using assms(13) by (auto simp: parseUlid_def ULID_PATTERN_def split: if_splits)
  ultimately show ?thesis using assms by (auto simp: aitClaimsSchema_def agent_claims_def)
qed

lemma makeAgentDid_parse:
  assumes "makeAgentDid ul auth uid = Inr d"
  shows "\<exists>p. parseAgentDid ul d = Inr p \<and> did_authority p = auth"
proof -
  have "parseDid ul d = Inr \<lparr>did_authority = auth, did_entity = agent, did_ulid = uid\<rparr>"
    using assms unfolding makeAgentDid_def makeDid_Inr by (blast intro: parseDid_of_parts)
  then show ?thesis by (simp add: parseAgentDid_parseDid)
qed

text \<open>
  (C9) The claims of a registration always pass the schema of the protocol, so the token that is signed
  for a new agent is one every verifier accepts: whatever payload was parsed, for an owner of the
  registry's own authority. Relied on: the host reads the host name of the issuer as the protocol does,
  and fresh ids are ULIDs.
\<close>
theorem registration_claims_valid:
  assumes "parseAgentRegistrationBody rt env payload = Inr body"
    and "buildAgentRegistrationFromParsed rt ul now agentId jti body ownerDid issuer = Some (new, claims)"
    and "resolveDidAuthorityFromIssuer ul issuer = parseIssuerHostname issuer"
    and "parseUlid (ulids rt) jti = Inr u" and "0 \<le> now" and "now \<le> max_date"
    and "parseHumanDid (ulids rt) ownerDid = Inr q" and "Some (did_authority q) = parseIssuerHostname issuer"
  shows "aitClaimsSchema rt claims \<and> ait_sub claims = ra_did new \<and> ait_jti claims = ra_currentJti new \<and>
    ait_x claims = rb_publicKey body \<and> ait_exp claims - ait_iat claims = ra_ttlDays new * 86400 \<and>
    1 \<le> ra_ttlDays new \<and> ra_ttlDays new \<le> 90"
proof -
  note ok = parsed_body_ok[OF assms(1)]
  define days where "days = nullish (rb_ttlDays body) DEFAULT_AGENT_TTL_DAYS"
  define framework where "framework = nullish (rb_framework body) DEFAULT_AGENT_FRAMEWORK"
  obtain did where did: "makeAgentDid (ulids rt) (did_authority q) agentId = Inr did"
    and new: "ra_did new = did" "ra_currentJti new = jti" "ra_ttlDays new = days"
    and claims: "claims = agent_claims issuer did ownerDid (rb_name body) framework (rb_publicKey body)
        (seconds_of now) (seconds_of now + days * 86400) jti"
    using assms(2,3,8) unfolding buildAgentRegistrationFromParsed_def
    by (auto simp: Let_def days_def framework_def DAY_IN_SECONDS_def split: option.splits sum.splits)
  have days: "js_is_integer days" "1 \<le> days" "days \<le> 90"
    using ok by (auto simp: days_def nullish_def body_ok_def DEFAULT_AGENT_TTL_DAYS_def split: option.splits)
  have fw: "framework \<noteq> []" "length framework \<le> MAX_FRAMEWORK_LENGTH" "\<not> hasControlChars framework"
    using ok by (auto simp: framework_def nullish_def body_ok_def DEFAULT_AGENT_FRAMEWORK_def MAX_FRAMEWORK_LENGTH_def split: option.splits)
  obtain p where p: "parseAgentDid (ulids rt) did = Inr p" "did_authority p = did_authority q" using makeAgentDid_parse[OF did] by blast
  obtain bs where bs: "decodeBase64url rt (rb_publicKey body) = Inr bs" "length bs = ED25519_PUBLIC_KEY_LENGTH" using ok by (auto simp: body_ok_def)
  have "aitClaimsSchema rt claims \<longleftrightarrow> nonneg_int (seconds_of now) \<and> nonneg_int (seconds_of now + days * 86400) \<and> seconds_of now < seconds_of now + days * 86400"
    unfolding claims
    by (rule agent_claims_schema[OF _ fw _ bs assms(8)[symmetric] p assms(7) refl assms(4)]) (use ok in \<open>auto simp: body_ok_def\<close>)
  moreover have "nonneg_int (seconds_of now + 0)" by (rule safe_secondsI[OF assms(5,6)]) simp_all
  moreover have "nonneg_int (seconds_of now + days * 86400)" by (rule safe_secondsI[OF assms(5,6)]) (use days in simp_all)
  ultimately show ?thesis using days new by (simp add: claims agent_claims_def)
qed

text \<open>
  A reissued token keeps the old expiry when that is still ahead, and its lifetime in days is between
  1 and 90. It expires after it is issued except in one case: when the old expiry lies ahead within the
  current second. Then \<open>exp\<close> equals \<open>iat\<close>, the claims fail the schema and the request fails.
\<close>
theorem reissue_expiry:
  "(case resolveReissueExpiry date_parse previous now of (expiresAt, expS, days) \<Rightarrow>
     1 \<le> days \<and> days \<le> 90 \<and>
     (expS = seconds_of now \<or> seconds_of now < expS) \<and>
     (expS = seconds_of now \<longleftrightarrow>
        (\<exists>old t. previous = Some old \<and> old \<noteq> [] \<and> date_parse old = Some t \<and> now < t \<and> seconds_of t = seconds_of now)) \<and>
     (expS = seconds_of now \<longrightarrow> \<not> aitClaimsSchema rt
        (snd (buildAgentReissue date_parse now jti agentId did ownerDid name framework publicKey previous issuer))))"
proof -
  have mono: "now < t \<Longrightarrow> seconds_of now \<le> seconds_of t" for t
    by (auto simp: seconds_of_def intro!: floor_mono divide_right_mono)
  have schema: "\<not> aitClaimsSchema rt (agent_claims a b c d e f iat iat g)" for a b c d e f iat g
    by (simp add: aitClaimsSchema_def agent_claims_def)
  show ?thesis
  proof (cases "\<exists>old t. previous = Some old \<and> old \<noteq> [] \<and> date_parse old = Some t \<and> now < t")
    case True
    then obtain old t where t: "previous = Some old" "old \<noteq> []" "date_parse old = Some t" "now < t" by blast
    have "resolveReissueExpiry date_parse previous now = (toIso t, seconds_of t,
        min 90 (max 1 (real_of_int \<lceil>max 1 (seconds_of t - seconds_of now) / 86400\<rceil>)))"
      using t by (simp add: resolveReissueExpiry_def registration_constants Let_def)
    then show ?thesis using mono[OF t(4)] t schema by (auto simp: buildAgentReissue_def Let_def)
  next
    case False
    then have "resolveReissueExpiry date_parse previous now =
        (addSeconds now (30 * 86400), seconds_of now + 30 * 86400, 30)"
      by (auto simp: resolveReissueExpiry_def registration_constants Let_def not_less split: option.splits)
    then show ?thesis using False by auto
  qed
qed

theorem reissue_expiry_witness:
  "\<not> aitClaimsSchema demo_runtime
     (snd (buildAgentReissue (\<lambda>_. Some 1500) 1000 ''J'' ''I'' ''D'' ''O'' ''N'' None ''K'' (Some ''T'') ''https://a.b''))"
proof -
  have "\<lceil>1 / 86400 :: real\<rceil> = 1" by (rule ceiling_unique) simp_all
  then have "resolveReissueExpiry (\<lambda>_. Some 1500) (Some ''T'') 1000 = (toIso 1500, seconds_of 1500, 1)"
    "seconds_of 1500 = seconds_of 1000"
    by (simp_all add: resolveReissueExpiry_def registration_constants Let_def seconds_of_def)
  then show ?thesis
    using reissue_expiry[where date_parse = "\<lambda>_. Some 1500" and previous = "Some ''T''" and now = 1000 and rt = demo_runtime and jti = "''J''"
        and agentId = "''I''" and did = "''D''" and ownerDid = "''O''" and name = "''N''" and framework = None and publicKey = "''K''"
        and issuer = "''https://a.b''"]
    by simp
qed

section \<open>Witnesses\<close>

definition demo_registration_payload :: jsval where
  "demo_registration_payload = JObj [(''name'', JStr '' n ''), (''ttlDays'', JNum 7), (''publicKey'', JStr (replicate 32 CHR ''B'')),
     (''challengeId'', JStr ''00000000000000000000000004''), (''challengeSignature'', JStr (replicate 64 CHR ''B''))]"

definition demo_body :: AgentRegistrationBody where
  "demo_body = \<lparr>rb_name = ''n'', rb_framework = None, rb_publicKey = replicate 32 CHR ''B'', rb_ttlDays = Some 7,
     rb_challengeId = ''00000000000000000000000004'', rb_challengeSignature = replicate 64 CHR ''B''\<rparr>"

definition demo_challenge :: AgentRegistrationChallenge where
  "demo_challenge = \<lparr>rc_id = ''00000000000000000000000004'', rc_ownerId = ''h'', rc_publicKey = replicate 32 CHR ''B'', rc_nonce = ''N'',
     rc_status = ''pending'', rc_expiresAt = ''E'', rc_usedAt = None, rc_createdAt = ''C'', rc_updatedAt = ''C''\<rparr>"

definition demo_human :: string where "demo_human = ''did:cdi:a.b:human:00000000000000000000000003''"

definition demo_registry_urls :: url_lib where
  "demo_registry_urls = \<lparr>new_URL = (\<lambda>u b. Some \<lparr>u_protocol = ''https:'', u_hostname = ''a.b'', u_port = [], u_origin = ''https://a.b'',
       u_href = u, u_pathname = ''/'', u_search = []\<rparr>),
     set_protocol = (\<lambda>_ u. u), set_hostname = (\<lambda>_ u. u), set_port = (\<lambda>_ u. u)\<rparr>"

lemma demo_body_parsed: "parseAgentRegistrationBody demo_runtime EnvLocal demo_registration_payload = Inr demo_body"
  by code_simp

theorem registration_message_determines_witness:
  "rc_id demo_challenge = rc_id (demo_challenge\<lparr>rc_status := ''used''\<rparr>) \<and> rc_nonce demo_challenge = rc_nonce (demo_challenge\<lparr>rc_status := ''used''\<rparr>) \<and>
   demo_human = demo_human \<and> rb_publicKey demo_body = rb_publicKey demo_body \<and> rb_name demo_body = rb_name demo_body \<and>
   rb_framework demo_body = rb_framework demo_body \<and> rb_ttlDays demo_body = rb_ttlDays demo_body"
  by (rule registration_message_determines[OF demo_body_parsed demo_body_parsed])
     (simp_all add: one_line_def demo_challenge_def demo_body_def demo_human_def proof_message_def)

theorem registration_claims_valid_witness:
  "\<exists>new claims. buildAgentRegistrationFromParsed demo_runtime demo_registry_urls 5000 ''00000000000000000000000001'' ''00000000000000000000000002''
       demo_body demo_human ''https://a.b/'' = Some (new, claims) \<and> aitClaimsSchema demo_runtime claims"
proof -
  let ?r = "buildAgentRegistrationFromParsed demo_runtime demo_registry_urls 5000 ''00000000000000000000000001'' ''00000000000000000000000002''
       demo_body demo_human ''https://a.b/''"
  have "\<not> Option.is_none ?r" by code_simp
  then obtain new claims where r: "?r = Some (new, claims)" by (auto simp: Option.is_none_def)
  have "resolveDidAuthorityFromIssuer demo_registry_urls ''https://a.b/'' = Some ''a.b''" "parseIssuerHostname ''https://a.b/'' = Some ''a.b''"
    "parseUlid (ulids demo_runtime) ''00000000000000000000000002'' = Inr (''00000000000000000000000002'', 0)"
    "parseHumanDid (ulids demo_runtime) demo_human = Inr \<lparr>did_authority = ''a.b'', did_entity = human, did_ulid = ''00000000000000000000000003''\<rparr>"
    by code_simp+
  then show ?thesis
    using registration_claims_valid[OF demo_body_parsed r] r by (simp add: max_date_def)
qed

end
