(* ===== verification/Registry_Db.thy ===== *)
theory Registry_Db
  imports Agent_Registration
begin

text \<open>
  The part of the registry's database that agents and their sessions use
  (\<open>apps/registry/src/db/schema.ts\<close>) and the queries of \<open>server/helpers/db-queries.ts\<close>.

  A table is the list of its rows. \<open>UPDATE ... WHERE\<close> is \<open>sql_update\<close>, which also counts the rows it changed
  (\<open>getMutationRowCount\<close>). Every statement is atomic. The columns that no query reads (creation times and the
  like) are kept where a handler writes them and left out otherwise.
\<close>

record agent_row =
  ar_id :: string
  ar_did :: string
  ar_owner_id :: string
  ar_name :: string
  ar_framework :: "string option"
  ar_public_key :: string
  ar_current_jti :: "string option"
  ar_status :: string
  ar_expires_at :: "string option"
  ar_updated_at :: string

record revocation_row =
  rw_id :: string
  rw_jti :: string
  rw_agent_id :: string
  rw_reason :: "string option"
  rw_revoked_at :: string

record session_row =
  sr_id :: string
  sr_agent_id :: string
  sr_refresh_key_hash :: string
  sr_refresh_key_prefix :: string
  sr_refresh_issued_at :: string
  sr_refresh_expires_at :: string
  sr_refresh_last_used_at :: "string option"
  sr_access_key_hash :: string
  sr_access_key_prefix :: string
  sr_access_issued_at :: string
  sr_access_expires_at :: string
  sr_access_last_used_at :: "string option"
  sr_status :: string
  sr_revoked_at :: "string option"
  sr_updated_at :: string

datatype auth_event_type = issued | refreshed | revoked | refresh_rejected

record auth_event =
  ev_agent_id :: string
  ev_session_id :: string
  ev_type :: auth_event_type
  ev_reason :: "string option"

record registry_db =
  db_agents :: "agent_row list"
  db_revocations :: "revocation_row list"
  db_sessions :: "session_row list"
  db_challenges :: "AgentRegistrationChallenge list"
  db_events :: "auth_event list"

section \<open>Statements\<close>

definition sql_update :: "('r \<Rightarrow> bool) \<Rightarrow> ('r \<Rightarrow> 'r) \<Rightarrow> 'r list \<Rightarrow> nat \<times> 'r list" where
  "sql_update p f rows = (length (filter p rows), map (\<lambda>r. if p r then f r else r) rows)"

definition findOwnedAgent :: "registry_db \<Rightarrow> string \<Rightarrow> string \<Rightarrow> agent_row option" where
  "findOwnedAgent db ownerId agentId = find (\<lambda>r. ar_owner_id r = ownerId \<and> ar_id r = agentId) (db_agents db)"

definition findOwnedAgentByDid :: "registry_db \<Rightarrow> string \<Rightarrow> agent_row option" where
  "findOwnedAgentByDid db did = find (\<lambda>r. ar_did r = did) (db_agents db)"

definition findAgentAuthSessionByAgentId :: "registry_db \<Rightarrow> string \<Rightarrow> session_row option" where
  "findAgentAuthSessionByAgentId db agentId = find (\<lambda>r. sr_agent_id r = agentId) (db_sessions db)"

definition findOwnedAgentRegistrationChallenge :: "registry_db \<Rightarrow> string \<Rightarrow> string \<Rightarrow> AgentRegistrationChallenge option" where
  "findOwnedAgentRegistrationChallenge db ownerId challengeId =
     find (\<lambda>r. rc_ownerId r = ownerId \<and> rc_id r = challengeId) (db_challenges db)"

definition countAgentsByOwner :: "registry_db \<Rightarrow> string \<Rightarrow> nat" where
  "countAgentsByOwner db ownerId = length (filter (\<lambda>r. ar_owner_id r = ownerId) (db_agents db))"

text \<open>\<open>INSERT ... ON CONFLICT (jti) DO NOTHING\<close>\<close>
definition insert_revocation :: "revocation_row \<Rightarrow> registry_db \<Rightarrow> registry_db" where
  "insert_revocation row db =
     (if \<exists>r \<in> set (db_revocations db). rw_jti r = rw_jti row then db
      else db\<lparr>db_revocations := db_revocations db @ [row]\<rparr>)"

text \<open>The table of events; publishing on the event bus is not modelled, its failures are caught.\<close>
definition insertAgentAuthEvent :: "auth_event \<Rightarrow> registry_db \<Rightarrow> registry_db" where
  "insertAgentAuthEvent ev db = db\<lparr>db_events := db_events db @ [ev]\<rparr>"

section \<open>Facts\<close>

lemma sql_update_snd: "snd (sql_update p f rows) = map (\<lambda>r. if p r then f r else r) rows"
  by (simp add: sql_update_def)

text \<open>A row of an updated table is the update of a row.\<close>
lemma bex_map: "(\<exists>r \<in> set (map f rows). P r) \<longleftrightarrow> (\<exists>r \<in> set rows. P (f r))"
  by simp

lemma bex_mapI: "r \<in> set rows \<Longrightarrow> P (f r) \<Longrightarrow> \<exists>r \<in> set (map f rows). P r"
  by auto

text \<open>An update keeps what is known of the columns it does not write.\<close>
lemma sql_update_bex:
  assumes "\<And>r. P (f r) = P r"
  shows "(\<exists>r \<in> set (snd (sql_update p f rows)). P r) \<longleftrightarrow> (\<exists>r \<in> set rows. P r)"
proof -
  have "P (if p r then f r else r) = P r" for r using assms by simp
  then show ?thesis unfolding sql_update_snd bex_map by simp
qed

lemma sql_update_none: "fst (sql_update p f rows) = 0 \<longleftrightarrow> (\<forall>r \<in> set rows. \<not> p r)"
  by (simp add: sql_update_def filter_empty_conv)

lemma insert_revocation_jtis: "rw_jti ` set (db_revocations (insert_revocation row db)) = insert (rw_jti row) (rw_jti ` set (db_revocations db))"
proof (cases "\<exists>r \<in> set (db_revocations db). rw_jti r = rw_jti row")
  case True
  then have "rw_jti row \<in> rw_jti ` set (db_revocations db)" by (metis imageI)
  then show ?thesis using True by (simp add: insert_revocation_def insert_absorb)
qed (simp add: insert_revocation_def)

lemma insert_revocation_frame [simp]:
  "db_agents (insert_revocation row db) = db_agents db" "db_sessions (insert_revocation row db) = db_sessions db"
  "db_challenges (insert_revocation row db) = db_challenges db" "db_events (insert_revocation row db) = db_events db"
  by (simp_all add: insert_revocation_def)

lemma insertAgentAuthEvent_frame [simp]:
  "db_agents (insertAgentAuthEvent ev db) = db_agents db" "db_sessions (insertAgentAuthEvent ev db) = db_sessions db"
  "db_challenges (insertAgentAuthEvent ev db) = db_challenges db" "db_revocations (insertAgentAuthEvent ev db) = db_revocations db"
  by (simp_all add: insertAgentAuthEvent_def)

end
