(* ===== verification/Agent_Tokens.thy ===== *)
theory Agent_Tokens
  imports Agent_Registration
begin

unbundle bit_operations_syntax

text \<open>
  Access and refresh tokens of an agent: \<open>apps/registry/src/auth/agent-auth-token.ts\<close>,
  \<open>agent-auth-lifecycle.ts\<close>, and the comparison of hashes in \<open>auth/api-key-token.ts\<close>.

  The database keeps the SHA-256 of a token in hexadecimal and a prefix for looking it up. Random bytes are
  arguments. Shown: the comparison that looks at every character is equality, and a generated token parses to
  itself.
\<close>

section \<open>Tokens (agent-auth-token.ts)\<close>

definition AGENT_ACCESS_TOKEN_MARKER :: string where "AGENT_ACCESS_TOKEN_MARKER = ''clw_agt_''"
definition AGENT_REFRESH_TOKEN_MARKER :: string where "AGENT_REFRESH_TOKEN_MARKER = ''clw_rft_''"
definition AGENT_TOKEN_LOOKUP_ENTROPY_LENGTH :: nat where "AGENT_TOKEN_LOOKUP_ENTROPY_LENGTH = 8"

definition token_invalid :: app_error where
  "token_invalid = AppError ''AGENT_AUTH_REFRESH_INVALID'' ''Refresh payload is invalid'' 400"

definition parseAgentToken :: "string \<Rightarrow> string option \<Rightarrow> (app_error, string) result" where
  "parseAgentToken marker token =
     (case map_option trim token of
        None \<Rightarrow> Inl token_invalid
      | Some trimmedToken \<Rightarrow>
          if trimmedToken = [] then Inl token_invalid
          else if \<not> startsWith trimmedToken marker \<or> length trimmedToken \<le> length marker then Inl token_invalid
          else Inr trimmedToken)"

definition parseAccessToken :: "string option \<Rightarrow> (app_error, string) result" where
  "parseAccessToken token = parseAgentToken AGENT_ACCESS_TOKEN_MARKER token"

definition parseRefreshToken :: "string option \<Rightarrow> (app_error, string) result" where
  "parseRefreshToken token = parseAgentToken AGENT_REFRESH_TOKEN_MARKER token"

definition deriveTokenLookupPrefix :: "string \<Rightarrow> string \<Rightarrow> string" where
  "deriveTokenLookupPrefix token marker = marker @ take AGENT_TOKEN_LOOKUP_ENTROPY_LENGTH (drop (length marker) token)"

definition deriveAccessTokenLookupPrefix :: "string \<Rightarrow> string" where
  "deriveAccessTokenLookupPrefix token = deriveTokenLookupPrefix token AGENT_ACCESS_TOKEN_MARKER"

definition deriveRefreshTokenLookupPrefix :: "string \<Rightarrow> string" where
  "deriveRefreshTokenLookupPrefix token = deriveTokenLookupPrefix token AGENT_REFRESH_TOKEN_MARKER"

definition hex_digit :: "nat \<Rightarrow> char" where
  "hex_digit n = (if n < 10 then char_of (48 + n) else char_of (87 + n))"

text \<open>\<open>value.toString(16).padStart(2, "0")\<close> of a byte\<close>
definition hex_byte :: "nat \<Rightarrow> string" where
  "hex_byte b = [hex_digit (b div 16 mod 16), hex_digit (b mod 16)]"

definition hashAgentToken :: "http_crypto \<Rightarrow> string \<Rightarrow> string" where
  "hashAgentToken hc token = concat (map hex_byte (sha256 hc (utf8_encode hc token)))"

definition generateToken :: "runtime \<Rightarrow> string \<Rightarrow> bytes \<Rightarrow> string" where
  "generateToken rt marker randomBytes = marker @ encodeBase64url rt randomBytes"

section \<open>Comparing hashes (api-key-token.ts)\<close>

definition char_code_at :: "string \<Rightarrow> nat \<Rightarrow> nat" where
  "char_code_at s i = (if i < length s then of_char (s ! i) else 0)"

text \<open>The loop from \<open>index\<close> on, with the mismatch so far.\<close>
function compare_from :: "string \<Rightarrow> string \<Rightarrow> nat \<Rightarrow> nat \<Rightarrow> nat" where
  "compare_from left right index mismatch =
     (if index < max (length left) (length right)
      then compare_from left right (index + 1) (mismatch OR (char_code_at left index XOR char_code_at right index))
      else mismatch)"
  by pat_completeness auto
termination by (relation "measure (\<lambda>(left, right, index, _). max (length left) (length right) - index)") auto

declare compare_from.simps [simp del]

definition constantTimeEqual :: "string \<Rightarrow> string \<Rightarrow> bool" where
  "constantTimeEqual left right \<longleftrightarrow> compare_from left right 0 (length left XOR length right) = 0"

section \<open>Issuing (agent-auth-lifecycle.ts)\<close>

definition DEFAULT_AGENT_ACCESS_TOKEN_TTL_SECONDS :: real where "DEFAULT_AGENT_ACCESS_TOKEN_TTL_SECONDS = 15 * 60"
definition DEFAULT_AGENT_REFRESH_TOKEN_TTL_SECONDS :: real where "DEFAULT_AGENT_REFRESH_TOKEN_TTL_SECONDS = 30 * 24 * 60 * 60"

record AgentAuthIssue =
  is_sessionId :: string
  is_accessToken :: string
  is_accessTokenHash :: string
  is_accessTokenPrefix :: string
  is_refreshToken :: string
  is_refreshTokenHash :: string
  is_refreshTokenPrefix :: string
  is_issuedAt :: string
  is_accessExpiresAt :: string
  is_refreshExpiresAt :: string

text \<open>With the default lifetimes, which every caller uses; \<open>isoNow\<close> is the time read once the tokens are hashed.\<close>
definition issueAgentAuth :: "runtime \<Rightarrow> http_crypto \<Rightarrow> ms \<Rightarrow> ms \<Rightarrow> string \<Rightarrow> bytes \<Rightarrow> bytes \<Rightarrow> AgentAuthIssue" where
  "issueAgentAuth rt hc nowMs isoNow sessionId accessBytes refreshBytes =
     (let accessToken = generateToken rt AGENT_ACCESS_TOKEN_MARKER accessBytes;
          refreshToken = generateToken rt AGENT_REFRESH_TOKEN_MARKER refreshBytes
      in \<lparr>is_sessionId = sessionId, is_accessToken = accessToken, is_accessTokenHash = hashAgentToken hc accessToken,
          is_accessTokenPrefix = deriveAccessTokenLookupPrefix accessToken, is_refreshToken = refreshToken,
          is_refreshTokenHash = hashAgentToken hc refreshToken, is_refreshTokenPrefix = deriveRefreshTokenLookupPrefix refreshToken,
          is_issuedAt = toIso isoNow,
          is_accessExpiresAt = addSeconds nowMs DEFAULT_AGENT_ACCESS_TOKEN_TTL_SECONDS,
          is_refreshExpiresAt = addSeconds nowMs DEFAULT_AGENT_REFRESH_TOKEN_TTL_SECONDS\<rparr>)"

definition refresh_payload_invalid :: "RuntimeEnvironment \<Rightarrow> app_error" where
  "refresh_payload_invalid env = AppError ''AGENT_AUTH_REFRESH_INVALID'' (hidden env ''Refresh payload is invalid'') 400"

definition parseAgentAuthRefreshPayload :: "RuntimeEnvironment \<Rightarrow> jsval \<Rightarrow> (app_error, string) result" where
  "parseAgentAuthRefreshPayload env payload =
     (case payload of
        JObj _ \<Rightarrow>
          (case js_get payload ''refreshToken'' of
             JStr s \<Rightarrow> catchE (parseRefreshToken (Some s)) (refresh_payload_invalid env)
           | _ \<Rightarrow> Inl (refresh_payload_invalid env))
      | _ \<Rightarrow> Inl (refresh_payload_invalid env))"

text \<open>\<open>isIsoExpired\<close> of \<open>server/helpers/parsers.ts\<close>.\<close>
definition isIsoExpired :: "(string \<Rightarrow> ms option) \<Rightarrow> string \<Rightarrow> ms \<Rightarrow> bool" where
  "isIsoExpired date_parse expiresAtIso nowMillis =
     (case date_parse expiresAtIso of None \<Rightarrow> True | Some parsed \<Rightarrow> parsed \<le> nowMillis)"

section \<open>The comparison is equality\<close>

lemma or_eq_0_nat: "(m OR n :: nat) = 0 \<longleftrightarrow> m = 0 \<and> n = 0"
  by (auto simp: bit_eq_iff bit_or_iff)

lemma xor_eq_0_nat: "(m XOR n :: nat) = 0 \<longleftrightarrow> m = n"
  by (auto simp: bit_eq_iff bit_xor_iff)

lemma compare_from_0:
  "compare_from l r i m = 0 \<longleftrightarrow> m = 0 \<and> (\<forall>j. i \<le> j \<and> j < max (length l) (length r) \<longrightarrow> char_code_at l j = char_code_at r j)"
proof (induction l r i m rule: compare_from.induct)
  case (1 l r i m)
  show ?case
  proof (cases "i < max (length l) (length r)")
    case True
    have "(\<forall>j. i \<le> j \<and> j < max (length l) (length r) \<longrightarrow> char_code_at l j = char_code_at r j) \<longleftrightarrow>
        char_code_at l i = char_code_at r i \<and> (\<forall>j. i + 1 \<le> j \<and> j < max (length l) (length r) \<longrightarrow> char_code_at l j = char_code_at r j)"
      using True by (metis Suc_eq_plus1 Suc_leI le_eq_less_or_eq less_imp_le order_refl Suc_le_lessD)
    then show ?thesis using 1[OF True] True by (subst compare_from.simps) (auto simp: or_eq_0_nat xor_eq_0_nat)
  qed (subst compare_from.simps, auto)
qed

lemma constantTimeEqual_eq [simp]: "constantTimeEqual left right \<longleftrightarrow> left = right"
proof
  assume "constantTimeEqual left right"
  then have "length left = length right" "\<forall>j < length left. char_code_at left j = char_code_at right j"
    unfolding constantTimeEqual_def compare_from_0 by (auto simp: xor_eq_0_nat)
  then show "left = right" by (auto simp: char_code_at_def list_eq_iff_nth_eq of_char_eq_iff)
qed (simp add: constantTimeEqual_def compare_from_0)

text \<open>
  (C10) The comparison that always looks at every character, and never stops at the first difference, answers
  exactly whether the two texts are equal.
\<close>
theorem constantTimeEqual_is_equality: "constantTimeEqual left right \<longleftrightarrow> left = right"
  by (rule constantTimeEqual_eq)

section \<open>Generated tokens\<close>

lemma generated_token_parses:
  assumes "b64_law rt" "bytes \<noteq> []" "\<forall>c \<in> set marker. \<not> is_ws c"
  shows "parseAgentToken marker (Some (generateToken rt marker bytes)) = Inr (generateToken rt marker bytes)"
proof -
  have "encodeBase64url rt bytes \<noteq> []" "\<forall>c \<in> set (encodeBase64url rt bytes). \<not> is_ws c"
    using assms(1,2) by (auto simp: b64_law_def encodeBase64url_def)
  moreover from this have "trim (generateToken rt marker bytes) = generateToken rt marker bytes"
    using assms(3) by (intro trim_noop) (auto simp: generateToken_def)
  ultimately show ?thesis by (auto simp: parseAgentToken_def generateToken_def)
qed

end
