(* ===== verification/Agent_Lifecycle.thy ===== *)
theory Agent_Lifecycle
  imports Registry_Db Agent_Tokens
begin

text \<open>
  The life of an agent in the registry: \<open>POST /v1/agents\<close>, \<open>DELETE /v1/agents/:id\<close> and
  \<open>POST /v1/agents/:id/reissue\<close> of \<open>apps/registry/src/server/routes/agents.ts\<close>.

  Each handler first reads, then works (signs a token), then changes the database. The change runs in a
  transaction; where the database has none (\<open>isUnsupportedLocalTransactionError\<close>) it runs statement by
  statement, and registration then undoes its own changes when one of them fails
  (\<open>applyRegistration_fallback\<close>). Requests overlap in the step relation \<open>tx_step\<close>, where the reads are one
  step and the change, in its transaction, is another; the overlapping of single statements is not modelled.

  Shown, with transactions: a challenge registers at most one agent, and every token other than an agent's
  current one is on the revocation list. Shown as well: without transactions a challenge can be used twice,
  and a revocation that overlaps a reissue leaves the new token off the list.
\<close>

section \<open>Registration\<close>

text \<open>The answer of a handler that does not get to its change: an \<open>AppError\<close>, another exception, or a plain 204.\<close>
datatype route_error = RouteError app_error | RouteForeign | NothingToDo

text \<open>The human a request is authenticated as.\<close>
record human_account =
  hu_id :: string
  hu_did :: string
  hu_agentLimit :: "real option"

text \<open>
  What a registration request holds when it comes to the database: the challenge and the owner it was checked
  for, the owner's limit, the new rows, and the time it read for marking the challenge.
\<close>
record registration =
  rg_challenge :: string
  rg_owner :: string
  rg_agentLimit :: "real option"
  rg_agent :: agent_row
  rg_session :: session_row
  rg_usedAt :: string

definition new_agent_row :: "registered_agent \<Rightarrow> string \<Rightarrow> agent_row" where
  "new_agent_row a ownerId =
     \<lparr>ar_id = ra_id a, ar_did = ra_did a, ar_owner_id = ownerId, ar_name = ra_name a, ar_framework = Some (ra_framework a),
      ar_public_key = ra_publicKey a, ar_current_jti = Some (ra_currentJti a), ar_status = ''active'',
      ar_expires_at = Some (ra_expiresAt a), ar_updated_at = ra_updatedAt a\<rparr>"

definition new_session_row :: "AgentAuthIssue \<Rightarrow> string \<Rightarrow> session_row" where
  "new_session_row auth agentId =
     \<lparr>sr_id = is_sessionId auth, sr_agent_id = agentId, sr_refresh_key_hash = is_refreshTokenHash auth,
      sr_refresh_key_prefix = is_refreshTokenPrefix auth, sr_refresh_issued_at = is_issuedAt auth,
      sr_refresh_expires_at = is_refreshExpiresAt auth, sr_refresh_last_used_at = None,
      sr_access_key_hash = is_accessTokenHash auth, sr_access_key_prefix = is_accessTokenPrefix auth,
      sr_access_issued_at = is_issuedAt auth, sr_access_expires_at = is_accessExpiresAt auth, sr_access_last_used_at = None,
      sr_status = ''active'', sr_revoked_at = None, sr_updated_at = is_issuedAt auth\<rparr>"

definition challenge_not_found :: "RuntimeEnvironment \<Rightarrow> app_error" where
  "challenge_not_found env = AppError ''AGENT_REGISTRATION_CHALLENGE_NOT_FOUND'' (hidden env ''Registration challenge was not found'') 400"

text \<open>What the registry's host gives a request: libraries, keys, the clock, fresh ids and the issued tokens.\<close>
record register_env =
  re_rt :: runtime
  re_hc :: http_crypto
  re_jose :: jose_lib
  re_urls :: url_lib
  re_date_parse :: "string \<Rightarrow> ms option"
  re_env :: RuntimeEnvironment
  re_issuer :: string
  re_signer :: "string \<times> bytes \<times> bytes"
  re_now :: ms
  re_agentId :: string
  re_jti :: string
  re_auth :: AgentAuthIssue
  re_usedAt :: string

text \<open>\<open>POST /v1/agents\<close> up to the change: the registration and the signed token.\<close>
definition register_read :: "register_env \<Rightarrow> registry_db \<Rightarrow> human_account \<Rightarrow> jsval \<Rightarrow> (route_error, registration \<times> string) result" where
  "register_read re db hum payload =
     (case parseAgentRegistrationBody (re_rt re) (re_env re) payload of Inl e \<Rightarrow> Inl (RouteError e) | Inr body \<Rightarrow>
      case findOwnedAgentRegistrationChallenge db (hu_id hum) (rb_challengeId body) of
        None \<Rightarrow> Inl (RouteError (challenge_not_found (re_env re)))
      | Some challenge \<Rightarrow>
      case verifyAgentRegistrationOwnershipProof (re_rt re) (re_hc re) (re_date_parse re) (re_env re) (re_now re) body challenge (hu_did hum) of
        Inl None \<Rightarrow> Inl RouteForeign | Inl (Some e) \<Rightarrow> Inl (RouteError e) | Inr _ \<Rightarrow>
      case buildAgentRegistrationFromParsed (re_rt re) (re_urls re) (re_now re) (re_agentId re) (re_jti re) body (hu_did hum) (re_issuer re) of
        None \<Rightarrow> Inl RouteForeign
      | Some (new, claims) \<Rightarrow>
      case signAIT (re_rt re) (re_jose re) claims (fst (re_signer re)) (snd (re_signer re)) of
        Inl _ \<Rightarrow> Inl RouteForeign
      | Inr ait \<Rightarrow>
          Inr (\<lparr>rg_challenge = rc_id challenge, rg_owner = hu_id hum, rg_agentLimit = hu_agentLimit hum,
                rg_agent = new_agent_row new (hu_id hum), rg_session = new_session_row (re_auth re) (ra_id new), rg_usedAt = re_usedAt re\<rparr>, ait))"

definition replayed_error :: "RuntimeEnvironment \<Rightarrow> app_error" where
  "replayed_error env = AppError ''AGENT_REGISTRATION_CHALLENGE_REPLAYED'' (hidden env ''Registration challenge has already been used'') 400"

definition limit_error :: app_error where
  "limit_error = AppError ''AGENT_REGISTRATION_LIMIT_REACHED'' ''Agent registration limit has been reached'' 409"

definition challenge_is :: "registration \<Rightarrow> string \<Rightarrow> AgentRegistrationChallenge \<Rightarrow> bool" where
  "challenge_is rg status c \<longleftrightarrow> rc_id c = rg_challenge rg \<and> rc_ownerId c = rg_owner rg \<and> rc_status c = status"

text \<open>The statements, in their order. The first two may refuse.\<close>
definition consume_challenge :: "RuntimeEnvironment \<Rightarrow> registration \<Rightarrow> registry_db \<Rightarrow> (app_error, registry_db) result" where
  "consume_challenge env rg db =
     (case sql_update (challenge_is rg ''pending'')
             (\<lambda>c. c\<lparr>rc_status := ''used'', rc_usedAt := Some (rg_usedAt rg), rc_updatedAt := rg_usedAt rg\<rparr>) (db_challenges db) of
        (updatedRows, rows) \<Rightarrow>
          if updatedRows = 0 then Inl (replayed_error env) else Inr (db\<lparr>db_challenges := rows\<rparr>))"

definition check_limit :: "registration \<Rightarrow> registry_db \<Rightarrow> (app_error, unit) result" where
  "check_limit rg db =
     (case rg_agentLimit rg of
        None \<Rightarrow> Inr ()
      | Some limit \<Rightarrow>
          if 0 \<le> limit \<and> real (countAgentsByOwner db (rg_owner rg)) \<ge> limit then Inl limit_error else Inr ())"

definition insert_agent :: "registration \<Rightarrow> registry_db \<Rightarrow> registry_db" where
  "insert_agent rg db = db\<lparr>db_agents := db_agents db @ [rg_agent rg]\<rparr>"

definition insert_session :: "registration \<Rightarrow> registry_db \<Rightarrow> registry_db" where
  "insert_session rg db = db\<lparr>db_sessions := db_sessions db @ [rg_session rg]\<rparr>"

definition issued_event :: "registration \<Rightarrow> auth_event" where
  "issued_event rg = \<lparr>ev_agent_id = ar_id (rg_agent rg), ev_session_id = sr_id (rg_session rg), ev_type = issued, ev_reason = None\<rparr>"

text \<open>Undoing: the new rows are deleted and the challenge is set back.\<close>
definition rollback_session :: "registration \<Rightarrow> registry_db \<Rightarrow> registry_db" where
  "rollback_session rg db = db\<lparr>db_sessions := filter (\<lambda>r. sr_id r \<noteq> sr_id (rg_session rg)) (db_sessions db)\<rparr>"

definition rollback_agent :: "registration \<Rightarrow> registry_db \<Rightarrow> registry_db" where
  "rollback_agent rg db = db\<lparr>db_agents := filter (\<lambda>r. ar_id r \<noteq> ar_id (rg_agent rg)) (db_agents db)\<rparr>"

definition rollback_challenge :: "registration \<Rightarrow> string \<Rightarrow> registry_db \<Rightarrow> registry_db" where
  "rollback_challenge rg now db =
     db\<lparr>db_challenges := snd (sql_update (challenge_is rg ''used'')
          (\<lambda>c. c\<lparr>rc_status := ''pending'', rc_usedAt := None, rc_updatedAt := now\<rparr>) (db_challenges db))\<rparr>"

text \<open>A statement that refuses, or that the database itself fails; \<open>fails\<close> tells which of the three inserts fail.\<close>
datatype mutation_error = Refused_by app_error | DbFailure

record insert_failures =
  fail_agent :: bool
  fail_session :: bool
  fail_event :: bool

text \<open>The statements up to the first error, and the database they leave.\<close>
definition registration_statements ::
  "RuntimeEnvironment \<Rightarrow> insert_failures \<Rightarrow> registration \<Rightarrow> registry_db \<Rightarrow> (mutation_error, unit) result \<times> registry_db" where
  "registration_statements env fails rg db =
     (case consume_challenge env rg db of
        Inl e \<Rightarrow> (Inl (Refused_by e), db)
      | Inr db1 \<Rightarrow>
          (case check_limit rg db1 of
             Inl e \<Rightarrow> (Inl (Refused_by e), db1)
           | Inr _ \<Rightarrow>
               if fail_agent fails then (Inl DbFailure, db1)
               else let db2 = insert_agent rg db1 in
                 if fail_session fails then (Inl DbFailure, db2)
                 else let db3 = insert_session rg db2 in
                   if fail_event fails then (Inl DbFailure, db3)
                   else (Inr (), insertAgentAuthEvent (issued_event rg) db3)))"

text \<open>In a transaction an error leaves the database as it was.\<close>
definition applyRegistration_tx ::
  "RuntimeEnvironment \<Rightarrow> insert_failures \<Rightarrow> registration \<Rightarrow> registry_db \<Rightarrow> (mutation_error, registry_db) result" where
  "applyRegistration_tx env fails rg db =
     (case registration_statements env fails rg db of (Inl e, _) \<Rightarrow> Inl e | (Inr _, db') \<Rightarrow> Inr db')"

text \<open>
  Without transactions (\<open>rollbackOnAgentInsertFailure\<close>) an error is answered by undoing, whatever the error was.
\<close>
definition applyRegistration_fallback ::
  "RuntimeEnvironment \<Rightarrow> insert_failures \<Rightarrow> string \<Rightarrow> registration \<Rightarrow> registry_db \<Rightarrow> (mutation_error, unit) result \<times> registry_db" where
  "applyRegistration_fallback env fails now rg db =
     (case registration_statements env fails rg db of
        (Inl e, db') \<Rightarrow> (Inl e, rollback_challenge rg now (rollback_agent rg (rollback_session rg db')))
      | (Inr _, db') \<Rightarrow> (Inr (), db'))"

section \<open>Revocation and reissue\<close>

text \<open>What a revocation has read: the agent, its current token and its session.\<close>
record revoking =
  rk_agent :: agent_row
  rk_jti :: string
  rk_session :: "session_row option"
  rk_revocation_id :: string
  rk_revokedAt :: string

definition agentNotFoundError :: app_error where
  "agentNotFoundError = AppError ''AGENT_NOT_FOUND'' ''Agent not found'' 404"

definition invalidAgentRevokeStateError :: "RuntimeEnvironment \<Rightarrow> app_error" where
  "invalidAgentRevokeStateError env = AppError ''AGENT_REVOKE_INVALID_STATE'' (hidden env ''Agent cannot be revoked'') 409"

definition invalidAgentReissueStateError :: "RuntimeEnvironment \<Rightarrow> app_error" where
  "invalidAgentReissueStateError env = AppError ''AGENT_REISSUE_INVALID_STATE'' (hidden env ''Agent cannot be reissued'') 409"

definition requireCurrentJti :: "app_error \<Rightarrow> string option \<Rightarrow> (app_error, string) result" where
  "requireCurrentJti onInvalid currentJti =
     (case currentJti of None \<Rightarrow> Inl onInvalid | Some jti \<Rightarrow> if length jti = 0 then Inl onInvalid else Inr jti)"

definition revoke_read ::
  "RuntimeEnvironment \<Rightarrow> registry_db \<Rightarrow> string \<Rightarrow> string \<Rightarrow> string \<Rightarrow> string \<Rightarrow> (route_error, revoking) result" where
  "revoke_read env db ownerId agentId newId now =
     (case findOwnedAgent db ownerId agentId of
        None \<Rightarrow> Inl (RouteError agentNotFoundError)
      | Some existingAgent \<Rightarrow>
          if ar_status existingAgent = ''revoked'' then Inl NothingToDo
          else (case requireCurrentJti (invalidAgentRevokeStateError env) (ar_current_jti existingAgent) of
                  Inl e \<Rightarrow> Inl (RouteError e)
                | Inr currentJti \<Rightarrow>
                    Inr \<lparr>rk_agent = existingAgent, rk_jti = currentJti,
                         rk_session = findAgentAuthSessionByAgentId db (ar_id existingAgent),
                         rk_revocation_id = newId, rk_revokedAt = now\<rparr>))"

definition revoke_agent_row :: "revoking \<Rightarrow> registry_db \<Rightarrow> registry_db" where
  "revoke_agent_row rk db =
     db\<lparr>db_agents := snd (sql_update (\<lambda>r. ar_id r = ar_id (rk_agent rk))
          (\<lambda>r. r\<lparr>ar_status := ''revoked'', ar_updated_at := rk_revokedAt rk\<rparr>) (db_agents db))\<rparr>"

definition revoke_session_row :: "string \<Rightarrow> string \<Rightarrow> registry_db \<Rightarrow> registry_db" where
  "revoke_session_row sessionId revokedAt db =
     db\<lparr>db_sessions := snd (sql_update (\<lambda>r. sr_id r = sessionId \<and> sr_status r = ''active'')
          (\<lambda>r. r\<lparr>sr_status := ''revoked'', sr_revoked_at := Some revokedAt, sr_updated_at := revokedAt\<rparr>) (db_sessions db))\<rparr>"

definition AGENT_AUTH_REVOKED_REASON_AGENT_REVOKED :: string where
  "AGENT_AUTH_REVOKED_REASON_AGENT_REVOKED = ''agent_revoked''"

definition applyRevokeMutation :: "revoking \<Rightarrow> registry_db \<Rightarrow> registry_db" where
  "applyRevokeMutation rk db =
     (let db1 = revoke_agent_row rk db;
          db2 = insert_revocation \<lparr>rw_id = rk_revocation_id rk, rw_jti = rk_jti rk, rw_agent_id = ar_id (rk_agent rk),
                  rw_reason = None, rw_revoked_at = rk_revokedAt rk\<rparr> db1
      in case rk_session rk of
           Some existingSession \<Rightarrow>
             if sr_status existingSession = ''active''
             then insertAgentAuthEvent \<lparr>ev_agent_id = ar_id (rk_agent rk), ev_session_id = sr_id existingSession, ev_type = revoked,
                    ev_reason = Some AGENT_AUTH_REVOKED_REASON_AGENT_REVOKED\<rparr>
                  (revoke_session_row (sr_id existingSession) (rk_revokedAt rk) db2)
             else db2
         | None \<Rightarrow> db2)"

text \<open>What a reissue has read and built: the agent and its token, and the new token with its expiry.\<close>
record reissuing =
  ri_agent :: agent_row
  ri_jti :: string
  ri_new :: registered_agent
  ri_revocation_id :: string
  ri_revokedAt :: string

definition reissue_read ::
  "RuntimeEnvironment \<Rightarrow> (string \<Rightarrow> ms option) \<Rightarrow> registry_db \<Rightarrow> ms \<Rightarrow> human_account \<Rightarrow> string \<Rightarrow> string \<Rightarrow> string \<Rightarrow> string \<Rightarrow> string \<Rightarrow>
   (route_error, reissuing \<times> AitClaims) result" where
  "reissue_read env date_parse db now hum agentId issuer newJti newId revokedAt =
     (case findOwnedAgent db (hu_id hum) agentId of
        None \<Rightarrow> Inl (RouteError agentNotFoundError)
      | Some existingAgent \<Rightarrow>
          if ar_status existingAgent = ''revoked'' then Inl (RouteError (invalidAgentReissueStateError env))
          else (case requireCurrentJti (invalidAgentReissueStateError env) (ar_current_jti existingAgent) of
                  Inl e \<Rightarrow> Inl (RouteError e)
                | Inr currentJti \<Rightarrow>
                    (case buildAgentReissue date_parse now newJti (ar_id existingAgent) (ar_did existingAgent) (hu_did hum)
                            (ar_name existingAgent) (ar_framework existingAgent) (ar_public_key existingAgent)
                            (ar_expires_at existingAgent) issuer of
                       (reissued, claims) \<Rightarrow>
                         Inr (\<lparr>ri_agent = existingAgent, ri_jti = currentJti, ri_new = reissued,
                               ri_revocation_id = newId, ri_revokedAt = revokedAt\<rparr>, claims))))"

definition applyReissueMutation :: "RuntimeEnvironment \<Rightarrow> reissuing \<Rightarrow> registry_db \<Rightarrow> (app_error, registry_db) result" where
  "applyReissueMutation env ri db =
     (case sql_update (\<lambda>r. ar_id r = ar_id (ri_agent ri) \<and> ar_status r = ''active'' \<and> ar_current_jti r = Some (ri_jti ri))
             (\<lambda>r. r\<lparr>ar_status := ''active'', ar_current_jti := Some (ra_currentJti (ri_new ri)),
                    ar_expires_at := Some (ra_expiresAt (ri_new ri)), ar_updated_at := ra_updatedAt (ri_new ri)\<rparr>) (db_agents db) of
        (updatedRows, rows) \<Rightarrow>
          if updatedRows = 0 then Inl (invalidAgentReissueStateError env)
          else Inr (insert_revocation \<lparr>rw_id = ri_revocation_id ri, rw_jti = ri_jti ri, rw_agent_id = ar_id (ri_agent ri),
                      rw_reason = Some ''reissued'', rw_revoked_at = ri_revokedAt ri\<rparr> (db\<lparr>db_agents := rows\<rparr>)))"

section \<open>Interleaved requests, with transactions\<close>

text \<open>
  The database and the requests between their reads and their change. \<open>lc_registered\<close> records which challenge
  registered which agent, \<open>lc_tokens\<close> which tokens were handed out for which agent; the code has neither.
\<close>
record lifecycle =
  lc_db :: registry_db
  lc_registering :: "registration list"
  lc_revoking :: "revoking list"
  lc_reissuing :: "reissuing list"
  lc_registered :: "(string \<times> string) list"
  lc_tokens :: "(string \<times> string) list"

text \<open>
  Ids are primary keys, so a row is only inserted under a new id. \<open>other\<close> stands for the routes that change none of
  the three tables (those of \<open>Agent_Sessions\<close>).
\<close>
inductive tx_step :: "lifecycle \<Rightarrow> lifecycle \<Rightarrow> bool" where
  challenge:
    "buildAgentRegistrationChallenge rt env now cid nonce payload owner = Inr c \<Longrightarrow> rc_id c \<notin> rc_id ` set (db_challenges (lc_db s)) \<Longrightarrow>
     tx_step s (s\<lparr>lc_db := (lc_db s)\<lparr>db_challenges := db_challenges (lc_db s) @ [c]\<rparr>\<rparr>)"
| register_begin:
    "register_read re (lc_db s) hum payload = Inr (rg, ait) \<Longrightarrow> tx_step s (s\<lparr>lc_registering := lc_registering s @ [rg]\<rparr>)"
| register_commit:
    "lc_registering s = before @ rg # after \<Longrightarrow> ar_id (rg_agent rg) \<notin> ar_id ` set (db_agents (lc_db s)) \<Longrightarrow>
     applyRegistration_tx env fails rg (lc_db s) = Inr db' \<Longrightarrow> ar_current_jti (rg_agent rg) = Some jti \<Longrightarrow>
     tx_step s (s\<lparr>lc_db := db', lc_registering := before @ after, lc_registered := lc_registered s @ [(rg_challenge rg, ar_id (rg_agent rg))],
        lc_tokens := lc_tokens s @ [(ar_id (rg_agent rg), jti)]\<rparr>)"
| register_fail:
    "lc_registering s = before @ rg # after \<Longrightarrow> tx_step s (s\<lparr>lc_registering := before @ after\<rparr>)"
| revoke_begin:
    "revoke_read env (lc_db s) owner agentId newId now = Inr rk \<Longrightarrow> tx_step s (s\<lparr>lc_revoking := lc_revoking s @ [rk]\<rparr>)"
| revoke_commit:
    "lc_revoking s = before @ rk # after \<Longrightarrow>
     tx_step s (s\<lparr>lc_db := applyRevokeMutation rk (lc_db s), lc_revoking := before @ after\<rparr>)"
| reissue_begin:
    "reissue_read env date_parse (lc_db s) now hum agentId issuer newJti newId revokedAt = Inr (ri, claims) \<Longrightarrow>
     tx_step s (s\<lparr>lc_reissuing := lc_reissuing s @ [ri]\<rparr>)"
| reissue_commit:
    "lc_reissuing s = before @ ri # after \<Longrightarrow> applyReissueMutation env ri (lc_db s) = Inr db' \<Longrightarrow>
     tx_step s (s\<lparr>lc_db := db', lc_reissuing := before @ after,
        lc_tokens := lc_tokens s @ [(ar_id (ri_agent ri), ra_currentJti (ri_new ri))]\<rparr>)"
| reissue_fail:
    "lc_reissuing s = before @ ri # after \<Longrightarrow> tx_step s (s\<lparr>lc_reissuing := before @ after\<rparr>)"
| other:
    "db_agents db' = db_agents (lc_db s) \<Longrightarrow> db_revocations db' = db_revocations (lc_db s) \<Longrightarrow>
     db_challenges db' = db_challenges (lc_db s) \<Longrightarrow> tx_step s (s\<lparr>lc_db := db'\<rparr>)"

inductive tx_reach :: "lifecycle \<Rightarrow> lifecycle \<Rightarrow> bool" for s0 where
  here: "tx_reach s0 s0"
| step: "tx_reach s0 s \<Longrightarrow> tx_step s s' \<Longrightarrow> tx_reach s0 s'"

text \<open>Rows have distinct ids; the history is empty. Any requests may already be under way.\<close>
definition lc_start :: "lifecycle \<Rightarrow> bool" where
  "lc_start s \<longleftrightarrow> distinct (map rc_id (db_challenges (lc_db s))) \<and> distinct (map ar_id (db_agents (lc_db s))) \<and>
     lc_registered s = [] \<and> lc_tokens s = []"

section \<open>A challenge registers at most one agent\<close>

definition used_challenge :: "registry_db \<Rightarrow> string \<Rightarrow> bool" where
  "used_challenge db cid \<longleftrightarrow> (\<exists>c \<in> set (db_challenges db). rc_id c = cid \<and> rc_status c = ''used'')"

definition once_inv :: "lifecycle \<Rightarrow> bool" where
  "once_inv s \<longleftrightarrow> distinct (map rc_id (db_challenges (lc_db s))) \<and> distinct (map fst (lc_registered s)) \<and>
     (\<forall>cid \<in> fst ` set (lc_registered s). used_challenge (lc_db s) cid)"

lemma consume_challenge_Inr:
  assumes "consume_challenge env rg db = Inr db'"
  shows "db' = db\<lparr>db_challenges := map (\<lambda>c. if challenge_is rg ''pending'' c
           then c\<lparr>rc_status := ''used'', rc_usedAt := Some (rg_usedAt rg), rc_updatedAt := rg_usedAt rg\<rparr> else c) (db_challenges db)\<rparr>"
    and "\<exists>c \<in> set (db_challenges db). challenge_is rg ''pending'' c"
  using assms by (auto simp: consume_challenge_def sql_update_def filter_empty_conv split: if_splits)

lemma applyRegistration_tx_Inr:
  assumes "applyRegistration_tx env fails rg db = Inr db'"
  shows "\<exists>db1. consume_challenge env rg db = Inr db1 \<and> check_limit rg db1 = Inr () \<and>
    db' = insertAgentAuthEvent (issued_event rg) (insert_session rg (insert_agent rg db1))"
  using assms
  by (auto simp: applyRegistration_tx_def registration_statements_def Let_def split: sum.splits if_splits)

lemma applyRegistration_tx_tables:
  assumes "applyRegistration_tx env fails rg db = Inr db'"
  shows "db_challenges db' = map (\<lambda>c. if challenge_is rg ''pending'' c
           then c\<lparr>rc_status := ''used'', rc_usedAt := Some (rg_usedAt rg), rc_updatedAt := rg_usedAt rg\<rparr> else c) (db_challenges db)"
    "\<exists>c \<in> set (db_challenges db). challenge_is rg ''pending'' c"
    "db_agents db' = db_agents db @ [rg_agent rg]" "db_revocations db' = db_revocations db"
proof -
  obtain db1 where c: "consume_challenge env rg db = Inr db1"
    and db': "db' = insertAgentAuthEvent (issued_event rg) (insert_session rg (insert_agent rg db1))"
    using applyRegistration_tx_Inr[OF assms] by blast
  note db1 = consume_challenge_Inr[OF c]
  show "db_challenges db' = map (\<lambda>c. if challenge_is rg ''pending'' c
           then c\<lparr>rc_status := ''used'', rc_usedAt := Some (rg_usedAt rg), rc_updatedAt := rg_usedAt rg\<rparr> else c) (db_challenges db)"
    "db_agents db' = db_agents db @ [rg_agent rg]" "db_revocations db' = db_revocations db"
    unfolding db' db1(1) by (simp_all add: insert_session_def insert_agent_def)
  show "\<exists>c \<in> set (db_challenges db). challenge_is rg ''pending'' c" by (rule db1(2))
qed

lemma revoke_frame [simp]:
  "db_challenges (applyRevokeMutation rk db) = db_challenges db"
  "db_agents (applyRevokeMutation rk db) = db_agents (revoke_agent_row rk db)"
  "rw_jti ` set (db_revocations (applyRevokeMutation rk db)) = insert (rk_jti rk) (rw_jti ` set (db_revocations db))"
  by (auto simp: applyRevokeMutation_def Let_def revoke_agent_row_def revoke_session_row_def insert_revocation_jtis split: option.splits)

lemma applyReissueMutation_Inr:
  assumes "applyReissueMutation env ri db = Inr db'"
  defines "p \<equiv> \<lambda>r. ar_id r = ar_id (ri_agent ri) \<and> ar_status r = ''active'' \<and> ar_current_jti r = Some (ri_jti ri)"
  shows "db_challenges db' = db_challenges db"
    "db_agents db' = map (\<lambda>r. if p r then r\<lparr>ar_status := ''active'', ar_current_jti := Some (ra_currentJti (ri_new ri)),
       ar_expires_at := Some (ra_expiresAt (ri_new ri)), ar_updated_at := ra_updatedAt (ri_new ri)\<rparr> else r) (db_agents db)"
    "\<exists>r \<in> set (db_agents db). p r"
    "rw_jti ` set (db_revocations db') = insert (ri_jti ri) (rw_jti ` set (db_revocations db))"
proof -
  have some: "filter p (db_agents db) \<noteq> []"
    and db': "db' = insert_revocation \<lparr>rw_id = ri_revocation_id ri, rw_jti = ri_jti ri, rw_agent_id = ar_id (ri_agent ri),
        rw_reason = Some ''reissued'', rw_revoked_at = ri_revokedAt ri\<rparr>
      (db\<lparr>db_agents := map (\<lambda>r. if p r then r\<lparr>ar_status := ''active'', ar_current_jti := Some (ra_currentJti (ri_new ri)),
         ar_expires_at := Some (ra_expiresAt (ri_new ri)), ar_updated_at := ra_updatedAt (ri_new ri)\<rparr> else r) (db_agents db)\<rparr>)"
    using assms(1) unfolding p_def by (simp_all add: applyReissueMutation_def sql_update_def split: if_splits)
  show "db_challenges db' = db_challenges db"
    "db_agents db' = map (\<lambda>r. if p r then r\<lparr>ar_status := ''active'', ar_current_jti := Some (ra_currentJti (ri_new ri)),
       ar_expires_at := Some (ra_expiresAt (ri_new ri)), ar_updated_at := ra_updatedAt (ri_new ri)\<rparr> else r) (db_agents db)"
    unfolding db' by simp_all
  show "\<exists>r \<in> set (db_agents db). p r" using some by (simp add: filter_empty_conv)
  show "rw_jti ` set (db_revocations db') = insert (ri_jti ri) (rw_jti ` set (db_revocations db))"
    unfolding db' insert_revocation_jtis by simp
qed

lemma used_challenge_frame: "db_challenges db' = db_challenges db \<Longrightarrow> used_challenge db' cid = used_challenge db cid"
  by (simp add: used_challenge_def)

lemma once_inv_step:
  assumes "tx_step s s'" "once_inv s"
  shows "once_inv s'"
  using assms(1)
proof (cases rule: tx_step.cases)
  case (challenge rt env now cid nonce payload owner c)
  then show ?thesis using assms(2) by (auto simp: once_inv_def used_challenge_def)
next
  case (register_commit before rg after env fails db' jti)
  note t = applyRegistration_tx_tables[OF register_commit(4)]
  obtain c where c: "c \<in> set (db_challenges (lc_db s))" "challenge_is rg ''pending'' c" using t(2) by blast
  have ids: "distinct (map rc_id (db_challenges (lc_db s)))" using assms(2) by (simp add: once_inv_def)
  have "\<not> used_challenge (lc_db s) (rg_challenge rg)"
  proof
    assume "used_challenge (lc_db s) (rg_challenge rg)"
    then obtain d where "d \<in> set (db_challenges (lc_db s))" "rc_id d = rc_id c" "rc_status d = ''used''"
      using c(2) by (auto simp: used_challenge_def challenge_is_def)
    then have "d = c" using ids c(1) by (simp add: distinct_map inj_on_def)
    then show False using c(2) \<open>rc_status d = ''used''\<close> by (simp add: challenge_is_def)
  qed
  moreover have "used_challenge db' (rg_challenge rg)"
    using c unfolding used_challenge_def t(1) bex_map by (auto simp: challenge_is_def)
  moreover have "used_challenge db' cid" if u: "used_challenge (lc_db s) cid" for cid
  proof -
    obtain d where "d \<in> set (db_challenges (lc_db s))" "rc_id d = cid" "rc_status d = ''used''"
      using u by (auto simp: used_challenge_def)
    then show ?thesis unfolding used_challenge_def t(1) by (rule_tac bex_mapI[of d]) (auto simp: challenge_is_def)
  qed
  moreover have "map rc_id (db_challenges db') = map rc_id (db_challenges (lc_db s))"
    unfolding t(1) by (simp add: comp_def if_distrib cong: if_cong)
  ultimately show ?thesis using assms(2) register_commit(1) by (auto simp: once_inv_def)
next
  case (revoke_commit before rk after)
  then show ?thesis using assms(2) by (simp add: once_inv_def used_challenge_def)
next
  case (reissue_commit before ri after env db')
  then show ?thesis using assms(2) applyReissueMutation_Inr(1)[OF reissue_commit(3)] by (simp add: once_inv_def used_challenge_def)
next
  case (other db')
  then show ?thesis using assms(2) by (simp add: once_inv_def used_challenge_def)
qed (use assms(2) in \<open>simp_all add: once_inv_def\<close>)

lemma once_inv_reach: "tx_reach s0 s \<Longrightarrow> once_inv s0 \<Longrightarrow> once_inv s"
  by (induction rule: tx_reach.induct) (auto intro: once_inv_step)

text \<open>
  (C6) With transactions, however registrations, revocations and reissues overlap, a challenge registers at
  most one agent, although several requests may have found it pending.
\<close>
theorem challenge_registers_at_most_one_agent:
  assumes "lc_start s0" and "tx_reach s0 s" and "(cid, a) \<in> set (lc_registered s)" and "(cid, b) \<in> set (lc_registered s)"
  shows "a = b \<and> used_challenge (lc_db s) cid"
proof -
  have "once_inv s" using once_inv_reach[OF assms(2)] assms(1) by (simp add: lc_start_def once_inv_def)
  then show ?thesis using assms(3,4) by (auto simp: once_inv_def dest: eq_key_imp_eq_value)
qed

section \<open>Every token but the current one is revoked\<close>

definition tokens_inv :: "lifecycle \<Rightarrow> bool" where
  "tokens_inv s \<longleftrightarrow> (\<forall>(a, j) \<in> set (lc_tokens s).
     (\<exists>r \<in> set (db_agents (lc_db s)). ar_id r = a \<and> ar_current_jti r = Some j) \<or> j \<in> rw_jti ` set (db_revocations (lc_db s)))"

definition is_current :: "registry_db \<Rightarrow> string \<Rightarrow> string \<Rightarrow> bool" where
  "is_current db a j \<longleftrightarrow> (\<exists>r \<in> set (db_agents db). ar_id r = a \<and> ar_current_jti r = Some j)"

lemma tokens_inv_is_current:
  "tokens_inv s \<longleftrightarrow> (\<forall>(a, j) \<in> set (lc_tokens s). is_current (lc_db s) a j \<or> j \<in> rw_jti ` set (db_revocations (lc_db s)))"
  by (simp add: tokens_inv_def is_current_def)

lemma is_current_revoke [simp]: "is_current (applyRevokeMutation rk db) a j = is_current db a j"
  by (simp add: is_current_def revoke_agent_row_def sql_update_bex)

lemma is_current_reissue:
  assumes "applyReissueMutation env ri db = Inr db'" "is_current db a j" "j \<noteq> ri_jti ri"
  shows "is_current db' a j"
proof -
  obtain r where "r \<in> set (db_agents db)" "ar_id r = a" "ar_current_jti r = Some j" using assms(2) by (auto simp: is_current_def)
  then show ?thesis using assms(3) unfolding is_current_def applyReissueMutation_Inr(2)[OF assms(1)] by (rule_tac bex_mapI[of r]) auto
qed

lemma is_current_reissued:
  assumes "applyReissueMutation env ri db = Inr db'"
  shows "is_current db' (ar_id (ri_agent ri)) (ra_currentJti (ri_new ri))"
proof -
  obtain r where "r \<in> set (db_agents db)" "ar_id r = ar_id (ri_agent ri)" "ar_status r = ''active''" "ar_current_jti r = Some (ri_jti ri)"
    using applyReissueMutation_Inr(3)[OF assms] by blast
  then show ?thesis unfolding is_current_def applyReissueMutation_Inr(2)[OF assms] bex_map by auto
qed

lemma tokens_inv_step:
  assumes "tx_step s s'" "tokens_inv s"
  shows "tokens_inv s'"
  using assms(1)
proof (cases rule: tx_step.cases)
  case (register_commit before rg after env fails db' jti)
  note t = applyRegistration_tx_tables(3,4)[OF register_commit(4)]
  have "is_current db' a j \<longleftrightarrow> is_current (lc_db s) a j \<or> (a = ar_id (rg_agent rg) \<and> j = jti)" for a j
    using register_commit(5) by (auto simp: is_current_def t(1))
  then show ?thesis using assms(2) register_commit(1) t(2) by (auto simp: tokens_inv_is_current)
next
  case (revoke_commit before rk after)
  then show ?thesis using assms(2) by (auto simp: tokens_inv_is_current)
next
  case (reissue_commit before ri after env db')
  note r = applyReissueMutation_Inr(4)[OF reissue_commit(3)]
  show ?thesis
    using assms(2) reissue_commit(1) r is_current_reissue[OF reissue_commit(3)] is_current_reissued[OF reissue_commit(3)]
    by (fastforce simp: tokens_inv_is_current)
next
  case (other db')
  then show ?thesis using assms(2) by (simp add: tokens_inv_def)
qed (use assms(2) in \<open>simp_all add: tokens_inv_def\<close>)

lemma tokens_inv_reach: "tx_reach s0 s \<Longrightarrow> tokens_inv s0 \<Longrightarrow> tokens_inv s"
  by (induction rule: tx_reach.induct) (auto intro: tokens_inv_step)


section \<open>Where overlapping requests go wrong\<close>

definition no_failure :: insert_failures where
  "no_failure = \<lparr>fail_agent = False, fail_session = False, fail_event = False\<rparr>"

definition same_challenge :: "registration \<Rightarrow> registration \<Rightarrow> bool" where
  "same_challenge a b \<longleftrightarrow> rg_challenge a = rg_challenge b \<and> rg_owner a = rg_owner b"

lemma same_challenge_is: "same_challenge a b \<Longrightarrow> challenge_is a st c = challenge_is b st c"
  by (simp add: same_challenge_def challenge_is_def)

lemma consume_challenge_ok:
  "\<exists>c \<in> set (db_challenges db). challenge_is rg ''pending'' c \<Longrightarrow> \<exists>db'. consume_challenge env rg db = Inr db'"
  by (auto simp: consume_challenge_def sql_update_def filter_empty_conv)

lemma fallback_registers:
  assumes "\<exists>c \<in> set (db_challenges db). challenge_is rg ''pending'' c" "rg_agentLimit rg = None"
  shows "\<exists>db'. applyRegistration_fallback env no_failure now rg db = (Inr (), db') \<and>
    db_agents db' = db_agents db @ [rg_agent rg] \<and> (\<exists>c \<in> set (db_challenges db'). challenge_is rg ''used'' c) \<and>
    (\<forall>c \<in> set (db_challenges db'). \<not> challenge_is rg ''pending'' c)"
proof -
  obtain db1 where c: "consume_challenge env rg db = Inr db1" using consume_challenge_ok[OF assms(1)] by blast
  note d = consume_challenge_Inr(1)[OF c]
  define db' where "db' = insertAgentAuthEvent (issued_event rg) (insert_session rg (insert_agent rg db1))"
  have "applyRegistration_fallback env no_failure now rg db = (Inr (), db')"
    using c assms(2) by (simp add: applyRegistration_fallback_def registration_statements_def check_limit_def no_failure_def db'_def)
  moreover have "db_agents db' = db_agents db @ [rg_agent rg]" "db_challenges db' = db_challenges db1"
    by (simp_all add: db'_def d insert_session_def insert_agent_def)
  moreover have "\<exists>c \<in> set (db_challenges db1). challenge_is rg ''used'' c"
    using assms(1) by (auto simp: d bex_map challenge_is_def simp del: set_map)
  moreover have "\<forall>c \<in> set (db_challenges db1). \<not> challenge_is rg ''pending'' c"
    by (auto simp: d challenge_is_def)
  ultimately show ?thesis by simp
qed

lemma fallback_replayed:
  assumes "\<forall>c \<in> set (db_challenges db). \<not> challenge_is rg ''pending'' c" "\<exists>c \<in> set (db_challenges db). challenge_is rg ''used'' c"
  shows "\<exists>db'. applyRegistration_fallback env fails now rg db = (Inl (Refused_by (replayed_error env)), db') \<and>
    db_agents db' = filter (\<lambda>r. ar_id r \<noteq> ar_id (rg_agent rg)) (db_agents db) \<and>
    (\<exists>c \<in> set (db_challenges db'). challenge_is rg ''pending'' c)"
proof -
  have "consume_challenge env rg db = Inl (replayed_error env)"
    using assms(1) by (simp add: consume_challenge_def sql_update_def filter_empty_conv)
  then have "applyRegistration_fallback env fails now rg db =
      (Inl (Refused_by (replayed_error env)), rollback_challenge rg now (rollback_agent rg (rollback_session rg db)))"
    by (simp add: applyRegistration_fallback_def registration_statements_def)
  moreover have "\<exists>c \<in> set (db_challenges (rollback_challenge rg now (rollback_agent rg (rollback_session rg db)))). challenge_is rg ''pending'' c"
    using assms(2) by (auto simp: rollback_challenge_def rollback_agent_def rollback_session_def sql_update_snd bex_map challenge_is_def simp del: set_map)
  ultimately show ?thesis by (simp add: rollback_challenge_def rollback_agent_def rollback_session_def)
qed

text \<open>
  Without transactions a challenge can be used twice. Two requests read the same pending challenge; the first
  registers its agent, the second is refused as a replay, and its undoing sets the challenge back to pending
  although it was the first request that had used it. A third request then registers another agent on the same challenge.
\<close>
theorem challenge_used_twice_without_transactions:
  assumes "\<exists>c \<in> set (db_challenges db). challenge_is a ''pending'' c" and "same_challenge a b" "same_challenge a d"
    and "rg_agentLimit a = None" "rg_agentLimit d = None" and "ar_id (rg_agent a) \<noteq> ar_id (rg_agent b)"
  shows "\<exists>db1 db2 db3. applyRegistration_fallback env no_failure t1 a db = (Inr (), db1) \<and>
    applyRegistration_fallback env no_failure t2 b db1 = (Inl (Refused_by (replayed_error env)), db2) \<and>
    applyRegistration_fallback env no_failure t3 d db2 = (Inr (), db3) \<and>
    rg_agent a \<in> set (db_agents db3) \<and> rg_agent d \<in> set (db_agents db3)"
proof -
  obtain db1 where 1: "applyRegistration_fallback env no_failure t1 a db = (Inr (), db1)"
    "db_agents db1 = db_agents db @ [rg_agent a]" "\<exists>c \<in> set (db_challenges db1). challenge_is b ''used'' c"
    "\<forall>c \<in> set (db_challenges db1). \<not> challenge_is b ''pending'' c"
    using fallback_registers[OF assms(1,4), of env t1] same_challenge_is[OF assms(2)] by auto
  obtain db2 where 2: "applyRegistration_fallback env no_failure t2 b db1 = (Inl (Refused_by (replayed_error env)), db2)"
    "rg_agent a \<in> set (db_agents db2)" "\<exists>c \<in> set (db_challenges db2). challenge_is d ''pending'' c"
  proof -
    have "challenge_is b ''pending'' = challenge_is d ''pending''" using assms(2,3) by (simp add: fun_eq_iff same_challenge_def challenge_is_def)
    then show ?thesis using fallback_replayed[OF 1(4,3), of env no_failure t2] 1(2) assms(6) that by fastforce
  qed
  obtain db3 where "applyRegistration_fallback env no_failure t3 d db2 = (Inr (), db3)" "db_agents db3 = db_agents db2 @ [rg_agent d]"
    using fallback_registers[OF 2(3) assms(5), of env t3] by auto
  then show ?thesis using 1(1) 2(1,2) by auto
qed

lemma findOwnedAgent_Some:
  "findOwnedAgent db o1 a = Some r \<Longrightarrow> r \<in> set (db_agents db) \<and> ar_owner_id r = o1 \<and> ar_id r = a"
  by (auto simp: findOwnedAgent_def find_Some_iff)

lemma revoke_read_Inr:
  "revoke_read env db o1 a n t = Inr rk \<Longrightarrow>
     rk_agent rk \<in> set (db_agents db) \<and> ar_owner_id (rk_agent rk) = o1 \<and> ar_id (rk_agent rk) = a \<and> ar_current_jti (rk_agent rk) = Some (rk_jti rk)"
  unfolding revoke_read_def requireCurrentJti_def
  by (cases "findOwnedAgent db o1 a"; cases "ar_current_jti (the (findOwnedAgent db o1 a))")
    (use findOwnedAgent_Some[of db o1 a] in \<open>auto split: if_splits\<close>)

lemma revoke_read_revoked:
  assumes "\<exists>r \<in> set (db_agents db). ar_owner_id r = o1 \<and> ar_id r = a" "\<forall>r \<in> set (db_agents db). ar_id r = a \<longrightarrow> ar_status r = ''revoked''"
  shows "revoke_read env db o1 a n t = Inl NothingToDo"
proof -
  obtain r where r: "findOwnedAgent db o1 a = Some r" using assms(1) by (cases "findOwnedAgent db o1 a") (auto simp: findOwnedAgent_def find_None_iff)
  then show ?thesis using assms(2) findOwnedAgent_Some[OF r] by (auto simp: revoke_read_def)
qed

lemma revoked_rows: "\<forall>r \<in> set (db_agents (applyRevokeMutation rk db)). ar_id r = ar_id (rk_agent rk) \<longrightarrow> ar_status r = ''revoked''"
  by (auto simp: revoke_agent_row_def sql_update_snd)

text \<open>
  (C11) A revocation that overlaps a reissue: it has read the agent's token, then a reissue replaces that token, then
  the revocation writes. The agent is revoked, the token it now has is not on the revocation list, and no
  further revocation request puts it there: each is answered as already done.
\<close>
theorem revocation_overlapping_reissue_misses_token:
  assumes "revoke_read env db owner a newId now = Inr rk" and "applyReissueMutation env ri db = Inr db'" and "ar_id (ri_agent ri) = a"
    and "ra_currentJti (ri_new ri) \<noteq> ri_jti ri" "ra_currentJti (ri_new ri) \<noteq> rk_jti rk"
    and "ra_currentJti (ri_new ri) \<notin> rw_jti ` set (db_revocations db)"
  shows "(\<exists>r \<in> set (db_agents (applyRevokeMutation rk db')).
      ar_id r = a \<and> ar_status r = ''revoked'' \<and> ar_current_jti r = Some (ra_currentJti (ri_new ri))) \<and>
    ra_currentJti (ri_new ri) \<notin> rw_jti ` set (db_revocations (applyRevokeMutation rk db')) \<and>
    (\<forall>newId' now'. revoke_read env (applyRevokeMutation rk db') owner a newId' now' = Inl NothingToDo)"
proof (intro conjI allI)
  note rk = revoke_read_Inr[OF assms(1)]
  have "is_current (applyRevokeMutation rk db') a (ra_currentJti (ri_new ri))" using is_current_reissued[OF assms(2)] assms(3) by simp
  then obtain r where r: "r \<in> set (db_agents (applyRevokeMutation rk db'))" "ar_id r = a" "ar_current_jti r = Some (ra_currentJti (ri_new ri))"
    unfolding is_current_def by blast
  moreover have "ar_status r = ''revoked''" using bspec[OF revoked_rows r(1)] rk r(2) by blast
  ultimately show "\<exists>r \<in> set (db_agents (applyRevokeMutation rk db')).
      ar_id r = a \<and> ar_status r = ''revoked'' \<and> ar_current_jti r = Some (ra_currentJti (ri_new ri))" by blast
  show "ra_currentJti (ri_new ri) \<notin> rw_jti ` set (db_revocations (applyRevokeMutation rk db'))"
    using assms(4-6) applyReissueMutation_Inr(4)[OF assms(2)] by auto
  fix n t
  have "\<exists>r \<in> set (db_agents db'). ar_owner_id r = owner \<and> ar_id r = a"
    unfolding applyReissueMutation_Inr(2)[OF assms(2)] bex_map using rk by auto
  then have "\<exists>r \<in> set (db_agents (applyRevokeMutation rk db')). ar_owner_id r = owner \<and> ar_id r = a"
    by (simp add: revoke_agent_row_def sql_update_bex)
  then show "revoke_read env (applyRevokeMutation rk db') owner a n t = Inl NothingToDo"
    by (rule revoke_read_revoked) (use revoked_rows[of rk db'] rk in simp)
qed

section \<open>Concrete runs\<close>

definition demo_agent :: "string \<Rightarrow> string \<Rightarrow> agent_row" where
  "demo_agent i j = \<lparr>ar_id = i, ar_did = ''d'', ar_owner_id = ''H'', ar_name = ''n'', ar_framework = None, ar_public_key = ''k'',
     ar_current_jti = Some j, ar_status = ''active'', ar_expires_at = None, ar_updated_at = ''t''\<rparr>"

definition demo_session :: "string \<Rightarrow> string \<Rightarrow> session_row" where
  "demo_session i a = \<lparr>sr_id = i, sr_agent_id = a, sr_refresh_key_hash = ''rh'', sr_refresh_key_prefix = ''rp'', sr_refresh_issued_at = ''t'',
     sr_refresh_expires_at = ''u'', sr_refresh_last_used_at = None, sr_access_key_hash = ''ah'', sr_access_key_prefix = ''ap'',
     sr_access_issued_at = ''t'', sr_access_expires_at = ''u'', sr_access_last_used_at = None, sr_status = ''active'',
     sr_revoked_at = None, sr_updated_at = ''t''\<rparr>"

definition demo_registration :: "string \<Rightarrow> string \<Rightarrow> registration" where
  "demo_registration i j = \<lparr>rg_challenge = ''c'', rg_owner = ''H'', rg_agentLimit = None, rg_agent = demo_agent i j,
     rg_session = demo_session (''s'' @ i) i, rg_usedAt = ''t''\<rparr>"

definition demo_pending_challenge :: AgentRegistrationChallenge where
  "demo_pending_challenge = \<lparr>rc_id = ''c'', rc_ownerId = ''H'', rc_publicKey = ''k'', rc_nonce = ''n'', rc_status = ''pending'', rc_expiresAt = ''u'',
     rc_usedAt = None, rc_createdAt = ''t'', rc_updatedAt = ''t''\<rparr>"

definition demo_db :: registry_db where
  "demo_db = \<lparr>db_agents = [demo_agent ''z'' ''j0''], db_revocations = [], db_sessions = [], db_challenges = [demo_pending_challenge], db_events = []\<rparr>"

definition demo_reissuing :: reissuing where
  "demo_reissuing = \<lparr>ri_agent = demo_agent ''a'' ''j1'', ri_jti = ''j1'',
     ri_new = \<lparr>ra_id = ''a'', ra_did = ''d'', ra_ownerDid = ''H'', ra_name = ''n'', ra_framework = ''f'', ra_publicKey = ''k'',
       ra_currentJti = ''j2'', ra_ttlDays = 30, ra_expiresAt = ''u'', ra_updatedAt = ''t''\<rparr>,
     ri_revocation_id = ''r'', ri_revokedAt = ''t''\<rparr>"

definition demo_start :: lifecycle where
  "demo_start = \<lparr>lc_db = demo_db, lc_registering = [demo_registration ''a'' ''j1'', demo_registration ''b'' ''j1''], lc_revoking = [],
     lc_reissuing = [demo_reissuing], lc_registered = [], lc_tokens = []\<rparr>"

definition demo_after_register :: lifecycle where
  "demo_after_register = demo_start
     \<lparr>lc_db := snd (applyRegistration_fallback EnvLocal no_failure ''t'' (demo_registration ''a'' ''j1'') demo_db),
      lc_registering := [demo_registration ''b'' ''j1''], lc_registered := [(''c'', ''a'')], lc_tokens := [(''a'', ''j1'')]\<rparr>"

definition demo_after_reissue :: lifecycle where
  "demo_after_reissue = demo_after_register
     \<lparr>lc_db := projr (applyReissueMutation EnvLocal demo_reissuing (lc_db demo_after_register)), lc_reissuing := [],
      lc_tokens := [(''a'', ''j1''), (''a'', ''j2'')]\<rparr>"

lemmas demo_defs = demo_after_register_def demo_after_reissue_def demo_start_def demo_reissuing_def demo_db_def demo_pending_challenge_def
  demo_registration_def demo_session_def demo_agent_def no_failure_def

lemmas lifecycle_eval = applyRegistration_tx_def applyRegistration_fallback_def registration_statements_def consume_challenge_def
  challenge_is_def check_limit_def insert_agent_def insert_session_def insertAgentAuthEvent_def issued_event_def
  applyReissueMutation_def insert_revocation_def sql_update_def

lemma demo_starts: "lc_start demo_start"
  by (simp add: lc_start_def demo_defs)

lemma demo_registers: "tx_reach demo_start demo_after_register"
proof (rule tx_reach.step[OF tx_reach.here])
  have "applyRegistration_tx EnvLocal no_failure (demo_registration ''a'' ''j1'') (lc_db demo_start) = Inr (lc_db demo_after_register)"
    by (simp add: demo_defs lifecycle_eval)
  from tx_step.register_commit[of demo_start "[]" _ "[demo_registration ''b'' ''j1'']", OF _ _ this, of "''j1''"]
  show "tx_step demo_start demo_after_register"
    by (simp add: demo_start_def demo_after_register_def demo_registration_def demo_agent_def demo_db_def)
qed

lemma demo_reissues: "tx_reach demo_start demo_after_reissue"
proof (rule tx_reach.step[OF demo_registers])
  have "applyReissueMutation EnvLocal demo_reissuing (lc_db demo_after_register) = Inr (lc_db demo_after_reissue)"
    by (simp add: demo_defs lifecycle_eval)
  from tx_step.reissue_commit[of demo_after_register "[]" _ "[]", OF _ this]
  show "tx_step demo_after_register demo_after_reissue"
    by (simp add: demo_after_reissue_def demo_after_register_def demo_start_def demo_reissuing_def demo_agent_def)
qed

theorem challenge_registers_at_most_one_agent_witness:
  "lc_start demo_start \<and> tx_reach demo_start demo_after_register \<and> (''c'', ''a'') \<in> set (lc_registered demo_after_register) \<and>
   used_challenge (lc_db demo_after_register) ''c''"
proof -
  have m: "(''c'', ''a'') \<in> set (lc_registered demo_after_register)" by (simp add: demo_after_register_def)
  show ?thesis using challenge_registers_at_most_one_agent[OF demo_starts demo_registers m m] demo_starts demo_registers m by blast
qed


theorem challenge_used_twice_without_transactions_witness:
  "\<exists>db1 db2 db3. applyRegistration_fallback EnvLocal no_failure ''t'' (demo_registration ''a'' ''j1'') demo_db = (Inr (), db1) \<and>
    applyRegistration_fallback EnvLocal no_failure ''t'' (demo_registration ''b'' ''j2'') db1 = (Inl (Refused_by (replayed_error EnvLocal)), db2) \<and>
    applyRegistration_fallback EnvLocal no_failure ''t'' (demo_registration ''d'' ''j3'') db2 = (Inr (), db3) \<and>
    demo_agent ''a'' ''j1'' \<in> set (db_agents db3) \<and> demo_agent ''d'' ''j3'' \<in> set (db_agents db3)"
proof -
  have "\<exists>c \<in> set (db_challenges demo_db). challenge_is (demo_registration ''a'' ''j1'') ''pending'' c"
    by (simp add: demo_db_def demo_pending_challenge_def demo_registration_def challenge_is_def)
  from challenge_used_twice_without_transactions[OF this, of "demo_registration ''b'' ''j2''" "demo_registration ''d'' ''j3''" EnvLocal "''t''" "''t''" "''t''"]
  show ?thesis by (simp add: same_challenge_def demo_registration_def demo_agent_def)
qed

text \<open>The revocation read by a request that starts before the reissue.\<close>
definition demo_revoking :: revoking where
  "demo_revoking = \<lparr>rk_agent = demo_agent ''a'' ''j1'', rk_jti = ''j1'', rk_session = Some (demo_session ''sa'' ''a''),
     rk_revocation_id = ''q'', rk_revokedAt = ''t''\<rparr>"

theorem revocation_overlapping_reissue_misses_token_witness:
  "revoke_read EnvLocal (lc_db demo_after_register) ''H'' ''a'' ''q'' ''t'' = Inr demo_revoking \<and>
   ''j2'' \<notin> rw_jti ` set (db_revocations (applyRevokeMutation demo_revoking (lc_db demo_after_reissue)))"
proof -
  have r: "revoke_read EnvLocal (lc_db demo_after_register) ''H'' ''a'' ''q'' ''t'' = Inr demo_revoking"
    by (simp add: demo_defs lifecycle_eval demo_revoking_def revoke_read_def requireCurrentJti_def findOwnedAgent_def findAgentAuthSessionByAgentId_def)
  have m: "applyReissueMutation EnvLocal demo_reissuing (lc_db demo_after_register) = Inr (lc_db demo_after_reissue)"
    by (simp add: demo_defs lifecycle_eval)
  have "''j2'' \<notin> rw_jti ` set (db_revocations (lc_db demo_after_register))" by (simp add: demo_defs lifecycle_eval)
  then show ?thesis using revocation_overlapping_reissue_misses_token[OF r m] r
    by (simp add: demo_reissuing_def demo_revoking_def demo_agent_def)
qed

end
