(* ===== verification/Crl_Cache.thy ===== *)
theory Crl_Cache
  imports Claims
begin

text \<open>
  The cache of the revocation list: \<open>packages/sdk/src/crl/cache.ts\<close>.

  \<open>refreshIfStale\<close> awaits a fetch, and \<open>isRevoked\<close> awaits \<open>refreshIfStale\<close>, so other checks run in between.
  The model splits them there: \<open>refresh_begin\<close> up to the fetch, \<open>refresh_settle\<close> from its answer to the
  result, \<open>answer\<close> what \<open>isRevoked\<close> returns once it resumes. \<open>crl_step\<close> interleaves any number of checks.

  Shown: in fail-closed mode an answer always rests on a list received at most \<open>maxAgeMs\<close> before the check
  began, whatever the interleaving; while the list is not stale fetches are at least the refresh
  interval apart; in fail-open mode a check never fails. Two overlapping refreshes may put an older
  list in the place of a newer one, so that a revoked token is accepted again.
\<close>

section \<open>Configuration and creation\<close>

definition DEFAULT_CRL_REFRESH_INTERVAL_MS :: ms where "DEFAULT_CRL_REFRESH_INTERVAL_MS = 5 * 60 * 1000"
definition DEFAULT_CRL_MAX_AGE_MS :: ms where "DEFAULT_CRL_MAX_AGE_MS = 15 * 60 * 1000"

datatype CrlCacheStaleBehavior = FailOpen | FailClosed

text \<open>
  What the functions of this file throw; the details name a field of the options, or carry the times
  at which the list was last read and tried. \<open>CrlClaimsInvalid\<close> is the parse error of the initial claims.
\<close>
datatype crl_error =
    InvalidConfig string
  | InvalidInput string
  | CacheStale ms "ms option" "ms option"
  | CrlClaimsInvalid

definition ensurePositiveNumber :: "jsval \<Rightarrow> ms \<Rightarrow> string \<Rightarrow> (crl_error, ms) result" where
  "ensurePositiveNumber value fallback field =
     (case (if value = JUndefined \<or> value = JNull then JNum fallback else value) of
        JNum resolved \<Rightarrow> if resolved \<le> 0 then Inl (InvalidConfig field) else Inr resolved
      | _ \<Rightarrow> Inl (InvalidConfig field))"

definition ensureOptionalTimestamp :: "jsval \<Rightarrow> (crl_error, ms option) result" where
  "ensureOptionalTimestamp value =
     (case value of
        JUndefined \<Rightarrow> Inr None
      | JNum t \<Rightarrow> if t < 0 then Inl (InvalidConfig ''initialFetchedAtMs'') else Inr (Some t)
      | _ \<Rightarrow> Inl (InvalidConfig ''initialFetchedAtMs''))"

definition ensureStaleBehavior :: "jsval \<Rightarrow> (crl_error, CrlCacheStaleBehavior) result" where
  "ensureStaleBehavior value =
     (if value = JStr ''fail-open'' then Inr FailOpen
      else if value = JStr ''fail-closed'' then Inr FailClosed
      else Inl (InvalidConfig ''staleBehavior''))"

text \<open>The options, but for the two functions \<open>fetchLatest\<close> and \<open>clock\<close>.\<close>
record CrlCacheOptions =
  co_refreshIntervalMs :: jsval
  co_maxAgeMs :: jsval
  co_staleBehavior :: jsval
  co_initialClaims :: "jsval option"
  co_initialFetchedAtMs :: jsval

record crl_config =
  refreshIntervalMs :: ms
  maxAgeMs :: ms
  staleBehavior :: CrlCacheStaleBehavior

text \<open>The variables the closures share.\<close>
record crl_cache =
  cc_claims :: "CrlClaims option"
  lastSuccessfulRefreshAtMs :: "ms option"
  lastRefreshAttemptAtMs :: "ms option"

definition createCrlCache ::
  "ulid_lib \<Rightarrow> jose_lib \<Rightarrow> ms \<Rightarrow> CrlCacheOptions \<Rightarrow> (crl_error, crl_config \<times> crl_cache) result" where
  "createCrlCache ul jl clock options =
     bindE (ensurePositiveNumber (co_refreshIntervalMs options) DEFAULT_CRL_REFRESH_INTERVAL_MS ''refreshIntervalMs'') (\<lambda>interval.
     bindE (ensurePositiveNumber (co_maxAgeMs options) DEFAULT_CRL_MAX_AGE_MS ''maxAgeMs'') (\<lambda>maxAge.
     bindE (ensureStaleBehavior (if co_staleBehavior options = JUndefined \<or> co_staleBehavior options = JNull
                                 then JStr ''fail-open'' else co_staleBehavior options)) (\<lambda>behavior.
     bindE (case co_initialClaims options of None \<Rightarrow> Inr None
            | Some v \<Rightarrow> bindE (of_option CrlClaimsInvalid (parseCrlClaims ul jl v)) (\<lambda>c. Inr (Some c))) (\<lambda>claims.
     bindE (ensureOptionalTimestamp (co_initialFetchedAtMs options)) (\<lambda>fetched.
     let last = (if claims \<noteq> None \<and> fetched = None then Some clock else fetched) in
     throw_if (claims = None \<and> last \<noteq> None) (InvalidConfig ''initialFetchedAtMs'')
       (Inr (\<lparr>refreshIntervalMs = interval, maxAgeMs = maxAge, staleBehavior = behavior\<rparr>,
             \<lparr>cc_claims = claims, lastSuccessfulRefreshAtMs = last, lastRefreshAttemptAtMs = None\<rparr>)))))))"

section \<open>Refreshing\<close>

text \<open>\<open>None\<close> is \<open>Number.POSITIVE_INFINITY\<close>.\<close>
definition ageMs :: "crl_cache \<Rightarrow> ms \<Rightarrow> ms option" where
  "ageMs c now = map_option (\<lambda>last. now - last) (lastSuccessfulRefreshAtMs c)"

definition isStale :: "crl_config \<Rightarrow> crl_cache \<Rightarrow> ms \<Rightarrow> bool" where
  "isStale cfg c now \<longleftrightarrow> cc_claims c = None \<or> (case ageMs c now of None \<Rightarrow> True | Some age \<Rightarrow> age > maxAgeMs cfg)"

definition shouldRefresh :: "crl_config \<Rightarrow> crl_cache \<Rightarrow> ms \<Rightarrow> bool" where
  "shouldRefresh cfg c now \<longleftrightarrow>
     cc_claims c = None \<or> (case ageMs c now of None \<Rightarrow> True | Some age \<Rightarrow> age \<ge> refreshIntervalMs cfg) \<or> isStale cfg c now"

definition canAttemptRefresh :: "crl_config \<Rightarrow> crl_cache \<Rightarrow> ms \<Rightarrow> bool" where
  "canAttemptRefresh cfg c now \<longleftrightarrow>
     (case lastRefreshAttemptAtMs c of None \<Rightarrow> True | Some t \<Rightarrow> now - t \<ge> refreshIntervalMs cfg)"

text \<open>Up to the fetch: whether one is made.\<close>
definition refresh_begin :: "crl_config \<Rightarrow> ms \<Rightarrow> crl_cache \<Rightarrow> bool \<times> crl_cache" where
  "refresh_begin cfg now c =
     (if shouldRefresh cfg c now \<and> (isStale cfg c now \<or> canAttemptRefresh cfg c now)
      then (True, c\<lparr>lastRefreshAttemptAtMs := Some now\<rparr>) else (False, c))"

datatype CrlCacheWarning = CRL_REFRESH_FAILED | CRL_STALE "ms option" ms

record CrlCacheRefreshResult =
  rr_refreshed :: bool
  rr_stale :: bool
  rr_warnings :: "CrlCacheWarning list"
  rr_fetchedAtMs :: "ms option"

text \<open>The answer of a fetch: its parsed claims, or \<open>None\<close> when the fetch or the parse throws.\<close>
definition refresh_store :: "ms \<Rightarrow> CrlClaims option \<Rightarrow> crl_cache \<Rightarrow> crl_cache" where
  "refresh_store now fetched c =
     (case fetched of None \<Rightarrow> c
      | Some nextClaims \<Rightarrow> c\<lparr>cc_claims := Some nextClaims, lastSuccessfulRefreshAtMs := Some now\<rparr>)"

text \<open>After the fetch, if there was one (\<open>Some\<close> its answer), to the end.\<close>
definition refresh_settle ::
  "crl_config \<Rightarrow> ms \<Rightarrow> CrlClaims option option \<Rightarrow> crl_cache \<Rightarrow> (crl_error, CrlCacheRefreshResult) result \<times> crl_cache" where
  "refresh_settle cfg now attempt c =
     (let c' = (case attempt of None \<Rightarrow> c | Some fetched \<Rightarrow> refresh_store now fetched c);
          refreshed = (case attempt of Some (Some _) \<Rightarrow> True | _ \<Rightarrow> False);
          warnings = (case attempt of Some None \<Rightarrow> [CRL_REFRESH_FAILED] | _ \<Rightarrow> [])
      in if isStale cfg c' now \<and> staleBehavior cfg = FailClosed
         then (Inl (CacheStale (maxAgeMs cfg) (lastSuccessfulRefreshAtMs c') (lastRefreshAttemptAtMs c')), c')
         else (Inr \<lparr>rr_refreshed = refreshed, rr_stale = isStale cfg c' now,
                    rr_warnings = warnings @ (if isStale cfg c' now then [CRL_STALE (ageMs c' now) (maxAgeMs cfg)] else []),
                    rr_fetchedAtMs = lastSuccessfulRefreshAtMs c'\<rparr>, c'))"

text \<open>Without interruption; \<open>fetchLatest\<close> is the answer a fetch would get.\<close>
definition refreshIfStale ::
  "crl_config \<Rightarrow> ms \<Rightarrow> CrlClaims option \<Rightarrow> crl_cache \<Rightarrow> (crl_error, CrlCacheRefreshResult) result \<times> crl_cache" where
  "refreshIfStale cfg now fetchLatest c =
     (case refresh_begin cfg now c of (attempt, c') \<Rightarrow> refresh_settle cfg now (if attempt then Some fetchLatest else None) c')"

section \<open>Checking a token\<close>

definition ensureNonEmptyString :: "string \<Rightarrow> string \<Rightarrow> (crl_error, string) result" where
  "ensureNonEmptyString value field = (if trim value = [] then Inl (InvalidInput field) else Inr value)"

definition answer :: "string \<Rightarrow> crl_cache \<Rightarrow> bool" where
  "answer jti c = (case cc_claims c of None \<Rightarrow> False
                   | Some claims \<Rightarrow> list_ex (\<lambda>revocation. rv_jti revocation = jti) (crl_revocations claims))"

definition isRevoked :: "crl_config \<Rightarrow> ms \<Rightarrow> CrlClaims option \<Rightarrow> string \<Rightarrow> crl_cache \<Rightarrow> (crl_error, bool) result \<times> crl_cache" where
  "isRevoked cfg now fetchLatest jtiInput c =
     (case ensureNonEmptyString jtiInput ''jti'' of
        Inl e \<Rightarrow> (Inl e, c)
      | Inr jti \<Rightarrow>
          (case refreshIfStale cfg now fetchLatest c of
             (Inl e, c') \<Rightarrow> (Inl e, c')
           | (Inr _, c') \<Rightarrow> (Inr (answer jti c'), c')))"

section \<open>Interleaved checks\<close>

text \<open>
  A check in progress: awaiting its fetch, or refreshed and about to read the list. \<open>check_at\<close> is the time the
  check began.
\<close>
datatype check = Fetching (check_at: ms) string | Ready (check_at: ms) string

text \<open>
  \<open>received\<close> is the time at which the list in the cache arrived, and \<open>answers\<close> what checks returned so far:
  the time each began, its token, the answer, the list it was read from, and when that arrived. Both
  only record; the code does not have them.
\<close>
record crl_system =
  cache :: crl_cache
  time :: ms
  checks :: "check list"
  received :: ms
  answers :: "(ms \<times> string \<times> bool \<times> CrlClaims option \<times> ms) list"

inductive crl_step :: "crl_config \<Rightarrow> crl_system \<Rightarrow> crl_system \<Rightarrow> bool" for cfg where
  tick: "t \<ge> time s \<Longrightarrow> crl_step cfg s (s\<lparr>time := t\<rparr>)"
| start_fetch:
    "ensureNonEmptyString raw ''jti'' = Inr jti \<Longrightarrow> refresh_begin cfg (time s) (cache s) = (True, c') \<Longrightarrow>
     crl_step cfg s (s\<lparr>cache := c', checks := checks s @ [Fetching (time s) jti]\<rparr>)"
| start_cached:
    "ensureNonEmptyString raw ''jti'' = Inr jti \<Longrightarrow> refresh_begin cfg (time s) (cache s) = (False, c') \<Longrightarrow>
     refresh_settle cfg (time s) None c' = (Inr r, c'') \<Longrightarrow>
     crl_step cfg s (s\<lparr>cache := c'', checks := checks s @ [Ready (time s) jti]\<rparr>)"
| start_stale:
    "refresh_begin cfg (time s) (cache s) = (False, c') \<Longrightarrow> refresh_settle cfg (time s) None c' = (Inl e, c'') \<Longrightarrow>
     crl_step cfg s (s\<lparr>cache := c''\<rparr>)"
| fetched:
    "checks s = before @ Fetching began jti # after \<Longrightarrow> refresh_settle cfg began (Some fetched) (cache s) = (r, c') \<Longrightarrow>
     crl_step cfg s (s\<lparr>cache := c', received := (if fetched = None then received s else time s),
        checks := before @ (case r of Inl _ \<Rightarrow> [] | Inr _ \<Rightarrow> [Ready began jti]) @ after\<rparr>)"
| answered:
    "checks s = before @ Ready began jti # after \<Longrightarrow>
     crl_step cfg s (s\<lparr>checks := before @ after,
        answers := answers s @ [(began, jti, answer jti (cache s), cc_claims (cache s), received s)]\<rparr>)"

inductive crl_reach :: "crl_config \<Rightarrow> crl_system \<Rightarrow> crl_system \<Rightarrow> bool" for cfg s0 where
  here: "crl_reach cfg s0 s0"
| step: "crl_reach cfg s0 s \<Longrightarrow> crl_step cfg s s' \<Longrightarrow> crl_reach cfg s0 s'"

text \<open>The list in the cache arrived no earlier than the time noted for it.\<close>
definition arrival_noted :: "crl_cache \<Rightarrow> ms \<Rightarrow> bool" where
  "arrival_noted c rcv = (case lastSuccessfulRefreshAtMs c of None \<Rightarrow> True | Some t \<Rightarrow> t \<le> rcv)"

text \<open>The cache as \<open>createCrlCache\<close> returns it at time \<open>clock\<close>; an initial list arrived when the caller says it did.\<close>
definition crl_start :: "ms \<Rightarrow> crl_cache \<Rightarrow> crl_system" where
  "crl_start clock c = \<lparr>cache = c, time = clock, checks = [],
     received = (case lastSuccessfulRefreshAtMs c of None \<Rightarrow> 0 | Some t \<Rightarrow> t), answers = []\<rparr>"

section \<open>Freshness\<close>

lemmas crl_unfolds = refresh_begin_def refresh_settle_def refresh_store_def isStale_def ageMs_def

lemma not_stale_iff:
  "\<not> isStale cfg c now \<longleftrightarrow> cc_claims c \<noteq> None \<and> (\<exists>t. lastSuccessfulRefreshAtMs c = Some t \<and> now - t \<le> maxAgeMs cfg)"
  by (auto simp: isStale_def ageMs_def split: option.splits)

lemma refresh_begin_keeps:
  assumes "refresh_begin cfg now c = (b, c')"
  shows "cc_claims c' = cc_claims c" "lastSuccessfulRefreshAtMs c' = lastSuccessfulRefreshAtMs c"
  using assms by (auto simp: refresh_begin_def split: if_splits)

lemma refresh_settle_state:
  assumes "refresh_settle cfg now attempt c = (r, c')"
  shows "c' = (case attempt of None \<Rightarrow> c | Some fetched \<Rightarrow> refresh_store now fetched c)"
    and "staleBehavior cfg = FailClosed \<Longrightarrow> (\<exists>e. r = Inl e) \<longleftrightarrow> isStale cfg c' now"
  using assms by (auto simp: refresh_settle_def Let_def split: if_splits)

text \<open>A check that is ready began at most \<open>maxAgeMs\<close> after the list arrived that is in the cache.\<close>
fun check_fresh :: "crl_config \<Rightarrow> bool \<Rightarrow> ms \<Rightarrow> check \<Rightarrow> bool" where
  "check_fresh cfg filled rcv (Fetching _ _) = True"
| "check_fresh cfg filled rcv (Ready began _) = (filled \<and> began - rcv \<le> maxAgeMs cfg)"

text \<open>An answer that says what some list says, which arrived at most \<open>maxAgeMs\<close> before the check began.\<close>
fun answer_fresh :: "crl_config \<Rightarrow> ms \<times> string \<times> bool \<times> CrlClaims option \<times> ms \<Rightarrow> bool" where
  "answer_fresh cfg (began, jti, revoked, list, rcv) =
     ((case list of None \<Rightarrow> False | Some claims \<Rightarrow> revoked = list_ex (\<lambda>v. rv_jti v = jti) (crl_revocations claims)) \<and>
      began - rcv \<le> maxAgeMs cfg)"

definition crl_inv :: "crl_config \<Rightarrow> crl_system \<Rightarrow> bool" where
  "crl_inv cfg s \<longleftrightarrow> arrival_noted (cache s) (received s) \<and>
     (\<forall>k \<in> set (checks s). check_at k \<le> time s \<and> check_fresh cfg (cc_claims (cache s) \<noteq> None) (received s) k) \<and>
     (\<forall>a \<in> set (answers s). answer_fresh cfg a)"

lemma check_fresh_now: "check_at k \<le> t \<Longrightarrow> 0 < maxAgeMs cfg \<Longrightarrow> check_fresh cfg True t k"
  by (cases k) auto

lemma crl_inv_step:
  assumes "crl_step cfg s s'" "crl_inv cfg s" "staleBehavior cfg = FailClosed" "0 < maxAgeMs cfg"
  shows "crl_inv cfg s'"
  using assms
proof (cases rule: crl_step.cases)
  case (tick t)
  then show ?thesis using assms(2) by (fastforce simp: crl_inv_def)
next
  case (start_fetch raw jti c')
  note k = refresh_begin_keeps[OF start_fetch(3)]
  show ?thesis using start_fetch(1) assms(2) by (simp add: crl_inv_def arrival_noted_def k)
next
  case (start_cached raw jti c' r c'')
  note k = refresh_begin_keeps[OF start_cached(3)]
  have c: "c'' = c'" using refresh_settle_state(1)[OF start_cached(4)] by simp
  have "\<not> isStale cfg c' (time s)" using refresh_settle_state(2)[OF start_cached(4) assms(3)] c by simp
  then obtain t where t: "cc_claims c' \<noteq> None" "lastSuccessfulRefreshAtMs c' = Some t" "time s - t \<le> maxAgeMs cfg"
    by (auto simp: not_stale_iff)
  have "t \<le> received s" using assms(2) t(2) by (simp add: crl_inv_def arrival_noted_def k)
  then show ?thesis using start_cached(1) assms(2) t by (simp add: crl_inv_def arrival_noted_def k c)
next
  case (start_stale c' e c'')
  note k = refresh_begin_keeps[OF start_stale(2)]
  have "c'' = c'" using refresh_settle_state(1)[OF start_stale(3)] by simp
  then show ?thesis using start_stale(1) assms(2) by (simp add: crl_inv_def arrival_noted_def k)
next
  case (fetched before began jti after fetched r c')
  have c: "c' = refresh_store began fetched (cache s)" using refresh_settle_state(1)[OF fetched(3)] by simp
  have began: "began \<le> time s" using assms(2) fetched(2) by (simp add: crl_inv_def)
  show ?thesis
  proof (cases fetched)
    case None
    have "(\<exists>e. r = Inl e) \<longleftrightarrow> isStale cfg (cache s) began"
      using refresh_settle_state(2)[OF fetched(3) assms(3)] c None by (simp add: refresh_store_def)
    then show ?thesis
      using fetched(1,2) assms(2) c None
      by (cases r) (auto simp: crl_inv_def refresh_store_def not_stale_iff arrival_noted_def)
  next
    case (Some n)
    then show ?thesis
      using fetched(1,2) assms(2,4) c began check_fresh_now[OF _ assms(4)]
      by (cases r) (auto simp: crl_inv_def refresh_store_def arrival_noted_def)
  qed
next
  case (answered before began jti after)
  then show ?thesis using assms(2) by (auto simp: crl_inv_def answer_def split: option.splits)
qed

lemma crl_inv_reach:
  assumes "crl_reach cfg s0 s" "crl_inv cfg s0" "staleBehavior cfg = FailClosed" "0 < maxAgeMs cfg"
  shows "crl_inv cfg s"
  using assms by (induction rule: crl_reach.induct) (auto intro: crl_inv_step)

lemma createCrlCache_positive:
  assumes "createCrlCache ul jl clock options = Inr (cfg, c)"
  shows "0 < refreshIntervalMs cfg" "0 < maxAgeMs cfg"
  using assms by (auto simp: createCrlCache_def ensurePositiveNumber_def Let_def split: jsval.splits if_splits)

text \<open>
  (C8) In fail-closed mode, however checks and refreshes are interleaved, every answer is what a
  revocation list says that arrived from the registry at most \<open>maxAgeMs\<close> before the check began.
\<close>
theorem crl_fail_closed_answers_fresh:
  assumes "createCrlCache ul jl clock options = Inr (cfg, c)" and "staleBehavior cfg = FailClosed"
    and "crl_reach cfg (crl_start clock c) s" and "(began, jti, revoked, list, arrived) \<in> set (answers s)"
  shows "\<exists>claims. list = Some claims \<and> (revoked \<longleftrightarrow> jti \<in> rv_jti ` set (crl_revocations claims)) \<and> began - arrived \<le> maxAgeMs cfg"
proof -
  have "crl_inv cfg (crl_start clock c)"
    by (simp add: crl_inv_def crl_start_def arrival_noted_def split: option.splits)
  then have "answer_fresh cfg (began, jti, revoked, list, arrived)"
    using crl_inv_reach[OF assms(3) _ assms(2)] createCrlCache_positive(2)[OF assms(1)] assms(4) by (auto simp: crl_inv_def)
  then show ?thesis by (auto simp: list_ex_iff split: option.splits)
qed

section \<open>Fail-open checks and the pace of refreshes\<close>

lemma isRevoked_fail_open:
  assumes "staleBehavior cfg = FailOpen" "trim jti \<noteq> []"
  shows "\<exists>b. fst (isRevoked cfg now fetched jti c) = Inr b"
  using assms
  by (auto simp: isRevoked_def ensureNonEmptyString_def refreshIfStale_def refresh_settle_def Let_def split: prod.splits sum.splits)

lemma fetches_spaced:
  assumes "refresh_begin cfg now c = (True, c')" "\<not> isStale cfg c now" "lastRefreshAttemptAtMs c = Some t"
  shows "now - t \<ge> refreshIntervalMs cfg"
  using assms by (auto simp: refresh_begin_def canAttemptRefresh_def split: if_splits)

section \<open>Overlapping refreshes\<close>

text \<open>A system in a given state, for writing runs down.\<close>
abbreviation sys :: "CrlClaims option \<Rightarrow> ms option \<Rightarrow> ms option \<Rightarrow> ms \<Rightarrow> check list \<Rightarrow> ms \<Rightarrow> (ms \<times> string \<times> bool \<times> CrlClaims option \<times> ms) list \<Rightarrow> crl_system" where
  "sys l f t n ks r as \<equiv>
     \<lparr>cache = \<lparr>cc_claims = l, lastSuccessfulRefreshAtMs = f, lastRefreshAttemptAtMs = t\<rparr>, time = n, checks = ks, received = r, answers = as\<rparr>"

abbreviation empty_cache :: crl_cache where
  "empty_cache \<equiv> \<lparr>cc_claims = None, lastSuccessfulRefreshAtMs = None, lastRefreshAttemptAtMs = None\<rparr>"

text \<open>The steps the runs below take.\<close>
lemma run_tick: "crl_reach cfg s0 (sys l f t n ks r as) \<Longrightarrow> n \<le> n' \<Longrightarrow> crl_reach cfg s0 (sys l f t n' ks r as)"
  using crl_reach.step[OF _ crl_step.tick[where s = "sys l f t n ks r as" and t = n']] by simp

lemma run_fetch_empty:
  "crl_reach cfg s0 (sys None f t n ks r as) \<Longrightarrow> trim jti \<noteq> [] \<Longrightarrow> crl_reach cfg s0 (sys None f (Some n) n (ks @ [Fetching n jti]) r as)"
  using crl_reach.step[OF _ crl_step.start_fetch[where s = "sys None f t n ks r as" and raw = jti and jti = jti]]
  by (simp add: crl_unfolds shouldRefresh_def ensureNonEmptyString_def)

lemma run_cached:
  "crl_reach cfg s0 (sys (Some l) (Some f) (Some t) n ks r as) \<Longrightarrow> trim jti \<noteq> [] \<Longrightarrow> n - f \<le> maxAgeMs cfg \<Longrightarrow>
   n - t < refreshIntervalMs cfg \<Longrightarrow> crl_reach cfg s0 (sys (Some l) (Some f) (Some t) n (ks @ [Ready n jti]) r as)"
  using crl_reach.step[OF _ crl_step.start_cached[where s = "sys (Some l) (Some f) (Some t) n ks r as" and raw = jti and jti = jti]]
  by (simp add: crl_unfolds shouldRefresh_def canAttemptRefresh_def ensureNonEmptyString_def)

lemma run_fetched:
  "crl_reach cfg s0 (sys l f t n (ks @ Fetching b jti # ks') r as) \<Longrightarrow> 0 < maxAgeMs cfg \<Longrightarrow>
   crl_reach cfg s0 (sys (Some l') (Some b) t n (ks @ Ready b jti # ks') n as)"
  using crl_reach.step[OF _ crl_step.fetched[where s = "sys l f t n (ks @ Fetching b jti # ks') r as" and fetched = "Some l'"
      and before = ks and began = b and jti = jti and after = ks' and cfg = cfg]]
  by (force simp: crl_unfolds Let_def)

lemma run_answered:
  "crl_reach cfg s0 (sys (Some l) f t n (ks @ Ready b jti # ks') r as) \<Longrightarrow>
   crl_reach cfg s0 (sys (Some l) f t n (ks @ ks') r (as @ [(b, jti, jti \<in> rv_jti ` set (crl_revocations l), Some l, r)]))"
  using crl_reach.step[OF _ crl_step.answered[where s = "sys (Some l) f t n (ks @ Ready b jti # ks') r as"]]
  by (simp add: answer_def list_ex_iff image_iff) (simp add: Bex_def eq_commute)

text \<open>
  Two refreshes that overlap may finish in the other order; the answer of the first then replaces the
  list of the second. A token that a check found revoked is accepted by a check that begins later.
\<close>
theorem crl_overlapping_refresh_unrevokes:
  assumes "0 < refreshIntervalMs cfg" and "1 \<le> maxAgeMs cfg" and "trim jti \<noteq> []"
    and "jti \<in> rv_jti ` set (crl_revocations newer)" and "jti \<notin> rv_jti ` set (crl_revocations older)"
  shows "\<exists>s. crl_reach cfg (crl_start 0 empty_cache) s \<and>
    answers s = [(1, jti, True, Some newer, 1), (1, jti, False, Some older, 1)]"
proof -
  let ?R = "crl_reach cfg (crl_start 0 empty_cache)"
  have "?R (sys None None None 0 [] 0 [])" using crl_reach.here[of cfg "crl_start 0 empty_cache"] by (simp add: crl_start_def)
  then have "?R (sys None None (Some 1) 1 [Fetching 0 jti, Fetching 1 jti] 0 [])"
    using run_fetch_empty[OF run_tick[OF run_fetch_empty[OF _ assms(3)]] assms(3), of cfg _ None None 0 "[]" 0 "[]" 1] by simp
  then have "?R (sys (Some newer) (Some 1) (Some 1) 1 [Fetching 0 jti, Ready 1 jti] 1 [])"
    using run_fetched[where ks = "[Fetching 0 jti]" and ks' = "[]"] assms(2) by simp
  then have "?R (sys (Some newer) (Some 1) (Some 1) 1 [Fetching 0 jti] 1 [(1, jti, True, Some newer, 1)])"
    using run_answered[where ks = "[Fetching 0 jti]" and ks' = "[]" and as = "[]" and l = newer and jti = jti] assms(4) by simp
  then have "?R (sys (Some older) (Some 0) (Some 1) 1 [Ready 0 jti] 1 [(1, jti, True, Some newer, 1)])"
    using run_fetched[where ks = "[]" and ks' = "[]"] assms(2) by simp
  then have "?R (sys (Some older) (Some 0) (Some 1) 1 [Ready 0 jti, Ready 1 jti] 1 [(1, jti, True, Some newer, 1)])"
    using run_cached[where ks = "[Ready 0 jti]"] assms(1,2,3) by simp
  then have "?R (sys (Some older) (Some 0) (Some 1) 1 [Ready 0 jti] 1 [(1, jti, True, Some newer, 1), (1, jti, False, Some older, 1)])"
    using run_answered[where ks = "[Ready 0 jti]" and ks' = "[]" and as = "[(1, jti, True, Some newer, 1)]" and l = older and jti = jti] assms(5) by simp
  then show ?thesis by (metis crl_system.select_convs(5))
qed

section \<open>Witnesses\<close>

definition demo_crl :: "string list \<Rightarrow> CrlClaims" where
  "demo_crl jtis = \<lparr>crl_iss = ''https://a.b'', crl_jti = ''L'', crl_iat = 0, crl_exp = 9,
     crl_revocations = map (\<lambda>j. \<lparr>rv_jti = j, rv_agentDid = ''did'', rv_reason = None, rv_revokedAt = 0\<rparr>) jtis\<rparr>"

definition demo_jose :: jose_lib where
  "demo_jose = \<lparr>token_header = (\<lambda>_. None), token_payload = (\<lambda>_. None), token_verify = (\<lambda>_ _ _ _ _. None),
     token_sign = (\<lambda>_ _ _ _ _. None), ait_shape = (\<lambda>_. None), crl_shape = (\<lambda>_. None)\<rparr>"

definition demo_config :: "CrlCacheStaleBehavior \<Rightarrow> crl_config" where
  "demo_config b = \<lparr>refreshIntervalMs = 300000, maxAgeMs = 900000, staleBehavior = b\<rparr>"

lemma demo_cache_created:
  "createCrlCache demo_ulids demo_jose 0 \<lparr>co_refreshIntervalMs = JUndefined, co_maxAgeMs = JUndefined,
     co_staleBehavior = JStr ''fail-closed'', co_initialClaims = None, co_initialFetchedAtMs = JUndefined\<rparr> =
   Inr (demo_config FailClosed, empty_cache)"
  by (simp add: createCrlCache_def ensurePositiveNumber_def ensureStaleBehavior_def ensureOptionalTimestamp_def
      DEFAULT_CRL_REFRESH_INTERVAL_MS_def DEFAULT_CRL_MAX_AGE_MS_def demo_config_def)

lemma demo_cache_run:
  "crl_reach (demo_config FailClosed) (crl_start 0 empty_cache)
     (sys (Some (demo_crl [''J''])) (Some 0) (Some 0) 5 [] 5 [(0, ''J'', True, Some (demo_crl [''J'']), 5)])"
proof -
  let ?cfg = "demo_config FailClosed" and ?l = "demo_crl [''J'']"
  let ?R = "crl_reach ?cfg (crl_start 0 empty_cache)"
  have J: "trim ''J'' \<noteq> []" by (simp add: trim_noop is_ws_def)
  have "?R (sys None None None 0 [] 0 [])" using crl_reach.here[of ?cfg "crl_start 0 empty_cache"] by (simp add: crl_start_def)
  then have "?R (sys None None (Some 0) 5 [Fetching 0 ''J''] 0 [])"
    using run_tick[OF run_fetch_empty[where ks = "[]" and jti = "''J''"], where n' = 5] J by simp
  then have "?R (sys (Some ?l) (Some 0) (Some 0) 5 [Ready 0 ''J''] 5 [])"
    using run_fetched[where ks = "[]" and ks' = "[]"] by (simp add: demo_config_def)
  then show ?thesis
    using run_answered[where ks = "[]" and ks' = "[]" and as = "[]" and l = ?l and jti = "''J''"] by (simp add: demo_crl_def)
qed

theorem crl_fail_closed_answers_fresh_witness:
  "\<exists>claims. Some (demo_crl [''J'']) = Some claims \<and> (True \<longleftrightarrow> ''J'' \<in> rv_jti ` set (crl_revocations claims)) \<and>
     (0 :: ms) - 5 \<le> maxAgeMs (demo_config FailClosed)"
  by (rule crl_fail_closed_answers_fresh[OF demo_cache_created _ demo_cache_run]) (simp_all add: demo_config_def)

theorem crl_overlapping_refresh_unrevokes_witness:
  "\<exists>s. crl_reach (demo_config FailClosed) (crl_start 0 empty_cache) s \<and>
     answers s = [(1, ''J'', True, Some (demo_crl [''J'']), 1), (1, ''J'', False, Some (demo_crl []), 1)]"
  by (rule crl_overlapping_refresh_unrevokes) (simp_all add: demo_config_def demo_crl_def trim_noop is_ws_def)

end
