(* ===== verification/Proxy_Auth.thy ===== *)
theory Proxy_Auth
  imports Http_Signature Trust_Policy Crl_Cache Request_Origin
begin

text \<open>
  Authentication in front of the proxy's routes: \<open>apps/proxy/src/auth-middleware/\<close>.

  The middleware keeps two caches that all requests share, the registry's signing keys and the revocation
  list. A request is a computation \<open>'a auth\<close> on that state. What it meets outside (the clock, the
  registry's answers, the nonce store, the trust store) is the record \<open>world\<close>, indexed by a call counter;
  at every await the other requests may change the caches (\<open>others\<close>). Logging is left out.

  \<open>ensures I m Q\<close> says that \<open>m\<close> keeps the invariant \<open>I\<close> of the caches and that its result, when it does not
  throw, satisfies \<open>Q\<close>; the rules for it carry the proofs. Shown: what every accepted request has, from
  the header to the registry's answer, as long as the other requests keep the invariant; and that a
  request itself keeps it.
\<close>

section \<open>Paths and issuers (url.ts)\<close>

definition toPathWithQuery :: "url_lib \<Rightarrow> string \<Rightarrow> string option" where
  "toPathWithQuery ul url = map_option (\<lambda>parsed. u_pathname parsed @ u_search parsed) (new_URL ul url (Some ''http://localhost''))"

text \<open>What a request is answered with: an \<open>AppError\<close>, or an exception the code does not expect.\<close>
datatype auth_failure = Refused app_error | Unexpected

definition normalizeRegistryUrl :: "url_lib \<Rightarrow> string \<Rightarrow> (app_error, string) result" where
  "normalizeRegistryUrl ul registryUrl =
     (case new_URL ul registryUrl None of
        Some u \<Rightarrow> Inr (u_href u)
      | None \<Rightarrow> Inl (AppError ''PROXY_AUTH_INVALID_REGISTRY_URL'' ''Proxy registry URL is invalid'' 500))"

definition toRegistryUrl :: "url_lib \<Rightarrow> string \<Rightarrow> string \<Rightarrow> string option" where
  "toRegistryUrl ul registryUrl path =
     (let normalizedBaseUrl = (if endsWith registryUrl ''/'' then registryUrl else registryUrl @ ''/'') in
      map_option u_href (new_URL ul path (Some normalizedBaseUrl)))"

definition isLoopbackRegistryUrl :: "url_lib \<Rightarrow> string \<Rightarrow> bool" where
  "isLoopbackRegistryUrl ul registryUrl =
     (case new_URL ul registryUrl None of Some u \<Rightarrow> isLoopbackHostname (u_hostname u) | None \<Rightarrow> False)"

definition resolveExpectedIssuer :: "url_lib \<Rightarrow> string \<Rightarrow> proxy_request option \<Rightarrow> string option" where
  "resolveExpectedIssuer ul registryUrl request =
     (case new_URL ul registryUrl None of
        None \<Rightarrow> None
      | Some parsedRegistryUrl \<Rightarrow>
          (case request of
             None \<Rightarrow> Some (u_origin parsedRegistryUrl)
           | Some rq \<Rightarrow>
               if \<not> isLoopbackHostname (u_hostname parsedRegistryUrl) then Some (u_origin parsedRegistryUrl)
               else (case resolveRequestOrigin ul rq of
                       None \<Rightarrow> Some (u_origin parsedRegistryUrl)
                     | Some requestOrigin \<Rightarrow>
                         if requestOrigin = [] then Some (u_origin parsedRegistryUrl)
                         else (case new_URL ul requestOrigin None of
                                 None \<Rightarrow> None
                               | Some requestUrl \<Rightarrow>
                                   if isLoopbackHostname (u_hostname requestUrl) then Some (u_origin parsedRegistryUrl)
                                   else let u = set_hostname ul (u_hostname requestUrl) (set_protocol ul (u_protocol requestUrl) parsedRegistryUrl)
                                        in Some (u_origin (if length (u_port requestUrl) = 0 then set_port ul [] u else u))))))"

definition PAIR_START_PATH :: string where "PAIR_START_PATH = ''/pair/start''"
definition PAIR_CONFIRM_PATH :: string where "PAIR_CONFIRM_PATH = ''/pair/confirm''"
definition PAIR_STATUS_PATH :: string where "PAIR_STATUS_PATH = ''/pair/status''"
definition RELAY_CONNECT_PATH :: string where "RELAY_CONNECT_PATH = ''/v1/relay/connect''"
definition RELAY_DELIVERY_RECEIPTS_PATH :: string where "RELAY_DELIVERY_RECEIPTS_PATH = ''/v1/relay/delivery-receipts''"
definition AGENT_AUTH_VALIDATE_PATH :: string where "AGENT_AUTH_VALIDATE_PATH = ''/v1/agents/auth/validate''"

definition shouldSkipKnownAgentCheck :: "string \<Rightarrow> bool" where
  "shouldSkipKnownAgentCheck path \<longleftrightarrow>
     path = PAIR_START_PATH \<or> path = PAIR_CONFIRM_PATH \<or> path = PAIR_STATUS_PATH \<or> path = RELAY_CONNECT_PATH"

section \<open>Headers (request-auth.ts, errors.ts)\<close>

definition unauthorizedError :: "string \<Rightarrow> string \<Rightarrow> auth_failure" where
  "unauthorizedError code msg = Refused (AppError code msg 401)"

definition dependencyUnavailableError :: "string \<Rightarrow> auth_failure" where
  "dependencyUnavailableError msg = Refused (AppError ''PROXY_AUTH_DEPENDENCY_UNAVAILABLE'' msg 503)"

text \<open>The group of \<open>/^Claw\s+(\S+)$/\<close>.\<close>
definition claw_scheme :: "string \<Rightarrow> string option" where
  "claw_scheme s =
     (let rest = drop 4 s; token = dropWhile is_ws rest in
      if startsWith s ''Claw'' \<and> token \<noteq> rest \<and> token \<noteq> [] \<and> list_all (\<lambda>c. \<not> is_ws c) token then Some token else None)"

definition invalid_scheme :: auth_failure where
  "invalid_scheme = unauthorizedError ''PROXY_AUTH_INVALID_SCHEME''
     (''Authorization must be in the format '' @ [CHR 0x27] @ ''Claw <ait>'' @ [CHR 0x27])"

definition parseClawAuthorizationHeader :: "string option \<Rightarrow> (auth_failure, string) result" where
  "parseClawAuthorizationHeader authorization =
     (case authorization of
        None \<Rightarrow> Inl (unauthorizedError ''PROXY_AUTH_MISSING_TOKEN'' ''Authorization header is required'')
      | Some v \<Rightarrow>
          if length (trim v) = 0 then Inl (unauthorizedError ''PROXY_AUTH_MISSING_TOKEN'' ''Authorization header is required'')
          else (case claw_scheme (trim v) of
                  None \<Rightarrow> Inl invalid_scheme
                | Some token \<Rightarrow>
                    if length (trim token) = 0
                    then Inl invalid_scheme
                    else Inr (trim token)))"

definition parseAgentAccessHeader :: "string option \<Rightarrow> (auth_failure, string) result" where
  "parseAgentAccessHeader value =
     (case value of
        None \<Rightarrow> Inl (unauthorizedError ''PROXY_AGENT_ACCESS_REQUIRED'' ''X-Claw-Agent-Access header is required'')
      | Some v \<Rightarrow>
          if length (trim v) = 0
          then Inl (unauthorizedError ''PROXY_AGENT_ACCESS_REQUIRED'' ''X-Claw-Agent-Access header is required'')
          else Inr (trim v))"

section \<open>Registry keys (registry-keys.ts)\<close>

record RegistrySigningKey =
  rk_kid :: string
  rk_x :: string
  rk_status :: string

text \<open>
  \<open>registrySigningKeysSchema\<close> of \<open>packages/sdk/src/config.ts\<close>: \<open>shape\<close> is zod's reading of one entry (with
  algorithm and curve fixed and the status one of \<open>active\<close> and \<open>revoked\<close>).
\<close>
definition registrySigningKeysSchema ::
  "runtime \<Rightarrow> (jsval \<Rightarrow> RegistrySigningKey option) \<Rightarrow> jsval list \<Rightarrow> RegistrySigningKey list option" where
  "registrySigningKeysSchema rt shape vs =
     (let ks = map shape vs in
      if list_all (\<lambda>k. case k of None \<Rightarrow> False
                       | Some key \<Rightarrow> rk_kid key \<noteq> [] \<and> rk_x key \<noteq> [] \<and>
                           (case decodeBase64url rt (rk_x key) of Inl _ \<Rightarrow> False | Inr bs \<Rightarrow> length bs = 32)) ks
         \<and> distinct (map rk_kid (map the ks))
      then Some (map the ks) else None)"

definition parseRegistrySigningKeys ::
  "runtime \<Rightarrow> (jsval \<Rightarrow> RegistrySigningKey option) \<Rightarrow> jsval \<Rightarrow> (auth_failure, RegistrySigningKey list) result" where
  "parseRegistrySigningKeys rt shape payload =
     (case js_get payload ''keys'' of
        JArr vs \<Rightarrow>
          (case registrySigningKeysSchema rt shape (map (\<lambda>x. if x = JUndefined then JNull else json_wire x) vs) of
             None \<Rightarrow> Inl (dependencyUnavailableError ''Registry signing keys are invalid'')
           | Some keys \<Rightarrow>
               if keys = [] then Inl (dependencyUnavailableError ''Registry signing keys are unavailable'') else Inr keys)
      | _ \<Rightarrow> Inl (dependencyUnavailableError ''Registry signing keys payload is invalid''))"

definition toVerificationKeys :: "RegistrySigningKey list \<Rightarrow> VerificationKey list" where
  "toVerificationKeys keys =
     map (\<lambda>key. \<lparr>vk_kid = rk_kid key, vk_x = rk_x key\<rparr>) (filter (\<lambda>key. rk_status key = ''active'') keys)"

section \<open>Computations on the shared caches\<close>

text \<open>
  The two variables all requests share, and the number of calls made to the outside so far: \<open>tick\<close> only
  indexes the answers of the world.
\<close>
record auth_state =
  registryKeysCache :: "(ms \<times> VerificationKey list) option"
  crlCache :: crl_cache
  tick :: nat

text \<open>A registry answer: the status and the parsed body, \<open>undefined\<close> when it is not JSON; or a failed fetch.\<close>
datatype fetch_answer = FetchFailed | Response nat jsval

text \<open>
  \<open>fetch n url access body\<close>: call \<open>n\<close>, with the access header and the JSON body when they are sent.
  \<open>nonce n agent nonce ttl now\<close>: whether the nonce store accepts, \<open>None\<close> when it throws. \<open>others n\<close>: what the
  other requests do to the caches while call \<open>n\<close> is awaited.
\<close>
record world =
  clock_at :: "nat \<Rightarrow> ms"
  fetch :: "nat \<Rightarrow> string \<Rightarrow> string option \<Rightarrow> jsval \<Rightarrow> fetch_answer"
  nonce :: "nat \<Rightarrow> string \<Rightarrow> string \<Rightarrow> ms \<Rightarrow> ms \<Rightarrow> bool option"
  store_isAgentRevoked :: "nat \<Rightarrow> string \<Rightarrow> (unit, bool) result"
  store_isAgentKnown :: "nat \<Rightarrow> string \<Rightarrow> (unit, bool) result"
  others :: "nat \<Rightarrow> auth_state \<Rightarrow> auth_state"

type_synonym 'a auth = "auth_state \<Rightarrow> (auth_failure, 'a) result \<times> auth_state"

definition ret :: "(auth_failure, 'a) result \<Rightarrow> 'a auth" where
  "ret r s = (r, s)"

definition bindA :: "'a auth \<Rightarrow> ('a \<Rightarrow> 'b auth) \<Rightarrow> 'b auth" where
  "bindA m k s = (case m s of (Inl e, s') \<Rightarrow> (Inl e, s') | (Inr x, s') \<Rightarrow> k x s')"

text \<open>\<open>try { m } catch { h }\<close>, the handler given the error\<close>
definition tryA :: "'a auth \<Rightarrow> ((auth_failure, 'a) result \<Rightarrow> 'b auth) \<Rightarrow> 'b auth" where
  "tryA m h s = (case m s of (r, s') \<Rightarrow> h r s')"

definition clock :: "world \<Rightarrow> ms auth" where
  "clock w s = (Inr (clock_at w (tick s)), s\<lparr>tick := Suc (tick s)\<rparr>)"

text \<open>An awaited call: \<open>f\<close> is its answer at call \<open>n\<close>.\<close>
definition call :: "world \<Rightarrow> (nat \<Rightarrow> 'a) \<Rightarrow> 'a auth" where
  "call w f s = (Inr (f (tick s)), (others w (tick s) s)\<lparr>tick := Suc (tick s)\<rparr>)"

section \<open>The middleware (middleware.ts)\<close>

text \<open>The libraries and the options of \<open>createProxyAuthMiddleware\<close>; \<open>registry\<close> is the normalised URL.\<close>
record auth_config =
  rt :: runtime
  hc :: http_crypto
  jose :: jose_lib
  urls :: url_lib
  key_shape :: "jsval \<Rightarrow> RegistrySigningKey option"
  registry :: string
  maxTimestampSkewSeconds :: real
  registryKeysCacheTtlMs :: ms
  crl_cfg :: crl_config

definition DEFAULT_REGISTRY_KEYS_CACHE_TTL_MS :: ms where "DEFAULT_REGISTRY_KEYS_CACHE_TTL_MS = 60 * 60 * 1000"
definition DEFAULT_MAX_TIMESTAMP_SKEW_SECONDS :: real where "DEFAULT_MAX_TIMESTAMP_SKEW_SECONDS = 300"

definition crlExpectedIssuer :: "auth_config \<Rightarrow> string option" where
  "crlExpectedIssuer cfg =
     (if isLoopbackRegistryUrl (urls cfg) (registry cfg) then None else resolveExpectedIssuer (urls cfg) (registry cfg) None)"

definition mapProofVerificationError :: "http_failure \<Rightarrow> auth_failure" where
  "mapProofVerificationError error =
     (let invalid = unauthorizedError ''PROXY_AUTH_INVALID_PROOF'' ''PoP verification failed'' in
      case error of
        HttpError (AppError code msg _) \<Rightarrow>
          if code = ''HTTP_SIGNATURE_INVALID_TIMESTAMP'' then unauthorizedError ''PROXY_AUTH_INVALID_TIMESTAMP'' msg
          else if code = ''HTTP_SIGNATURE_TIMESTAMP_SKEW'' then unauthorizedError ''PROXY_AUTH_TIMESTAMP_SKEW'' msg
          else if code = ''HTTP_SIGNATURE_REPLAY_DETECTED'' then unauthorizedError ''PROXY_AUTH_REPLAY'' ''Replay detected''
          else if code = ''HTTP_SIGNATURE_NONCE_CHECK_FAILED'' then unauthorizedError ''PROXY_AUTH_INVALID_NONCE'' ''Nonce validation failed''
          else invalid
      | FieldError field \<Rightarrow>
          if field = X_CLAW_TIMESTAMP then unauthorizedError ''PROXY_AUTH_INVALID_TIMESTAMP'' ''X-Claw-Timestamp header is required''
          else if field = X_CLAW_NONCE then unauthorizedError ''PROXY_AUTH_INVALID_NONCE'' ''Nonce validation failed''
          else invalid
      | ForeignFailure \<Rightarrow> invalid)"

definition fetch_registry :: "world \<Rightarrow> auth_config \<Rightarrow> string \<Rightarrow> string \<Rightarrow> jsval auth" where
  "fetch_registry w cfg path unavailable =
     (case toRegistryUrl (urls cfg) (registry cfg) path of
        None \<Rightarrow> ret (Inl (dependencyUnavailableError unavailable))
      | Some url \<Rightarrow>
          bindA (call w (\<lambda>n. fetch w n url None JUndefined)) (\<lambda>answer.
          case answer of
            FetchFailed \<Rightarrow> ret (Inl (dependencyUnavailableError unavailable))
          | Response status body \<Rightarrow>
              if status < 200 \<or> status > 299 then ret (Inl (dependencyUnavailableError unavailable)) else ret (Inr body)))"

definition fetch_keys :: "world \<Rightarrow> auth_config \<Rightarrow> VerificationKey list auth" where
  "fetch_keys w cfg =
     bindA (fetch_registry w cfg ''/.well-known/claw-keys.json'' ''Registry signing keys are unavailable'') (\<lambda>payload.
     bindA (ret (parseRegistrySigningKeys (rt cfg) (key_shape cfg) payload)) (\<lambda>parsedKeys.
     let verificationKeys = toVerificationKeys parsedKeys in
     if verificationKeys = [] then ret (Inl (dependencyUnavailableError ''Registry signing keys are unavailable''))
     else bindA (clock w) (\<lambda>now s. (Inr verificationKeys, s\<lparr>registryKeysCache := Some (now, verificationKeys)\<rparr>))))"

definition getActiveRegistryKeys :: "world \<Rightarrow> auth_config \<Rightarrow> bool \<Rightarrow> VerificationKey list auth" where
  "getActiveRegistryKeys w cfg forceRefresh s =
     (case registryKeysCache s of
        Some (fetchedAtMs, keys) \<Rightarrow>
          if \<not> forceRefresh
          then bindA (clock w) (\<lambda>now. if now - fetchedAtMs \<le> registryKeysCacheTtlMs cfg then ret (Inr keys) else fetch_keys w cfg) s
          else fetch_keys w cfg s
      | None \<Rightarrow> fetch_keys w cfg s)"

text \<open>The library reads the time itself.\<close>
definition verify_crl_with :: "world \<Rightarrow> auth_config \<Rightarrow> string \<Rightarrow> VerificationKey list \<Rightarrow> (jwt_error, CrlClaims) result auth" where
  "verify_crl_with w cfg token keys =
     call w (\<lambda>n. verifyCRL (ulids (rt cfg)) (jose cfg) (clock_at w n) token keys (crlExpectedIssuer cfg))"

definition crl_invalid :: auth_failure where
  "crl_invalid = dependencyUnavailableError ''Registry CRL is invalid''"

text \<open>The second attempt, with the keys fetched anew.\<close>
definition verify_crl_refreshed :: "world \<Rightarrow> auth_config \<Rightarrow> string \<Rightarrow> CrlClaims auth" where
  "verify_crl_refreshed w cfg crlToken =
     tryA (bindA (getActiveRegistryKeys w cfg True) (verify_crl_with w cfg crlToken)) (\<lambda>r.
     case r of Inr (Inr claims) \<Rightarrow> ret (Inr claims) | _ \<Rightarrow> ret (Inl crl_invalid))"

definition verify_crl_token :: "world \<Rightarrow> auth_config \<Rightarrow> string \<Rightarrow> CrlClaims auth" where
  "verify_crl_token w cfg crlToken =
     tryA (bindA (getActiveRegistryKeys w cfg False) (verify_crl_with w cfg crlToken)) (\<lambda>r.
     case r of
       Inr (Inr claims) \<Rightarrow> ret (Inr claims)
     | Inr (Inl (UnknownKid _)) \<Rightarrow> verify_crl_refreshed w cfg crlToken
     | _ \<Rightarrow> ret (Inl crl_invalid))"

definition fetchLatestCrlClaims :: "world \<Rightarrow> auth_config \<Rightarrow> CrlClaims auth" where
  "fetchLatestCrlClaims w cfg =
     bindA (fetch_registry w cfg ''/v1/crl'' ''Registry CRL is unavailable'') (\<lambda>payload.
     case js_get payload ''crl'' of
       JStr crlToken \<Rightarrow> verify_crl_token w cfg crlToken
     | _ \<Rightarrow> ret (Inl (dependencyUnavailableError ''Registry CRL payload is invalid'')))"

definition on_cache :: "(crl_cache \<Rightarrow> 'a \<times> crl_cache) \<Rightarrow> 'a auth" where
  "on_cache f s = (case f (crlCache s) of (x, c) \<Rightarrow> (Inr x, s\<lparr>crlCache := c\<rparr>))"

definition crl_fetch :: "world \<Rightarrow> auth_config \<Rightarrow> bool \<Rightarrow> CrlClaims option option auth" where
  "crl_fetch w cfg attempt =
     (if attempt
      then tryA (fetchLatestCrlClaims w cfg) (\<lambda>r.
             ret (Inr (Some (case r of Inl _ \<Rightarrow> None
                             | Inr c \<Rightarrow> parseCrlClaims (ulids (rt cfg)) (jose cfg) (crl_value c)))))
      else ret (Inr None))"

definition crl_settle :: "world \<Rightarrow> auth_config \<Rightarrow> string \<Rightarrow> ms \<Rightarrow> CrlClaims option option \<Rightarrow> (crl_error, bool) result auth" where
  "crl_settle w cfg jti now fetched =
     bindA (on_cache (refresh_settle (crl_cfg cfg) now fetched)) (\<lambda>settled.
     bindA (call w (\<lambda>_. ())) (\<lambda>_.
     case settled of
       Inl e \<Rightarrow> ret (Inr (Inl e))
     | Inr _ \<Rightarrow> on_cache (\<lambda>c. (Inr (answer jti c), c))))"

text \<open>\<open>crlCache.isRevoked(jti)\<close> of \<open>Crl_Cache\<close> with its awaits: the fetch, and the return of \<open>refreshIfStale\<close>.\<close>
definition crl_isRevoked :: "world \<Rightarrow> auth_config \<Rightarrow> string \<Rightarrow> (crl_error, bool) result auth" where
  "crl_isRevoked w cfg jtiInput =
     (case ensureNonEmptyString jtiInput ''jti'' of
        Inl e \<Rightarrow> ret (Inr (Inl e))
      | Inr jti \<Rightarrow>
          bindA (clock w) (\<lambda>now.
          bindA (on_cache (refresh_begin (crl_cfg cfg) now)) (\<lambda>attempt.
          bindA (crl_fetch w cfg attempt) (\<lambda>fetched.
          crl_settle w cfg jti now fetched))))"

definition verify_ait_with ::
  "world \<Rightarrow> auth_config \<Rightarrow> string \<Rightarrow> proxy_request \<Rightarrow> VerificationKey list \<Rightarrow> (jwt_error, AitClaims) result auth" where
  "verify_ait_with w cfg token request keys =
     call w (\<lambda>n. verifyAIT (rt cfg) (jose cfg) (clock_at w n) token keys
                  (resolveExpectedIssuer (urls cfg) (registry cfg) (Some request)))"

definition ait_invalid :: auth_failure where
  "ait_invalid = unauthorizedError ''PROXY_AUTH_INVALID_AIT'' ''AIT verification failed''"

definition verify_ait_refreshed :: "world \<Rightarrow> auth_config \<Rightarrow> string \<Rightarrow> proxy_request \<Rightarrow> AitClaims auth" where
  "verify_ait_refreshed w cfg token request =
     bindA (getActiveRegistryKeys w cfg True) (\<lambda>refreshedKeys.
     bindA (verify_ait_with w cfg token request refreshedKeys) (\<lambda>r.
     case r of Inr claims \<Rightarrow> ret (Inr claims) | Inl _ \<Rightarrow> ret (Inl ait_invalid)))"

definition verifyAitClaims :: "world \<Rightarrow> auth_config \<Rightarrow> string \<Rightarrow> proxy_request \<Rightarrow> AitClaims auth" where
  "verifyAitClaims w cfg token request =
     bindA (getActiveRegistryKeys w cfg False) (\<lambda>verificationKeys.
     bindA (verify_ait_with w cfg token request verificationKeys) (\<lambda>r.
     case r of
       Inr claims \<Rightarrow> ret (Inr claims)
     | Inl (UnknownKid _) \<Rightarrow> verify_ait_refreshed w cfg token request
     | Inl _ \<Rightarrow> ret (Inl ait_invalid)))"

record ProxyAuthContext =
  au_agentDid :: string
  au_ownerDid :: string
  au_aitJti :: string
  au_issuer :: string
  au_cnfPublicKey :: string

definition auth_context :: "AitClaims \<Rightarrow> ProxyAuthContext" where
  "auth_context claims = \<lparr>au_agentDid = ait_sub claims, au_ownerDid = ait_ownerDid claims, au_aitJti = ait_jti claims,
     au_issuer = ait_iss claims, au_cnfPublicKey = ait_x claims\<rparr>"

text \<open>The input of the signature check for a request.\<close>
definition proof_input :: "auth_config \<Rightarrow> proxy_request \<Rightarrow> string \<Rightarrow> bytes \<Rightarrow> ms \<Rightarrow> VerifyHttpRequestInput" where
  "proof_input cfg rq pathWithQuery publicKey now =
     \<lparr>vi_method = rq_method rq, vi_pathWithQuery = pathWithQuery, vi_headers = map (\<lambda>(k, v). (k, Some v)) (rq_headers rq),
      vi_body = Some (rq_body rq), vi_publicKey = publicKey, vi_nowMs = JNum now,
      vi_maxTimestampSkewSeconds = JNum (maxTimestampSkewSeconds cfg)\<rparr>"

definition check_proof :: "world \<Rightarrow> auth_config \<Rightarrow> proxy_request \<Rightarrow> string \<Rightarrow> AitClaims \<Rightarrow> bytes \<Rightarrow> unit auth" where
  "check_proof w cfg rq pathWithQuery claims cnfPublicKey =
     bindA (clock w) (\<lambda>now.
     bindA (call w (\<lambda>n. fst (verifyHttpRequestWithReplayProtection (rt cfg) (hc cfg)
              (\<lambda>agentDid nce ttl t u. (nonce w n agentDid nce ttl t, u)) now now
              (proof_input cfg rq pathWithQuery cnfPublicKey now) (ait_sub claims)
              (JNum (maxTimestampSkewSeconds cfg * 1000)) ()))) (\<lambda>r.
     case r of Inl e \<Rightarrow> ret (Inl (mapProofVerificationError e)) | Inr _ \<Rightarrow> ret (Inr ())))"

definition check_trust_state :: "world \<Rightarrow> AitClaims \<Rightarrow> unit auth" where
  "check_trust_state w claims =
     bindA (call w (\<lambda>n. store_isAgentRevoked w n (ait_sub claims))) (\<lambda>r.
     case r of
       Inl _ \<Rightarrow> ret (Inl (dependencyUnavailableError ''Proxy trust state is unavailable''))
     | Inr revoked \<Rightarrow>
         if revoked then ret (Inl (unauthorizedError ''PROXY_AUTH_REVOKED'' ''Agent has been revoked'')) else ret (Inr ()))"

definition check_crl :: "world \<Rightarrow> auth_config \<Rightarrow> AitClaims \<Rightarrow> unit auth" where
  "check_crl w cfg claims =
     bindA (crl_isRevoked w cfg (ait_jti claims)) (\<lambda>r.
     case r of
       Inl _ \<Rightarrow> ret (Inl (dependencyUnavailableError ''Registry CRL is unavailable''))
     | Inr revoked \<Rightarrow>
         if revoked then ret (Inl (unauthorizedError ''PROXY_AUTH_REVOKED'' ''AIT has been revoked'')) else ret (Inr ()))"

definition check_known :: "world \<Rightarrow> proxy_request \<Rightarrow> AitClaims \<Rightarrow> unit auth" where
  "check_known w rq claims =
     (if shouldSkipKnownAgentCheck (rq_path rq) then ret (Inr ())
      else bindA (call w (\<lambda>n. store_isAgentKnown w n (ait_sub claims))) (\<lambda>r.
           case assertKnownTrustedAgent r of Inl e \<Rightarrow> ret (Inl (Refused e)) | Inr _ \<Rightarrow> ret (Inr ())))"

definition needs_access :: "string \<Rightarrow> bool" where
  "needs_access path \<longleftrightarrow> path = ''/hooks/message'' \<or> path = RELAY_CONNECT_PATH \<or> path = RELAY_DELIVERY_RECEIPTS_PATH"

definition access_body :: "AitClaims \<Rightarrow> jsval" where
  "access_body claims = JObj [(''agentDid'', JStr (ait_sub claims)), (''aitJti'', JStr (ait_jti claims))]"

definition check_access :: "world \<Rightarrow> auth_config \<Rightarrow> proxy_request \<Rightarrow> AitClaims \<Rightarrow> unit auth" where
  "check_access w cfg rq claims =
     (if \<not> needs_access (rq_path rq) then ret (Inr ())
      else bindA (ret (parseAgentAccessHeader (rq_header rq ''x-claw-agent-access''))) (\<lambda>accessToken.
           case toRegistryUrl (urls cfg) (registry cfg) AGENT_AUTH_VALIDATE_PATH of
             None \<Rightarrow> ret (Inl Unexpected)
           | Some url \<Rightarrow>
               bindA (call w (\<lambda>n. fetch w n url (Some accessToken) (access_body claims))) (\<lambda>answer.
               case answer of
                 FetchFailed \<Rightarrow> ret (Inl (dependencyUnavailableError ''Registry agent auth validation is unavailable''))
               | Response status _ \<Rightarrow>
                   if status = 401 then ret (Inl (unauthorizedError ''PROXY_AGENT_ACCESS_INVALID'' ''Agent access token is invalid or expired''))
                   else if status \<noteq> 204 then ret (Inl (dependencyUnavailableError ''Registry agent auth validation is unavailable''))
                   else ret (Inr ()))))"

text \<open>The handler up to \<open>next()\<close>: \<open>None\<close> for the health path, which it lets pass without a context.\<close>
definition proxyAuth :: "world \<Rightarrow> auth_config \<Rightarrow> proxy_request \<Rightarrow> ProxyAuthContext option auth" where
  "proxyAuth w cfg rq =
     (if rq_path rq = ''/health'' then ret (Inr None)
      else
        bindA (ret (parseClawAuthorizationHeader (rq_header rq ''authorization''))) (\<lambda>token.
        bindA (verifyAitClaims w cfg token rq) (\<lambda>claims.
        bindA (ret (of_option Unexpected (toPathWithQuery (urls cfg) (rq_url rq)))) (\<lambda>pathWithQuery.
        bindA (ret (catchE (decodeBase64url (rt cfg) (ait_x claims))
                      (unauthorizedError ''PROXY_AUTH_INVALID_AIT'' ''AIT public key is invalid''))) (\<lambda>cnfPublicKey.
        bindA (check_proof w cfg rq pathWithQuery claims cnfPublicKey) (\<lambda>_.
        bindA (check_trust_state w claims) (\<lambda>_.
        bindA (check_crl w cfg claims) (\<lambda>_.
        bindA (check_known w rq claims) (\<lambda>_.
        bindA (check_access w cfg rq claims) (\<lambda>_.
        ret (Inr (Some (auth_context claims)))))))))))))"

section \<open>Reasoning about requests\<close>

text \<open>\<open>m\<close> keeps \<open>I\<close>, and a result that is not an exception satisfies \<open>Q\<close>.\<close>
definition ensures :: "(auth_state \<Rightarrow> bool) \<Rightarrow> 'a auth \<Rightarrow> ('a \<Rightarrow> bool) \<Rightarrow> bool" where
  "ensures I m Q \<longleftrightarrow> (\<forall>s r s'. I s \<longrightarrow> m s = (r, s') \<longrightarrow> I s' \<and> (\<forall>x. r = Inr x \<longrightarrow> Q x))"

named_theorems ensures_rules \<open>rules for the constructs of a request\<close>

lemma ensures_ret [ensures_rules]: "(\<And>x. r = Inr x \<Longrightarrow> Q x) \<Longrightarrow> ensures I (ret r) Q"
  by (simp add: ensures_def ret_def)

lemma ensures_bind [ensures_rules]:
  assumes "ensures I m P" and "\<And>x. P x \<Longrightarrow> ensures I (k x) Q"
  shows "ensures I (bindA m k) Q"
  unfolding ensures_def bindA_def
proof (intro allI impI)
  fix s r s'
  assume "I s" and run: "(case m s of (Inl e, s') \<Rightarrow> (Inl e, s') | (Inr x, s') \<Rightarrow> k x s') = (r, s')"
  obtain r1 s1 where m: "m s = (r1, s1)" by (cases "m s")
  then have I: "I s1" and P: "r1 = Inr x \<Longrightarrow> P x" for x using assms(1) \<open>I s\<close> by (auto simp: ensures_def)
  show "I s' \<and> (\<forall>x. r = Inr x \<longrightarrow> Q x)"
  proof (cases r1)
    case (Inl e) then show ?thesis using run m I by auto
  next
    case (Inr x)
    then have "k x s1 = (r, s')" using run m by simp
    then show ?thesis using assms(2)[OF P[OF Inr]] I unfolding ensures_def by blast
  qed
qed

lemma ensures_try [ensures_rules]:
  assumes "ensures I m P" and "\<And>e. ensures I (h (Inl e)) Q" and "\<And>x. P x \<Longrightarrow> ensures I (h (Inr x)) Q"
  shows "ensures I (tryA m h) Q"
  unfolding ensures_def tryA_def
proof (intro allI impI)
  fix s r s'
  assume "I s" and run: "(case m s of (r, s') \<Rightarrow> h r s') = (r, s')"
  obtain r1 s1 where m: "m s = (r1, s1)" by (cases "m s")
  then have I: "I s1" and P: "r1 = Inr x \<Longrightarrow> P x" for x using assms(1) \<open>I s\<close> by (auto simp: ensures_def)
  have "h r1 s1 = (r, s')" using run m by simp
  moreover have "ensures I (h r1) Q" using assms(2,3) P by (cases r1) auto
  ultimately show "I s' \<and> (\<forall>x. r = Inr x \<longrightarrow> Q x)" using I unfolding ensures_def by blast
qed

lemma ensures_weaken: "ensures I m P \<Longrightarrow> (\<And>x. P x \<Longrightarrow> Q x) \<Longrightarrow> ensures I m Q"
  unfolding ensures_def by blast

section \<open>The invariant of the caches\<close>

text \<open>
  \<open>registry_key\<close>: an active key of some answer of the registry. \<open>registry_crl\<close>: a list from some answer of the
  registry that verified under such a key for the expected issuer.
\<close>
definition registry_answer :: "world \<Rightarrow> auth_config \<Rightarrow> string \<Rightarrow> jsval \<Rightarrow> bool" where
  "registry_answer w cfg path payload \<longleftrightarrow>
     (\<exists>n url status. toRegistryUrl (urls cfg) (registry cfg) path = Some url \<and>
        fetch w n url None JUndefined = Response status payload \<and> 200 \<le> status \<and> status \<le> 299)"

definition registry_key :: "world \<Rightarrow> auth_config \<Rightarrow> VerificationKey \<Rightarrow> bool" where
  "registry_key w cfg key \<longleftrightarrow>
     (\<exists>payload keys k. registry_answer w cfg ''/.well-known/claw-keys.json'' payload \<and>
        parseRegistrySigningKeys (rt cfg) (key_shape cfg) payload = Inr keys \<and>
        k \<in> set keys \<and> rk_status k = ''active'' \<and> key = \<lparr>vk_kid = rk_kid k, vk_x = rk_x k\<rparr>)"

definition registry_crl :: "world \<Rightarrow> auth_config \<Rightarrow> CrlClaims \<Rightarrow> bool" where
  "registry_crl w cfg claims \<longleftrightarrow>
     (\<exists>payload token key now body c. registry_answer w cfg ''/v1/crl'' payload \<and> js_get payload ''crl'' = JStr token \<and>
        registry_key w cfg key \<and> token_verify (jose cfg) now token (vk_x key) ''CRL'' (crlExpectedIssuer cfg) = Some body \<and>
        crl_shape (jose cfg) body = Some c \<and> crlClaimsSchema (ulids (rt cfg)) c \<and>
        parseCrlClaims (ulids (rt cfg)) (jose cfg) (crl_value c) = Some claims)"

text \<open>With \<open>listed\<close> the cache also holds some list.\<close>
definition auth_inv :: "world \<Rightarrow> auth_config \<Rightarrow> bool \<Rightarrow> auth_state \<Rightarrow> bool" where
  "auth_inv w cfg listed s \<longleftrightarrow>
     (\<forall>t keys. registryKeysCache s = Some (t, keys) \<longrightarrow> (\<forall>key \<in> set keys. registry_key w cfg key)) \<and>
     (\<forall>claims. cc_claims (crlCache s) = Some claims \<longrightarrow> registry_crl w cfg claims) \<and>
     (listed \<longrightarrow> cc_claims (crlCache s) \<noteq> None)"

text \<open>The other requests keep the invariant.\<close>
definition others_keep :: "world \<Rightarrow> auth_config \<Rightarrow> bool" where
  "others_keep w cfg \<longleftrightarrow> (\<forall>listed n s. auth_inv w cfg listed s \<longrightarrow> auth_inv w cfg listed (others w n s))"

lemma auth_inv_tick [simp]: "auth_inv w cfg listed (s\<lparr>tick := n\<rparr>) = auth_inv w cfg listed s"
  by (simp add: auth_inv_def)

lemma ensures_clock [ensures_rules]: "(\<And>t. Q t) \<Longrightarrow> ensures (auth_inv w cfg listed) (clock w) Q"
  by (simp add: ensures_def clock_def)

lemma ensures_call [ensures_rules]:
  "others_keep w cfg \<Longrightarrow> (\<And>n. Q (f n)) \<Longrightarrow> ensures (auth_inv w cfg listed) (call w f) Q"
  by (auto simp: ensures_def call_def others_keep_def)

text \<open>The strongest results of the elementary computations, for use before a bind.\<close>
lemma ensures_ret_eq: "ensures I (ret r) (\<lambda>x. r = Inr x)"
  by (rule ensures_ret)

lemma ensures_call_eq: "others_keep w cfg \<Longrightarrow> ensures (auth_inv w cfg listed) (call w f) (\<lambda>a. \<exists>n. f n = a)"
  by (rule ensures_call) auto

lemma ensures_clock_any: "ensures (auth_inv w cfg listed) (clock w) (\<lambda>_. True)"
  by (rule ensures_clock) simp

lemma ensures_fetch_registry:
  assumes "others_keep w cfg"
  shows "ensures (auth_inv w cfg listed) (fetch_registry w cfg path msg) (registry_answer w cfg path)"
proof (cases "toRegistryUrl (urls cfg) (registry cfg) path")
  case None
  then show ?thesis by (auto simp: fetch_registry_def intro: ensures_ret)
next
  case (Some url)
  have "ensures (auth_inv w cfg listed) (case a of FetchFailed \<Rightarrow> ret (Inl (dependencyUnavailableError msg))
      | Response status body \<Rightarrow> if status < 200 \<or> status > 299 then ret (Inl (dependencyUnavailableError msg)) else ret (Inr body))
      (registry_answer w cfg path)" if "\<exists>n. fetch w n url None JUndefined = a" for a
    using that Some by (cases a) (auto simp: registry_answer_def not_less intro!: ensures_ret, blast)
  then show ?thesis
    unfolding fetch_registry_def Some option.case by (intro ensures_bind[OF ensures_call_eq[OF assms]])
qed

text \<open>The keys a request works with are active keys of the registry, cached or not.\<close>
abbreviation from_registry :: "world \<Rightarrow> auth_config \<Rightarrow> VerificationKey list \<Rightarrow> bool" where
  "from_registry w cfg keys \<equiv> \<forall>key \<in> set keys. registry_key w cfg key"

lemma ensures_fetch_keys:
  assumes "others_keep w cfg"
  shows "ensures (auth_inv w cfg listed) (fetch_keys w cfg) (from_registry w cfg)"
  unfolding fetch_keys_def
proof (rule ensures_bind[OF ensures_fetch_registry[OF assms]], rule ensures_bind[OF ensures_ret_eq])
  fix payload keys
  assume a: "registry_answer w cfg ''/.well-known/claw-keys.json'' payload" "parseRegistrySigningKeys (rt cfg) (key_shape cfg) payload = Inr keys"
  have key: "from_registry w cfg (toVerificationKeys keys)"
    using a by (auto simp: toVerificationKeys_def registry_key_def)
  have "ensures (auth_inv w cfg listed) (bindA (clock w) (\<lambda>now s. (Inr (toVerificationKeys keys), s\<lparr>registryKeysCache := Some (now, toVerificationKeys keys)\<rparr>)))
      (from_registry w cfg)"
    using key by (intro ensures_bind[OF ensures_clock_any]) (auto simp: ensures_def auth_inv_def)
  then show "ensures (auth_inv w cfg listed)
      (let verificationKeys = toVerificationKeys keys in
       if verificationKeys = [] then ret (Inl (dependencyUnavailableError ''Registry signing keys are unavailable''))
       else bindA (clock w) (\<lambda>now s. (Inr verificationKeys, s\<lparr>registryKeysCache := Some (now, verificationKeys)\<rparr>)))
      (from_registry w cfg)"
    by (auto simp: Let_def intro: ensures_ret)
qed

lemma ensures_at: "(\<And>s. I s \<Longrightarrow> \<exists>m'. m s = m' s \<and> ensures I m' Q) \<Longrightarrow> ensures I m Q"
  unfolding ensures_def by metis

lemma ensures_getActiveRegistryKeys:
  assumes "others_keep w cfg"
  shows "ensures (auth_inv w cfg listed) (getActiveRegistryKeys w cfg force) (from_registry w cfg)"
proof (rule ensures_at)
  fix s
  assume inv: "auth_inv w cfg listed s"
  note fk = ensures_fetch_keys[OF assms]
  show "\<exists>m'. getActiveRegistryKeys w cfg force s = m' s \<and> ensures (auth_inv w cfg listed) m' (from_registry w cfg)"
  proof (cases "registryKeysCache s")
    case None
    then show ?thesis using fk by (intro exI[of _ "fetch_keys w cfg"]) (simp add: getActiveRegistryKeys_def)
  next
    case (Some c)
    then obtain t keys where c: "registryKeysCache s = Some (t, keys)" by (cases c) auto
    let ?m = "bindA (clock w) (\<lambda>now. if now - t \<le> registryKeysCacheTtlMs cfg then ret (Inr keys) else fetch_keys w cfg)"
    have "ensures (auth_inv w cfg listed) ?m (from_registry w cfg)"
      using fk inv c by (intro ensures_bind[OF ensures_clock_any]) (auto simp: auth_inv_def intro!: ensures_ret)
    then show ?thesis using fk c
      by (intro exI[of _ "if force then fetch_keys w cfg else ?m"]) (simp add: getActiveRegistryKeys_def)
  qed
qed

section \<open>Tokens and lists\<close>

text \<open>The claims of a token that verified under a registry key for the issuer the proxy expects.\<close>
definition registry_ait :: "world \<Rightarrow> auth_config \<Rightarrow> proxy_request \<Rightarrow> string \<Rightarrow> AitClaims \<Rightarrow> bool" where
  "registry_ait w cfg rq token claims \<longleftrightarrow>
     (\<exists>key now body. registry_key w cfg key \<and>
        token_verify (jose cfg) now token (vk_x key) ''AIT'' (resolveExpectedIssuer (urls cfg) (registry cfg) (Some rq)) = Some body \<and>
        ait_shape (jose cfg) body = Some claims \<and> aitClaimsSchema (rt cfg) claims)"

lemma ensures_verify_ait_with:
  assumes "others_keep w cfg" "from_registry w cfg keys"
  shows "ensures (auth_inv w cfg listed) (verify_ait_with w cfg token rq keys) (\<lambda>r. \<forall>c. r = Inr c \<longrightarrow> registry_ait w cfg rq token c)"
  unfolding verify_ait_with_def
proof (rule ensures_call[OF assms(1)], intro allI impI)
  fix n c
  assume "verifyAIT (rt cfg) (jose cfg) (clock_at w n) token keys (resolveExpectedIssuer (urls cfg) (registry cfg) (Some rq)) = Inr c"
  then show "registry_ait w cfg rq token c"
    using assms(2) unfolding verifyAIT_iff registry_ait_def by (auto dest!: find_Some_in)
qed

lemma ensures_verify_ait_refreshed:
  assumes "others_keep w cfg"
  shows "ensures (auth_inv w cfg listed) (verify_ait_refreshed w cfg token rq) (registry_ait w cfg rq token)"
  unfolding verify_ait_refreshed_def
  by (rule ensures_bind[OF ensures_getActiveRegistryKeys[OF assms]], erule ensures_bind[OF ensures_verify_ait_with[OF assms]])
     (auto intro!: ensures_ret split: sum.splits)

lemma ensures_verifyAitClaims:
  assumes "others_keep w cfg"
  shows "ensures (auth_inv w cfg listed) (verifyAitClaims w cfg token rq) (registry_ait w cfg rq token)"
  unfolding verifyAitClaims_def
  by (rule ensures_bind[OF ensures_getActiveRegistryKeys[OF assms]], erule ensures_bind[OF ensures_verify_ait_with[OF assms]])
     (auto intro!: ensures_ret ensures_verify_ait_refreshed[OF assms] split: sum.splits jwt_error.splits)

text \<open>The same for a list before the cache parses it again.\<close>
definition crl_token_claims :: "world \<Rightarrow> auth_config \<Rightarrow> string \<Rightarrow> CrlClaims \<Rightarrow> bool" where
  "crl_token_claims w cfg token c \<longleftrightarrow>
     (\<exists>key now body. registry_key w cfg key \<and>
        token_verify (jose cfg) now token (vk_x key) ''CRL'' (crlExpectedIssuer cfg) = Some body \<and>
        crl_shape (jose cfg) body = Some c \<and> crlClaimsSchema (ulids (rt cfg)) c)"

definition fetched_crl :: "world \<Rightarrow> auth_config \<Rightarrow> CrlClaims \<Rightarrow> bool" where
  "fetched_crl w cfg c \<longleftrightarrow> (\<exists>payload token. registry_answer w cfg ''/v1/crl'' payload \<and> js_get payload ''crl'' = JStr token \<and>
     crl_token_claims w cfg token c)"

lemma registry_crl_fetched:
  "fetched_crl w cfg c \<Longrightarrow> parseCrlClaims (ulids (rt cfg)) (jose cfg) (crl_value c) = Some claims \<Longrightarrow> registry_crl w cfg claims"
  unfolding fetched_crl_def crl_token_claims_def registry_crl_def by blast

lemma ensures_verify_crl_with:
  assumes "others_keep w cfg" "from_registry w cfg keys"
  shows "ensures (auth_inv w cfg listed) (verify_crl_with w cfg token keys) (\<lambda>r. \<forall>c. r = Inr c \<longrightarrow> crl_token_claims w cfg token c)"
  unfolding verify_crl_with_def
proof (rule ensures_call[OF assms(1)], intro allI impI)
  fix n c
  assume "verifyCRL (ulids (rt cfg)) (jose cfg) (clock_at w n) token keys (crlExpectedIssuer cfg) = Inr c"
  then show "crl_token_claims w cfg token c"
    using assms(2) unfolding verifyCRL_iff crl_token_claims_def by (auto dest!: find_Some_in)
qed

lemma ensures_keys_then_verify_crl:
  assumes "others_keep w cfg"
  shows "ensures (auth_inv w cfg listed) (bindA (getActiveRegistryKeys w cfg force) (verify_crl_with w cfg token))
    (\<lambda>r. \<forall>c. r = Inr c \<longrightarrow> crl_token_claims w cfg token c)"
  by (rule ensures_bind[OF ensures_getActiveRegistryKeys[OF assms]]) (erule ensures_verify_crl_with[OF assms])

lemma ensures_verify_crl_refreshed:
  assumes "others_keep w cfg"
  shows "ensures (auth_inv w cfg listed) (verify_crl_refreshed w cfg token) (crl_token_claims w cfg token)"
  unfolding verify_crl_refreshed_def
  by (rule ensures_try[OF ensures_keys_then_verify_crl[OF assms]]) (auto intro!: ensures_ret split: sum.splits)

lemma ensures_verify_crl_token:
  assumes "others_keep w cfg"
  shows "ensures (auth_inv w cfg listed) (verify_crl_token w cfg token) (crl_token_claims w cfg token)"
  unfolding verify_crl_token_def
  by (rule ensures_try[OF ensures_keys_then_verify_crl[OF assms]])
     (auto intro!: ensures_ret ensures_verify_crl_refreshed[OF assms] split: sum.splits jwt_error.splits)

lemma ensures_fetchLatestCrlClaims:
  assumes "others_keep w cfg"
  shows "ensures (auth_inv w cfg listed) (fetchLatestCrlClaims w cfg) (fetched_crl w cfg)"
  unfolding fetchLatestCrlClaims_def
proof (rule ensures_bind[OF ensures_fetch_registry[OF assms]])
  fix payload
  assume a: "registry_answer w cfg ''/v1/crl'' payload"
  have "ensures (auth_inv w cfg listed) (verify_crl_token w cfg token) (fetched_crl w cfg)" if "js_get payload ''crl'' = JStr token" for token
    using a that by (intro ensures_weaken[OF ensures_verify_crl_token[OF assms]]) (auto simp: fetched_crl_def)
  then show "ensures (auth_inv w cfg listed) (case js_get payload ''crl'' of JStr crlToken \<Rightarrow> verify_crl_token w cfg crlToken
     | _ \<Rightarrow> ret (Inl (dependencyUnavailableError ''Registry CRL payload is invalid''))) (fetched_crl w cfg)"
    by (auto intro!: ensures_ret split: jsval.split)
qed

text \<open>
  The answer of a check of the list is what a list of the registry says; only in fail-open mode may a
  check pass without one.
\<close>
definition crl_answer :: "world \<Rightarrow> auth_config \<Rightarrow> string \<Rightarrow> bool \<Rightarrow> bool" where
  "crl_answer w cfg jti revoked \<longleftrightarrow>
     (\<exists>claims. registry_crl w cfg claims \<and> (revoked \<longleftrightarrow> jti \<in> rv_jti ` set (crl_revocations claims))) \<or>
     (\<not> revoked \<and> staleBehavior (crl_cfg cfg) = FailOpen)"

lemma ensures_on_cache:
  assumes "\<And>s x c. auth_inv w cfg listed s \<Longrightarrow> f (crlCache s) = (x, c) \<Longrightarrow> auth_inv w cfg listed (s\<lparr>crlCache := c\<rparr>)"
  shows "ensures (auth_inv w cfg listed) (on_cache f) (\<lambda>_. True)"
  using assms by (auto simp: ensures_def on_cache_def split: prod.splits)

definition fetched_ok :: "world \<Rightarrow> auth_config \<Rightarrow> CrlClaims option option \<Rightarrow> bool" where
  "fetched_ok w cfg f \<longleftrightarrow> (\<forall>claims. f = Some (Some claims) \<longrightarrow> registry_crl w cfg claims)"

lemma refresh_settle_inv:
  assumes "auth_inv w cfg listed s" "fetched_ok w cfg f" "refresh_settle (crl_cfg cfg) now f (crlCache s) = (r, c)"
  shows "auth_inv w cfg (listed \<or> staleBehavior (crl_cfg cfg) = FailClosed \<and> (\<exists>x. r = Inr x)) (s\<lparr>crlCache := c\<rparr>)"
proof -
  have c: "c = (case f of None \<Rightarrow> crlCache s | Some g \<Rightarrow> refresh_store now g (crlCache s))"
    using refresh_settle_state(1)[OF assms(3)] .
  have "cc_claims c \<noteq> None" if "staleBehavior (crl_cfg cfg) = FailClosed" "r = Inr x" for x
    using refresh_settle_state(2)[OF assms(3) that(1)] that(2) by (auto simp: isStale_def)
  then show ?thesis
    using assms(1,2) c by (auto simp: auth_inv_def fetched_ok_def refresh_store_def split: option.splits)
qed

lemma answer_inv:
  assumes "auth_inv w cfg (staleBehavior (crl_cfg cfg) = FailClosed) s"
  shows "crl_answer w cfg jti (answer jti (crlCache s))"
  using assms
  by (cases "staleBehavior (crl_cfg cfg)"; cases "cc_claims (crlCache s)")
     (auto simp: crl_answer_def answer_def auth_inv_def list_ex_iff)

lemma ensures_crl_settle:
  assumes "others_keep w cfg" "fetched_ok w cfg f"
  shows "ensures (auth_inv w cfg listed) (crl_settle w cfg jti now f) (\<lambda>r. \<forall>b. r = Inr b \<longrightarrow> crl_answer w cfg jti b)"
  unfolding ensures_def
proof (intro allI impI)
  fix s r s'
  assume inv: "auth_inv w cfg listed s" and run: "crl_settle w cfg jti now f s = (r, s')"
  obtain x c where x: "refresh_settle (crl_cfg cfg) now f (crlCache s) = (x, c)" by (cases "refresh_settle (crl_cfg cfg) now f (crlCache s)")
  let ?s = "s\<lparr>crlCache := c\<rparr>" and ?l = "listed \<or> staleBehavior (crl_cfg cfg) = FailClosed \<and> (\<exists>y. x = Inr y)"
  let ?t = "(others w (tick s) ?s)\<lparr>tick := Suc (tick s)\<rparr>"
  have t: "auth_inv w cfg ?l ?t"
    using refresh_settle_inv[OF inv assms(2) x] assms(1) by (simp add: others_keep_def)
  have s': "s' = ?t" "r = Inr (case x of Inl e \<Rightarrow> Inl e | Inr _ \<Rightarrow> Inr (answer jti (crlCache ?t)))"
    using run by (auto simp: crl_settle_def bindA_def on_cache_def x call_def ret_def split: sum.splits)
  have "auth_inv w cfg listed ?t" using t by (auto simp: auth_inv_def)
  moreover have "crl_answer w cfg jti (answer jti (crlCache ?t))" if "x = Inr y" for y
    by (rule answer_inv) (use t that in \<open>auto simp: auth_inv_def\<close>)
  ultimately show "auth_inv w cfg listed s' \<and> (\<forall>x. r = Inr x \<longrightarrow> (\<forall>b. x = Inr b \<longrightarrow> crl_answer w cfg jti b))"
    unfolding s' by (auto split: sum.splits)
qed

lemma ensures_crl_fetch:
  assumes "others_keep w cfg"
  shows "ensures (auth_inv w cfg listed) (crl_fetch w cfg attempt) (fetched_ok w cfg)"
  by (cases attempt)
     (auto simp: crl_fetch_def fetched_ok_def intro!: ensures_ret ensures_try[OF ensures_fetchLatestCrlClaims[OF assms]] intro: registry_crl_fetched)

lemma ensures_crl_isRevoked:
  assumes "others_keep w cfg"
  shows "ensures (auth_inv w cfg listed) (crl_isRevoked w cfg jti) (\<lambda>r. \<forall>b. r = Inr b \<longrightarrow> crl_answer w cfg jti b)"
proof (cases "ensureNonEmptyString jti ''jti''")
  case (Inl e)
  then show ?thesis by (auto simp: crl_isRevoked_def intro!: ensures_ret)
next
  case (Inr j)
  then have j: "j = jti" by (auto simp: ensureNonEmptyString_def split: if_splits)
  have begun: "ensures (auth_inv w cfg listed) (on_cache (refresh_begin (crl_cfg cfg) now)) (\<lambda>_. True)" for now
    by (rule ensures_on_cache) (auto simp: auth_inv_def dest!: refresh_begin_keeps(1))
  show ?thesis
    unfolding crl_isRevoked_def Inr sum.case j
    by (rule ensures_bind[OF ensures_clock_any], rule ensures_bind[OF begun], rule ensures_bind[OF ensures_crl_fetch[OF assms]],
        erule ensures_crl_settle[OF assms])
qed

section \<open>Accepted requests\<close>

text \<open>
  The request carries a signature of the key the token names, over its method, path, time stamp, nonce and
  body, stamped within the skew of a clock reading; and the nonce store accepted the nonce.
\<close>
definition proof_accepted :: "world \<Rightarrow> auth_config \<Rightarrow> proxy_request \<Rightarrow> string \<Rightarrow> AitClaims \<Rightarrow> bytes \<Rightarrow> bool" where
  "proof_accepted w cfg rq path claims publicKey \<longleftrightarrow>
     (\<exists>now h ts canonical n.
        request_verifies (rt cfg) (hc cfg) (proof_input cfg rq path publicKey now) h now (maxTimestampSkewSeconds cfg) ts canonical \<and>
        nonce w n (ait_sub claims) (ch_nonce h) (maxTimestampSkewSeconds cfg * 1000) now = Some True)"

lemma replay_protected_proof:
  assumes "fst (verifyHttpRequestWithReplayProtection (rt cfg) (hc cfg) (\<lambda>a c ttl t u. (nonce w n a c ttl t, u)) now now
      (proof_input cfg rq path publicKey now) (ait_sub claims) (JNum (maxTimestampSkewSeconds cfg * 1000)) ()) = Inr v"
  shows "proof_accepted w cfg rq path claims publicKey"
proof -
  let ?i = "proof_input cfg rq path publicKey now"
  let ?chk = "\<lambda>a c ttl t u. (nonce w n a c ttl t, u)"
  have run: "verifyHttpRequestWithReplayProtection (rt cfg) (hc cfg) ?chk now now ?i (ait_sub claims)
      (JNum (maxTimestampSkewSeconds cfg * 1000)) () = (Inr v, ())" using assms by (simp add: prod_eq_iff)
  obtain canonical p where v: "v = (canonical, p)" by (cases v)
  obtain h now' skew ts where h: "resolveNowMs now (vi_nowMs ?i) = Inr now'" "request_verifies (rt cfg) (hc cfg) ?i h now' skew ts canonical"
    using with_replay_Inr(1)[OF run] unfolding v verifyHttpRequest_Inr by blast
  have skew: "resolveMaxTimestampSkewSeconds (vi_maxTimestampSkewSeconds ?i) = Inr skew' \<Longrightarrow> skew' = maxTimestampSkewSeconds cfg" for skew'
    by (auto simp: proof_input_def resolveMaxTimestampSkewSeconds_def js_nullish_def split: if_splits)
  have "now' = now" "skew = maxTimestampSkewSeconds cfg" "normalizeSignatureHeaders (vi_headers ?i) = Inr h"
    using h skew by (auto simp: proof_input_def request_verifies_def)
  moreover have "nonce w n (ait_sub claims) (ch_nonce h) (maxTimestampSkewSeconds cfg * 1000) now = Some True"
    using with_replay_Inr(2)[OF run] calculation skew
    by (auto simp: proof_input_def resolveNonceTtlMs_def js_nullish_def split: if_splits)
  ultimately show ?thesis using h(2) unfolding proof_accepted_def by blast
qed

lemma ensures_check_proof:
  assumes "others_keep w cfg"
  shows "ensures (auth_inv w cfg listed) (check_proof w cfg rq path claims pk) (\<lambda>_. proof_accepted w cfg rq path claims pk)"
  unfolding check_proof_def
  by (rule ensures_bind[OF ensures_clock_any], rule ensures_bind[OF ensures_call_eq[OF assms]])
     (auto intro!: ensures_ret dest: replay_protected_proof split: sum.splits)

lemma ensures_check_trust_state:
  assumes "others_keep w cfg"
  shows "ensures (auth_inv w cfg listed) (check_trust_state w claims) (\<lambda>_. \<exists>n. store_isAgentRevoked w n (ait_sub claims) = Inr False)"
  unfolding check_trust_state_def
  by (rule ensures_bind[OF ensures_call_eq[OF assms]]) (auto intro!: ensures_ret split: sum.splits)

lemma ensures_check_crl:
  assumes "others_keep w cfg"
  shows "ensures (auth_inv w cfg listed) (check_crl w cfg claims) (\<lambda>_. crl_answer w cfg (ait_jti claims) False)"
  unfolding check_crl_def
  by (rule ensures_bind[OF ensures_crl_isRevoked[OF assms]]) (auto intro!: ensures_ret split: sum.splits)

lemma ensures_check_known:
  assumes "others_keep w cfg"
  shows "ensures (auth_inv w cfg listed) (check_known w rq claims)
    (\<lambda>_. shouldSkipKnownAgentCheck (rq_path rq) \<or> (\<exists>n. store_isAgentKnown w n (ait_sub claims) = Inr True))"
proof -
  have "ensures (auth_inv w cfg listed) (case assertKnownTrustedAgent r of Inl e \<Rightarrow> ret (Inl (Refused e)) | Inr _ \<Rightarrow> ret (Inr ()))
      (\<lambda>_. \<exists>n. store_isAgentKnown w n (ait_sub claims) = Inr True)" if "\<exists>n. store_isAgentKnown w n (ait_sub claims) = r" for r
    using that by (auto simp: assertKnownTrustedAgent_def intro!: ensures_ret split: sum.splits if_splits)
  then have "ensures (auth_inv w cfg listed) (bindA (call w (\<lambda>n. store_isAgentKnown w n (ait_sub claims))) (\<lambda>r.
      case assertKnownTrustedAgent r of Inl e \<Rightarrow> ret (Inl (Refused e)) | Inr _ \<Rightarrow> ret (Inr ())))
      (\<lambda>_. \<exists>n. store_isAgentKnown w n (ait_sub claims) = Inr True)"
    by (rule ensures_bind[OF ensures_call_eq[OF assms]])
  then show ?thesis
    by (auto simp: check_known_def intro!: ensures_ret intro: ensures_weaken)
qed

text \<open>The registry confirmed the access token of the request for this agent and token.\<close>
definition access_confirmed :: "world \<Rightarrow> auth_config \<Rightarrow> proxy_request \<Rightarrow> AitClaims \<Rightarrow> bool" where
  "access_confirmed w cfg rq claims \<longleftrightarrow>
     (\<exists>access url n body. parseAgentAccessHeader (rq_header rq ''x-claw-agent-access'') = Inr access \<and>
        toRegistryUrl (urls cfg) (registry cfg) AGENT_AUTH_VALIDATE_PATH = Some url \<and>
        fetch w n url (Some access) (access_body claims) = Response 204 body)"

lemma ensures_check_access:
  assumes "others_keep w cfg"
  shows "ensures (auth_inv w cfg listed) (check_access w cfg rq claims) (\<lambda>_. needs_access (rq_path rq) \<longrightarrow> access_confirmed w cfg rq claims)"
proof (cases "needs_access (rq_path rq)")
  case False
  then show ?thesis by (auto simp: check_access_def intro!: ensures_ret)
next
  case True
  let ?bad = "\<lambda>e. ret (Inl e)"
  have answer: "ensures (auth_inv w cfg listed) (case a of FetchFailed \<Rightarrow> ?bad (dependencyUnavailableError ''Registry agent auth validation is unavailable'')
      | Response status _ \<Rightarrow> if status = 401 then ?bad (unauthorizedError ''PROXY_AGENT_ACCESS_INVALID'' ''Agent access token is invalid or expired'')
        else if status \<noteq> 204 then ?bad (dependencyUnavailableError ''Registry agent auth validation is unavailable'') else ret (Inr ()))
      (\<lambda>_. access_confirmed w cfg rq claims)"
    if "\<exists>n. fetch w n url (Some access) (access_body claims) = a" "toRegistryUrl (urls cfg) (registry cfg) AGENT_AUTH_VALIDATE_PATH = Some url"
      "parseAgentAccessHeader (rq_header rq ''x-claw-agent-access'') = Inr access" for a url access
    using that by (cases a) (auto simp: access_confirmed_def intro!: ensures_ret)
  show ?thesis
    unfolding check_access_def using True
    by (auto intro!: ensures_bind[OF ensures_ret_eq] ensures_bind[OF ensures_call_eq[OF assms]] ensures_ret answer
        split: option.splits intro: ensures_weaken)
qed

text \<open>All an accepted request has; \<open>claims\<close> are the claims of its token.\<close>
definition authenticated :: "world \<Rightarrow> auth_config \<Rightarrow> proxy_request \<Rightarrow> AitClaims \<Rightarrow> bool" where
  "authenticated w cfg rq claims \<longleftrightarrow>
     (\<exists>token. parseClawAuthorizationHeader (rq_header rq ''authorization'') = Inr token \<and> registry_ait w cfg rq token claims) \<and>
     (\<exists>path publicKey. toPathWithQuery (urls cfg) (rq_url rq) = Some path \<and> decodeBase64url (rt cfg) (ait_x claims) = Inr publicKey \<and>
        proof_accepted w cfg rq path claims publicKey) \<and>
     (\<exists>n. store_isAgentRevoked w n (ait_sub claims) = Inr False) \<and>
     crl_answer w cfg (ait_jti claims) False \<and>
     (shouldSkipKnownAgentCheck (rq_path rq) \<or> (\<exists>n. store_isAgentKnown w n (ait_sub claims) = Inr True)) \<and>
     (needs_access (rq_path rq) \<longrightarrow> access_confirmed w cfg rq claims)"

lemma authenticatedI:
  "parseClawAuthorizationHeader (rq_header rq ''authorization'') = Inr token \<Longrightarrow> registry_ait w cfg rq token claims \<Longrightarrow>
   toPathWithQuery (urls cfg) (rq_url rq) = Some path \<Longrightarrow> decodeBase64url (rt cfg) (ait_x claims) = Inr publicKey \<Longrightarrow>
   proof_accepted w cfg rq path claims publicKey \<Longrightarrow> \<exists>n. store_isAgentRevoked w n (ait_sub claims) = Inr False \<Longrightarrow>
   crl_answer w cfg (ait_jti claims) False \<Longrightarrow>
   shouldSkipKnownAgentCheck (rq_path rq) \<or> (\<exists>n. store_isAgentKnown w n (ait_sub claims) = Inr True) \<Longrightarrow>
   needs_access (rq_path rq) \<longrightarrow> access_confirmed w cfg rq claims \<Longrightarrow> authenticated w cfg rq claims"
  by (auto simp: authenticated_def)

lemma ensures_proxyAuth:
  assumes "others_keep w cfg"
  shows "ensures (auth_inv w cfg listed) (proxyAuth w cfg rq)
    (\<lambda>r. case r of None \<Rightarrow> rq_path rq = ''/health'' | Some ctx \<Rightarrow> \<exists>claims. ctx = auth_context claims \<and> authenticated w cfg rq claims)"
proof (cases "rq_path rq = ''/health''")
  case True
  then show ?thesis by (auto simp: proxyAuth_def intro!: ensures_ret)
next
  case False
  show ?thesis
    unfolding proxyAuth_def if_not_P[OF False]
    by (rule ensures_bind[OF ensures_ret_eq], rule ensures_bind[OF ensures_verifyAitClaims[OF assms]],
        rule ensures_bind[OF ensures_ret_eq], rule ensures_bind[OF ensures_ret_eq],
        rule ensures_bind[OF ensures_check_proof[OF assms]], rule ensures_bind[OF ensures_check_trust_state[OF assms]],
        rule ensures_bind[OF ensures_check_crl[OF assms]], rule ensures_bind[OF ensures_check_known[OF assms]],
        rule ensures_bind[OF ensures_check_access[OF assms]], rule ensures_ret)
       (fastforce intro: authenticatedI)
qed


text \<open>
  When the registry is not on this machine, tokens are accepted for the registry's own origin only,
  whatever the headers of the request say.
\<close>
theorem issuer_fixed_unless_loopback:
  assumes "new_URL ul registryUrl None = Some u" and "\<not> isLoopbackHostname (u_hostname u)"
  shows "resolveExpectedIssuer ul registryUrl (Some rq) = Some (u_origin u) \<and>
    resolveExpectedIssuer ul registryUrl None = Some (u_origin u) \<and> \<not> isLoopbackRegistryUrl ul registryUrl"
  using assms by (simp add: resolveExpectedIssuer_def isLoopbackRegistryUrl_def)

section \<open>Witnesses\<close>

definition demo_ait :: AitClaims where
  "demo_ait = \<lparr>ait_iss = ''https://a.b'', ait_sub = demo_did CHR ''1'', ait_ownerDid = ''did:cdi:a.b:human:00000000000000000000000003'',
     ait_name = ''n'', ait_framework = ''f'', ait_description = None, ait_kty = ''OKP'', ait_crv = ''Ed25519'',
     ait_x = replicate 32 CHR ''B'', ait_iat = 0, ait_nbf = 0, ait_exp = 9, ait_jti = ''00000000000000000000000004''\<rparr>"

definition demo_list :: CrlClaims where
  "demo_list = \<lparr>crl_iss = ''https://a.b'', crl_jti = ''L'', crl_iat = 0, crl_exp = 9, crl_revocations =
     [\<lparr>rv_jti = ''00000000000000000000000005'', rv_agentDid = demo_did CHR ''2'', rv_reason = None, rv_revokedAt = 0\<rparr>]\<rparr>"

definition demo_header :: "string \<Rightarrow> jsval" where
  "demo_header typ = JObj [(''alg'', JStr ''EdDSA''), (''typ'', JStr typ), (''kid'', JStr ''K'')]"

text \<open>Tokens \<open>A\<close> and \<open>C\<close> of the two kinds, under one key.\<close>
definition demo_auth_jose :: jose_lib where
  "demo_auth_jose = \<lparr>token_header = (\<lambda>t. Some (demo_header (if t = ''A'' then ''AIT'' else ''CRL''))), token_payload = (\<lambda>_. None),
     token_verify = (\<lambda>_ _ _ typ _. Some (JStr typ)), token_sign = (\<lambda>_ _ _ _ _. None),
     ait_shape = (\<lambda>v. if v = JStr ''AIT'' then Some demo_ait else None),
     crl_shape = (\<lambda>v. Some demo_list)\<rparr>"

definition demo_urls :: url_lib where
  "demo_urls = \<lparr>new_URL = (\<lambda>u b. Some \<lparr>u_protocol = ''https:'', u_hostname = ''a.b'', u_port = [], u_origin = ''https://a.b'',
       u_href = u, u_pathname = ''/pair/start'', u_search = []\<rparr>),
     set_protocol = (\<lambda>_ u. u), set_hostname = (\<lambda>_ u. u), set_port = (\<lambda>_ u. u)\<rparr>"

definition demo_auth_config :: auth_config where
  "demo_auth_config = \<lparr>rt = demo_runtime,
     hc = \<lparr>sha256 = (\<lambda>_. [0]), utf8_encode = (\<lambda>_. []), noble_sign = (\<lambda>_ _. []), noble_verify = (\<lambda>_ _ _. Some True)\<rparr>,
     jose = demo_auth_jose, urls = demo_urls,
     key_shape = (\<lambda>v. Some \<lparr>rk_kid = ''K'', rk_x = replicate 32 CHR ''B'', rk_status = ''active''\<rparr>),
     registry = ''https://a.b/'', maxTimestampSkewSeconds = 300, registryKeysCacheTtlMs = 3600000,
     crl_cfg = demo_config FailClosed\<rparr>"

definition demo_world :: world where
  "demo_world = \<lparr>clock_at = (\<lambda>_. 5000),
     fetch = (\<lambda>_ url _ _. Response 200 (if url = ''/v1/crl'' then JObj [(''crl'', JStr ''C'')] else JObj [(''keys'', JArr [JNull])])),
     nonce = (\<lambda>_ _ _ _ _. Some True), store_isAgentRevoked = (\<lambda>_ _. Inr False), store_isAgentKnown = (\<lambda>_ _. Inr False),
     others = (\<lambda>_ s. s)\<rparr>"

definition demo_request :: proxy_request where
  "demo_request = \<lparr>rq_method = ''POST'', rq_path = ''/pair/start'', rq_url = ''u'',
     rq_headers = [(''authorization'', ''Claw A''), (''x-claw-timestamp'', ''5''), (''x-claw-nonce'', ''N''),
       (''x-claw-body-sha256'', ''B''), (''x-claw-proof'', replicate 64 CHR ''B'')],
     rq_body = []\<rparr>"

definition demo_state :: auth_state where
  "demo_state = \<lparr>registryKeysCache = None, crlCache = empty_cache, tick = 0\<rparr>"

lemma demo_key_step:
  "verifyAitClaims demo_world demo_auth_config ''A'' demo_request demo_state =
     (Inr demo_ait, demo_state\<lparr>registryKeysCache := Some (5000, [\<lparr>vk_kid = ''K'', vk_x = replicate 32 CHR ''B''\<rparr>]), tick := 3\<rparr>)"
  by code_simp

definition demo_signature :: ClawSignatureHeaders where
  "demo_signature = \<lparr>ch_timestamp = ''5'', ch_nonce = ''N'', ch_bodySha256 = ''B'', ch_proof = replicate 64 CHR ''B''\<rparr>"

abbreviation demo_input :: VerifyHttpRequestInput where
  "demo_input \<equiv> proof_input demo_auth_config demo_request ''/pair/start'' (replicate 32 0) 5000"

lemma demo_token_verifies:
  "\<exists>canonical. request_verifies demo_runtime (hc demo_auth_config) demo_input demo_signature 5000 300 5 canonical"
proof -
  have "parse_decimal ''5'' = 5" "list_all is_digit ''5''" by code_simp+
  moreover have "(5 :: nat) < double_overflow" unfolding double_overflow_def by simp
  ultimately have "parseUnixTimestamp ''5'' = Inr 5" by (simp add: parseUnixTimestamp_def)
  moreover have "normalizeSignatureHeaders (vi_headers demo_input) = Inr demo_signature"
    "resolveMaxTimestampSkewSeconds (vi_maxTimestampSkewSeconds demo_input) = Inr 300"
    "length (vi_publicKey demo_input) = 32" "trim (vi_method demo_input) \<noteq> []" "trim (vi_pathWithQuery demo_input) \<noteq> []"
    "ch_bodySha256 demo_signature = hashBodySha256Base64url demo_runtime (hc demo_auth_config) (ensureBodyBytes (vi_body demo_input))"
    "decodeBase64url demo_runtime (ch_proof demo_signature) = Inr (replicate 64 0)" "ch_timestamp demo_signature = ''5''"
    by code_simp+
  moreover have "noble_verify (hc demo_auth_config) a b c = Some True" for a b c by (simp add: demo_auth_config_def)
  ultimately show ?thesis by (simp add: request_verifies_def)
qed

lemma demo_proof_step:
  "fst (verifyHttpRequestWithReplayProtection demo_runtime (hc demo_auth_config) (\<lambda>a c ttl t u. (nonce demo_world n a c ttl t, u)) 5000 5000
     demo_input (ait_sub demo_ait) (JNum (300 * 1000)) ()) \<in> range Inr"
proof -
  obtain canonical where v: "request_verifies demo_runtime (hc demo_auth_config) demo_input demo_signature 5000 300 5 canonical"
    using demo_token_verifies by blast
  have now: "resolveNowMs 5000 (vi_nowMs demo_input) = Inr 5000" by (simp add: proof_input_def)
  have ok: "verifyHttpRequest demo_runtime (hc demo_auth_config) 5000 demo_input = Inr (canonical, ch_proof demo_signature)"
    unfolding verifyHttpRequest_Inr using v now by blast
  have did: "trim (ait_sub demo_ait) \<noteq> []" by code_simp
  have h: "normalizeSignatureHeaders (vi_headers demo_input) = Inr demo_signature"
    "resolveMaxTimestampSkewSeconds (vi_maxTimestampSkewSeconds demo_input) = Inr 300" using v by (auto simp: request_verifies_def)
  have ttl: "resolveNonceTtlMs (JNum (300 * 1000)) 300 = Inr 300000" by (simp add: resolveNonceTtlMs_def js_nullish_def)
  have "verifyHttpRequestWithReplayProtection demo_runtime (hc demo_auth_config) (\<lambda>a c ttl t u. (nonce demo_world n a c ttl t, u)) 5000 5000
     demo_input (ait_sub demo_ait) (JNum (300 * 1000)) () = (Inr (canonical, ch_proof demo_signature), ())"
    by (rule with_replay_accepts[OF ok h(1) did now h(2) ttl]) (simp add: demo_world_def)
  then show ?thesis by simp
qed

lemma demo_crl_step:
  "fst (check_crl demo_world demo_auth_config demo_ait
     \<lparr>registryKeysCache = Some (5000, [\<lparr>vk_kid = ''K'', vk_x = replicate 32 CHR ''B''\<rparr>]), crlCache = empty_cache, tick = n\<rparr>) = Inr ()"
  by code_simp

lemma demo_inv: "others_keep demo_world demo_auth_config" "auth_inv demo_world demo_auth_config False demo_state"
  by (simp_all add: others_keep_def auth_inv_def demo_world_def demo_state_def)

lemma demo_request_accepted: "fst (proxyAuth demo_world demo_auth_config demo_request demo_state) = Inr (Some (auth_context demo_ait))"
proof -
  let ?keys = "Some (5000, [\<lparr>vk_kid = ''K'', vk_x = replicate 32 CHR ''B''\<rparr>])"
  let ?s = "\<lambda>n. \<lparr>registryKeysCache = ?keys, crlCache = empty_cache, tick = n\<rparr>"
  have parts: "rq_path demo_request \<noteq> ''/health''" "parseClawAuthorizationHeader (rq_header demo_request ''authorization'') = Inr ''A''"
    "toPathWithQuery (urls demo_auth_config) (rq_url demo_request) = Some ''/pair/start''"
    "decodeBase64url (rt demo_auth_config) (ait_x demo_ait) = Inr (replicate 32 0)"
    "shouldSkipKnownAgentCheck (rq_path demo_request)" "\<not> needs_access (rq_path demo_request)"
    by code_simp+
  have ait: "verifyAitClaims demo_world demo_auth_config ''A'' demo_request demo_state = (Inr demo_ait, ?s 3)"
    using demo_key_step by (simp add: demo_state_def)
  have "demo_runtime = rt demo_auth_config" "maxTimestampSkewSeconds demo_auth_config = 300" "clock_at demo_world n = 5000" "others demo_world n s = s" for n s
    by (simp_all add: demo_auth_config_def demo_world_def)
  then have proof_ok: "check_proof demo_world demo_auth_config demo_request ''/pair/start'' demo_ait (replicate 32 0) (?s 3) = (Inr (), ?s 5)"
    using demo_proof_step[of 4] by (auto simp: check_proof_def bindA_def clock_def call_def ret_def image_iff)
  have trust: "check_trust_state demo_world demo_ait (?s 5) = (Inr (), ?s 6)"
    by (simp add: check_trust_state_def bindA_def call_def ret_def demo_world_def)
  obtain s' where crl: "check_crl demo_world demo_auth_config demo_ait (?s 6) = (Inr (), s')"
    using demo_crl_step[of 6] by (metis prod.collapse)
  show ?thesis
    using parts by (simp add: proxyAuth_def bindA_def ret_def ait proof_ok trust crl check_known_def check_access_def)
qed


theorem issuer_fixed_unless_loopback_witness:
  "resolveExpectedIssuer demo_urls ''https://a.b/'' (Some demo_request) = Some ''https://a.b''"
proof -
  have "new_URL demo_urls ''https://a.b/'' None = Some \<lparr>u_protocol = ''https:'', u_hostname = ''a.b'', u_port = [],
      u_origin = ''https://a.b'', u_href = ''https://a.b/'', u_pathname = ''/pair/start'', u_search = []\<rparr>"
    by (simp add: demo_urls_def)
  moreover have "\<not> isLoopbackHostname ''a.b''" by code_simp
  ultimately show ?thesis using issuer_fixed_unless_loopback by simp
qed

end
