(* ===== verification/Agent_Sessions.thy ===== *)
theory Agent_Sessions
  imports Agent_Lifecycle Proxy_Auth
begin

text \<open>
  An agent's session at the registry: \<open>routes/agent-auth.ts\<close> (refreshing the tokens, validating an access token for
  the proxy, revoking the session) and \<open>auth/agent-claw-auth.ts\<close> (the signed request a refresh needs).

  A handler reads the agent and its session, decides, and writes with a condition on what it has read. The reads
  of one request are one step, its write is another. In \<open>session_step\<close> a write may come from a request that
  holds anything: whatever it has read, and however long ago.

  Shown: when a refresh rotates and when a validation succeeds; that a refresh token rotates at most once
  however requests overlap; that a revoked session stays revoked and serves no request that began before; and
  that the tokens a refresh hands out are the ones that work from then on.
\<close>

section \<open>Signed requests (agent-claw-auth.ts)\<close>

text \<open>Configuration and libraries; \<open>ce_text\<close> is \<open>TextDecoder\<close>.\<close>
record claw_env =
  ce_runtime :: runtime
  ce_crypto :: http_crypto
  ce_jose :: jose_lib
  ce_urls :: url_lib
  ce_text :: "bytes \<Rightarrow> string"
  ce_date_parse :: "string \<Rightarrow> ms option"
  ce_environment :: RuntimeEnvironment
  ce_issuer_url :: "string option"
  ce_signing_keys :: "RegistrySigningKey list option"

text \<open>The clock readings of a refresh in their order, and its random values.\<close>
record refresh_moment =
  rm_claw :: ms
  rm_jose :: ms
  rm_http :: ms
  rm_now :: ms
  rm_issuedAt :: ms
  rm_sessionId :: string
  rm_accessBytes :: bytes
  rm_refreshBytes :: bytes
  rm_refreshedAt :: string

definition resolvePublicUrl :: "url_lib \<Rightarrow> proxy_request \<Rightarrow> string \<Rightarrow> bool \<Rightarrow> string option" where
  "resolvePublicUrl ul rq configuredUrl preserveConfiguredPort =
     (case new_URL ul configuredUrl None of
        None \<Rightarrow> None
      | Some configured \<Rightarrow>
          if \<not> isLoopbackHostname (u_hostname configured) then Some configuredUrl
          else (case resolveRequestOrigin ul rq of
                  None \<Rightarrow> Some (u_href configured)
                | Some requestOrigin \<Rightarrow>
                    if requestOrigin = [] then Some (u_href configured)
                    else (case new_URL ul requestOrigin None of
                            None \<Rightarrow> None
                          | Some requestUrl \<Rightarrow>
                              if isLoopbackHostname (u_hostname requestUrl) then Some configuredUrl
                              else let u = set_hostname ul (u_hostname requestUrl) (set_protocol ul (u_protocol requestUrl) configured);
                                       u = (if preserveConfiguredPort then u else set_port ul (u_port requestUrl) u)
                                   in if u_pathname u = ''/'' \<and> length (u_search u) = 0
                                      then Some (if endsWith configuredUrl ''/'' then u_origin u @ ''/'' else u_origin u)
                                      else Some (u_href u))))"

definition resolvePublicRegistryIssuer :: "claw_env \<Rightarrow> proxy_request \<Rightarrow> string option" where
  "resolvePublicRegistryIssuer ce rq =
     resolvePublicUrl (ce_urls ce) rq (resolveRegistryIssuer (ce_environment ce) (ce_issuer_url ce)) False"

definition claw_unauthorized :: "string \<Rightarrow> route_error" where
  "claw_unauthorized msg = RouteError (AppError ''AGENT_AUTH_REFRESH_UNAUTHORIZED'' msg 401)"

definition claw_format_error :: route_error where
  "claw_format_error = claw_unauthorized (''Authorization must be in the format '' @ [CHR 0x27] @ ''Claw <ait>'' @ [CHR 0x27])"

definition claw_token :: "string option \<Rightarrow> (route_error, string) result" where
  "claw_token authorization =
     (case authorization of
        None \<Rightarrow> Inl (claw_unauthorized ''Authorization header is required'')
      | Some v \<Rightarrow>
          if length (trim v) = 0 then Inl (claw_unauthorized ''Authorization header is required'')
          else (case claw_scheme (trim v) of
                  None \<Rightarrow> Inl claw_format_error
                | Some token \<Rightarrow> if length (trim token) = 0 then Inl claw_format_error else Inr (trim token)))"

text \<open>The same test of the digits as in \<open>Http_Signature\<close>, with this file's error.\<close>
definition claw_timestamp :: "string option \<Rightarrow> (route_error, real) result" where
  "claw_timestamp header =
     (case header of
        None \<Rightarrow> Inl (claw_unauthorized ''X-Claw-Timestamp header is required'')
      | Some h \<Rightarrow>
          if h = [] then Inl (claw_unauthorized ''X-Claw-Timestamp header is required'')
          else catchE (parseUnixTimestamp h) (claw_unauthorized ''X-Claw-Timestamp must be a unix seconds integer''))"

definition buildRegistryVerificationKeys :: "RegistrySigningKey list option \<Rightarrow> VerificationKey list" where
  "buildRegistryVerificationKeys signingKeys = toVerificationKeys (case signingKeys of None \<Rightarrow> [] | Some keys \<Rightarrow> keys)"

definition claw_proof :: "claw_env \<Rightarrow> ms \<Rightarrow> proxy_request \<Rightarrow> bytes \<Rightarrow> (route_error, unit) result" where
  "claw_proof ce now rq cnfPublicKey =
     (case toPathWithQuery (ce_urls ce) (rq_url rq) of
        None \<Rightarrow> Inl (claw_unauthorized ''PoP verification failed'')
      | Some pathWithQuery \<Rightarrow>
          bindE (catchE (verifyHttpRequest (ce_runtime ce) (ce_crypto ce) now
                   \<lparr>vi_method = rq_method rq, vi_pathWithQuery = pathWithQuery, vi_headers = map (\<lambda>(k, v). (k, Some v)) (rq_headers rq),
                    vi_body = Some (rq_body rq), vi_publicKey = cnfPublicKey, vi_nowMs = JUndefined, vi_maxTimestampSkewSeconds = JUndefined\<rparr>)
                 (claw_unauthorized ''PoP verification failed'')) (\<lambda>_. Inr ()))"

definition verifyAgentClawRequest :: "claw_env \<Rightarrow> refresh_moment \<Rightarrow> proxy_request \<Rightarrow> (route_error, AitClaims) result" where
  "verifyAgentClawRequest ce rm rq =
     bindE (claw_token (rq_header rq ''authorization'')) (\<lambda>token.
     bindE (of_option RouteForeign (resolvePublicRegistryIssuer ce rq)) (\<lambda>expectedIssuer.
     throw_if (length (buildRegistryVerificationKeys (ce_signing_keys ce)) = 0) (claw_unauthorized ''Registry signing keys are unavailable'')
     (bindE (catchE (verifyAIT (ce_runtime ce) (ce_jose ce) (rm_jose rm) token (buildRegistryVerificationKeys (ce_signing_keys ce)) (Some expectedIssuer))
              (claw_unauthorized ''AIT verification failed'')) (\<lambda>claims.
     bindE (claw_timestamp (rq_header rq ''x-claw-timestamp'')) (\<lambda>timestampSeconds.
     throw_if (\<bar>real_of_int \<lfloor>rm_claw rm / 1000\<rfloor> - timestampSeconds\<bar> > DEFAULT_MAX_TIMESTAMP_SKEW_SECONDS)
       (claw_unauthorized ''X-Claw-Timestamp is outside the allowed skew window'')
     (bindE (catchE (decodeBase64url (ce_runtime ce) (ait_x claims)) (claw_unauthorized ''AIT public key is invalid'')) (\<lambda>cnfPublicKey.
     bindE (claw_proof ce (rm_http rm) rq cnfPublicKey) (\<lambda>_. Inr claims))))))))"

section \<open>Refreshing\<close>

text \<open>What a refresh holds when it comes to its write.\<close>
record refreshing =
  rf_agent :: agent_row
  rf_session :: session_row
  rf_hash :: string
  rf_auth :: AgentAuthIssue
  rf_refreshedAt :: string

text \<open>
  What a refresh does after its reads: refuse; record a wrong token and refuse; revoke the session because its
  refresh token has expired and refuse; rotate.
\<close>
datatype refresh_decision =
  RefreshRefused route_error
| RefreshMismatch agent_row session_row
| RefreshExpired agent_row session_row
| RefreshRotate refreshing

definition refresh_json_error :: "RuntimeEnvironment \<Rightarrow> app_error" where
  "refresh_json_error env = AppError ''AGENT_AUTH_REFRESH_INVALID'' (hidden env ''Request body must be valid JSON'') 400"

definition refresh_invalid :: app_error where
  "refresh_invalid = AppError ''AGENT_AUTH_REFRESH_INVALID'' ''Agent auth refresh token is invalid'' 401"

definition refresh_revoked :: app_error where
  "refresh_revoked = AppError ''AGENT_AUTH_REFRESH_REVOKED'' ''Agent auth refresh token is revoked'' 401"

definition refresh_expired :: app_error where
  "refresh_expired = AppError ''AGENT_AUTH_REFRESH_EXPIRED'' ''Agent auth refresh token is expired'' 401"

definition agentAuthRefreshConflictError :: app_error where
  "agentAuthRefreshConflictError = AppError ''AGENT_AUTH_REFRESH_CONFLICT'' ''Agent auth refresh state changed; retry request'' 409"

definition refresh_payload :: "claw_env \<Rightarrow> bytes \<Rightarrow> (route_error, jsval) result" where
  "refresh_payload ce bodyBytes =
     (if length (trim (ce_text ce bodyBytes)) = 0 then Inr (JObj [])
      else of_option (RouteError (refresh_json_error (ce_environment ce))) (utf8_json (ce_runtime ce) bodyBytes))"

definition refresh_matches :: "http_crypto \<Rightarrow> session_row \<Rightarrow> string \<Rightarrow> bool" where
  "refresh_matches hcrypto existingSession refreshToken \<longleftrightarrow>
     sr_refresh_key_prefix existingSession = deriveRefreshTokenLookupPrefix refreshToken \<and>
     constantTimeEqual (sr_refresh_key_hash existingSession) (hashAgentToken hcrypto refreshToken)"

definition refresh_decide :: "claw_env \<Rightarrow> refresh_moment \<Rightarrow> registry_db \<Rightarrow> string \<Rightarrow> AitClaims \<Rightarrow> refresh_decision" where
  "refresh_decide ce rm db refreshToken claims =
     (case findOwnedAgentByDid db (ait_sub claims) of
        None \<Rightarrow> RefreshRefused (RouteError refresh_invalid)
      | Some existingAgent \<Rightarrow>
          if ar_status existingAgent \<noteq> ''active'' then RefreshRefused (RouteError refresh_invalid)
          else if ar_current_jti existingAgent \<noteq> Some (ait_jti claims) then RefreshRefused (RouteError refresh_invalid)
          else (case findAgentAuthSessionByAgentId db (ar_id existingAgent) of
                  None \<Rightarrow> RefreshRefused (RouteError refresh_invalid)
                | Some existingSession \<Rightarrow>
                    if sr_status existingSession \<noteq> ''active'' then RefreshRefused (RouteError refresh_revoked)
                    else if \<not> refresh_matches (ce_crypto ce) existingSession refreshToken then RefreshMismatch existingAgent existingSession
                    else if isIsoExpired (ce_date_parse ce) (sr_refresh_expires_at existingSession) (rm_now rm)
                    then RefreshExpired existingAgent existingSession
                    else RefreshRotate
                      \<lparr>rf_agent = existingAgent, rf_session = existingSession, rf_hash = hashAgentToken (ce_crypto ce) refreshToken,
                       rf_auth = issueAgentAuth (ce_runtime ce) (ce_crypto ce) (rm_now rm) (rm_issuedAt rm) (rm_sessionId rm)
                                   (rm_accessBytes rm) (rm_refreshBytes rm),
                       rf_refreshedAt = rm_refreshedAt rm\<rparr>))"

definition refresh_check :: "claw_env \<Rightarrow> refresh_moment \<Rightarrow> registry_db \<Rightarrow> proxy_request \<Rightarrow> refresh_decision" where
  "refresh_check ce rm db rq =
     (case refresh_payload ce (rq_body rq) of Inl e \<Rightarrow> RefreshRefused e | Inr payload \<Rightarrow>
      case parseAgentAuthRefreshPayload (ce_environment ce) payload of Inl e \<Rightarrow> RefreshRefused (RouteError e) | Inr refreshToken \<Rightarrow>
      case verifyAgentClawRequest ce rm rq of Inl e \<Rightarrow> RefreshRefused e | Inr claims \<Rightarrow>
        refresh_decide ce rm db refreshToken claims)"

definition record_mismatch :: "agent_row \<Rightarrow> session_row \<Rightarrow> registry_db \<Rightarrow> registry_db" where
  "record_mismatch existingAgent existingSession db =
     insertAgentAuthEvent \<lparr>ev_agent_id = ar_id existingAgent, ev_session_id = sr_id existingSession, ev_type = refresh_rejected,
       ev_reason = Some ''invalid_refresh_token''\<rparr> db"

text \<open>The update that follows an expired refresh token names the session only.\<close>
definition revoke_expired :: "agent_row \<Rightarrow> session_row \<Rightarrow> string \<Rightarrow> registry_db \<Rightarrow> registry_db" where
  "revoke_expired existingAgent existingSession revokedAt db =
     insertAgentAuthEvent \<lparr>ev_agent_id = ar_id existingAgent, ev_session_id = sr_id existingSession, ev_type = Registry_Db.revoked,
       ev_reason = Some ''refresh_token_expired''\<rparr>
     (db\<lparr>db_sessions := snd (sql_update (\<lambda>r. sr_id r = sr_id existingSession)
          (\<lambda>r. r\<lparr>sr_status := ''revoked'', sr_revoked_at := Some revokedAt, sr_updated_at := revokedAt\<rparr>) (db_sessions db))\<rparr>)"

definition rotated_row :: "refreshing \<Rightarrow> session_row \<Rightarrow> session_row" where
  "rotated_row rf r = r
     \<lparr>sr_refresh_key_hash := is_refreshTokenHash (rf_auth rf), sr_refresh_key_prefix := is_refreshTokenPrefix (rf_auth rf),
      sr_refresh_issued_at := is_issuedAt (rf_auth rf), sr_refresh_expires_at := is_refreshExpiresAt (rf_auth rf),
      sr_refresh_last_used_at := Some (rf_refreshedAt rf), sr_access_key_hash := is_accessTokenHash (rf_auth rf),
      sr_access_key_prefix := is_accessTokenPrefix (rf_auth rf), sr_access_issued_at := is_issuedAt (rf_auth rf),
      sr_access_expires_at := is_accessExpiresAt (rf_auth rf), sr_access_last_used_at := None, sr_status := ''active'',
      sr_revoked_at := None, sr_updated_at := rf_refreshedAt rf\<rparr>"

definition rotates :: "refreshing \<Rightarrow> session_row \<Rightarrow> bool" where
  "rotates rf r \<longleftrightarrow> sr_id r = sr_id (rf_session rf) \<and> sr_status r = ''active'' \<and> sr_refresh_key_hash r = rf_hash rf"

definition applyRefreshMutation :: "refreshing \<Rightarrow> registry_db \<Rightarrow> (app_error, registry_db) result" where
  "applyRefreshMutation rf db =
     (case sql_update (rotates rf) (rotated_row rf) (db_sessions db) of
        (updatedRows, rows) \<Rightarrow>
          if updatedRows = 0 then Inl agentAuthRefreshConflictError
          else Inr (insertAgentAuthEvent \<lparr>ev_agent_id = ar_id (rf_agent rf), ev_session_id = sr_id (rf_session rf), ev_type = refreshed,
                      ev_reason = None\<rparr> (db\<lparr>db_sessions := rows\<rparr>)))"

section \<open>Validating and revoking\<close>

record validating =
  vd_session :: session_row
  vd_hash :: string

definition validate_invalid :: app_error where
  "validate_invalid = AppError ''AGENT_AUTH_VALIDATE_INVALID'' ''Validation payload is invalid'' 400"

definition validate_unauthorized :: app_error where
  "validate_unauthorized = AppError ''AGENT_AUTH_VALIDATE_UNAUTHORIZED'' ''Agent access token is invalid'' 401"

definition validate_expired :: app_error where
  "validate_expired = AppError ''AGENT_AUTH_VALIDATE_EXPIRED'' ''Agent access token is expired'' 401"

definition trimmed_field :: "jsval \<Rightarrow> string \<Rightarrow> string" where
  "trimmed_field payload name = (case js_get payload name of JStr s \<Rightarrow> trim s | _ \<Rightarrow> [])"

text \<open>The agent's DID and the id of its token; \<open>None\<close> stands for a body that is not JSON.\<close>
definition parseAgentAuthValidatePayload :: "jsval option \<Rightarrow> (app_error, string \<times> string) result" where
  "parseAgentAuthValidatePayload payload =
     (case payload of
        Some (JObj ps) \<Rightarrow>
          let agentDid = trimmed_field (JObj ps) ''agentDid''; aitJti = trimmed_field (JObj ps) ''aitJti'' in
          if length agentDid = 0 \<or> length aitJti = 0 then Inl validate_invalid else Inr (agentDid, aitJti)
      | _ \<Rightarrow> Inl validate_invalid)"

definition parseAgentAccessHeaderToken :: "string option \<Rightarrow> (app_error, string) result" where
  "parseAgentAccessHeaderToken token = catchE (parseAccessToken token) validate_unauthorized"

definition access_matches :: "http_crypto \<Rightarrow> session_row \<Rightarrow> string \<Rightarrow> bool" where
  "access_matches hcrypto existingSession accessToken \<longleftrightarrow>
     sr_access_key_prefix existingSession = deriveAccessTokenLookupPrefix accessToken \<and>
     constantTimeEqual (sr_access_key_hash existingSession) (hashAgentToken hcrypto accessToken)"

definition validate_check ::
  "http_crypto \<Rightarrow> (string \<Rightarrow> ms option) \<Rightarrow> ms \<Rightarrow> registry_db \<Rightarrow> jsval option \<Rightarrow> string option \<Rightarrow> (app_error, validating) result" where
  "validate_check hcrypto date_parse nowMillis db payload header =
     bindE (parseAgentAuthValidatePayload payload) (\<lambda>(agentDid, aitJti).
     bindE (parseAgentAccessHeaderToken header) (\<lambda>accessToken.
     case findOwnedAgentByDid db agentDid of
       None \<Rightarrow> Inl validate_unauthorized
     | Some existingAgent \<Rightarrow>
         if ar_status existingAgent \<noteq> ''active'' \<or> ar_current_jti existingAgent \<noteq> Some aitJti then Inl validate_unauthorized
         else (case findAgentAuthSessionByAgentId db (ar_id existingAgent) of
                 None \<Rightarrow> Inl validate_unauthorized
               | Some existingSession \<Rightarrow>
                   if sr_status existingSession \<noteq> ''active'' then Inl validate_unauthorized
                   else if isIsoExpired date_parse (sr_access_expires_at existingSession) nowMillis then Inl validate_expired
                   else if \<not> access_matches hcrypto existingSession accessToken then Inl validate_unauthorized
                   else Inr \<lparr>vd_session = existingSession, vd_hash = hashAgentToken hcrypto accessToken\<rparr>)))"

definition touches :: "validating \<Rightarrow> session_row \<Rightarrow> bool" where
  "touches vd r \<longleftrightarrow> sr_id r = sr_id (vd_session vd) \<and> sr_status r = ''active'' \<and> sr_access_key_hash r = vd_hash vd"

definition validate_touch :: "validating \<Rightarrow> string \<Rightarrow> registry_db \<Rightarrow> (app_error, registry_db) result" where
  "validate_touch vd accessLastUsedAt db =
     (case sql_update (touches vd) (\<lambda>r. r\<lparr>sr_access_last_used_at := Some accessLastUsedAt, sr_updated_at := accessLastUsedAt\<rparr>) (db_sessions db) of
        (updatedRows, rows) \<Rightarrow> if updatedRows = 0 then Inl validate_unauthorized else Inr (db\<lparr>db_sessions := rows\<rparr>))"

text \<open>The whole request, when nothing comes between its reads and its write.\<close>
definition validate_route ::
  "http_crypto \<Rightarrow> (string \<Rightarrow> ms option) \<Rightarrow> ms \<Rightarrow> string \<Rightarrow> jsval option \<Rightarrow> string option \<Rightarrow> registry_db \<Rightarrow> (app_error, registry_db) result" where
  "validate_route hcrypto date_parse nowMillis lastUsedAt payload header db =
     bindE (validate_check hcrypto date_parse nowMillis db payload header) (\<lambda>vd. validate_touch vd lastUsedAt db)"

definition invalidRevokePath :: "RuntimeEnvironment \<Rightarrow> app_error" where
  "invalidRevokePath env = AppError ''AGENT_REVOKE_INVALID_PATH'' (hidden env ''Agent revoke path is invalid'') 400"

text \<open>The \<open>agentId\<close> of this route, and of revocation and reissue in \<open>Agent_Lifecycle\<close>, is the path parameter read so.\<close>
definition parseAgentRevokePath :: "ulid_lib \<Rightarrow> RuntimeEnvironment \<Rightarrow> string \<Rightarrow> (app_error, string) result" where
  "parseAgentRevokePath ul env pathId =
     throw_if (length (trim pathId) = 0) (invalidRevokePath env)
       (bindE (catchE (parseUlid ul (trim pathId)) (invalidRevokePath env)) (\<lambda>(value, _). Inr value))"

definition authRevoke_read :: "registry_db \<Rightarrow> string \<Rightarrow> string \<Rightarrow> (route_error, agent_row \<times> session_row) result" where
  "authRevoke_read db ownerId agentId =
     (case findOwnedAgent db ownerId agentId of
        None \<Rightarrow> Inl (RouteError agentNotFoundError)
      | Some existingAgent \<Rightarrow>
          (case findAgentAuthSessionByAgentId db (ar_id existingAgent) of
             None \<Rightarrow> Inl NothingToDo
           | Some existingSession \<Rightarrow>
               if sr_status existingSession = ''revoked'' then Inl NothingToDo else Inr (existingAgent, existingSession)))"

definition applyAuthRevokeMutation :: "agent_row \<Rightarrow> session_row \<Rightarrow> string \<Rightarrow> registry_db \<Rightarrow> registry_db" where
  "applyAuthRevokeMutation existingAgent existingSession revokedAt db =
     insertAgentAuthEvent \<lparr>ev_agent_id = ar_id existingAgent, ev_session_id = sr_id existingSession, ev_type = Registry_Db.revoked,
       ev_reason = Some ''owner_auth_revoke''\<rparr> (revoke_session_row (sr_id existingSession) revokedAt db)"

section \<open>Overlapping requests\<close>

text \<open>
  \<open>as_rotated\<close>: the session and the hash of every refresh token that was traded for new ones. \<open>as_minted\<close>: the
  same of every refresh token handed out. The code has neither.
\<close>
record auth_sys =
  as_db :: registry_db
  as_rotated :: "(string \<times> string) list"
  as_minted :: "(string \<times> string) list"

text \<open>
  Every write to the sessions, by a request that may have read anything before. \<open>other\<close> stands for the routes that
  write to other tables.
\<close>
inductive session_step :: "auth_sys \<Rightarrow> auth_sys \<Rightarrow> bool" where
  rotate: "applyRefreshMutation rf (as_db s) = Inr db' \<Longrightarrow>
     session_step s (s\<lparr>as_db := db', as_rotated := as_rotated s @ [(sr_id (rf_session rf), rf_hash rf)],
       as_minted := as_minted s @ [(sr_id (rf_session rf), is_refreshTokenHash (rf_auth rf))]\<rparr>)"
| mismatch: "session_step s (s\<lparr>as_db := record_mismatch a r (as_db s)\<rparr>)"
| expire: "session_step s (s\<lparr>as_db := revoke_expired a r t (as_db s)\<rparr>)"
| touch: "validate_touch vd t (as_db s) = Inr db' \<Longrightarrow> session_step s (s\<lparr>as_db := db'\<rparr>)"
| auth_revoke: "session_step s (s\<lparr>as_db := applyAuthRevokeMutation a r t (as_db s)\<rparr>)"
| agent_revoke: "session_step s (s\<lparr>as_db := applyRevokeMutation rk (as_db s)\<rparr>)"
| register: "applyRegistration_tx env fails rg (as_db s) = Inr db' \<Longrightarrow> sr_id (rg_session rg) \<notin> sr_id ` set (db_sessions (as_db s)) \<Longrightarrow>
     session_step s (s\<lparr>as_db := db', as_minted := as_minted s @ [(sr_id (rg_session rg), sr_refresh_key_hash (rg_session rg))]\<rparr>)"
| other: "db_sessions db' = db_sessions (as_db s) \<Longrightarrow> session_step s (s\<lparr>as_db := db'\<rparr>)"

inductive session_reach :: "auth_sys \<Rightarrow> auth_sys \<Rightarrow> bool" for s0 where
  here: "session_reach s0 s0"
| step: "session_reach s0 s \<Longrightarrow> session_step s s' \<Longrightarrow> session_reach s0 s'"

definition as_start :: "auth_sys \<Rightarrow> bool" where
  "as_start s \<longleftrightarrow> distinct (map sr_id (db_sessions (as_db s))) \<and> as_rotated s = [] \<and>
     as_minted s = map (\<lambda>r. (sr_id r, sr_refresh_key_hash r)) (db_sessions (as_db s))"

section \<open>What the writes do to the sessions\<close>

lemma applyRefreshMutation_Inr:
  assumes "applyRefreshMutation rf db = Inr db'"
  shows "db_sessions db' = map (\<lambda>r. if rotates rf r then rotated_row rf r else r) (db_sessions db)"
    "\<exists>r \<in> set (db_sessions db). rotates rf r" "db_agents db' = db_agents db"
  using assms by (auto simp: applyRefreshMutation_def sql_update_def filter_empty_conv split: if_splits)

lemma applyRefreshMutation_Inl:
  "\<forall>r \<in> set (db_sessions db). \<not> rotates rf r \<Longrightarrow> applyRefreshMutation rf db = Inl agentAuthRefreshConflictError"
  by (simp add: applyRefreshMutation_def sql_update_def filter_empty_conv)

lemma validate_touch_Inr:
  assumes "validate_touch vd t db = Inr db'"
  shows "db_sessions db' = map (\<lambda>r. if touches vd r then r\<lparr>sr_access_last_used_at := Some t, sr_updated_at := t\<rparr> else r) (db_sessions db)"
    "\<exists>r \<in> set (db_sessions db). touches vd r" "db_agents db' = db_agents db"
  using assms by (auto simp: validate_touch_def sql_update_def filter_empty_conv split: if_splits)

lemma validate_touch_Inl: "\<forall>r \<in> set (db_sessions db). \<not> touches vd r \<Longrightarrow> validate_touch vd t db = Inl validate_unauthorized"
  by (simp add: validate_touch_def sql_update_def filter_empty_conv)

text \<open>
  Every write but a new session is a map over the rows that keeps ids and never makes a revoked session active;
  all but a rotation keep the refresh token.
\<close>
definition session_change :: "registry_db \<Rightarrow> registry_db \<Rightarrow> bool" where
  "session_change db db' \<longleftrightarrow> (\<exists>f. db_sessions db' = map f (db_sessions db) \<and>
     (\<forall>r. sr_id (f r) = sr_id r \<and> (sr_status r = ''revoked'' \<longrightarrow> sr_status (f r) = ''revoked'') \<and> sr_refresh_key_hash (f r) = sr_refresh_key_hash r))"

lemma session_change_same: "db_sessions db' = db_sessions db \<Longrightarrow> session_change db db'"
  unfolding session_change_def by (rule exI[of _ "\<lambda>r. r"]) simp

lemma session_change_update:
  assumes "db_sessions db' = snd (sql_update p f (db_sessions db))"
    and "\<And>r. sr_id (f r) = sr_id r" "\<And>r. p r \<Longrightarrow> sr_status r = ''revoked'' \<Longrightarrow> sr_status (f r) = ''revoked''"
    "\<And>r. sr_refresh_key_hash (f r) = sr_refresh_key_hash r"
  shows "session_change db db'"
  unfolding session_change_def using assms by (intro exI[of _ "\<lambda>r. if p r then f r else r"]) (auto simp: sql_update_snd)

lemma session_change_mismatch: "session_change db (record_mismatch a r db)"
  by (rule session_change_same) (simp add: record_mismatch_def)

lemma session_change_revoke_row: "session_change db (revoke_session_row sid t db)"
  by (rule session_change_update[where p = "\<lambda>r. sr_id r = sid \<and> sr_status r = ''active''"
        and f = "\<lambda>r. r\<lparr>sr_status := ''revoked'', sr_revoked_at := Some t, sr_updated_at := t\<rparr>"]) (simp_all add: revoke_session_row_def)

lemma session_change_expire: "session_change db (revoke_expired a r t db)"
  by (rule session_change_update[where p = "\<lambda>x. sr_id x = sr_id r"
        and f = "\<lambda>r. r\<lparr>sr_status := ''revoked'', sr_revoked_at := Some t, sr_updated_at := t\<rparr>"]) (simp_all add: revoke_expired_def)

lemma session_change_touch: "validate_touch vd t db = Inr db' \<Longrightarrow> session_change db db'"
  by (rule session_change_update[OF validate_touch_Inr(1)[folded sql_update_snd]]) simp_all

lemma session_change_auth_revoke: "session_change db (applyAuthRevokeMutation a r t db)"
  using session_change_revoke_row[of db "sr_id r" t] by (simp add: applyAuthRevokeMutation_def session_change_def)

lemma session_change_agent_revoke: "session_change db (applyRevokeMutation rk db)"
  using session_change_revoke_row[of db _ "rk_revokedAt rk"]
  by (auto simp: applyRevokeMutation_def Let_def session_change_def revoke_agent_row_def revoke_session_row_def split: option.splits intro!: exI[of _ "\<lambda>r. r"])

lemmas session_changes = session_change_mismatch session_change_expire session_change_touch session_change_auth_revoke
  session_change_agent_revoke session_change_same

lemma applyRegistration_tx_sessions:
  "applyRegistration_tx env fails rg db = Inr db' \<Longrightarrow> db_sessions db' = db_sessions db @ [rg_session rg]"
  by (drule applyRegistration_tx_Inr) (auto dest!: consume_challenge_Inr(1) simp: insert_session_def insert_agent_def)

text \<open>A step rotates, inserts a session, or only changes rows in the ways above.\<close>
lemma session_step_kinds:
  assumes "session_step s s'"
  obtains (rotate) rf where "applyRefreshMutation rf (as_db s) = Inr (as_db s')" "as_rotated s' = as_rotated s @ [(sr_id (rf_session rf), rf_hash rf)]"
      "as_minted s' = as_minted s @ [(sr_id (rf_session rf), is_refreshTokenHash (rf_auth rf))]"
  | (register) r where "db_sessions (as_db s') = db_sessions (as_db s) @ [r]" "sr_id r \<notin> sr_id ` set (db_sessions (as_db s))"
      "as_rotated s' = as_rotated s" "as_minted s' = as_minted s @ [(sr_id r, sr_refresh_key_hash r)]"
  | (change) "session_change (as_db s) (as_db s')" "as_rotated s' = as_rotated s" "as_minted s' = as_minted s"
  using assms
proof (cases rule: session_step.cases)
  case (rotate rf db') then show ?thesis using that(1)[of rf] by simp
next
  case (register env fails rg db')
  then show ?thesis using that(2)[of "rg_session rg"] applyRegistration_tx_sessions[OF register(2)] by simp
qed (rule that(3); simp add: session_changes)+

section \<open>A refresh token rotates at most once\<close>

lemma distinct_iff_count_list: "distinct xs \<longleftrightarrow> (\<forall>x. count_list xs x \<le> 1)"
proof (induction xs)
  case (Cons y ys)
  have "(\<forall>x. count_list (y # ys) x \<le> 1) \<longleftrightarrow> count_list ys y = 0 \<and> (\<forall>x. count_list ys x \<le> 1)"
  proof (intro iffI conjI allI)
    assume a: "\<forall>x. count_list (y # ys) x \<le> 1"
    show "count_list ys y = 0" using spec[OF a, of y] by simp
    show "count_list ys x \<le> 1" for x using spec[OF a, of x] by (cases "y = x") simp_all
  next
    fix x assume "count_list ys y = 0 \<and> (\<forall>x. count_list ys x \<le> 1)"
    then show "count_list (y # ys) x \<le> 1" by (cases "y = x") simp_all
  qed
  then show ?case using Cons by (simp add: count_list_0_iff)
qed simp

definition held :: "registry_db \<Rightarrow> (string \<times> string) list" where
  "held db = map (\<lambda>r. (sr_id r, sr_refresh_key_hash r)) (db_sessions db)"

definition rotation_inv :: "auth_sys \<Rightarrow> bool" where
  "rotation_inv s \<longleftrightarrow> distinct (map sr_id (db_sessions (as_db s))) \<and>
     (\<forall>k. count_list (as_rotated s) k + count_list (held (as_db s)) k \<le> count_list (as_minted s) k)"

lemma rotation_inv_count: "rotation_inv s \<Longrightarrow> count_list (as_rotated s) k + count_list (held (as_db s)) k \<le> count_list (as_minted s) k"
  by (simp add: rotation_inv_def del: split_paired_All)

lemma session_change_held:
  assumes "session_change db db'"
  shows "held db' = held db" "map sr_id (db_sessions db') = map sr_id (db_sessions db)"
  using assms by (auto simp: session_change_def held_def)

text \<open>With distinct ids exactly one row is rotated: one hash goes and one comes.\<close>
lemma held_rotate:
  assumes "applyRefreshMutation rf db = Inr db'" "distinct (map sr_id (db_sessions db))"
  shows "count_list (held db') k + (if k = (sr_id (rf_session rf), rf_hash rf) then 1 else 0) =
    count_list (held db) k + (if k = (sr_id (rf_session rf), is_refreshTokenHash (rf_auth rf)) then 1 else 0)"
    "map sr_id (db_sessions db') = map sr_id (db_sessions db)"
proof -
  note t = applyRefreshMutation_Inr[OF assms(1)]
  obtain r where r: "r \<in> set (db_sessions db)" "rotates rf r" using t(2) by blast
  obtain before after where split: "db_sessions db = before @ r # after" using r(1) split_list by metis
  have "\<not> rotates rf x" if "x \<in> set before \<union> set after" for x
    using that assms(2) r(2) unfolding split by (auto simp: rotates_def image_iff)
  then have "map (\<lambda>r. if rotates rf r then rotated_row rf r else r) before = before"
    "map (\<lambda>r. if rotates rf r then rotated_row rf r else r) after = after"
    by (auto intro: map_idI)
  then have "db_sessions db' = before @ rotated_row rf r # after" unfolding t(1) split using r(2) by simp
  then show "count_list (held db') k + (if k = (sr_id (rf_session rf), rf_hash rf) then 1 else 0) =
      count_list (held db) k + (if k = (sr_id (rf_session rf), is_refreshTokenHash (rf_auth rf)) then 1 else 0)"
    "map sr_id (db_sessions db') = map sr_id (db_sessions db)"
    using r(2) by (auto simp: held_def split rotated_row_def rotates_def)
qed

lemma rotation_inv_step:
  assumes "session_step s s'" "rotation_inv s"
  shows "rotation_inv s'"
  using assms(1)
proof (cases rule: session_step_kinds)
  case (rotate rf)
  have d: "distinct (map sr_id (db_sessions (as_db s)))" using assms(2) by (simp add: rotation_inv_def)
  note h = held_rotate[OF rotate(1) d]
  have "count_list (as_rotated s') k + count_list (held (as_db s')) k \<le> count_list (as_minted s') k" for k
    using rotation_inv_count[OF assms(2), of k] h(1)[of k] unfolding rotate(2,3) by (auto split: if_splits)
  then show ?thesis using h(2) d by (simp add: rotation_inv_def)
next
  case (register r)
  have "count_list (as_rotated s') k + count_list (held (as_db s')) k \<le> count_list (as_minted s') k" for k
    using rotation_inv_count[OF assms(2), of k] by (simp add: held_def register)
  then show ?thesis using assms(2) register(1,2) by (simp add: rotation_inv_def)
next
  case change
  then show ?thesis using assms(2) session_change_held[OF change(1)] by (simp add: rotation_inv_def)
qed

lemma rotation_inv_reach: "session_reach s0 s \<Longrightarrow> rotation_inv s0 \<Longrightarrow> rotation_inv s"
  by (induction rule: session_reach.induct) (auto intro: rotation_inv_step)

text \<open>
  (C3) However refreshes, validations and revocations overlap, a refresh token is traded for new tokens at most as
  often as it was handed out: when no two refresh tokens have the same hash, at most once.
\<close>
theorem refresh_token_rotates_once:
  assumes "as_start s0" and "session_reach s0 s"
  shows "count_list (as_rotated s) k \<le> count_list (as_minted s) k \<and> (distinct (as_minted s) \<longrightarrow> distinct (as_rotated s))"
proof -
  have "rotation_inv s0" using assms(1) by (simp add: as_start_def rotation_inv_def held_def)
  then have le: "count_list (as_rotated s) j \<le> count_list (as_minted s) j" for j
    using rotation_inv_count[OF rotation_inv_reach[OF assms(2)], of j] by simp
  moreover have "distinct (as_rotated s)" if "distinct (as_minted s)"
    using le that unfolding distinct_iff_count_list by (meson le_trans)
  ultimately show ?thesis by blast
qed

section \<open>A revoked session stays revoked\<close>

definition dead :: "registry_db \<Rightarrow> string \<Rightarrow> bool" where
  "dead db sid \<longleftrightarrow> (\<exists>r \<in> set (db_sessions db). sr_id r = sid) \<and> (\<forall>r \<in> set (db_sessions db). sr_id r = sid \<longrightarrow> sr_status r = ''revoked'')"

lemma dead_change: "session_change db db' \<Longrightarrow> dead db sid \<Longrightarrow> dead db' sid"
  by (auto simp: session_change_def dead_def)

lemma dead_no_write:
  assumes "dead db sid"
  shows "sr_id (rf_session rf) = sid \<Longrightarrow> applyRefreshMutation rf db = Inl agentAuthRefreshConflictError"
    "sr_id (vd_session vd) = sid \<Longrightarrow> validate_touch vd t db = Inl validate_unauthorized"
  using assms by (auto simp: dead_def rotates_def touches_def intro!: applyRefreshMutation_Inl validate_touch_Inl)

lemma dead_step:
  assumes "session_step s s'" "dead (as_db s) sid"
  shows "dead (as_db s') sid"
  using assms(1)
proof (cases rule: session_step_kinds)
  case (rotate rf)
  have "sr_id (rf_session rf) \<noteq> sid" using dead_no_write(1)[OF assms(2), of rf] rotate(1) by auto
  then show ?thesis using assms(2) unfolding dead_def applyRefreshMutation_Inr(1)[OF rotate(1)]
    by (auto simp: rotated_row_def rotates_def)
next
  case (register r)
  then show ?thesis using assms(2) by (auto simp: dead_def)
qed (use assms(2) dead_change in blast)

lemma dead_reach: "session_reach s0 s \<Longrightarrow> dead (as_db s0) sid \<Longrightarrow> dead (as_db s) sid"
  by (induction rule: session_reach.induct) (auto intro: dead_step)

text \<open>
  (C4) A session that is revoked once stays revoked, and from then on no refresh and no validation succeeds on it, not
  even one that had read the session while it was active.
\<close>
theorem revoked_session_serves_nobody:
  assumes "dead (as_db s) sid" and "session_reach s s'"
  shows "dead (as_db s') sid \<and>
    (\<forall>rf. sr_id (rf_session rf) = sid \<longrightarrow> applyRefreshMutation rf (as_db s') = Inl agentAuthRefreshConflictError) \<and>
    (\<forall>vd t. sr_id (vd_session vd) = sid \<longrightarrow> validate_touch vd t (as_db s') = Inl validate_unauthorized)"
  using dead_no_write[OF dead_reach[OF assms(2,1)]] dead_reach[OF assms(2,1)] by blast

section \<open>Which requests succeed\<close>

lemma find_map_same: "(\<And>x. P (f x) = P x) \<Longrightarrow> find P (map f xs) = map_option f (find P xs)"
  by (induction xs) auto

lemma findAgentAuthSession_Some:
  "findAgentAuthSessionByAgentId db a = Some r \<Longrightarrow> r \<in> set (db_sessions db) \<and> sr_agent_id r = a"
  by (auto simp: findAgentAuthSessionByAgentId_def find_Some_iff)

text \<open>The access token that a session accepts for an agent at a time.\<close>
definition access_valid :: "http_crypto \<Rightarrow> (string \<Rightarrow> ms option) \<Rightarrow> ms \<Rightarrow> registry_db \<Rightarrow> string \<Rightarrow> string \<Rightarrow> string \<Rightarrow> bool" where
  "access_valid hcrypto date_parse now db agentDid aitJti accessToken \<longleftrightarrow>
     (\<exists>a r. findOwnedAgentByDid db agentDid = Some a \<and> ar_status a = ''active'' \<and> ar_current_jti a = Some aitJti \<and>
        findAgentAuthSessionByAgentId db (ar_id a) = Some r \<and> sr_status r = ''active'' \<and>
        (\<exists>t. date_parse (sr_access_expires_at r) = Some t \<and> now < t) \<and>
        sr_access_key_prefix r = deriveAccessTokenLookupPrefix accessToken \<and> sr_access_key_hash r = hashAgentToken hcrypto accessToken)"

lemma isIsoExpired_iff: "\<not> isIsoExpired date_parse e now \<longleftrightarrow> (\<exists>t. date_parse e = Some t \<and> now < t)"
  by (auto simp: isIsoExpired_def split: option.splits)

lemma validate_check_Inr:
  assumes "validate_check hcrypto date_parse now db payload header = Inr vd"
  shows "\<exists>agentDid aitJti accessToken. parseAgentAuthValidatePayload payload = Inr (agentDid, aitJti) \<and> parseAccessToken header = Inr accessToken \<and>
    access_valid hcrypto date_parse now db agentDid aitJti accessToken"
proof -
  obtain did jti tok where p: "parseAgentAuthValidatePayload payload = Inr (did, jti)" "parseAccessToken header = Inr tok"
    using assms by (auto simp: validate_check_def parseAgentAccessHeaderToken_def)
  have "access_valid hcrypto date_parse now db did jti tok"
    unfolding access_valid_def isIsoExpired_iff[symmetric] using assms
    by (simp add: validate_check_def parseAgentAccessHeaderToken_def p access_matches_def split: option.splits if_splits)
  then show ?thesis using p by blast
qed

lemma validate_check_ok:
  assumes "parseAgentAuthValidatePayload payload = Inr (agentDid, aitJti)" "parseAccessToken header = Inr accessToken"
    and "access_valid hcrypto date_parse now db agentDid aitJti accessToken"
  shows "\<exists>r \<in> set (db_sessions db). touches \<lparr>vd_session = r, vd_hash = hashAgentToken hcrypto accessToken\<rparr> r \<and>
    validate_check hcrypto date_parse now db payload header = Inr \<lparr>vd_session = r, vd_hash = hashAgentToken hcrypto accessToken\<rparr>"
proof -
  obtain a r where v: "findOwnedAgentByDid db agentDid = Some a" "ar_status a = ''active''" "ar_current_jti a = Some aitJti"
      "findAgentAuthSessionByAgentId db (ar_id a) = Some r" "sr_status r = ''active''" "\<not> isIsoExpired date_parse (sr_access_expires_at r) now"
      "access_matches hcrypto r accessToken"
    using assms(3) unfolding access_valid_def isIsoExpired_iff[symmetric] access_matches_def by auto
  then have "validate_check hcrypto date_parse now db payload header = Inr \<lparr>vd_session = r, vd_hash = hashAgentToken hcrypto accessToken\<rparr>"
    by (simp add: validate_check_def parseAgentAccessHeaderToken_def assms(1,2))
  then show ?thesis using findAgentAuthSession_Some[OF v(4)] v(5,7) by (auto simp: touches_def access_matches_def)
qed

lemma validate_touch_ok: "r \<in> set (db_sessions db) \<Longrightarrow> touches vd r \<Longrightarrow> \<exists>db'. validate_touch vd t db = Inr db'"
  by (auto simp: validate_touch_def sql_update_def filter_empty_conv)

lemma validate_ok_iff:
  "(\<exists>db'. validate_route hcrypto date_parse now t payload header db = Inr db') \<longleftrightarrow>
     (\<exists>agentDid aitJti accessToken. parseAgentAuthValidatePayload payload = Inr (agentDid, aitJti) \<and>
        parseAccessToken header = Inr accessToken \<and> access_valid hcrypto date_parse now db agentDid aitJti accessToken)"
proof
  assume "\<exists>db'. validate_route hcrypto date_parse now t payload header db = Inr db'"
  then obtain vd where "validate_check hcrypto date_parse now db payload header = Inr vd" by (auto simp: validate_route_def)
  then show "\<exists>agentDid aitJti accessToken. parseAgentAuthValidatePayload payload = Inr (agentDid, aitJti) \<and>
      parseAccessToken header = Inr accessToken \<and> access_valid hcrypto date_parse now db agentDid aitJti accessToken"
    by (rule validate_check_Inr)
qed (auto simp: validate_route_def dest!: validate_check_ok intro: validate_touch_ok)

text \<open>
  The registry confirms an access token exactly if payload and header have the right form, the agent is
  active with the named identity token as its current one, its session is active, the session's access token
  has not expired, and prefix and hash of the presented token are the session's.
\<close>
theorem validate_succeeds_iff:
  "(\<exists>db'. validate_route hcrypto date_parse now t payload header db = Inr db') \<longleftrightarrow>
     (\<exists>agentDid aitJti accessToken. parseAgentAuthValidatePayload payload = Inr (agentDid, aitJti) \<and>
        parseAccessToken header = Inr accessToken \<and> access_valid hcrypto date_parse now db agentDid aitJti accessToken)"
  by (rule validate_ok_iff)

lemma refresh_decide_rotate:
  assumes "refresh_decide ce rm db tok claims = RefreshRotate rf"
  shows "findOwnedAgentByDid db (ait_sub claims) = Some (rf_agent rf)" "ar_status (rf_agent rf) = ''active''"
    "ar_current_jti (rf_agent rf) = Some (ait_jti claims)" "findAgentAuthSessionByAgentId db (ar_id (rf_agent rf)) = Some (rf_session rf)"
    "sr_status (rf_session rf) = ''active''" "refresh_matches (ce_crypto ce) (rf_session rf) tok"
    "\<not> isIsoExpired (ce_date_parse ce) (sr_refresh_expires_at (rf_session rf)) (rm_now rm)"
    "rf_hash rf = hashAgentToken (ce_crypto ce) tok"
    "rf_auth rf = issueAgentAuth (ce_runtime ce) (ce_crypto ce) (rm_now rm) (rm_issuedAt rm) (rm_sessionId rm) (rm_accessBytes rm) (rm_refreshBytes rm)"
  using assms by (auto simp: refresh_decide_def split: option.splits if_splits)

text \<open>When nothing comes in between, the write of a refresh succeeds.\<close>
lemma rotation_succeeds:
  assumes "refresh_decide ce rm db tok claims = RefreshRotate rf"
  shows "\<exists>db'. applyRefreshMutation rf db = Inr db' \<and> findOwnedAgentByDid db' = findOwnedAgentByDid db \<and>
    findAgentAuthSessionByAgentId db' (ar_id (rf_agent rf)) = Some (rotated_row rf (rf_session rf))"
proof -
  note d = refresh_decide_rotate[OF assms]
  have r: "rf_session rf \<in> set (db_sessions db)" "rotates rf (rf_session rf)"
    using findAgentAuthSession_Some[OF d(4)] d(5,6,8) by (simp_all add: rotates_def refresh_matches_def)
  obtain db' where db': "applyRefreshMutation rf db = Inr db'"
    using r by (cases "applyRefreshMutation rf db") (auto simp: applyRefreshMutation_def sql_update_def filter_empty_conv split: if_splits)
  note t = applyRefreshMutation_Inr[OF db']
  have "findAgentAuthSessionByAgentId db' (ar_id (rf_agent rf)) = Some (rotated_row rf (rf_session rf))"
    using d(4) r(2) unfolding findAgentAuthSessionByAgentId_def t(1) by (subst find_map_same) (auto simp: rotated_row_def)
  moreover have "findOwnedAgentByDid db' = findOwnedAgentByDid db" by (simp add: findOwnedAgentByDid_def t(3) fun_eq_iff)
  ultimately show ?thesis using db' by blast
qed

text \<open>
  After a refresh the new tokens work and the old ones do not: the new access token is confirmed until it
  expires, every access token with another hash is refused, and the refresh token that was used rotates no second time.
\<close>
theorem rotated_tokens_replace_the_old:
  assumes "refresh_decide ce rm db tok claims = RefreshRotate rf"
    and "b64_law (ce_runtime ce)" "rm_accessBytes rm \<noteq> []"
    and "date_parse (is_accessExpiresAt (rf_auth rf)) = Some expiry" "now < expiry"
    and "parseAgentAuthValidatePayload payload = Inr (ait_sub claims, ait_jti claims)"
  shows "\<exists>db'. applyRefreshMutation rf db = Inr db' \<and>
    (\<exists>db''. validate_route (ce_crypto ce) date_parse now t payload (Some (is_accessToken (rf_auth rf))) db' = Inr db'') \<and>
    (\<forall>header old. parseAccessToken header = Inr old \<longrightarrow> hashAgentToken (ce_crypto ce) old \<noteq> is_accessTokenHash (rf_auth rf) \<longrightarrow>
       validate_route (ce_crypto ce) date_parse now t payload header db' = Inl validate_unauthorized) \<and>
    (\<forall>rm' rf'. hashAgentToken (ce_crypto ce) tok \<noteq> is_refreshTokenHash (rf_auth rf) \<longrightarrow>
       refresh_decide ce rm' db' tok claims \<noteq> RefreshRotate rf')"
proof -
  note d = refresh_decide_rotate[OF assms(1)]
  obtain db' where db': "applyRefreshMutation rf db = Inr db'" "findOwnedAgentByDid db' = findOwnedAgentByDid db"
      "findAgentAuthSessionByAgentId db' (ar_id (rf_agent rf)) = Some (rotated_row rf (rf_session rf))"
    using rotation_succeeds[OF assms(1)] by blast
  have auth: "is_accessToken (rf_auth rf) = generateToken (ce_runtime ce) AGENT_ACCESS_TOKEN_MARKER (rm_accessBytes rm)"
    "is_accessTokenHash (rf_auth rf) = hashAgentToken (ce_crypto ce) (is_accessToken (rf_auth rf))"
    "is_accessTokenPrefix (rf_auth rf) = deriveAccessTokenLookupPrefix (is_accessToken (rf_auth rf))"
    unfolding d(9) by (simp_all add: issueAgentAuth_def Let_def)
  have parses: "parseAccessToken (Some (is_accessToken (rf_auth rf))) = Inr (is_accessToken (rf_auth rf))"
    unfolding auth(1) parseAccessToken_def
    by (rule generated_token_parses[OF assms(2,3)]) (simp add: AGENT_ACCESS_TOKEN_MARKER_def is_ws_def)
  have "access_valid (ce_crypto ce) date_parse now db' (ait_sub claims) (ait_jti claims) (is_accessToken (rf_auth rf))"
    unfolding access_valid_def db'(2) using d(1-3) db'(3) assms(4,5) auth(2,3) by (simp add: rotated_row_def)
  then have "\<exists>db''. validate_route (ce_crypto ce) date_parse now t payload (Some (is_accessToken (rf_auth rf))) db' = Inr db''"
    unfolding validate_ok_iff using assms(6) parses by blast
  moreover have "validate_route (ce_crypto ce) date_parse now t payload header db' = Inl validate_unauthorized"
    if "parseAccessToken header = Inr old" "hashAgentToken (ce_crypto ce) old \<noteq> is_accessTokenHash (rf_auth rf)" for header old
    using that assms(4-6) d(1-3) db'(2,3)
    by (simp add: validate_route_def validate_check_def parseAgentAccessHeaderToken_def access_matches_def rotated_row_def isIsoExpired_def)
  moreover have "refresh_decide ce rm' db' tok claims \<noteq> RefreshRotate rf'" if "hashAgentToken (ce_crypto ce) tok \<noteq> is_refreshTokenHash (rf_auth rf)" for rm' rf'
    using that d(1-3) db'(2,3) by (simp add: refresh_decide_def refresh_matches_def rotated_row_def)
  ultimately show ?thesis using db'(1) by blast
qed

section \<open>Witnesses\<close>

definition demo_refreshing :: refreshing where
  "demo_refreshing = \<lparr>rf_agent = demo_agent ''a'' ''j'', rf_session = demo_session ''sa'' ''a'', rf_hash = ''rh'',
     rf_auth = issueAgentAuth demo_runtime demo_crypto 0 0 ''x'' [1] [2], rf_refreshedAt = ''t''\<rparr>"

definition demo_auth_start :: auth_sys where
  "demo_auth_start = \<lparr>as_db = demo_db\<lparr>db_sessions := [demo_session ''sa'' ''a'']\<rparr>, as_rotated = [], as_minted = [(''sa'', ''rh'')]\<rparr>"

definition demo_auth_rotated :: auth_sys where
  "demo_auth_rotated = demo_auth_start\<lparr>as_db := projr (applyRefreshMutation demo_refreshing (as_db demo_auth_start)),
     as_rotated := [(''sa'', ''rh'')], as_minted := [(''sa'', ''rh''), (''sa'', is_refreshTokenHash (rf_auth demo_refreshing))]\<rparr>"

lemma demo_auth_run: "session_reach demo_auth_start demo_auth_rotated"
proof (rule session_reach.step[OF session_reach.here])
  have "applyRefreshMutation demo_refreshing (as_db demo_auth_start) = Inr (as_db demo_auth_rotated)"
    by (simp add: applyRefreshMutation_def sql_update_def rotates_def demo_auth_rotated_def demo_auth_start_def demo_refreshing_def demo_session_def)
  from session_step.rotate[OF this] show "session_step demo_auth_start demo_auth_rotated"
    by (simp add: demo_auth_rotated_def demo_auth_start_def demo_refreshing_def demo_session_def)
qed

theorem refresh_token_rotates_once_witness:
  "as_start demo_auth_start \<and> session_reach demo_auth_start demo_auth_rotated \<and>
   count_list (as_rotated demo_auth_rotated) (''sa'', ''rh'') \<le> count_list (as_minted demo_auth_rotated) (''sa'', ''rh'')"
proof -
  have s: "as_start demo_auth_start" by (simp add: as_start_def demo_auth_start_def demo_session_def)
  show ?thesis using refresh_token_rotates_once[OF s demo_auth_run] s demo_auth_run by blast
qed

text \<open>The session is revoked; the refresh that read it before comes too late.\<close>
definition demo_auth_revoked :: auth_sys where
  "demo_auth_revoked = demo_auth_start\<lparr>as_db := applyAuthRevokeMutation (demo_agent ''a'' ''j'') (demo_session ''sa'' ''a'') ''t'' (as_db demo_auth_start)\<rparr>"

theorem revoked_session_serves_nobody_witness:
  "dead (as_db demo_auth_revoked) ''sa'' \<and> applyRefreshMutation demo_refreshing (as_db demo_auth_revoked) = Inl agentAuthRefreshConflictError"
proof -
  have d: "dead (as_db demo_auth_revoked) ''sa''"
    by (simp add: dead_def demo_auth_revoked_def applyAuthRevokeMutation_def revoke_session_row_def sql_update_def demo_auth_start_def demo_session_def)
  have "sr_id (rf_session demo_refreshing) = ''sa''" by (simp add: demo_refreshing_def demo_session_def)
  then show ?thesis using revoked_session_serves_nobody[OF d session_reach.here] d by blast
qed

definition demo_claw_env :: claw_env where
  "demo_claw_env = \<lparr>ce_runtime = demo_runtime, ce_crypto = demo_crypto, ce_jose = demo_auth_jose, ce_urls = demo_urls,
     ce_text = map char_of, ce_date_parse = (\<lambda>_. Some 5), ce_environment = EnvLocal, ce_issuer_url = None, ce_signing_keys = None\<rparr>"

definition demo_moment :: refresh_moment where
  "demo_moment = \<lparr>rm_claw = 0, rm_jose = 0, rm_http = 0, rm_now = 0, rm_issuedAt = 0, rm_sessionId = ''x'', rm_accessBytes = [1], rm_refreshBytes = [2],
     rm_refreshedAt = ''t''\<rparr>"

definition demo_old_token :: string where "demo_old_token = ''clw_rft_old''"

text \<open>The agent of \<open>demo_ait\<close>, whose session was issued for \<open>demo_old_token\<close>.\<close>
definition demo_live_db :: registry_db where
  "demo_live_db = demo_db\<lparr>db_agents := [(demo_agent ''a'' ''00000000000000000000000004'')\<lparr>ar_did := demo_did CHR ''1''\<rparr>],
     db_sessions := [(demo_session ''sa'' ''a'')\<lparr>sr_refresh_key_hash := hashAgentToken demo_crypto demo_old_token,
        sr_refresh_key_prefix := deriveRefreshTokenLookupPrefix demo_old_token\<rparr>]\<rparr>"

definition demo_rotation :: refreshing where
  "demo_rotation = \<lparr>rf_agent = hd (db_agents demo_live_db), rf_session = hd (db_sessions demo_live_db),
     rf_hash = hashAgentToken demo_crypto demo_old_token, rf_auth = issueAgentAuth demo_runtime demo_crypto 0 0 ''x'' [1] [2], rf_refreshedAt = ''t''\<rparr>"

definition demo_validate_payload :: "jsval option" where
  "demo_validate_payload = Some (JObj [(''agentDid'', JStr (demo_did CHR ''1'')), (''aitJti'', JStr ''00000000000000000000000004'')])"

theorem rotated_tokens_replace_the_old_witness:
  "\<exists>db' db''. applyRefreshMutation demo_rotation demo_live_db = Inr db' \<and>
     validate_route demo_crypto (\<lambda>_. Some 5) 1 ''t'' demo_validate_payload (Some (is_accessToken (rf_auth demo_rotation))) db' = Inr db''"
proof -
  have d: "refresh_decide demo_claw_env demo_moment demo_live_db demo_old_token demo_ait = RefreshRotate demo_rotation"
    by (simp add: refresh_decide_def findOwnedAgentByDid_def findAgentAuthSessionByAgentId_def refresh_matches_def isIsoExpired_def
        demo_claw_env_def demo_moment_def demo_live_db_def demo_rotation_def demo_ait_def demo_agent_def demo_session_def)
  have p: "parseAgentAuthValidatePayload demo_validate_payload = Inr (ait_sub demo_ait, ait_jti demo_ait)"
    by (simp add: parseAgentAuthValidatePayload_def demo_validate_payload_def trimmed_field_def demo_ait_def demo_did_def trim_noop is_ws_def)
  show ?thesis
    using rotated_tokens_replace_the_old[OF d, where date_parse = "\<lambda>_. Some 5" and expiry = 5 and now = 1 and t = "''t''", OF _ _ _ _ p] demo_laws(1)
    by (auto simp: demo_claw_env_def demo_moment_def)
qed

end
