(* ===== verification/Registry_Crl.thy ===== *)
theory Registry_Crl
  imports Agent_Sessions "HOL-Library.Product_Lexorder"
begin

text \<open>
  The revocation list the registry serves: \<open>GET /v1/crl\<close> of \<open>routes/health.ts\<close>, \<open>buildCrlClaims\<close> of
  \<open>server/helpers/parsers.ts\<close> and the signing key of \<open>registry-signer.ts\<close>.

  Shown: exactly when the route answers and that it then lists every revocation of a known agent; that
  revocations are never withdrawn; and, with the proxy's authentication of \<open>Proxy_Auth\<close>, that a fail-closed proxy
  whose lists are from after a revocation gives no identity to the revoked token.
\<close>

section \<open>The signing key (registry-signer.ts)\<close>

text \<open>\<open>rs_derive\<close> is \<open>deriveEd25519PublicKey\<close>, \<open>rs_secret\<close> the setting \<open>REGISTRY_SIGNING_KEY\<close>.\<close>
record registry_signer =
  rs_env :: claw_env
  rs_derive :: "bytes \<Rightarrow> bytes"
  rs_secret :: "string option"

definition invalidSigningConfig :: "RuntimeEnvironment \<Rightarrow> app_error" where
  "invalidSigningConfig env = AppError ''CONFIG_VALIDATION_FAILED'' (hidden env ''Registry configuration is invalid'') 500"

definition parseRegistrySecretKey :: "registry_signer \<Rightarrow> (app_error, bytes) result" where
  "parseRegistrySecretKey rs =
     (let err = invalidSigningConfig (ce_environment (rs_env rs)) in
      case rs_secret rs of
        None \<Rightarrow> Inl err
      | Some secretKeyBase64url \<Rightarrow>
          throw_if (secretKeyBase64url = []) err
          (bindE (catchE (decodeBase64url (ce_runtime (rs_env rs)) secretKeyBase64url) err) (\<lambda>decodedSecretKey.
           throw_if (length decodedSecretKey \<noteq> 32) err (Inr decodedSecretKey))))"

definition findMatchingActiveKey :: "RuntimeEnvironment \<Rightarrow> RegistrySigningKey list \<Rightarrow> string \<Rightarrow> (app_error, RegistrySigningKey) result" where
  "findMatchingActiveKey env keys publicKeyBase64url =
     (let activeKeys = filter (\<lambda>key. rk_status key = ''active'') keys in
      throw_if (length activeKeys = 0) (invalidSigningConfig env)
        (of_option (invalidSigningConfig env) (find (\<lambda>key. rk_x key = publicKeyBase64url) activeKeys)))"

text \<open>The id of the key, and the pair of public and secret key.\<close>
definition resolveRegistrySigner :: "registry_signer \<Rightarrow> (app_error, string \<times> bytes \<times> bytes) result" where
  "resolveRegistrySigner rs =
     (let env = ce_environment (rs_env rs); publicKeys = (case ce_signing_keys (rs_env rs) of None \<Rightarrow> [] | Some keys \<Rightarrow> keys) in
      throw_if (length publicKeys = 0) (invalidSigningConfig env)
      (bindE (parseRegistrySecretKey rs) (\<lambda>secretKey.
       let publicKey = rs_derive rs secretKey in
       bindE (findMatchingActiveKey env publicKeys (encodeBase64url (ce_runtime (rs_env rs)) publicKey)) (\<lambda>signingKey.
       Inr (rk_kid signingKey, publicKey, secretKey)))))"

section \<open>The list (parsers.ts, health.ts)\<close>

record CrlSnapshotRow =
  cs_id :: string
  cs_jti :: string
  cs_reason :: "string option"
  cs_revoked_at :: string
  cs_agent_did :: string

definition CRL_TTL_SECONDS :: real where "CRL_TTL_SECONDS = 300 + 60 + 30"

definition crlBuildError :: "RuntimeEnvironment \<Rightarrow> app_error" where
  "crlBuildError env =
     AppError ''CRL_BUILD_FAILED''
       (if shouldExposeVerboseErrors env then ''CRL revocation timestamp is invalid'' else ''CRL snapshot could not be generated'') 500"

definition parseRevokedAtSeconds :: "(string \<Rightarrow> ms option) \<Rightarrow> RuntimeEnvironment \<Rightarrow> string \<Rightarrow> (app_error, real) result" where
  "parseRevokedAtSeconds date_parse env revokedAtIso =
     bindE (of_option (crlBuildError env) (date_parse revokedAtIso)) (\<lambda>epochMillis. Inr (real_of_int \<lfloor>epochMillis / 1000\<rfloor>))"

definition crl_entry :: "(string \<Rightarrow> ms option) \<Rightarrow> RuntimeEnvironment \<Rightarrow> CrlSnapshotRow \<Rightarrow> (app_error, Revocation) result" where
  "crl_entry date_parse env row =
     bindE (parseRevokedAtSeconds date_parse env (cs_revoked_at row)) (\<lambda>revokedAt.
     Inr \<lparr>rv_jti = cs_jti row, rv_agentDid = cs_agent_did row,
          rv_reason = (case cs_reason row of None \<Rightarrow> None | Some reason \<Rightarrow> if length reason > 0 then Some reason else None),
          rv_revokedAt = revokedAt\<rparr>)"

text \<open>\<open>rows.map\<close> with a callback that may throw\<close>
fun crl_entries :: "(string \<Rightarrow> ms option) \<Rightarrow> RuntimeEnvironment \<Rightarrow> CrlSnapshotRow list \<Rightarrow> (app_error, Revocation list) result" where
  "crl_entries date_parse env [] = Inr []"
| "crl_entries date_parse env (row # rows) =
     bindE (crl_entry date_parse env row) (\<lambda>e. bindE (crl_entries date_parse env rows) (\<lambda>es. Inr (e # es)))"

text \<open>\<open>crlId\<close> is the fresh id.\<close>
definition buildCrlClaims ::
  "(string \<Rightarrow> ms option) \<Rightarrow> CrlSnapshotRow list \<Rightarrow> RuntimeEnvironment \<Rightarrow> string \<Rightarrow> string \<Rightarrow> real \<Rightarrow> (app_error, CrlClaims) result" where
  "buildCrlClaims date_parse rows env issuer crlId nowSeconds =
     bindE (crl_entries date_parse env rows) (\<lambda>entries.
     Inr \<lparr>crl_iss = issuer, crl_jti = crlId, crl_iat = nowSeconds, crl_exp = nowSeconds + CRL_TTL_SECONDS, crl_revocations = entries\<rparr>)"

text \<open>The inner join with the agents, latest first.\<close>
definition crl_join :: "registry_db \<Rightarrow> CrlSnapshotRow list" where
  "crl_join db =
     concat (map (\<lambda>r. map (\<lambda>a. \<lparr>cs_id = rw_id r, cs_jti = rw_jti r, cs_reason = rw_reason r, cs_revoked_at = rw_revoked_at r,
                                 cs_agent_did = ar_did a\<rparr>)
                       (filter (\<lambda>a. rw_agent_id r = ar_id a) (db_agents db))) (db_revocations db))"

definition crl_rows :: "registry_db \<Rightarrow> CrlSnapshotRow list" where
  "crl_rows db = rev (sort_key (\<lambda>row. (cs_revoked_at row, cs_id row)) (crl_join db))"

definition crl_not_found :: app_error where
  "crl_not_found = AppError ''CRL_NOT_FOUND'' ''CRL snapshot is not available'' 404"

text \<open>The claims and the signed list.\<close>
definition crl_route :: "registry_signer \<Rightarrow> proxy_request \<Rightarrow> ms \<Rightarrow> string \<Rightarrow> registry_db \<Rightarrow> (route_error, CrlClaims \<times> string) result" where
  "crl_route rs rq now crlId db =
     (let ce = rs_env rs; rows = crl_rows db in
      if length rows = 0 then Inl (RouteError crl_not_found)
      else case resolveRegistrySigner rs of Inl e \<Rightarrow> Inl (RouteError e) | Inr (signerKid, signerKeypair) \<Rightarrow>
        (case resolvePublicRegistryIssuer ce rq of
           None \<Rightarrow> Inl RouteForeign
         | Some issuer \<Rightarrow>
             (case buildCrlClaims (ce_date_parse ce) rows (ce_environment ce) issuer crlId (seconds_of now) of
                Inl e \<Rightarrow> Inl (RouteError e)
              | Inr claims \<Rightarrow>
                  (case signCRL (ce_runtime ce) (ce_jose ce) claims signerKid signerKeypair of
                     Inl _ \<Rightarrow> Inl RouteForeign
                   | Inr crl \<Rightarrow> Inr (claims, crl)))))"

section \<open>The list is complete\<close>

lemma crl_entries_Inr:
  "crl_entries date_parse env rows = Inr es \<Longrightarrow> map rv_jti es = map cs_jti rows"
  by (induction rows arbitrary: es) (auto simp: crl_entry_def)

lemma set_crl_rows: "set (crl_rows db) = set (crl_join db)"
  by (simp add: crl_rows_def)

text \<open>The ids of the revoked tokens of agents that have a row.\<close>
definition revoked_jtis :: "registry_db \<Rightarrow> string set" where
  "revoked_jtis db = {rw_jti r | r. r \<in> set (db_revocations db) \<and> rw_agent_id r \<in> ar_id ` set (db_agents db)}"

lemma crl_rows_jtis: "cs_jti ` set (crl_rows db) = revoked_jtis db"
  unfolding set_crl_rows revoked_jtis_def crl_join_def by (fastforce simp: image_iff)

lemma crl_route_Inr:
  assumes "crl_route rs rq now crlId db = Inr (claims, crl)"
  shows "rv_jti ` set (crl_revocations claims) = revoked_jtis db"
    "\<exists>kid pair. resolveRegistrySigner rs = Inr (kid, pair) \<and> signCRL (ce_runtime (rs_env rs)) (ce_jose (rs_env rs)) claims kid pair = Inr crl"
    "crl_iat claims < crl_exp claims"
proof -
  obtain kid pair issuer where r: "resolveRegistrySigner rs = Inr (kid, pair)"
      "buildCrlClaims (ce_date_parse (rs_env rs)) (crl_rows db) (ce_environment (rs_env rs)) issuer crlId (seconds_of now) = Inr claims"
      "signCRL (ce_runtime (rs_env rs)) (ce_jose (rs_env rs)) claims kid pair = Inr crl"
    using assms by (auto simp: crl_route_def Let_def split: if_splits sum.splits option.splits prod.splits)
  obtain es where es: "crl_entries (ce_date_parse (rs_env rs)) (ce_environment (rs_env rs)) (crl_rows db) = Inr es" "crl_revocations claims = es"
      "crl_iat claims < crl_exp claims"
    using r(2) by (auto simp: buildCrlClaims_def CRL_TTL_SECONDS_def)
  have "set (map rv_jti es) = set (map cs_jti (crl_rows db))" using crl_entries_Inr[OF es(1)] by simp
  then show "rv_jti ` set (crl_revocations claims) = revoked_jtis db" using es(2) crl_rows_jtis by simp
  show "\<exists>kid pair. resolveRegistrySigner rs = Inr (kid, pair) \<and> signCRL (ce_runtime (rs_env rs)) (ce_jose (rs_env rs)) claims kid pair = Inr crl"
    using r(1,3) by blast
  show "crl_iat claims < crl_exp claims" by (rule es(3))
qed

text \<open>
  The revocation list the registry serves names exactly the revoked tokens of the agents that have a row, and is
  signed with an active key whose public half is the configured one.
\<close>
theorem served_list_is_complete:
  assumes "crl_route rs rq now crlId db = Inr (claims, crl)"
  shows "rv_jti ` set (crl_revocations claims) = revoked_jtis db \<and> crl_iat claims < crl_exp claims \<and>
    (\<exists>key secret. key \<in> set (case ce_signing_keys (rs_env rs) of None \<Rightarrow> [] | Some keys \<Rightarrow> keys) \<and> rk_status key = ''active'' \<and>
       rk_x key = encodeBase64url (ce_runtime (rs_env rs)) (rs_derive rs secret) \<and>
       signCRL (ce_runtime (rs_env rs)) (ce_jose (rs_env rs)) claims (rk_kid key) (rs_derive rs secret, secret) = Inr crl)"
proof -
  obtain kid pair where r: "resolveRegistrySigner rs = Inr (kid, pair)"
      "signCRL (ce_runtime (rs_env rs)) (ce_jose (rs_env rs)) claims kid pair = Inr crl"
    using crl_route_Inr(2)[OF assms] by blast
  obtain key secret where "find (\<lambda>key. rk_x key = encodeBase64url (ce_runtime (rs_env rs)) (rs_derive rs secret))
      (filter (\<lambda>key. rk_status key = ''active'') (case ce_signing_keys (rs_env rs) of None \<Rightarrow> [] | Some keys \<Rightarrow> keys)) = Some key"
      "kid = rk_kid key" "pair = (rs_derive rs secret, secret)"
    using r(1) by (auto simp: resolveRegistrySigner_def findMatchingActiveKey_def Let_def)
  then have "key \<in> set (case ce_signing_keys (rs_env rs) of None \<Rightarrow> [] | Some keys \<Rightarrow> keys) \<and> rk_status key = ''active'' \<and>
      rk_x key = encodeBase64url (ce_runtime (rs_env rs)) (rs_derive rs secret) \<and>
      signCRL (ce_runtime (rs_env rs)) (ce_jose (rs_env rs)) claims (rk_kid key) (rs_derive rs secret, secret) = Inr crl"
    using r(2) find_Some_in by fastforce
  then show ?thesis using crl_route_Inr(1,3)[OF assms] by blast
qed

section \<open>Revocations are never withdrawn\<close>

text \<open>Revocations, and the revocations under way, are of agents that have a row.\<close>
definition refs_ok :: "lifecycle \<Rightarrow> bool" where
  "refs_ok s \<longleftrightarrow> rw_agent_id ` set (db_revocations (lc_db s)) \<subseteq> ar_id ` set (db_agents (lc_db s)) \<and>
     (\<lambda>rk. ar_id (rk_agent rk)) ` set (lc_revoking s) \<subseteq> ar_id ` set (db_agents (lc_db s))"

lemma insert_revocation_agents:
  "rw_agent_id ` set (db_revocations (insert_revocation row db)) \<subseteq> insert (rw_agent_id row) (rw_agent_id ` set (db_revocations db))"
  by (auto simp: insert_revocation_def)

lemma sql_update_ids: "(\<And>r. g (f r) = g r) \<Longrightarrow> map g (snd (sql_update p f rows)) = map g rows"
  by (simp add: sql_update_snd)

lemma revoke_ids: "ar_id ` set (db_agents (applyRevokeMutation rk db)) = ar_id ` set (db_agents db)"
proof -
  have "map ar_id (db_agents (applyRevokeMutation rk db)) = map ar_id (db_agents db)"
    by (simp add: revoke_agent_row_def sql_update_ids)
  then show ?thesis by (metis list.set_map)
qed

lemma revoke_agents: "rw_agent_id ` set (db_revocations (applyRevokeMutation rk db)) \<subseteq>
    insert (ar_id (rk_agent rk)) (rw_agent_id ` set (db_revocations db))"
proof -
  let ?row = "\<lparr>rw_id = rk_revocation_id rk, rw_jti = rk_jti rk, rw_agent_id = ar_id (rk_agent rk), rw_reason = None, rw_revoked_at = rk_revokedAt rk\<rparr>"
  have "db_revocations (applyRevokeMutation rk db) = db_revocations (insert_revocation ?row (revoke_agent_row rk db))"
    by (simp add: applyRevokeMutation_def Let_def revoke_session_row_def split: option.splits)
  moreover have "db_revocations (revoke_agent_row rk db) = db_revocations db" by (simp add: revoke_agent_row_def)
  ultimately show ?thesis using insert_revocation_agents[of ?row "revoke_agent_row rk db"] by simp
qed

lemma reissue_ids:
  assumes "applyReissueMutation env ri db = Inr db'"
  shows "ar_id ` set (db_agents db') = ar_id ` set (db_agents db)"
    "rw_agent_id ` set (db_revocations db') \<subseteq> ar_id ` set (db_agents db) \<union> rw_agent_id ` set (db_revocations db)"
proof -
  have "map ar_id (db_agents db') = map ar_id (db_agents db)" unfolding applyReissueMutation_Inr(2)[OF assms] by simp
  then show "ar_id ` set (db_agents db') = ar_id ` set (db_agents db)" by (metis list.set_map)
  let ?row = "\<lparr>rw_id = ri_revocation_id ri, rw_jti = ri_jti ri, rw_agent_id = ar_id (ri_agent ri), rw_reason = Some ''reissued'', rw_revoked_at = ri_revokedAt ri\<rparr>"
  have "\<exists>rows. db' = insert_revocation ?row (db\<lparr>db_agents := rows\<rparr>)" using assms by (auto simp: applyReissueMutation_def sql_update_def split: if_splits)
  then obtain rows where "db' = insert_revocation ?row (db\<lparr>db_agents := rows\<rparr>)" ..
  moreover have "ar_id (ri_agent ri) \<in> ar_id ` set (db_agents db)" using applyReissueMutation_Inr(3)[OF assms] by (metis imageI)
  ultimately show "rw_agent_id ` set (db_revocations db') \<subseteq> ar_id ` set (db_agents db) \<union> rw_agent_id ` set (db_revocations db)"
    using insert_revocation_agents[of ?row "db\<lparr>db_agents := rows\<rparr>"] by auto
qed

lemma refs_ok_step:
  assumes "tx_step s s'" "refs_ok s"
  shows "refs_ok s'"
  using assms(1)
proof (cases rule: tx_step.cases)
  case (register_commit before rg after env fails db' jti)
  note t = applyRegistration_tx_tables(3,4)[OF register_commit(4)]
  show ?thesis using assms(2) register_commit(1) by (auto simp: refs_ok_def t)
next
  case (revoke_begin env owner agentId newId now rk)
  have "ar_id (rk_agent rk) \<in> ar_id ` set (db_agents (lc_db s))" by (rule imageI) (use revoke_read_Inr[OF revoke_begin(2)] in simp)
  then show ?thesis using assms(2) revoke_begin(1) by (simp add: refs_ok_def)
next
  case (revoke_commit before rk after)
  have "set (lc_revoking s) = insert rk (set before \<union> set after)" using revoke_commit(2) by auto
  then have a: "ar_id (rk_agent rk) \<in> ar_id ` set (db_agents (lc_db s))"
      "(\<lambda>rk. ar_id (rk_agent rk)) ` (set before \<union> set after) \<subseteq> ar_id ` set (db_agents (lc_db s))"
    using assms(2) by (auto simp: refs_ok_def)
  have "rw_agent_id ` set (db_revocations (applyRevokeMutation rk (lc_db s))) \<subseteq> ar_id ` set (db_agents (lc_db s))"
    by (rule subset_trans[OF revoke_agents]) (use assms(2) a(1) in \<open>simp add: refs_ok_def\<close>)
  then show ?thesis using a(2) revoke_commit(1) by (simp add: refs_ok_def revoke_ids del: revoke_frame)
next
  case (reissue_commit before ri after env db')
  note t = reissue_ids[OF reissue_commit(3)]
  have "rw_agent_id ` set (db_revocations db') \<subseteq> ar_id ` set (db_agents (lc_db s))"
    by (rule subset_trans[OF t(2)]) (use assms(2) in \<open>simp add: refs_ok_def\<close>)
  then show ?thesis using assms(2) reissue_commit(1) by (simp add: refs_ok_def t(1))
qed (use assms(2) in \<open>simp_all add: refs_ok_def\<close>)

lemma refs_ok_reach: "tx_reach s0 s \<Longrightarrow> refs_ok s0 \<Longrightarrow> refs_ok s"
  by (induction rule: tx_reach.induct) (auto intro: refs_ok_step)

lemma revocations_grow_step:
  assumes "tx_step s s'"
  shows "rw_jti ` set (db_revocations (lc_db s)) \<subseteq> rw_jti ` set (db_revocations (lc_db s'))"
  using assms
proof (cases rule: tx_step.cases)
  case (register_commit before rg after env fails db' jti)
  then show ?thesis using applyRegistration_tx_tables(4)[OF register_commit(4)] by simp
next
  case (reissue_commit before ri after env db')
  then show ?thesis using applyReissueMutation_Inr(4)[OF reissue_commit(3)] by simp blast
next
  case (revoke_commit before rk after)
  then show ?thesis by (simp, blast)
qed simp_all

lemma revocations_grow: "tx_reach s0 s \<Longrightarrow> rw_jti ` set (db_revocations (lc_db s0)) \<subseteq> rw_jti ` set (db_revocations (lc_db s))"
proof (induction rule: tx_reach.induct)
  case (step s s')
  then show ?case using revocations_grow_step[OF step(2)] by (rule_tac subset_trans)
qed simp

lemma tx_reach_trans: "tx_reach s1 s2 \<Longrightarrow> tx_reach s0 s1 \<Longrightarrow> tx_reach s0 s2"
  by (induction rule: tx_reach.induct) (auto intro: tx_reach.step)

lemma revoked_jtis_refs: "refs_ok s \<Longrightarrow> revoked_jtis (lc_db s) = rw_jti ` set (db_revocations (lc_db s))"
  unfolding revoked_jtis_def refs_ok_def image_subset_iff by blast

text \<open>A revocation is on every list that is served later.\<close>
lemma later_list_names:
  assumes "refs_ok s" "j \<in> rw_jti ` set (db_revocations (lc_db s))" "tx_reach s s'" "crl_route rs rq now crlId (lc_db s') = Inr (claims, crl)"
  shows "j \<in> rv_jti ` set (crl_revocations claims)"
  unfolding crl_route_Inr(1)[OF assms(4)] revoked_jtis_refs[OF refs_ok_reach[OF assms(3,1)]]
  using revocations_grow[OF assms(3)] assms(2) by blast

section \<open>Witnesses\<close>

text \<open>One agent with one revoked token.\<close>
definition demo_revoked_db :: registry_db where
  "demo_revoked_db = demo_live_db\<lparr>db_revocations := [\<lparr>rw_id = ''r'', rw_jti = ''00000000000000000000000005'', rw_agent_id = ''a'', rw_reason = None,
     rw_revoked_at = ''t''\<rparr>]\<rparr>"

definition demo_served :: CrlClaims where
  "demo_served = \<lparr>crl_iss = ''https://a.b'', crl_jti = ''L'', crl_iat = 0, crl_exp = 390, crl_revocations =
     [\<lparr>rv_jti = ''00000000000000000000000005'', rv_agentDid = demo_did CHR ''1'', rv_reason = None, rv_revokedAt = 0\<rparr>]\<rparr>"

text \<open>The shape of revocation lists as JavaScript objects, read back.\<close>
definition js_text :: "jsval \<Rightarrow> string" where "js_text v = (case v of JStr s \<Rightarrow> s | _ \<Rightarrow> [])"
definition js_real :: "jsval \<Rightarrow> real" where "js_real v = (case v of JNum x \<Rightarrow> x | _ \<Rightarrow> 0)"
definition js_items :: "jsval \<Rightarrow> jsval list" where "js_items v = (case v of JArr xs \<Rightarrow> xs | _ \<Rightarrow> [])"

definition read_revocation :: "jsval \<Rightarrow> Revocation" where
  "read_revocation v = \<lparr>rv_jti = js_text (js_get v ''jti''), rv_agentDid = js_text (js_get v ''agentDid''),
     rv_reason = (case js_get v ''reason'' of JStr s \<Rightarrow> Some s | _ \<Rightarrow> None), rv_revokedAt = js_real (js_get v ''revokedAt'')\<rparr>"

definition read_crl :: "jsval \<Rightarrow> CrlClaims option" where
  "read_crl v = Some \<lparr>crl_iss = js_text (js_get v ''iss''), crl_jti = js_text (js_get v ''jti''), crl_iat = js_real (js_get v ''iat''),
     crl_exp = js_real (js_get v ''exp''), crl_revocations = map read_revocation (js_items (js_get v ''revocations''))\<rparr>"

lemma read_crl_value: "read_crl (crl_value c) = Some c"
proof -
  have "read_revocation (revocation_value r) = r" for r
    by (cases "rv_reason r") (simp_all add: read_revocation_def revocation_value_def opt_field_def js_text_def js_real_def)
  then show ?thesis by (simp add: read_crl_def crl_value_def js_text_def js_real_def js_items_def comp_def)
qed

text \<open>A library that signs this one list.\<close>
definition demo_crl_jose :: jose_lib where
  "demo_crl_jose = demo_auth_jose\<lparr>token_verify := (\<lambda>_ token _ typ _. Some (if token = ''C'' then crl_value demo_served else JStr typ)),
     token_sign := (\<lambda>typ _ v _ _. if typ = ''CRL'' \<and> v = crl_value demo_served then Some ''C'' else None), crl_shape := read_crl\<rparr>"

definition demo_signer :: registry_signer where
  "demo_signer = \<lparr>rs_env = demo_claw_env\<lparr>ce_jose := demo_crl_jose, ce_issuer_url := Some ''https://a.b'',
       ce_signing_keys := Some [\<lparr>rk_kid = ''K'', rk_x = replicate 32 CHR ''B'', rk_status = ''active''\<rparr>]\<rparr>,
     rs_derive = (\<lambda>k. k), rs_secret = Some (replicate 32 CHR ''B'')\<rparr>"

lemma demo_resolve_signer: "resolveRegistrySigner demo_signer = Inr (''K'', replicate 32 0, replicate 32 0)"
proof -
  have "decodeBase64url demo_runtime (replicate 32 CHR ''B'') = Inr (replicate 32 0)" "encodeBase64url demo_runtime (replicate 32 0) = replicate 32 CHR ''B''"
    by code_simp+
  then show ?thesis
    by (simp add: resolveRegistrySigner_def parseRegistrySecretKey_def findMatchingActiveKey_def demo_signer_def demo_claw_env_def)
qed

lemma demo_served_ok: "crlClaimsSchema (ulids demo_runtime) demo_served"
  by code_simp

lemma demo_list_served: "crl_route demo_signer demo_request 0 ''L'' demo_revoked_db = Inr (demo_served, ''C'')"
proof -
  have rows: "crl_rows demo_revoked_db = [\<lparr>cs_id = ''r'', cs_jti = ''00000000000000000000000005'', cs_reason = None, cs_revoked_at = ''t'',
      cs_agent_did = demo_did CHR ''1''\<rparr>]"
    by (simp add: crl_rows_def crl_join_def demo_revoked_db_def demo_live_db_def demo_agent_def)
  have iss: "resolvePublicRegistryIssuer (rs_env demo_signer) demo_request = Some ''https://a.b''" by code_simp
  have build: "buildCrlClaims (\<lambda>_. Some 5) (crl_rows demo_revoked_db) EnvLocal ''https://a.b'' ''L'' (seconds_of 0) = Inr demo_served"
    by (simp add: rows buildCrlClaims_def crl_entry_def parseRevokedAtSeconds_def demo_served_def CRL_TTL_SECONDS_def seconds_of_def)
  have sign: "signCRL demo_runtime demo_crl_jose demo_served ''K'' (replicate 32 0, replicate 32 0) = Inr ''C''"
    using demo_served_ok by (simp add: signCRL_def parseCrlClaims_def demo_crl_jose_def read_crl_value)
  show ?thesis using iss build sign demo_resolve_signer rows
    by (simp add: crl_route_def demo_signer_def demo_claw_env_def)
qed

theorem served_list_is_complete_witness:
  "crl_route demo_signer demo_request 0 ''L'' demo_revoked_db = Inr (demo_served, ''C'') \<and>
   rv_jti ` set (crl_revocations demo_served) = revoked_jtis demo_revoked_db"
  using served_list_is_complete[OF demo_list_served] demo_list_served by blast

end
