(* ===== verification/End_To_End.thy ===== *)
theory End_To_End
  imports Registry_Crl
begin

text \<open>
  Registry and proxy together: what the proxy's authentication (\<open>Proxy_Auth\<close>) gives when the answers it fetches are
  those of the registry's routes (\<open>Registry_Crl\<close>, \<open>Agent_Sessions\<close>) on its database.

  Shown: a token that the registry has revoked gets no identity from a fail-closed proxy whose lists are from
  after the revocation; a message is let through only for an agent with a live session, so revoking the session
  stops its messages.
\<close>

section \<open>Revoked tokens\<close>

text \<open>
  The revocation lists the proxy receives are answers of the registry's route, each on a database \<open>D\<close> holds of.
\<close>
definition lists_from :: "(registry_db \<Rightarrow> bool) \<Rightarrow> registry_signer \<Rightarrow> world \<Rightarrow> auth_config \<Rightarrow> bool" where
  "lists_from D rs w cfg \<longleftrightarrow>
     (\<forall>payload. registry_answer w cfg ''/v1/crl'' payload \<longrightarrow>
        (\<exists>rq now crlId db claims crl. D db \<and> crl_route rs rq now crlId db = Inr (claims, crl) \<and> payload = JObj [(''crl'', JStr crl)]))"

text \<open>
  Verifying a token yields the payload that was signed, and the schema reads a list back from its JavaScript object.
\<close>
definition crl_token_law :: "jose_lib \<Rightarrow> bool" where
  "crl_token_law jl \<longleftrightarrow>
     (\<forall>kid v x d token now key issuer body. token_sign jl ''CRL'' kid v x d = Some token \<longrightarrow>
        token_verify jl now token key ''CRL'' issuer = Some body \<longrightarrow> body = v) \<and>
     (\<forall>c. crl_shape jl (crl_value c) = Some c)"

lemma signCRL_Inr:
  "crl_token_law jl \<Longrightarrow> signCRL r jl c kid pair = Inr token \<Longrightarrow> token_verify jl now token key ''CRL'' issuer = Some body \<Longrightarrow> body = crl_value c"
  by (auto simp: signCRL_def crl_token_law_def parseCrlClaims_Some)

text \<open>Every list the proxy has accepted is one the route has built.\<close>
lemma registry_crl_from_route:
  assumes "lists_from D rs w cfg" "jose cfg = ce_jose (rs_env rs)" "crl_token_law (jose cfg)" "registry_crl w cfg claims"
  shows "\<exists>rq now crlId db crl. D db \<and> crl_route rs rq now crlId db = Inr (claims, crl)"
proof -
  obtain payload token now body c and key :: VerificationKey where p: "registry_answer w cfg ''/v1/crl'' payload" "js_get payload ''crl'' = JStr token"
      "token_verify (jose cfg) now token (vk_x key) ''CRL'' (crlExpectedIssuer cfg) = Some body" "crl_shape (jose cfg) body = Some c"
      "parseCrlClaims (ulids (rt cfg)) (jose cfg) (crl_value c) = Some claims"
    using assms(4) unfolding registry_crl_def by blast
  obtain rq now' crlId db built crl where r: "D db" "crl_route rs rq now' crlId db = Inr (built, crl)" "payload = JObj [(''crl'', JStr crl)]"
    using assms(1) p(1) unfolding lists_from_def by blast
  obtain kid pair where s: "signCRL (ce_runtime (rs_env rs)) (jose cfg) built kid pair = Inr crl"
    using crl_route_Inr(2)[OF r(2)] assms(2) by auto
  have "token = crl" using p(2) r(3) by simp
  then have "body = crl_value built" using signCRL_Inr[OF assms(3) s] p(3) by simp
  then have "claims = built" using p(4,5) assms(3) by (auto simp: crl_token_law_def parseCrlClaims_Some)
  then show ?thesis using r(1,2) by blast
qed

text \<open>
  (C1) Once the registry has revoked a token, whatever registrations, revocations and reissues follow: a fail-closed
  proxy whose revocation lists are the registry's answers from after that time gives no request an identity
  from that token.
\<close>
theorem revoked_token_gets_no_identity:
  assumes "refs_ok s" and "j \<in> rw_jti ` set (db_revocations (lc_db s))"
    and "lists_from (\<lambda>db. \<exists>s'. tx_reach s s' \<and> db = lc_db s') rs w cfg"
    and "jose cfg = ce_jose (rs_env rs)" and "crl_token_law (jose cfg)"
    and "others_keep w cfg" and "staleBehavior (crl_cfg cfg) = FailClosed"
    and "auth_inv w cfg listed st" and "proxyAuth w cfg rq st = (Inr (Some ctx), st')"
  shows "au_aitJti ctx \<noteq> j"
proof
  assume st: "au_aitJti ctx = j"
  obtain claims where c: "ctx = auth_context claims" "authenticated w cfg rq claims"
    using ensures_proxyAuth[OF assms(6), of listed rq] assms(8,9) unfolding ensures_def by fastforce
  then have "crl_answer w cfg j False" using st by (simp add: authenticated_def auth_context_def)
  then obtain list where l: "registry_crl w cfg list" "j \<notin> rv_jti ` set (crl_revocations list)"
    using assms(7) by (auto simp: crl_answer_def)
  obtain rq' now crlId s' crl where "tx_reach s s'" "crl_route rs rq' now crlId (lc_db s') = Inr (list, crl)"
    using registry_crl_from_route[OF assms(3,4,5) l(1)] by blast
  then show False using later_list_names[OF assms(1,2)] l(2) by blast
qed

section \<open>Live sessions\<close>

text \<open>
  The registry confirms an access token only by its validation route, on a database \<open>D\<close> holds of.
\<close>
definition validations_from :: "(registry_db \<Rightarrow> bool) \<Rightarrow> http_crypto \<Rightarrow> (string \<Rightarrow> ms option) \<Rightarrow> world \<Rightarrow> auth_config \<Rightarrow> bool" where
  "validations_from D hcrypto date_parse w cfg \<longleftrightarrow>
     (\<forall>n url access body answer. toRegistryUrl (urls cfg) (registry cfg) AGENT_AUTH_VALIDATE_PATH = Some url \<longrightarrow>
        fetch w n url (Some access) body = Response 204 answer \<longrightarrow>
        (\<exists>db now t db'. D db \<and> validate_route hcrypto date_parse now t (Some body) (Some access) db = Inr db'))"

lemma access_body_parses:
  assumes "aitClaimsSchema r claims"
  shows "parseAgentAuthValidatePayload (Some (access_body claims)) = Inr (ait_sub claims, ait_jti claims)"
proof -
  obtain p where p: "parseAgentDid (ulids r) (ait_sub claims) = Inr p" using aitClaimsSchema_authority[OF assms] by blast
  obtain u where u: "parseUlid (ulids r) (ait_jti claims) = Inr u"
    using assms by (auto simp: aitClaimsSchema_def split: sum.splits)
  have "\<forall>c \<in> set (ait_jti claims). \<not> is_ws c" "ait_jti claims \<noteq> []"
    using parseUlid_Inr[OF u] by (auto simp: ULID_PATTERN_def list_all_iff dest: ulid_char_not(2))
  then have "trim (ait_jti claims) = ait_jti claims" "ait_jti claims \<noteq> []" by (auto intro: trim_noop)
  then show ?thesis using agent_did_chars(2)[OF p] agent_did_nonempty[OF p]
    by (simp add: parseAgentAuthValidatePayload_def access_body_def trimmed_field_def)
qed

text \<open>
  (C2) On the message paths the proxy lets a request through only if at the registry, at some moment \<open>D\<close> holds of, its
  agent was active with this token as its current one, and its session was active with the access token the
  request carries, unexpired.
\<close>
theorem message_needs_live_session:
  assumes "validations_from D hcrypto date_parse w cfg" and "others_keep w cfg"
    and "auth_inv w cfg listed st" and "proxyAuth w cfg rq st = (Inr (Some ctx), st')" and "needs_access (rq_path rq)"
  shows "\<exists>db now access accessToken. D db \<and> parseAgentAccessHeader (rq_header rq ''x-claw-agent-access'') = Inr access \<and>
    parseAccessToken (Some access) = Inr accessToken \<and>
    access_valid hcrypto date_parse now db (au_agentDid ctx) (au_aitJti ctx) accessToken"
proof -
  obtain claims where c: "ctx = auth_context claims" "authenticated w cfg rq claims"
    using ensures_proxyAuth[OF assms(2), of listed rq] assms(3,4) unfolding ensures_def by fastforce
  obtain token where "registry_ait w cfg rq token claims" using c(2) unfolding authenticated_def by blast
  then have schema: "aitClaimsSchema (rt cfg) claims" unfolding registry_ait_def by blast
  have "access_confirmed w cfg rq claims" using c(2) assms(5) unfolding authenticated_def by blast
  then obtain access url n answer where a: "parseAgentAccessHeader (rq_header rq ''x-claw-agent-access'') = Inr access"
      "toRegistryUrl (urls cfg) (registry cfg) AGENT_AUTH_VALIDATE_PATH = Some url" "fetch w n url (Some access) (access_body claims) = Response 204 answer"
    unfolding access_confirmed_def by blast
  obtain db now t db' where d: "D db" "validate_route hcrypto date_parse now t (Some (access_body claims)) (Some access) db = Inr db'"
    using assms(1) a(2,3) unfolding validations_from_def by blast
  obtain agentDid aitJti accessToken where v: "parseAgentAuthValidatePayload (Some (access_body claims)) = Inr (agentDid, aitJti)"
      "parseAccessToken (Some access) = Inr accessToken" "access_valid hcrypto date_parse now db agentDid aitJti accessToken"
    using validate_ok_iff[of hcrypto date_parse now t "Some (access_body claims)" "Some access" db] d(2) by blast
  have "agentDid = au_agentDid ctx" "aitJti = au_aitJti ctx" using v(1) access_body_parses[OF schema] c(1) by (simp_all add: auth_context_def)
  then show ?thesis using d(1) a(1) v(2,3) by blast
qed

section \<open>Witnesses\<close>

text \<open>The registry's database: an agent with a live session, and an earlier token of it revoked.\<close>
definition demo_access :: string where "demo_access = ''clw_agt_x''"

definition demo_session_db :: registry_db where
  "demo_session_db = demo_live_db\<lparr>db_sessions := [(demo_session ''sa'' ''a'')\<lparr>sr_access_key_hash := hashAgentToken demo_crypto demo_access,
     sr_access_key_prefix := deriveAccessTokenLookupPrefix demo_access\<rparr>]\<rparr>"

definition demo_lifecycle :: lifecycle where
  "demo_lifecycle = \<lparr>lc_db = demo_revoked_db, lc_registering = [], lc_revoking = [], lc_reissuing = [], lc_registered = [], lc_tokens = []\<rparr>"

definition demo_proxy :: auth_config where
  "demo_proxy = demo_auth_config\<lparr>jose := demo_crl_jose\<rparr>"

text \<open>The registry as the proxy sees it: it serves its keys and list, and confirms one access token of one agent.\<close>
definition demo_registry :: world where
  "demo_registry = demo_world\<lparr>fetch := (\<lambda>_ url access body.
       if url = ''/v1/crl'' then Response 200 (JObj [(''crl'', JStr ''C'')])
       else if url = ''/.well-known/claw-keys.json'' then Response 200 (JObj [(''keys'', JArr [JNull])])
       else if access = Some demo_access \<and> body = access_body demo_ait then Response 204 JUndefined else Response 401 JUndefined),
     store_isAgentKnown := (\<lambda>_ _. Inr True)\<rparr>"

definition demo_message :: proxy_request where
  "demo_message = demo_request\<lparr>rq_path := ''/hooks/message'', rq_headers := rq_headers demo_request @ [(''x-claw-agent-access'', demo_access)]\<rparr>"

lemma demo_lists: "lists_from (\<lambda>db. \<exists>s'. tx_reach demo_lifecycle s' \<and> db = lc_db s') demo_signer demo_registry demo_proxy"
proof -
  have "\<exists>s'. tx_reach demo_lifecycle s' \<and> demo_revoked_db = lc_db s'" using tx_reach.here[of demo_lifecycle] by (auto simp: demo_lifecycle_def intro!: exI[of _ demo_lifecycle])
  moreover have "payload = JObj [(''crl'', JStr ''C'')]" if "registry_answer demo_registry demo_proxy ''/v1/crl'' payload" for payload
    using that by (auto simp: registry_answer_def demo_registry_def demo_proxy_def demo_auth_config_def toRegistryUrl_def demo_urls_def Let_def)
  ultimately show ?thesis unfolding lists_from_def using demo_list_served by blast
qed

lemma demo_validates: "\<exists>db'. validate_route demo_crypto (\<lambda>_. Some 5) 1 ''t'' (Some (access_body demo_ait)) (Some demo_access) demo_session_db = Inr db'"
proof -
  have "parseAgentAuthValidatePayload (Some (access_body demo_ait)) = Inr (demo_did CHR ''1'', ''00000000000000000000000004'')"
    by (simp add: parseAgentAuthValidatePayload_def access_body_def trimmed_field_def demo_ait_def demo_did_def trim_noop is_ws_def)
  moreover have "parseAccessToken (Some demo_access) = Inr demo_access"
    by (simp add: parseAccessToken_def parseAgentToken_def demo_access_def AGENT_ACCESS_TOKEN_MARKER_def trim_noop is_ws_def startsWith_iff)
  moreover have "access_valid demo_crypto (\<lambda>_. Some 5) 1 demo_session_db (demo_did CHR ''1'') ''00000000000000000000000004'' demo_access"
    by (simp add: access_valid_def findOwnedAgentByDid_def findAgentAuthSessionByAgentId_def demo_session_db_def demo_live_db_def demo_agent_def demo_session_def)
  ultimately show ?thesis unfolding validate_ok_iff by blast
qed

subsection \<open>An accepted message\<close>

abbreviation demo_keys_state :: "nat \<Rightarrow> auth_state" where
  "demo_keys_state n \<equiv> \<lparr>registryKeysCache = Some (5000, [\<lparr>vk_kid = ''K'', vk_x = replicate 32 CHR ''B''\<rparr>]), crlCache = empty_cache, tick = n\<rparr>"

lemma demo_message_parts:
  "rq_path demo_message \<noteq> ''/health''" "parseClawAuthorizationHeader (rq_header demo_message ''authorization'') = Inr ''A''"
  "toPathWithQuery (urls demo_proxy) (rq_url demo_message) = Some ''/pair/start''" "decodeBase64url (rt demo_proxy) (ait_x demo_ait) = Inr (replicate 32 0)"
  "verifyAitClaims demo_registry demo_proxy ''A'' demo_message demo_state = (Inr demo_ait, demo_keys_state 3)"
  "fst (check_crl demo_registry demo_proxy demo_ait (demo_keys_state 6)) = Inr ()"
  "needs_access (rq_path demo_message)"
  by code_simp+

lemma demo_message_known: "check_known demo_registry demo_message demo_ait s = (Inr (), s\<lparr>tick := Suc (tick s)\<rparr>)"
  by (simp add: check_known_def bindA_def call_def ret_def demo_registry_def demo_world_def demo_message_def shouldSkipKnownAgentCheck_def
      PAIR_START_PATH_def PAIR_CONFIRM_PATH_def PAIR_STATUS_PATH_def RELAY_CONNECT_PATH_def assertKnownTrustedAgent_def)

lemma demo_message_access: "check_access demo_registry demo_proxy demo_message demo_ait s = (Inr (), s\<lparr>tick := Suc (tick s)\<rparr>)"
proof -
  have "parseAgentAccessHeader (rq_header demo_message ''x-claw-agent-access'') = Inr demo_access"
    "toRegistryUrl (urls demo_proxy) (registry demo_proxy) AGENT_AUTH_VALIDATE_PATH = Some ''/v1/agents/auth/validate''" by code_simp+
  then show ?thesis using demo_message_parts(7)
    by (simp add: check_access_def bindA_def call_def ret_def demo_registry_def demo_world_def)
qed

lemma demo_message_proof: "check_proof demo_registry demo_proxy demo_message ''/pair/start'' demo_ait (replicate 32 0) (demo_keys_state 3) = (Inr (), demo_keys_state 5)"
proof -
  let ?i = "proof_input demo_proxy demo_message ''/pair/start'' (replicate 32 0) 5000"
  have h: "normalizeSignatureHeaders (vi_headers ?i) = Inr demo_signature" by code_simp
  have f: "?i = demo_input\<lparr>vi_headers := vi_headers ?i\<rparr>" by (simp add: proof_input_def demo_proxy_def demo_message_def demo_request_def)
  obtain canonical where "request_verifies demo_runtime (hc demo_auth_config) demo_input demo_signature 5000 300 5 canonical"
    using demo_token_verifies by blast
  then have v: "request_verifies demo_runtime (hc demo_auth_config) ?i demo_signature 5000 300 5 canonical"
    using h by (subst f) (auto simp: request_verifies_def)
  have now: "resolveNowMs 5000 (vi_nowMs ?i) = Inr 5000" by (simp add: proof_input_def)
  have ok: "verifyHttpRequest demo_runtime (hc demo_auth_config) 5000 ?i = Inr (canonical, ch_proof demo_signature)"
    unfolding verifyHttpRequest_Inr using v now by blast
  have skew: "resolveMaxTimestampSkewSeconds (vi_maxTimestampSkewSeconds ?i) = Inr 300" using v by (simp add: request_verifies_def)
  have did: "trim (ait_sub demo_ait) \<noteq> []" by code_simp
  have ttl: "resolveNonceTtlMs (JNum (300 * 1000)) 300 = Inr 300000" by (simp add: resolveNonceTtlMs_def js_nullish_def)
  have "verifyHttpRequestWithReplayProtection demo_runtime (hc demo_auth_config) (\<lambda>a c ttl t u. (nonce demo_registry 4 a c ttl t, u)) 5000 5000
     ?i (ait_sub demo_ait) (JNum (300 * 1000)) () = (Inr (canonical, ch_proof demo_signature), ())"
    by (rule with_replay_accepts[OF ok h did now skew ttl]) (simp add: demo_registry_def demo_world_def)
  moreover have "rt demo_proxy = demo_runtime" "hc demo_proxy = hc demo_auth_config" "maxTimestampSkewSeconds demo_proxy = 300"
      "clock_at demo_registry n = 5000" "others demo_registry n s = s" for n s
    by (simp_all add: demo_proxy_def demo_auth_config_def demo_registry_def demo_world_def)
  ultimately show ?thesis by (simp add: check_proof_def bindA_def clock_def call_def ret_def)
qed

lemma demo_message_accepted: "\<exists>s'. proxyAuth demo_registry demo_proxy demo_message demo_state = (Inr (Some (auth_context demo_ait)), s')"
proof -
  have trust: "check_trust_state demo_registry demo_ait (demo_keys_state 5) = (Inr (), demo_keys_state 6)"
    by (simp add: check_trust_state_def bindA_def call_def ret_def demo_registry_def demo_world_def)
  obtain s where crl: "check_crl demo_registry demo_proxy demo_ait (demo_keys_state 6) = (Inr (), s)"
    using demo_message_parts(6) by (metis prod.collapse)
  show ?thesis
    using demo_message_parts(1-5)
    by (simp add: proxyAuth_def bindA_def ret_def demo_message_proof trust crl demo_message_known demo_message_access)
qed

lemma demo_registry_inv: "others_keep demo_registry demo_proxy" "auth_inv demo_registry demo_proxy False demo_state"
  by (simp_all add: others_keep_def auth_inv_def demo_registry_def demo_world_def demo_state_def)

theorem revoked_token_gets_no_identity_witness:
  "(\<exists>s'. proxyAuth demo_registry demo_proxy demo_message demo_state = (Inr (Some (auth_context demo_ait)), s')) \<and>
   au_aitJti (auth_context demo_ait) \<noteq> ''00000000000000000000000005''"
proof -
  have refs: "refs_ok demo_lifecycle" "''00000000000000000000000005'' \<in> rw_jti ` set (db_revocations (lc_db demo_lifecycle))"
    by (simp_all add: refs_ok_def demo_lifecycle_def demo_revoked_db_def demo_live_db_def demo_agent_def)
  have j: "jose demo_proxy = ce_jose (rs_env demo_signer)" by (simp add: demo_proxy_def demo_signer_def)
  have law: "crl_token_law (jose demo_proxy)" by (simp add: crl_token_law_def demo_proxy_def demo_crl_jose_def read_crl_value)
  have closed: "staleBehavior (crl_cfg demo_proxy) = FailClosed" by (simp add: demo_proxy_def demo_auth_config_def demo_config_def)
  obtain s' where run: "proxyAuth demo_registry demo_proxy demo_message demo_state = (Inr (Some (auth_context demo_ait)), s')"
    using demo_message_accepted by blast
  show ?thesis
    using revoked_token_gets_no_identity[OF refs demo_lists j law demo_registry_inv(1) closed demo_registry_inv(2) run] run by blast
qed

theorem message_needs_live_session_witness:
  "\<exists>db now access accessToken. db = demo_session_db \<and> parseAgentAccessHeader (rq_header demo_message ''x-claw-agent-access'') = Inr access \<and>
     parseAccessToken (Some access) = Inr accessToken \<and>
     access_valid demo_crypto (\<lambda>_. Some 5) now db (au_agentDid (auth_context demo_ait)) (au_aitJti (auth_context demo_ait)) accessToken"
proof -
  have v: "validations_from (\<lambda>db. db = demo_session_db) demo_crypto (\<lambda>_. Some 5) demo_registry demo_proxy"
    using demo_validates by (auto simp: validations_from_def demo_registry_def split: if_splits)
  show ?thesis
    using message_needs_live_session[OF v demo_registry_inv] demo_message_accepted demo_message_parts(7) by blast
qed

end
