(* ===== verification/Identity_Client.thy ===== *)
theory Identity_Client
  imports Trust_Policy Request_Origin
begin

text \<open>
  The client that asks the registry who owns an agent and who belongs to a group:
  \<open>packages/sdk/src/registry-identity-client.ts\<close>. The host's \<open>URL\<close> class is \<open>url_lib\<close>, \<open>fetch\<close> is an argument; its
  answer is a status and the parsed body (\<open>undefined\<close> when the body is not JSON), or the failure to reach the
  registry. An exception is an \<open>AppError\<close> or something else (\<open>service_failure\<close>); the details of an error are left
  out.

  Shown: an answer is believed only when the registry gave it with a successful status, in the right shape and to
  this client's credentials; with it the group guard of \<open>Trust_Policy\<close> is read down to the registry's answers.
\<close>

definition INTERNAL_SERVICE_ID_HEADER :: string where "INTERNAL_SERVICE_ID_HEADER = ''x-claw-service-id''"
definition INTERNAL_SERVICE_SECRET_HEADER :: string where "INTERNAL_SERVICE_SECRET_HEADER = ''x-claw-service-secret''"
definition INTERNAL_IDENTITY_AGENT_OWNERSHIP_PATH :: string where
  "INTERNAL_IDENTITY_AGENT_OWNERSHIP_PATH = ''/internal/v1/identity/agent-ownership''"
definition GROUP_MEMBERSHIP_CHECK_PATH :: string where
  "GROUP_MEMBERSHIP_CHECK_PATH = ''/internal/v1/groups/membership/check''"

record RegistryIdentityClientInput =
  ic_registryUrl :: string
  ic_serviceId :: string
  ic_serviceSecret :: string

text \<open>\<open>agentStatus\<close> is \<open>None\<close> for \<open>null\<close>.\<close>
record AgentOwnershipResult =
  ow_ownsAgent :: bool
  ow_agentStatus :: "string option"

datatype identity_answer = IdentityUnreachable | IdentityAnswer nat jsval

text \<open>\<open>fetch url headers body\<close> for the \<open>POST\<close> requests of the client.\<close>
type_synonym identity_fetch = "string \<Rightarrow> (string \<times> string) list \<Rightarrow> jsval \<Rightarrow> identity_answer"

definition client_normalizeRegistryUrl :: "url_lib \<Rightarrow> string \<Rightarrow> string option" where
  "client_normalizeRegistryUrl ul registryUrl =
     (let normalized = (if endsWith registryUrl ''/'' then registryUrl else registryUrl @ ''/'') in
      map_option u_href (new_URL ul normalized None))"

text \<open>The message of the registry's error, when it has one; the code is only reported.\<close>
definition parseRegistryErrorEnvelope :: "jsval \<Rightarrow> string option" where
  "parseRegistryErrorEnvelope payload =
     (let error = js_get payload ''error'' in
      if \<not> is_object payload \<or> \<not> is_object error then None
      else (case js_get error ''message'' of JStr m \<Rightarrow> Some m | _ \<Rightarrow> None))"

definition identity_invalid_response :: app_error where
  "identity_invalid_response = AppError ''IDENTITY_SERVICE_INVALID_RESPONSE'' ''Registry identity response is invalid'' 503"

definition parseOwnershipResponse :: "jsval \<Rightarrow> (app_error, AgentOwnershipResult) result" where
  "parseOwnershipResponse payload =
     throw_if (\<not> is_object payload) identity_invalid_response
     (case (js_get payload ''ownsAgent'', js_get payload ''agentStatus'') of
        (JBool ownsAgent, JStr agentStatus) \<Rightarrow>
          if agentStatus = ''active'' \<or> agentStatus = ''revoked''
          then Inr \<lparr>ow_ownsAgent = ownsAgent, ow_agentStatus = Some agentStatus\<rparr> else Inl identity_invalid_response
      | (JBool ownsAgent, JNull) \<Rightarrow> Inr \<lparr>ow_ownsAgent = ownsAgent, ow_agentStatus = None\<rparr>
      | _ \<Rightarrow> Inl identity_invalid_response)"

definition parseGroupMembershipResponse :: "jsval \<Rightarrow> (app_error, bool) result" where
  "parseGroupMembershipResponse payload =
     throw_if (\<not> is_object payload) identity_invalid_response
     (case js_get payload ''isMember'' of JBool isMember \<Rightarrow> Inr isMember | _ \<Rightarrow> Inl identity_invalid_response)"

definition validateServiceIdentity :: "RegistryIdentityClientInput \<Rightarrow> (app_error, unit) result" where
  "validateServiceIdentity input =
     throw_if (length (trim (ic_serviceId input)) = 0 \<or> length (trim (ic_serviceSecret input)) = 0)
       (AppError ''IDENTITY_SERVICE_CONFIG_INVALID'' ''Registry internal service credentials are not configured'' 500)
       (Inr ())"

definition validateOwnershipInput :: "ulid_lib \<Rightarrow> string \<Rightarrow> string \<Rightarrow> (app_error, unit) result" where
  "validateOwnershipInput ul ownerDid agentDid =
     catchE (bindE (parseHumanDid ul ownerDid) (\<lambda>_. bindE (parseAgentDid ul agentDid) (\<lambda>_. Inr ())))
       (AppError ''IDENTITY_SERVICE_INVALID_INPUT'' ''Ownership input is invalid'' 400)"

definition validateGroupMembershipInput :: "ulid_lib \<Rightarrow> string \<Rightarrow> string \<Rightarrow> (app_error, unit) result" where
  "validateGroupMembershipInput ul groupId memberAgentDid =
     catchE (bindE (parseGroupId ul groupId) (\<lambda>_. bindE (parseAgentDid ul memberAgentDid) (\<lambda>_. Inr ())))
       (AppError ''IDENTITY_SERVICE_INVALID_INPUT'' ''Group membership input is invalid'' 400)"

text \<open>An \<open>AppError\<close> thrown by a function of this file.\<close>
definition app :: "(app_error, 'a) result \<Rightarrow> (service_failure, 'a) result" where
  "app r = map_sum AppFailure id r"

text \<open>\<open>createRegistryIdentityClient\<close> up to the object it returns: the normalised URL and the credentials.\<close>
definition createRegistryIdentityClient ::
  "url_lib \<Rightarrow> RegistryIdentityClientInput \<Rightarrow> (service_failure, RegistryIdentityClientInput) result" where
  "createRegistryIdentityClient ul input =
     bindE (of_option OtherFailure (client_normalizeRegistryUrl ul (ic_registryUrl input))) (\<lambda>registryUrl.
     bindE (app (validateServiceIdentity input)) (\<lambda>_.
     Inr (input\<lparr>ic_registryUrl := registryUrl\<rparr>)))"

definition credential_headers :: "RegistryIdentityClientInput \<Rightarrow> (string \<times> string) list" where
  "credential_headers client =
     [(''content-type'', ''application/json''), (INTERNAL_SERVICE_ID_HEADER, trim (ic_serviceId client)),
      (INTERNAL_SERVICE_SECRET_HEADER, trim (ic_serviceSecret client))]"

text \<open>The request and the handling of its status, which both methods share.\<close>
definition identity_post ::
  "url_lib \<Rightarrow> identity_fetch \<Rightarrow> RegistryIdentityClientInput \<Rightarrow> string \<Rightarrow> jsval \<Rightarrow> (service_failure, jsval) result" where
  "identity_post ul fetchImpl client path requestBody =
     bindE (of_option OtherFailure (map_option u_href (new_URL ul (tl path) (Some (ic_registryUrl client))))) (\<lambda>requestUrl.
     case fetchImpl requestUrl (credential_headers client) requestBody of
       IdentityUnreachable \<Rightarrow>
         Inl (AppFailure (AppError ''IDENTITY_SERVICE_UNAVAILABLE'' ''Registry identity service is unavailable'' 503))
     | IdentityAnswer status responseBody \<Rightarrow>
         if status = 401 \<or> status = 403 then
           Inl (AppFailure (AppError ''IDENTITY_SERVICE_UNAUTHORIZED''
             (case parseRegistryErrorEnvelope responseBody of
                Some m \<Rightarrow> m | None \<Rightarrow> ''Registry internal service authorization failed'') 503))
         else if \<not> (200 \<le> status \<and> status \<le> 299) then
           Inl (AppFailure (AppError ''IDENTITY_SERVICE_UNAVAILABLE''
             (case parseRegistryErrorEnvelope responseBody of
                Some m \<Rightarrow> m | None \<Rightarrow> ''Registry identity service is unavailable'') 503))
         else Inr responseBody)"

definition ownership_body :: "string \<Rightarrow> string \<Rightarrow> jsval" where
  "ownership_body ownerDid agentDid = JObj [(''ownerDid'', JStr ownerDid), (''agentDid'', JStr agentDid)]"

definition checkAgentOwnership ::
  "ulid_lib \<Rightarrow> url_lib \<Rightarrow> identity_fetch \<Rightarrow> RegistryIdentityClientInput \<Rightarrow> string \<Rightarrow> string \<Rightarrow>
   (service_failure, AgentOwnershipResult) result" where
  "checkAgentOwnership ulib ul fetchImpl client ownerDid agentDid =
     bindE (app (validateOwnershipInput ulib ownerDid agentDid)) (\<lambda>_.
     bindE (identity_post ul fetchImpl client INTERNAL_IDENTITY_AGENT_OWNERSHIP_PATH (ownership_body ownerDid agentDid))
       (\<lambda>responseBody. app (parseOwnershipResponse responseBody)))"

definition membership_body :: "string \<Rightarrow> string \<Rightarrow> jsval" where
  "membership_body groupId memberAgentDid = JObj [(''groupId'', JStr groupId), (''memberAgentDid'', JStr memberAgentDid)]"

definition checkGroupMembership ::
  "ulid_lib \<Rightarrow> url_lib \<Rightarrow> identity_fetch \<Rightarrow> RegistryIdentityClientInput \<Rightarrow> string \<Rightarrow> string \<Rightarrow>
   (service_failure, bool) result" where
  "checkGroupMembership ulib ul fetchImpl client groupId memberAgentDid =
     bindE (app (validateGroupMembershipInput ulib groupId memberAgentDid)) (\<lambda>_.
     bindE (identity_post ul fetchImpl client GROUP_MEMBERSHIP_CHECK_PATH (membership_body groupId memberAgentDid))
       (\<lambda>responseBody. app (parseGroupMembershipResponse responseBody)))"

section \<open>What an answer rests on\<close>

lemma app_simps [simp]: "app (Inl e) = Inl (AppFailure e)" "app (Inr x) = Inr x"
  by (simp_all add: app_def)

lemma app_eq_Inr [simp]: "app r = Inr x \<longleftrightarrow> r = Inr x"
  by (cases r) auto

lemma app_eq_Inl [simp]: "app r = Inl e \<longleftrightarrow> (\<exists>d. r = Inl d \<and> e = AppFailure d)"
  by (cases r) auto

text \<open>The registry answered this client's request with success.\<close>
definition registry_said :: "url_lib \<Rightarrow> identity_fetch \<Rightarrow> RegistryIdentityClientInput \<Rightarrow> string \<Rightarrow> jsval \<Rightarrow> jsval \<Rightarrow> bool" where
  "registry_said ul fetchImpl client path body answer \<longleftrightarrow>
     (\<exists>u n. new_URL ul (tl path) (Some (ic_registryUrl client)) = Some u \<and>
            fetchImpl (u_href u) (credential_headers client) body = IdentityAnswer n answer \<and> 200 \<le> n \<and> n \<le> 299)"

lemma identity_post_Inr:
  "identity_post ul f client path body = Inr answer \<longleftrightarrow> registry_said ul f client path body answer"
  by (cases "new_URL ul (tl path) (Some (ic_registryUrl client))")
    (auto simp: identity_post_def registry_said_def simp del: bindE_eq_Inr split: identity_answer.split)

lemma identity_post_OtherFailure:
  "identity_post ul f client path body = Inl OtherFailure \<longleftrightarrow> new_URL ul (tl path) (Some (ic_registryUrl client)) = None"
  by (cases "new_URL ul (tl path) (Some (ic_registryUrl client))")
    (auto simp: identity_post_def simp del: bindE_eq_Inl split: identity_answer.split)

lemma parseOwnershipResponse_Inr:
  "parseOwnershipResponse v = Inr r \<longleftrightarrow>
     is_object v \<and> js_get v ''ownsAgent'' = JBool (ow_ownsAgent r) \<and>
     ((\<exists>s. ow_agentStatus r = Some s \<and> js_get v ''agentStatus'' = JStr s \<and> s \<in> {''active'', ''revoked''}) \<or>
      (ow_agentStatus r = None \<and> js_get v ''agentStatus'' = JNull))"
  by (cases r) (auto simp: parseOwnershipResponse_def split: jsval.splits if_splits)

lemma checkAgentOwnership_Inr:
  "checkAgentOwnership ulib ul f client ownerDid agentDid = Inr r \<longleftrightarrow>
     (\<exists>h answer. parseHumanDid ulib ownerDid = Inr h \<and> is_agent_did ulib agentDid \<and>
        registry_said ul f client INTERNAL_IDENTITY_AGENT_OWNERSHIP_PATH (ownership_body ownerDid agentDid) answer \<and>
        parseOwnershipResponse answer = Inr r)"
  by (auto simp: checkAgentOwnership_def validateOwnershipInput_def identity_post_Inr is_agent_did_iff)

lemma parseGroupMembershipResponse_Inr:
  "parseGroupMembershipResponse v = Inr b \<longleftrightarrow> is_object v \<and> js_get v ''isMember'' = JBool b"
  by (cases "js_get v ''isMember''") (auto simp: parseGroupMembershipResponse_def)

lemma checkGroupMembership_Inr:
  "checkGroupMembership ulib ul f client groupId member = Inr b \<longleftrightarrow>
     (\<exists>n answer. parseGroupId ulib groupId = Inr n \<and> is_agent_did ulib member \<and>
        registry_said ul f client GROUP_MEMBERSHIP_CHECK_PATH (membership_body groupId member) answer \<and>
        is_object answer \<and> js_get answer ''isMember'' = JBool b)"
  by (auto simp: checkGroupMembership_def validateGroupMembershipInput_def identity_post_Inr is_agent_did_iff
      parseGroupMembershipResponse_Inr)

text \<open>
  A message to a group passes the proxy's guard only when the registry itself, asked with this proxy's
  credentials, answered with success that both the sender and the recipient are members of the group; an
  unreachable registry, an error status or a malformed answer never counts as membership.
\<close>
theorem group_guard_needs_registry_answers:
  "createRegistryGroupTrustAuthorizer ulib (checkGroupMembership ulib ul f client) first groupId sender recipient = Inr () \<longleftrightarrow>
   (\<exists>n m a b. parseGroupId ulib groupId = Inr n \<and> parseGroupId ulib n = Inr m \<and>
      is_agent_did ulib sender \<and> is_agent_did ulib recipient \<and>
      registry_said ul f client GROUP_MEMBERSHIP_CHECK_PATH (membership_body n sender) a \<and>
      is_object a \<and> js_get a ''isMember'' = JBool True \<and>
      registry_said ul f client GROUP_MEMBERSHIP_CHECK_PATH (membership_body n recipient) b \<and>
      is_object b \<and> js_get b ''isMember'' = JBool True)"
proof -
  let ?check = "checkGroupMembership ulib ul f client"
  have "createRegistryGroupTrustAuthorizer ulib ?check first groupId sender recipient = Inr () \<longleftrightarrow>
      (\<exists>n. parseGroupId ulib groupId = Inr n \<and> is_agent_did ulib sender \<and> is_agent_did ulib recipient \<and>
           ?check n sender = Inr True \<and> ?check n recipient = Inr True)"
    by (rule group_authorizer_iff)
  then show ?thesis unfolding checkGroupMembership_Inr by blast
qed

end
