(* ===== verification/Registry_Accounts.thy ===== *)
theory Registry_Accounts
  imports Agent_Sessions Identity_Client
begin

text \<open>
  Who calls the registry: humans with an API key (\<open>auth/api-key-token.ts\<close>, \<open>auth/api-key-auth.ts\<close>), the API keys a
  human manages (\<open>api-key-lifecycle.ts\<close>, \<open>routes/me-api-keys.ts\<close>), internal services with a secret
  (\<open>auth/service-auth.ts\<close>, \<open>auth/internal-service-scopes.ts\<close>, \<open>routes/internal-services.ts\<close>), and the question of
  agent ownership the proxy asks as such a service.

  \<open>full_db\<close> is the whole database of \<open>db/schema.ts\<close>: the tables of \<open>Registry_Db\<close> and the ones the remaining
  routes use. A request's path parameters, headers and parsed body are arguments, as are the random bytes, the new
  ids and the times it reads.

  Shown: an API key authenticates exactly its owner, from its creation until it is revoked; a service is let in
  only with its current secret and the scopes the route asks for, and a rotation ends the old secret; and the
  answer the proxy gets about an owner is the database's.
\<close>

section \<open>Tables (db/schema.ts)\<close>

record human_row =
  hr_id :: string
  hr_did :: string
  hr_display_name :: string
  hr_role :: string
  hr_status :: string
  hr_onboarding_source :: "string option"
  hr_agent_limit :: "real option"
  hr_created_at :: string
  hr_updated_at :: string

record api_key_row =
  kr_id :: string
  kr_human_id :: string
  kr_key_hash :: string
  kr_key_prefix :: string
  kr_name :: string
  kr_status :: string
  kr_created_at :: string
  kr_last_used_at :: "string option"

record service_row =
  vr_id :: string
  vr_name :: string
  vr_secret_hash :: string
  vr_secret_prefix :: string
  vr_scopes_json :: string
  vr_status :: string
  vr_created_by :: string
  vr_rotated_at :: "string option"
  vr_last_used_at :: "string option"
  vr_created_at :: string
  vr_updated_at :: string

record invite_row =
  iv_id :: string
  iv_code :: string
  iv_created_by :: string
  iv_redeemed_by :: "string option"
  iv_agent_id :: "string option"
  iv_expires_at :: "string option"
  iv_created_at :: string

record starter_pass_row =
  sp_id :: string
  sp_code :: string
  sp_provider :: string
  sp_provider_subject :: string
  sp_provider_login :: string
  sp_display_name :: string
  sp_redeemed_by :: "string option"
  sp_issued_at :: string
  sp_redeemed_at :: "string option"
  sp_expires_at :: string
  sp_status :: string

record group_row =
  gr_id :: string
  gr_name :: string
  gr_created_by :: string
  gr_created_at :: string
  gr_updated_at :: string

record member_row =
  mr_group_id :: string
  mr_agent_id :: string
  mr_role :: string
  mr_joined_at :: string
  mr_updated_at :: string

record join_token_row =
  jt_id :: string
  jt_group_id :: string
  jt_token_hash :: string
  jt_token_prefix :: string
  jt_role :: string
  jt_max_uses :: int
  jt_used_count :: int
  jt_expires_at :: string
  jt_revoked_at :: "string option"
  jt_issued_by :: string
  jt_created_at :: string
  jt_updated_at :: string

record full_db =
  fd_core :: registry_db
  fd_humans :: "human_row list"
  fd_api_keys :: "api_key_row list"
  fd_services :: "service_row list"
  fd_invites :: "invite_row list"
  fd_starter_passes :: "starter_pass_row list"
  fd_groups :: "group_row list"
  fd_members :: "member_row list"
  fd_join_tokens :: "join_token_row list"

text \<open>\<open>DELETE ... WHERE\<close> and an inner join on the condition \<open>on\<close>.\<close>
definition sql_delete :: "('r \<Rightarrow> bool) \<Rightarrow> 'r list \<Rightarrow> 'r list" where
  "sql_delete p rows = filter (\<lambda>r. \<not> p r) rows"

definition inner_join :: "('a \<Rightarrow> 'b \<Rightarrow> bool) \<Rightarrow> 'a list \<Rightarrow> 'b list \<Rightarrow> ('a \<times> 'b) list" where
  "inner_join on xs ys = concat (map (\<lambda>x. map (Pair x) (filter (on x) ys)) xs)"

section \<open>API keys (api-key-token.ts)\<close>

definition PAT_TOKEN_MARKER :: string where "PAT_TOKEN_MARKER = ''clw_pat_''"
definition PAT_LOOKUP_ENTROPY_LENGTH :: nat where "PAT_LOOKUP_ENTROPY_LENGTH = 8"

definition api_key_missing :: app_error where
  "api_key_missing = AppError ''API_KEY_MISSING'' ''Authorization header is required'' 401"

definition api_key_format :: app_error where
  "api_key_format = AppError ''API_KEY_INVALID'' (''Authorization must be in the format '' @ [CHR 0x27] @ ''Bearer <pat>'' @ [CHR 0x27]) 401"

definition api_key_not_pat :: app_error where
  "api_key_not_pat = AppError ''API_KEY_INVALID'' ''Authorization must contain a PAT token'' 401"

text \<open>\<open>s.split(/\s+/, 2)\<close>: the text before the first run of white space and the next word, when there is one.\<close>
definition split_words :: "string \<Rightarrow> string \<times> string option" where
  "split_words s =
     (let rest = dropWhile (\<lambda>c. \<not> is_ws c) s in
      (takeWhile (\<lambda>c. \<not> is_ws c) s,
       if rest = [] then None else Some (takeWhile (\<lambda>c. \<not> is_ws c) (dropWhile is_ws rest))))"

definition parseBearerPat :: "string option \<Rightarrow> (app_error, string) result" where
  "parseBearerPat authorization =
     (case authorization of
        None \<Rightarrow> Inl api_key_missing
      | Some header \<Rightarrow>
          if header = [] then Inl api_key_missing
          else (case split_words (trim header) of
                  (scheme, None) \<Rightarrow> Inl api_key_format
                | (scheme, Some token) \<Rightarrow>
                    if scheme \<noteq> ''Bearer'' \<or> token = [] then Inl api_key_format
                    else if \<not> startsWith token PAT_TOKEN_MARKER then Inl api_key_not_pat
                    else if length token \<le> length PAT_TOKEN_MARKER then Inl api_key_not_pat
                    else Inr token))"

definition deriveApiKeyLookupPrefix :: "string \<Rightarrow> string" where
  "deriveApiKeyLookupPrefix token = PAT_TOKEN_MARKER @ take PAT_LOOKUP_ENTROPY_LENGTH (drop (length PAT_TOKEN_MARKER) token)"

text \<open>The digest in hexadecimal, as for the tokens of agents.\<close>
definition hashApiKeyToken :: "http_crypto \<Rightarrow> string \<Rightarrow> string" where
  "hashApiKeyToken hcrypto token = concat (map hex_byte (sha256 hcrypto (utf8_encode hcrypto token)))"

definition generateApiKeyToken :: "runtime \<Rightarrow> bytes \<Rightarrow> string" where
  "generateApiKeyToken R randomBytes = PAT_TOKEN_MARKER @ encodeBase64url R randomBytes"

section \<open>Authenticating a human (api-key-auth.ts)\<close>

record AuthenticatedHuman =
  ah_id :: string
  ah_did :: string
  ah_displayName :: string
  ah_role :: string
  ah_onboardingSource :: "string option"
  ah_agentLimit :: "real option"
  ah_apiKeyId :: string
  ah_apiKeyName :: string

definition api_key_invalid :: app_error where
  "api_key_invalid = AppError ''API_KEY_INVALID'' ''API key is invalid'' 401"

definition api_key_revoked :: app_error where
  "api_key_revoked = AppError ''API_KEY_REVOKED'' ''API key is revoked'' 401"

definition resolvePatLookupRow :: "http_crypto \<Rightarrow> full_db \<Rightarrow> string option \<Rightarrow> (app_error, api_key_row \<times> human_row) result" where
  "resolvePatLookupRow hcrypto db authorizationHeader =
     bindE (parseBearerPat authorizationHeader) (\<lambda>token.
     let lookupResult = filter (\<lambda>(k, h). kr_key_prefix k = deriveApiKeyLookupPrefix token)
           (inner_join (\<lambda>k h. hr_id h = kr_human_id k) (fd_api_keys db) (fd_humans db)) in
     case find (\<lambda>(k, h). constantTimeEqual (kr_key_hash k) (hashApiKeyToken hcrypto token)) lookupResult of
       None \<Rightarrow> Inl api_key_invalid
     | Some (k, h) \<Rightarrow>
         throw_if (kr_status k \<noteq> ''active'') api_key_revoked
         (throw_if (hr_status h \<noteq> ''active'') api_key_invalid (Inr (k, h))))"

definition toAuthenticatedHuman :: "api_key_row \<times> human_row \<Rightarrow> AuthenticatedHuman" where
  "toAuthenticatedHuman row = (case row of (k, h) \<Rightarrow>
     \<lparr>ah_id = hr_id h, ah_did = hr_did h, ah_displayName = hr_display_name h, ah_role = hr_role h,
      ah_onboardingSource = hr_onboarding_source h, ah_agentLimit = hr_agent_limit h, ah_apiKeyId = kr_id k, ah_apiKeyName = kr_name k\<rparr>)"

definition touch_key :: "string \<Rightarrow> string \<Rightarrow> full_db \<Rightarrow> full_db" where
  "touch_key keyId now db = db\<lparr>fd_api_keys := snd (sql_update (\<lambda>r. kr_id r = keyId) (\<lambda>r. r\<lparr>kr_last_used_at := Some now\<rparr>) (fd_api_keys db))\<rparr>"

text \<open>With \<open>touchLastUsed\<close>, which both callers set; \<open>createApiKeyAuth\<close> is this in front of a handler.\<close>
definition resolvePatHuman :: "http_crypto \<Rightarrow> string \<Rightarrow> string option \<Rightarrow> full_db \<Rightarrow> (app_error, AuthenticatedHuman \<times> full_db) result" where
  "resolvePatHuman hcrypto now authorizationHeader db =
     bindE (resolvePatLookupRow hcrypto db authorizationHeader) (\<lambda>row.
     Inr (toAuthenticatedHuman row, touch_key (kr_id (fst row)) now db))"

section \<open>A human's API keys (api-key-lifecycle.ts, me-api-keys.ts)\<close>

definition DEFAULT_API_KEY_NAME :: string where "DEFAULT_API_KEY_NAME = ''api-key''"
definition MAX_API_KEY_NAME_LENGTH :: nat where "MAX_API_KEY_NAME_LENGTH = 64"

text \<open>The helper several files define; the ones that test for \<open>undefined\<close> first answer the same.\<close>
fun parseOptionalTrimmedString :: "jsval \<Rightarrow> string option" where
  "parseOptionalTrimmedString (JStr s) = (if length (trim s) > 0 then Some (trim s) else None)"
| "parseOptionalTrimmedString _ = None"

definition apiKeyCreateInvalidError :: "RuntimeEnvironment \<Rightarrow> app_error" where
  "apiKeyCreateInvalidError env = AppError ''API_KEY_CREATE_INVALID'' (hidden env ''API key create payload is invalid'') 400"

text \<open>
  An optional name in a payload: absent, or a non-empty text of at most \<open>limit\<close> characters without control
  characters; \<open>None\<close> stands for a field error.
\<close>
definition optional_name :: "string \<Rightarrow> nat \<Rightarrow> jsval \<Rightarrow> string option" where
  "optional_name fallback limit v =
     (let input = parseOptionalTrimmedString v; name = nullish input fallback in
      if v \<noteq> JUndefined \<and> input = None then None
      else if length name > limit \<or> hasControlChars name then None
      else Some name)"

definition parseApiKeyCreatePayload :: "RuntimeEnvironment \<Rightarrow> jsval \<Rightarrow> (app_error, string) result" where
  "parseApiKeyCreatePayload env payload =
     (case payload of
        JObj _ \<Rightarrow> of_option (apiKeyCreateInvalidError env) (optional_name DEFAULT_API_KEY_NAME MAX_API_KEY_NAME_LENGTH (js_get payload ''name''))
      | _ \<Rightarrow> Inl (apiKeyCreateInvalidError env))"

definition apiKeyRevokeInvalidPathError :: "RuntimeEnvironment \<Rightarrow> app_error" where
  "apiKeyRevokeInvalidPathError env = AppError ''API_KEY_REVOKE_INVALID_PATH'' (hidden env ''API key revoke path is invalid'') 400"

definition parseApiKeyRevokePath :: "ulid_lib \<Rightarrow> RuntimeEnvironment \<Rightarrow> string \<Rightarrow> (app_error, string) result" where
  "parseApiKeyRevokePath ul env pathId =
     throw_if (length (trim pathId) = 0) (apiKeyRevokeInvalidPathError env)
       (bindE (catchE (parseUlid ul (trim pathId)) (apiKeyRevokeInvalidPathError env)) (\<lambda>(value, _). Inr value))"

definition apiKeyNotFoundError :: app_error where
  "apiKeyNotFoundError = AppError ''API_KEY_NOT_FOUND'' ''API key not found'' 404"

definition new_api_key :: "runtime \<Rightarrow> http_crypto \<Rightarrow> string \<Rightarrow> string \<Rightarrow> string \<Rightarrow> bytes \<Rightarrow> string \<Rightarrow> api_key_row" where
  "new_api_key R hcrypto apiKeyId humanId name randomBytes createdAt =
     (let apiKeyToken = generateApiKeyToken R randomBytes in
      \<lparr>kr_id = apiKeyId, kr_human_id = humanId, kr_key_hash = hashApiKeyToken hcrypto apiKeyToken,
       kr_key_prefix = deriveApiKeyLookupPrefix apiKeyToken, kr_name = name, kr_status = ''active'', kr_created_at = createdAt,
       kr_last_used_at = None\<rparr>)"

text \<open>\<open>POST /v1/me/api-keys\<close>: the token handed out, and the database. The payload is \<open>None\<close> for a body that is not JSON.\<close>
definition create_api_key_route ::
  "runtime \<Rightarrow> http_crypto \<Rightarrow> RuntimeEnvironment \<Rightarrow> string \<Rightarrow> bytes \<Rightarrow> string \<Rightarrow> AuthenticatedHuman \<Rightarrow> jsval option \<Rightarrow> full_db \<Rightarrow>
   (app_error, string \<times> full_db) result" where
  "create_api_key_route R hcrypto env apiKeyId randomBytes createdAt hum payload db =
     (case payload of
        None \<Rightarrow> Inl (AppError ''API_KEY_CREATE_INVALID'' (hidden env ''Request body must be valid JSON'') 400)
      | Some body \<Rightarrow>
          bindE (parseApiKeyCreatePayload env body) (\<lambda>name.
          Inr (generateApiKeyToken R randomBytes,
               db\<lparr>fd_api_keys := fd_api_keys db @ [new_api_key R hcrypto apiKeyId (ah_id hum) name randomBytes createdAt]\<rparr>)))"

text \<open>\<open>GET /v1/me/api-keys\<close>: the rows listed, before the query puts the newest first.\<close>
definition list_api_keys :: "AuthenticatedHuman \<Rightarrow> full_db \<Rightarrow> (string \<times> string \<times> string \<times> string \<times> string option) list" where
  "list_api_keys hum db =
     map (\<lambda>r. (kr_id r, kr_name r, kr_status r, kr_created_at r, kr_last_used_at r)) (filter (\<lambda>r. kr_human_id r = ah_id hum) (fd_api_keys db))"

definition revoke_api_key_route :: "ulid_lib \<Rightarrow> RuntimeEnvironment \<Rightarrow> AuthenticatedHuman \<Rightarrow> string \<Rightarrow> full_db \<Rightarrow> (app_error, full_db) result" where
  "revoke_api_key_route ul env hum pathId db =
     bindE (parseApiKeyRevokePath ul env pathId) (\<lambda>apiKeyId.
     let mine = (\<lambda>r. kr_id r = apiKeyId \<and> kr_human_id r = ah_id hum) in
     case find mine (fd_api_keys db) of
       None \<Rightarrow> Inl apiKeyNotFoundError
     | Some existingKey \<Rightarrow>
         if kr_status existingKey = ''revoked'' then Inr db
         else Inr (db\<lparr>fd_api_keys := snd (sql_update mine (\<lambda>r. r\<lparr>kr_status := ''revoked''\<rparr>) (fd_api_keys db))\<rparr>))"

section \<open>Internal services (service-auth.ts, internal-service-scopes.ts)\<close>

definition INTERNAL_SERVICE_SECRET_MARKER :: string where "INTERNAL_SERVICE_SECRET_MARKER = ''clw_srv_''"
definition INTERNAL_SERVICE_SECRET_LOOKUP_ENTROPY_LENGTH :: nat where "INTERNAL_SERVICE_SECRET_LOOKUP_ENTROPY_LENGTH = 8"

record AuthenticatedService =
  av_id :: string
  av_name :: string
  av_scopes :: "string list"

definition service_unauthorized :: "string \<Rightarrow> app_error" where
  "service_unauthorized msg = AppError ''INTERNAL_SERVICE_UNAUTHORIZED'' msg 401"

definition service_forbidden :: "string \<Rightarrow> app_error" where
  "service_forbidden msg = AppError ''INTERNAL_SERVICE_FORBIDDEN'' msg 403"

definition parseRequiredHeader :: "string option \<Rightarrow> string \<Rightarrow> (app_error, string) result" where
  "parseRequiredHeader value label =
     (let normalized = (case value of None \<Rightarrow> [] | Some v \<Rightarrow> trim v) in
      throw_if (length normalized = 0) (service_unauthorized (label @ '' header is required'')) (Inr normalized))"

definition parseServiceSecret :: "string \<Rightarrow> (app_error, string) result" where
  "parseServiceSecret secret =
     throw_if (\<not> startsWith secret INTERNAL_SERVICE_SECRET_MARKER \<or> length secret \<le> length INTERNAL_SERVICE_SECRET_MARKER)
       (service_unauthorized ''Service secret is invalid'') (Inr secret)"

definition deriveInternalServiceSecretPrefix :: "string \<Rightarrow> (app_error, string) result" where
  "deriveInternalServiceSecretPrefix secret =
     bindE (parseServiceSecret secret) (\<lambda>normalized.
     let entropyPrefix = take INTERNAL_SERVICE_SECRET_LOOKUP_ENTROPY_LENGTH (drop (length INTERNAL_SERVICE_SECRET_MARKER) normalized) in
     throw_if (length entropyPrefix = 0) (service_unauthorized ''Service secret is invalid'')
       (Inr (INTERNAL_SERVICE_SECRET_MARKER @ entropyPrefix)))"

definition hashInternalServiceSecret :: "http_crypto \<Rightarrow> string \<Rightarrow> (app_error, string) result" where
  "hashInternalServiceSecret hcrypto secret =
     bindE (parseServiceSecret secret) (\<lambda>normalized. Inr (concat (map hex_byte (sha256 hcrypto (utf8_encode hcrypto normalized)))))"

definition generateInternalServiceSecret :: "runtime \<Rightarrow> bytes \<Rightarrow> string" where
  "generateInternalServiceSecret R randomBytes = INTERNAL_SERVICE_SECRET_MARKER @ encodeBase64url R randomBytes"

definition assertScopes :: "string list \<Rightarrow> string list \<Rightarrow> (app_error, unit) result" where
  "assertScopes availableScopes requiredScopes =
     throw_if (\<exists>requiredScope \<in> set requiredScopes. requiredScope \<notin> set availableScopes)
       (service_forbidden ''Internal service is missing required scope'') (Inr ())"

definition normalizeInternalServiceScopes :: "string list \<Rightarrow> string list" where
  "normalizeInternalServiceScopes scopes = js_Set (filter (\<lambda>scope. scope \<noteq> []) (map trim scopes))"

definition service_invalid :: app_error where
  "service_invalid = AppError ''INTERNAL_SERVICE_INVALID'' ''Internal service payload is invalid'' 400"

definition service_config_invalid :: app_error where
  "service_config_invalid = AppError ''INTERNAL_SERVICE_CONFIG_INVALID'' ''Internal service scopes are invalid'' 500"

definition parseInternalServiceScopesPayload :: "jsval \<Rightarrow> (app_error, string list) result" where
  "parseInternalServiceScopesPayload v =
     (case v of
        JArr vs \<Rightarrow> (let scopes = normalizeInternalServiceScopes (js_strings vs) in throw_if (length scopes = 0) service_invalid (Inr scopes))
      | _ \<Rightarrow> Inl service_invalid)"

text \<open>\<open>JSON.parse\<close> and \<open>JSON.stringify\<close> of the host.\<close>
record json_lib =
  json_parse :: "string \<Rightarrow> jsval option"
  json_text :: "jsval \<Rightarrow> string"

definition parseInternalServiceScopesJson :: "json_lib \<Rightarrow> string \<Rightarrow> (app_error, string list) result" where
  "parseInternalServiceScopesJson jl scopesJson =
     (case json_parse jl scopesJson of
        Some (JArr vs) \<Rightarrow> Inr (normalizeInternalServiceScopes (js_strings vs))
      | _ \<Rightarrow> Inl service_config_invalid)"

text \<open>\<open>createServiceAuth\<close> in front of a handler: the service it finds, and the database with its last use.\<close>
definition createServiceAuth ::
  "http_crypto \<Rightarrow> json_lib \<Rightarrow> string list \<Rightarrow> string \<Rightarrow> string option \<Rightarrow> string option \<Rightarrow> full_db \<Rightarrow>
   (app_error, AuthenticatedService \<times> full_db) result" where
  "createServiceAuth hcrypto jl requiredScopes now idHeader secretHeader db =
     bindE (parseRequiredHeader idHeader INTERNAL_SERVICE_ID_HEADER) (\<lambda>serviceId.
     bindE (parseRequiredHeader secretHeader INTERNAL_SERVICE_SECRET_HEADER) (\<lambda>serviceSecret.
     bindE (deriveInternalServiceSecretPrefix serviceSecret) (\<lambda>secretPrefix.
     bindE (hashInternalServiceSecret hcrypto serviceSecret) (\<lambda>secretHash.
     case find (\<lambda>r. vr_id r = serviceId \<and> vr_secret_prefix r = secretPrefix \<and> vr_status r = ''active'') (fd_services db) of
       None \<Rightarrow> Inl (service_unauthorized ''Service credentials are invalid'')
     | Some row \<Rightarrow>
         throw_if (\<not> constantTimeEqual secretHash (vr_secret_hash row)) (service_unauthorized ''Service credentials are invalid'')
         (bindE (parseInternalServiceScopesJson jl (vr_scopes_json row)) (\<lambda>scopes.
          bindE (assertScopes scopes requiredScopes) (\<lambda>_.
          Inr (\<lparr>av_id = vr_id row, av_name = vr_name row, av_scopes = scopes\<rparr>,
               db\<lparr>fd_services := snd (sql_update (\<lambda>r. vr_id r = vr_id row) (\<lambda>r. r\<lparr>vr_last_used_at := Some now\<rparr>) (fd_services db))\<rparr>))))))))"

section \<open>Routes for internal services (internal-services.ts)\<close>

text \<open>\<open>/^[a-z0-9][a-z0-9-_]{1,63}$/i\<close>\<close>
definition is_ascii_alnum :: "char \<Rightarrow> bool" where
  "is_ascii_alnum c = (let n = (of_char (lower_char c) :: nat) in 97 \<le> n \<and> n \<le> 122 \<or> 48 \<le> n \<and> n \<le> 57)"

definition parseInternalServiceName :: "jsval \<Rightarrow> (app_error, string) result" where
  "parseInternalServiceName v =
     (let normalized = (case v of JStr s \<Rightarrow> trim s | _ \<Rightarrow> []) in
      throw_if (\<not> (2 \<le> length normalized \<and> length normalized \<le> 64 \<and> is_ascii_alnum (hd normalized) \<and>
                   (\<forall>c \<in> set (tl normalized). is_ascii_alnum c \<or> c = CHR ''-'' \<or> c = CHR ''_'')))
        service_invalid (Inr normalized))"

definition parseInternalServiceCreatePayload :: "jsval \<Rightarrow> (app_error, string \<times> string list) result" where
  "parseInternalServiceCreatePayload payload =
     throw_if (\<not> is_plain_object payload) service_invalid
     (bindE (parseInternalServiceName (js_get payload ''name'')) (\<lambda>name.
      bindE (parseInternalServiceScopesPayload (js_get payload ''scopes'')) (\<lambda>scopes. Inr (name, scopes))))"

definition parseInternalServicePathId :: "ulid_lib \<Rightarrow> RuntimeEnvironment \<Rightarrow> string \<Rightarrow> (app_error, string) result" where
  "parseInternalServicePathId ul env pathId =
     bindE (catchE (parseUlid ul (trim pathId))
       (AppError ''INTERNAL_SERVICE_INVALID_PATH''
          (if env = EnvProduction then ''Request could not be processed'' else ''Internal service path is invalid'') 400))
       (\<lambda>(value, _). Inr value)"

definition parseInternalServiceRotatePayload :: "jsval \<Rightarrow> (app_error, string list option) result" where
  "parseInternalServiceRotatePayload payload =
     (if payload = JUndefined \<or> payload = JNull then Inr None
      else throw_if (\<not> is_plain_object payload) service_invalid
        (if js_get payload ''scopes'' = JUndefined then Inr None
         else bindE (parseInternalServiceScopesPayload (js_get payload ''scopes'')) (\<lambda>scopes. Inr (Some scopes))))"

definition admin_required :: "string \<Rightarrow> app_error" where
  "admin_required code = AppError code ''Admin role is required'' 403"

definition scopes_value :: "string list \<Rightarrow> jsval" where
  "scopes_value scopes = JArr (map JStr scopes)"

definition create_service_route ::
  "runtime \<Rightarrow> http_crypto \<Rightarrow> json_lib \<Rightarrow> string \<Rightarrow> bytes \<Rightarrow> string \<Rightarrow> AuthenticatedHuman \<Rightarrow> jsval option \<Rightarrow> full_db \<Rightarrow>
   (app_error, string \<times> full_db) result" where
  "create_service_route R hcrypto jl serviceId randomBytes createdAt hum payload db =
     throw_if (ah_role hum \<noteq> ''admin'') (admin_required ''INTERNAL_SERVICE_CREATE_FORBIDDEN'')
     (bindE (of_option service_invalid payload) (\<lambda>body.
      bindE (parseInternalServiceCreatePayload body) (\<lambda>(name, scopes).
      throw_if (\<exists>r \<in> set (fd_services db). vr_name r = name)
        (AppError ''INTERNAL_SERVICE_ALREADY_EXISTS'' ''Internal service already exists'' 409)
      (let secret = generateInternalServiceSecret R randomBytes in
       bindE (hashInternalServiceSecret hcrypto secret) (\<lambda>secretHash.
       bindE (deriveInternalServiceSecretPrefix secret) (\<lambda>secretPrefix.
       Inr (secret, db\<lparr>fd_services := fd_services db @
         [\<lparr>vr_id = serviceId, vr_name = name, vr_secret_hash = secretHash, vr_secret_prefix = secretPrefix,
           vr_scopes_json = json_text jl (scopes_value scopes), vr_status = ''active'', vr_created_by = ah_id hum, vr_rotated_at = None,
           vr_last_used_at = None, vr_created_at = createdAt, vr_updated_at = createdAt\<rparr>]\<rparr>)))))))"

text \<open>
  \<open>GET\<close>: the rows listed, before the query puts the newest first; scopes that are not JSON end the request with an
  exception.
\<close>
definition list_services :: "json_lib \<Rightarrow> AuthenticatedHuman \<Rightarrow> full_db \<Rightarrow> (route_error, (service_row \<times> jsval) list) result" where
  "list_services jl hum db =
     throw_if (ah_role hum \<noteq> ''admin'') (RouteError (admin_required ''INTERNAL_SERVICE_LIST_FORBIDDEN''))
     (if \<exists>r \<in> set (fd_services db). json_parse jl (vr_scopes_json r) = None then Inl RouteForeign
      else Inr (map (\<lambda>r. (r, the (json_parse jl (vr_scopes_json r)))) (fd_services db)))"

text \<open>The scopes kept by a rotation that names none: the non-blank texts of the stored array.\<close>
definition stored_scopes :: "json_lib \<Rightarrow> string \<Rightarrow> (route_error, string list) result" where
  "stored_scopes jl scopesJson =
     (case json_parse jl scopesJson of
        Some (JArr vs) \<Rightarrow> Inr (filter (\<lambda>scope. length (trim scope) > 0) (js_strings vs))
      | _ \<Rightarrow> Inl RouteForeign)"

definition rotate_service_route ::
  "runtime \<Rightarrow> http_crypto \<Rightarrow> json_lib \<Rightarrow> RuntimeEnvironment \<Rightarrow> bytes \<Rightarrow> string \<Rightarrow> AuthenticatedHuman \<Rightarrow> string \<Rightarrow> jsval option \<Rightarrow> full_db \<Rightarrow>
   (route_error, string \<times> full_db) result" where
  "rotate_service_route R hcrypto jl env randomBytes rotatedAt hum pathId payload db =
     throw_if (ah_role hum \<noteq> ''admin'') (RouteError (admin_required ''INTERNAL_SERVICE_ROTATE_FORBIDDEN''))
     (bindE (map_sum RouteError id (parseInternalServicePathId (ulids R) env pathId)) (\<lambda>serviceId.
      bindE (of_option (RouteError service_invalid) payload) (\<lambda>body.
      bindE (map_sum RouteError id (parseInternalServiceRotatePayload body)) (\<lambda>parsedScopes.
      case find (\<lambda>r. vr_id r = serviceId) (fd_services db) of
        None \<Rightarrow> Inl (RouteError (AppError ''INTERNAL_SERVICE_NOT_FOUND'' ''Internal service was not found'' 404))
      | Some service \<Rightarrow>
          throw_if (vr_status service \<noteq> ''active'')
            (RouteError (AppError ''INTERNAL_SERVICE_INVALID_STATE'' ''Internal service cannot be rotated'' 409))
          (bindE (case parsedScopes of Some scopes \<Rightarrow> Inr scopes | None \<Rightarrow> stored_scopes jl (vr_scopes_json service)) (\<lambda>scopes.
           throw_if (length scopes = 0) (RouteError service_invalid)
           (let secret = generateInternalServiceSecret R randomBytes in
            bindE (map_sum RouteError id (hashInternalServiceSecret hcrypto secret)) (\<lambda>secretHash.
            bindE (map_sum RouteError id (deriveInternalServiceSecretPrefix secret)) (\<lambda>secretPrefix.
            Inr (secret, db\<lparr>fd_services := snd (sql_update (\<lambda>r. vr_id r = vr_id service)
              (\<lambda>r. r\<lparr>vr_secret_hash := secretHash, vr_secret_prefix := secretPrefix, vr_scopes_json := json_text jl (scopes_value scopes),
                     vr_rotated_at := Some rotatedAt, vr_updated_at := rotatedAt\<rparr>) (fd_services db))\<rparr>))))))))))"

definition ownership_invalid :: app_error where
  "ownership_invalid = AppError ''AGENT_OWNERSHIP_INVALID'' ''Ownership payload is invalid'' 400"

definition ownership_did :: "(string \<Rightarrow> ('e, ParsedDid) result) \<Rightarrow> jsval \<Rightarrow> (app_error, string) result" where
  "ownership_did parse v =
     (case v of
        JStr s \<Rightarrow> bindE (catchE (parse (trim s)) ownership_invalid) (\<lambda>_. throw_if (length (trim s) = 0) ownership_invalid (Inr (trim s)))
      | _ \<Rightarrow> Inl ownership_invalid)"

definition parseInternalOwnershipCheckPayload :: "ulid_lib \<Rightarrow> jsval \<Rightarrow> (app_error, string \<times> string) result" where
  "parseInternalOwnershipCheckPayload ul payload =
     throw_if (\<not> is_plain_object payload) ownership_invalid
     (bindE (ownership_did (parseHumanDid ul) (js_get payload ''ownerDid'')) (\<lambda>ownerDid.
      bindE (ownership_did (parseAgentDid ul) (js_get payload ''agentDid'')) (\<lambda>agentDid. Inr (ownerDid, agentDid))))"

text \<open>The handler of the ownership question, behind \<open>createServiceAuth\<close> with the scope \<open>identity.read\<close>.\<close>
definition ownership_answer :: "ulid_lib \<Rightarrow> full_db \<Rightarrow> jsval option \<Rightarrow> (route_error, jsval) result" where
  "ownership_answer ul db payload =
     bindE (of_option (RouteError ownership_invalid) payload) (\<lambda>body.
     bindE (map_sum RouteError id (parseInternalOwnershipCheckPayload ul body)) (\<lambda>(ownerDid, agentDid).
     bindE (catchE (parseHumanDid ul ownerDid) RouteForeign) (\<lambda>_.
     bindE (catchE (parseAgentDid ul agentDid) RouteForeign) (\<lambda>_.
     let row = find (\<lambda>(a, h). ar_did a = agentDid) (inner_join (\<lambda>a h. ar_owner_id a = hr_id h) (db_agents (fd_core db)) (fd_humans db)) in
     Inr (JObj [(''ownsAgent'', JBool (case row of None \<Rightarrow> False | Some (a, h) \<Rightarrow> hr_did h = ownerDid)),
                (''agentStatus'', case row of None \<Rightarrow> JNull | Some (a, h) \<Rightarrow> JStr (ar_status a))])))))"

section \<open>Facts about queries\<close>

lemma find_only:
  assumes "x \<in> set xs" "P x" "\<And>y. y \<in> set xs \<Longrightarrow> P y \<Longrightarrow> y = x"
  shows "find P xs = Some x"
proof (cases "find P xs")
  case None
  then show ?thesis using assms(1,2) by (simp add: find_None_iff)
next
  case (Some y)
  then show ?thesis using find_Some_in[of P xs y] assms(3) by simp
qed

lemma set_inner_join [simp]: "(x, y) \<in> set (inner_join on xs ys) \<longleftrightarrow> x \<in> set xs \<and> y \<in> set ys \<and> on x y"
  by (auto simp: inner_join_def)

lemma distinct_key: "distinct (map f xs) \<Longrightarrow> x \<in> set xs \<Longrightarrow> y \<in> set xs \<Longrightarrow> f x = f y \<Longrightarrow> x = y"
  by (auto simp: distinct_map inj_on_def)

text \<open>Trimming keeps a text that neither begins nor ends with white space.\<close>
lemma trim_fixed: "s \<noteq> [] \<Longrightarrow> \<not> is_ws (hd s) \<Longrightarrow> \<not> is_ws (last s) \<Longrightarrow> trim s = s"
proof -
  assume a: "s \<noteq> []" "\<not> is_ws (hd s)" "\<not> is_ws (last s)"
  then have "dropWhile is_ws s = s" by (cases s) auto
  moreover have "dropWhile is_ws (rev s) = rev s" using a by (cases "rev s") (auto simp flip: hd_rev)
  ultimately show ?thesis by (simp add: trim_def trimStart_def trimEnd_def)
qed

section \<open>API keys\<close>

lemma parseBearerPat_token:
  assumes "startsWith tok PAT_TOKEN_MARKER" "length PAT_TOKEN_MARKER < length tok" "\<forall>c \<in> set tok. \<not> is_ws c"
  shows "parseBearerPat (Some (''Bearer '' @ tok)) = Inr tok"
proof -
  have ne: "tok \<noteq> []" using assms(2) by auto
  then have "\<not> is_ws (last tok)" using assms(3) by simp
  then have "trim (''Bearer '' @ tok) = ''Bearer '' @ tok" using ne by (intro trim_fixed) (auto simp: is_ws_def)
  moreover have "takeWhile (\<lambda>c. \<not> is_ws c) tok = tok" using assms(3) by (simp add: takeWhile_eq_all_conv)
  moreover have "dropWhile is_ws tok = tok" using assms(3) ne by (cases tok) auto
  ultimately have "split_words (trim (''Bearer '' @ tok)) = (''Bearer'', Some tok)"
    by (simp add: split_words_def is_ws_def)
  then show ?thesis using assms(1,2) ne by (simp add: parseBearerPat_def)
qed

lemma generated_key_parses:
  assumes "b64_law R" "bytes \<noteq> []"
  shows "parseBearerPat (Some (''Bearer '' @ generateApiKeyToken R bytes)) = Inr (generateApiKeyToken R bytes)"
proof (rule parseBearerPat_token)
  have "encodeBase64url R bytes \<noteq> []" "\<forall>c \<in> set (encodeBase64url R bytes). \<not> is_ws c"
    using assms by (auto simp: b64_law_def encodeBase64url_def)
  then show "length PAT_TOKEN_MARKER < length (generateApiKeyToken R bytes)" "\<forall>c \<in> set (generateApiKeyToken R bytes). \<not> is_ws c"
    by (auto simp: generateApiKeyToken_def PAT_TOKEN_MARKER_def is_ws_def)
qed (simp add: generateApiKeyToken_def)

text \<open>Ids are primary keys; no two tokens have the same hash.\<close>
definition accounts_wf :: "full_db \<Rightarrow> bool" where
  "accounts_wf db \<longleftrightarrow> distinct (map hr_id (fd_humans db)) \<and> distinct (map kr_id (fd_api_keys db)) \<and> distinct (map kr_key_hash (fd_api_keys db))"

text \<open>The key \<open>k\<close> with its owner \<open>h\<close> answers to \<open>token\<close>.\<close>
definition key_of :: "http_crypto \<Rightarrow> full_db \<Rightarrow> string \<Rightarrow> api_key_row \<Rightarrow> human_row \<Rightarrow> bool" where
  "key_of hcrypto db token k h \<longleftrightarrow>
     k \<in> set (fd_api_keys db) \<and> h \<in> set (fd_humans db) \<and> hr_id h = kr_human_id k \<and>
     kr_key_prefix k = deriveApiKeyLookupPrefix token \<and> kr_key_hash k = hashApiKeyToken hcrypto token"

lemma key_of_unique:
  assumes "accounts_wf db" "key_of hcrypto db token k h" "key_of hcrypto db token k' h'"
  shows "k' = k \<and> h' = h"
proof -
  have k: "k' = k" using assms by (auto simp: accounts_wf_def key_of_def intro: distinct_key[of kr_key_hash "fd_api_keys db"])
  then have "h' = h" using assms by (auto simp: accounts_wf_def key_of_def intro: distinct_key[of hr_id "fd_humans db"])
  with k show ?thesis by simp
qed

lemma resolvePatLookupRow_key:
  assumes "accounts_wf db" "parseBearerPat header = Inr token" "key_of hcrypto db token k h"
  shows "resolvePatLookupRow hcrypto db header =
    (if kr_status k \<noteq> ''active'' then Inl api_key_revoked else if hr_status h \<noteq> ''active'' then Inl api_key_invalid else Inr (k, h))"
proof -
  let ?rows = "filter (\<lambda>(k, h). kr_key_prefix k = deriveApiKeyLookupPrefix token)
      (inner_join (\<lambda>k h. hr_id h = kr_human_id k) (fd_api_keys db) (fd_humans db))"
  have "find (\<lambda>(k, h). constantTimeEqual (kr_key_hash k) (hashApiKeyToken hcrypto token)) ?rows = Some (k, h)"
  proof (rule find_only)
    fix y assume y: "y \<in> set ?rows" "case y of (k, h) \<Rightarrow> constantTimeEqual (kr_key_hash k) (hashApiKeyToken hcrypto token)"
    obtain k' h' where "y = (k', h')" by (cases y)
    with y have "key_of hcrypto db token k' h'" by (auto simp: key_of_def)
    then show "y = (k, h)" using key_of_unique[OF assms(1,3)] \<open>y = (k', h')\<close> by blast
  qed (use assms(3) in \<open>auto simp: key_of_def\<close>)
  then show ?thesis using assms(2) by (simp add: resolvePatLookupRow_def)
qed

lemma resolvePatLookupRow_no_key:
  assumes "parseBearerPat header = Inr token" "\<not> (\<exists>k h. key_of hcrypto db token k h)"
  shows "resolvePatLookupRow hcrypto db header = Inl api_key_invalid"
proof -
  have "find (\<lambda>(k, h). constantTimeEqual (kr_key_hash k) (hashApiKeyToken hcrypto token))
      (filter (\<lambda>(k, h). kr_key_prefix k = deriveApiKeyLookupPrefix token)
        (inner_join (\<lambda>k h. hr_id h = kr_human_id k) (fd_api_keys db) (fd_humans db))) = None"
    using assms(2) by (auto simp: find_None_iff key_of_def)
  then show ?thesis using assms(1) by (simp add: resolvePatLookupRow_def)
qed

text \<open>Who a header is taken for: the owner of the key it names, when both are active.\<close>
lemma resolvePatLookupRow_Inr:
  assumes "accounts_wf db"
  shows "resolvePatLookupRow hcrypto db header = Inr (k, h) \<longleftrightarrow>
    (\<exists>token. parseBearerPat header = Inr token \<and> key_of hcrypto db token k h \<and> kr_status k = ''active'' \<and> hr_status h = ''active'')"
proof (cases "parseBearerPat header")
  case (Inl e)
  then show ?thesis by (simp add: resolvePatLookupRow_def)
next
  case (Inr token)
  show ?thesis
  proof (cases "\<exists>k h. key_of hcrypto db token k h")
    case True
    then obtain k' h' where k': "key_of hcrypto db token k' h'" by blast
    have only: "key_of hcrypto db token k h \<longleftrightarrow> k = k' \<and> h = h'" using key_of_unique[OF assms k'] k' by blast
    show ?thesis unfolding resolvePatLookupRow_key[OF assms Inr k'] using Inr only by simp blast
  qed (use Inr resolvePatLookupRow_no_key[OF Inr] in auto)
qed

text \<open>What every statement on the keys does: it keeps each row's id, owner and token, and never revives a revoked key.\<close>
definition keys_change :: "full_db \<Rightarrow> full_db \<Rightarrow> bool" where
  "keys_change db db' \<longleftrightarrow> (\<exists>f new. fd_api_keys db' = map f (fd_api_keys db) @ new \<and>
     (\<forall>r. kr_id (f r) = kr_id r \<and> kr_human_id (f r) = kr_human_id r \<and> kr_key_hash (f r) = kr_key_hash r \<and>
          kr_key_prefix (f r) = kr_key_prefix r \<and> (kr_status r = ''revoked'' \<longrightarrow> kr_status (f r) = ''revoked'')))"

text \<open>The requests that write to the table of keys; \<open>other\<close> stands for the rest. New ids and tokens are fresh.\<close>
inductive key_step :: "full_db \<Rightarrow> full_db \<Rightarrow> bool" where
  create: "create_api_key_route R hcrypto env kid bytes t hum payload db = Inr (token, db') \<Longrightarrow>
     kid \<notin> kr_id ` set (fd_api_keys db) \<Longrightarrow> hashApiKeyToken hcrypto token \<notin> kr_key_hash ` set (fd_api_keys db) \<Longrightarrow> key_step db db'"
| revoke: "revoke_api_key_route ul env hum path db = Inr db' \<Longrightarrow> key_step db db'"
| touch: "resolvePatHuman hcrypto t header db = Inr (hum, db') \<Longrightarrow> key_step db db'"
| other: "fd_api_keys db' = fd_api_keys db \<Longrightarrow> distinct (map hr_id (fd_humans db')) \<Longrightarrow> key_step db db'"

lemma create_api_key_Inr:
  assumes "create_api_key_route R hcrypto env kid bytes t hum payload db = Inr (token, db')"
  obtains name where "token = generateApiKeyToken R bytes"
    "db' = db\<lparr>fd_api_keys := fd_api_keys db @ [new_api_key R hcrypto kid (ah_id hum) name bytes t]\<rparr>"
  using assms by (auto simp: create_api_key_route_def split: option.splits)

lemma keys_change_update:
  assumes "fd_api_keys db' = snd (sql_update p f (fd_api_keys db))"
    and "\<And>r. kr_id (f r) = kr_id r \<and> kr_human_id (f r) = kr_human_id r \<and> kr_key_hash (f r) = kr_key_hash r \<and>
          kr_key_prefix (f r) = kr_key_prefix r \<and> (kr_status r = ''revoked'' \<longrightarrow> kr_status (f r) = ''revoked'')"
  shows "keys_change db db'"
  unfolding keys_change_def using assms
  by (intro exI[of _ "\<lambda>r. if p r then f r else r"] exI[of _ "[]"]) (simp add: sql_update_snd)

lemma keys_change_same: "fd_api_keys db' = fd_api_keys db \<Longrightarrow> keys_change db db'"
  unfolding keys_change_def by (intro exI[of _ "\<lambda>r. r"] exI[of _ "[]"]) simp

lemma map_upd_same: "(\<And>r. g (f r) = g r) \<Longrightarrow> map g (snd (sql_update p f rows)) = map g rows"
  by (simp add: sql_update_def)

lemma key_step_change:
  assumes "key_step db db'" "accounts_wf db"
  shows "keys_change db db' \<and> accounts_wf db'"
  using assms
proof cases
  case (create R hcrypto env kid bytes t hum payload token)
  from create(1) obtain name where tok: "token = generateApiKeyToken R bytes"
    and db': "db' = db\<lparr>fd_api_keys := fd_api_keys db @ [new_api_key R hcrypto kid (ah_id hum) name bytes t]\<rparr>"
    by (rule create_api_key_Inr)
  have "keys_change db db'" unfolding keys_change_def db' by (intro exI[of _ "\<lambda>r. r"] exI) simp
  moreover have "accounts_wf db'" using assms(2) create(2,3) tok by (auto simp: accounts_wf_def db' new_api_key_def Let_def)
  ultimately show ?thesis by simp
next
  case (revoke ul env hum path)
  then obtain p where "db' = db \<or> db' = db\<lparr>fd_api_keys := snd (sql_update p (\<lambda>r. r\<lparr>kr_status := ''revoked''\<rparr>) (fd_api_keys db))\<rparr>"
    by (auto simp: revoke_api_key_route_def Let_def split: option.splits if_splits)
  then show ?thesis
  proof
    assume d: "db' = db\<lparr>fd_api_keys := snd (sql_update p (\<lambda>r. r\<lparr>kr_status := ''revoked''\<rparr>) (fd_api_keys db))\<rparr>"
    have "keys_change db db'" by (rule keys_change_update[where p = p and f = "\<lambda>r. r\<lparr>kr_status := ''revoked''\<rparr>"]) (simp_all add: d)
    then show ?thesis using assms(2) by (simp add: accounts_wf_def d map_upd_same)
  qed (use assms(2) in \<open>simp add: keys_change_same\<close>)
next
  case (touch hcrypto t header hum)
  then obtain kid where d: "db' = touch_key kid t db" by (auto simp: resolvePatHuman_def)
  have "keys_change db db'"
    by (rule keys_change_update[where p = "\<lambda>r. kr_id r = kid" and f = "\<lambda>r. r\<lparr>kr_last_used_at := Some t\<rparr>"]) (simp_all add: d touch_key_def)
  then show ?thesis using assms(2) by (simp add: accounts_wf_def d touch_key_def map_upd_same)
next
  case other
  then show ?thesis using assms(2) by (simp add: accounts_wf_def keys_change_same)
qed

text \<open>A key's row is found again after any number of steps.\<close>
definition key_kept :: "api_key_row \<Rightarrow> full_db \<Rightarrow> bool" where
  "key_kept k db \<longleftrightarrow> (\<exists>k' \<in> set (fd_api_keys db). kr_id k' = kr_id k \<and> kr_human_id k' = kr_human_id k \<and> kr_key_hash k' = kr_key_hash k \<and>
     kr_key_prefix k' = kr_key_prefix k \<and> (kr_status k = ''revoked'' \<longrightarrow> kr_status k' = ''revoked''))"

lemma key_kept_change:
  assumes "key_kept k db" "keys_change db db'" shows "key_kept k db'"
proof -
  obtain k' where k': "k' \<in> set (fd_api_keys db)" "kr_id k' = kr_id k" "kr_human_id k' = kr_human_id k" "kr_key_hash k' = kr_key_hash k"
    "kr_key_prefix k' = kr_key_prefix k" "kr_status k = ''revoked'' \<longrightarrow> kr_status k' = ''revoked''"
    using assms(1) unfolding key_kept_def by blast
  obtain f new where f: "fd_api_keys db' = map f (fd_api_keys db) @ new"
    "\<forall>r. kr_id (f r) = kr_id r \<and> kr_human_id (f r) = kr_human_id r \<and> kr_key_hash (f r) = kr_key_hash r \<and>
          kr_key_prefix (f r) = kr_key_prefix r \<and> (kr_status r = ''revoked'' \<longrightarrow> kr_status (f r) = ''revoked'')"
    using assms(2) unfolding keys_change_def by blast
  have "f k' \<in> set (fd_api_keys db')" using f(1) k'(1) by simp
  then show ?thesis unfolding key_kept_def using f(2) k'(2-6) by (intro bexI[of _ "f k'"]) auto
qed

lemma key_steps_keep:
  assumes "key_step\<^sup>*\<^sup>* db db'" "accounts_wf db" "key_kept k db"
  shows "accounts_wf db' \<and> key_kept k db'"
  using assms(1)
proof (induction rule: rtranclp_induct)
  case (step y z)
  then show ?case using key_step_change[of y z] key_kept_change[of k y z] by simp
qed (use assms(2,3) in simp)

lemma key_of_kept:
  assumes "accounts_wf db" "parseBearerPat header = Inr token" "key_kept k db" "kr_key_hash k = hashApiKeyToken hcrypto token"
    "kr_key_prefix k = deriveApiKeyLookupPrefix token" "h \<in> set (fd_humans db)" "hr_id h = kr_human_id k"
  shows "\<exists>k' \<in> set (fd_api_keys db). kr_id k' = kr_id k \<and> kr_human_id k' = kr_human_id k \<and> resolvePatLookupRow hcrypto db header =
    (if kr_status k' \<noteq> ''active'' then Inl api_key_revoked else if hr_status h \<noteq> ''active'' then Inl api_key_invalid else Inr (k', h))"
proof -
  obtain k' where k': "k' \<in> set (fd_api_keys db)" "kr_id k' = kr_id k" "kr_human_id k' = kr_human_id k" "kr_key_hash k' = kr_key_hash k"
    "kr_key_prefix k' = kr_key_prefix k"
    using assms(3) unfolding key_kept_def by blast
  have "key_of hcrypto db token k' h" using k' assms(4-7) by (simp add: key_of_def)
  then show ?thesis using k'(1-3) resolvePatLookupRow_key[OF assms(1,2)] by blast
qed

text \<open>
  (C23) A new API key is its owner's from then on. Whatever requests follow, the row of the key stays, and the
  token is taken for exactly the human who created it: while the key is active and the human is, the request is
  authenticated as that human; once the key is revoked, it is refused as revoked.
\<close>
theorem api_key_lifetime:
  assumes "accounts_wf db" "b64_law R" "bytes \<noteq> []"
    and "create_api_key_route R hcrypto env kid bytes t hum payload db = Inr (token, db1)"
    and "kid \<notin> kr_id ` set (fd_api_keys db)" "hashApiKeyToken hcrypto token \<notin> kr_key_hash ` set (fd_api_keys db)"
    and "key_step\<^sup>*\<^sup>* db1 db2" and "h \<in> set (fd_humans db2)" "hr_id h = ah_id hum"
  shows "\<exists>k \<in> set (fd_api_keys db2). kr_id k = kid \<and> kr_human_id k = ah_id hum \<and>
    resolvePatLookupRow hcrypto db2 (Some (''Bearer '' @ token)) =
      (if kr_status k \<noteq> ''active'' then Inl api_key_revoked else if hr_status h \<noteq> ''active'' then Inl api_key_invalid else Inr (k, h))"
proof -
  obtain name where tok: "token = generateApiKeyToken R bytes"
    and db1: "db1 = db\<lparr>fd_api_keys := fd_api_keys db @ [new_api_key R hcrypto kid (ah_id hum) name bytes t]\<rparr>"
    using assms(4) by (rule create_api_key_Inr)
  let ?k = "new_api_key R hcrypto kid (ah_id hum) name bytes t"
  have new: "kr_id ?k = kid" "kr_human_id ?k = ah_id hum" "kr_key_hash ?k = hashApiKeyToken hcrypto token"
    "kr_key_prefix ?k = deriveApiKeyLookupPrefix token" by (simp_all add: new_api_key_def Let_def tok)
  have "key_step db db1" using assms(4-6) by (rule key_step.create)
  then have wf1: "accounts_wf db1" using key_step_change assms(1) by blast
  have "key_kept ?k db1" unfolding key_kept_def db1 by (intro bexI[of _ ?k]) simp_all
  with key_steps_keep[OF assms(7) wf1] have wf2: "accounts_wf db2" and kept: "key_kept ?k db2" by simp_all
  have "parseBearerPat (Some (''Bearer '' @ token)) = Inr token" using generated_key_parses[OF assms(2,3)] tok by simp
  from key_of_kept[OF wf2 this kept new(3,4) assms(8)] show ?thesis using new(1,2) assms(9) by simp
qed

text \<open>After the owner's request to revoke it, the key is revoked.\<close>
lemma revoke_route_revokes:
  assumes "accounts_wf db" "revoke_api_key_route ul env hum path db = Inr db1" "parseApiKeyRevokePath ul env path = Inr kid"
    "k \<in> set (fd_api_keys db)" "kr_id k = kid"
  shows "key_kept (k\<lparr>kr_status := ''revoked''\<rparr>) db1"
proof -
  let ?mine = "\<lambda>r. kr_id r = kid \<and> kr_human_id r = ah_id hum"
  obtain e where e: "find ?mine (fd_api_keys db) = Some e"
    using assms(2,3) by (auto simp: revoke_api_key_route_def Let_def split: option.splits)
  have "distinct (map kr_id (fd_api_keys db))" using assms(1) by (simp add: accounts_wf_def)
  then have "e = k" using find_Some_in[OF e] assms(4,5) by (simp add: distinct_key)
  then have k: "find ?mine (fd_api_keys db) = Some k" "?mine k" using e find_Some_in[OF e] by simp_all
  show ?thesis
  proof (cases "kr_status k = ''revoked''")
    case True
    then have "db1 = db" using assms(2,3) k(1) by (simp add: revoke_api_key_route_def)
    then show ?thesis using assms(4) True unfolding key_kept_def by (intro bexI[of _ k]) simp_all
  next
    case False
    then have "db1 = db\<lparr>fd_api_keys := snd (sql_update ?mine (\<lambda>r. r\<lparr>kr_status := ''revoked''\<rparr>) (fd_api_keys db))\<rparr>"
      using assms(2,3) k(1) by (simp add: revoke_api_key_route_def)
    then have "k\<lparr>kr_status := ''revoked''\<rparr> \<in> set (fd_api_keys db1)"
      using k(2) assms(4) by (auto simp: sql_update_snd intro!: image_eqI[of _ _ k])
    then show ?thesis unfolding key_kept_def by (intro bexI[of _ "k\<lparr>kr_status := ''revoked''\<rparr>"]) simp_all
  qed
qed

text \<open>
  (C24) An API key that its owner revoked authenticates nobody again: whatever requests follow, every header that
  carries its token is refused.
\<close>
theorem revoked_api_key_stays_revoked:
  assumes "accounts_wf db" "revoke_api_key_route ul env hum path db = Inr db1" "parseApiKeyRevokePath ul env path = Inr kid"
    and "k \<in> set (fd_api_keys db)" "kr_id k = kid" and "key_step\<^sup>*\<^sup>* db1 db2"
    and "parseBearerPat header = Inr token" "hashApiKeyToken hcrypto token = kr_key_hash k"
  shows "resolvePatHuman hcrypto now header db2 \<in> {Inl api_key_revoked, Inl api_key_invalid}"
proof -
  have "key_step db db1" using assms(2) by (rule key_step.revoke)
  then have wf1: "accounts_wf db1" using key_step_change assms(1) by blast
  from key_steps_keep[OF assms(6) wf1 revoke_route_revokes[OF assms(1-5)]]
  have wf2: "accounts_wf db2" and kept: "key_kept (k\<lparr>kr_status := ''revoked''\<rparr>) db2" by simp_all
  from kept obtain k' where k': "k' \<in> set (fd_api_keys db2)" "kr_key_hash k' = kr_key_hash k" "kr_status k' = ''revoked''"
    unfolding key_kept_def by auto
  have "resolvePatLookupRow hcrypto db2 header \<in> {Inl api_key_revoked, Inl api_key_invalid}"
  proof (cases "\<exists>k h. key_of hcrypto db2 token k h")
    case True
    then obtain k2 h2 where k2: "key_of hcrypto db2 token k2 h2" by blast
    have "distinct (map kr_key_hash (fd_api_keys db2))" using wf2 by (simp add: accounts_wf_def)
    then have "k2 = k'" using k2 k'(1,2) assms(8) by (simp add: key_of_def distinct_key)
    then show ?thesis using resolvePatLookupRow_key[OF wf2 assms(7) k2] k'(3) by simp
  next
    case False
    then show ?thesis using resolvePatLookupRow_no_key[OF assms(7)] by simp
  qed
  then show ?thesis by (auto simp: resolvePatHuman_def)
qed

section \<open>Services\<close>

text \<open>The headers and the row a service is let in with.\<close>
definition service_admitted :: "http_crypto \<Rightarrow> json_lib \<Rightarrow> string list \<Rightarrow> string option \<Rightarrow> string option \<Rightarrow> service_row \<Rightarrow> string list \<Rightarrow> bool" where
  "service_admitted hcrypto jl requiredScopes idHeader secretHeader row scopes \<longleftrightarrow>
     (\<exists>secret. parseRequiredHeader idHeader INTERNAL_SERVICE_ID_HEADER = Inr (vr_id row) \<and>
        parseRequiredHeader secretHeader INTERNAL_SERVICE_SECRET_HEADER = Inr secret \<and>
        deriveInternalServiceSecretPrefix secret = Inr (vr_secret_prefix row) \<and>
        hashInternalServiceSecret hcrypto secret = Inr (vr_secret_hash row) \<and> vr_status row = ''active'' \<and>
        parseInternalServiceScopesJson jl (vr_scopes_json row) = Inr scopes \<and> set requiredScopes \<subseteq> set scopes)"

definition touch_service :: "string \<Rightarrow> string \<Rightarrow> full_db \<Rightarrow> full_db" where
  "touch_service i now db = db\<lparr>fd_services := snd (sql_update (\<lambda>r. vr_id r = i) (\<lambda>r. r\<lparr>vr_last_used_at := Some now\<rparr>) (fd_services db))\<rparr>"

lemma assertScopes_Inr: "assertScopes available required = Inr () \<longleftrightarrow> set required \<subseteq> set available"
  by (auto simp: assertScopes_def)

lemma createServiceAuth_only:
  assumes "createServiceAuth hcrypto jl requiredScopes now idHeader secretHeader db = Inr (svc, db')"
  shows "\<exists>row \<in> set (fd_services db). service_admitted hcrypto jl requiredScopes idHeader secretHeader row (av_scopes svc) \<and>
    svc = \<lparr>av_id = vr_id row, av_name = vr_name row, av_scopes = av_scopes svc\<rparr> \<and> db' = touch_service (vr_id row) now db"
proof -
  obtain sid secret pre h where a: "parseRequiredHeader idHeader INTERNAL_SERVICE_ID_HEADER = Inr sid"
    "parseRequiredHeader secretHeader INTERNAL_SERVICE_SECRET_HEADER = Inr secret"
    "deriveInternalServiceSecretPrefix secret = Inr pre" "hashInternalServiceSecret hcrypto secret = Inr h"
    using assms unfolding createServiceAuth_def by auto
  let ?p = "\<lambda>r. vr_id r = sid \<and> vr_secret_prefix r = pre \<and> vr_status r = ''active''"
  obtain row where row: "find ?p (fd_services db) = Some row"
    using assms a by (auto simp: createServiceAuth_def split: option.splits)
  obtain scopes where b: "h = vr_secret_hash row" "parseInternalServiceScopesJson jl (vr_scopes_json row) = Inr scopes"
    "set requiredScopes \<subseteq> set scopes" "svc = \<lparr>av_id = vr_id row, av_name = vr_name row, av_scopes = scopes\<rparr>" "db' = touch_service (vr_id row) now db"
    using assms a row by (auto simp: createServiceAuth_def touch_service_def assertScopes_Inr)
  show ?thesis using find_Some_in[OF row] a b unfolding service_admitted_def by (intro bexI[of _ row]) auto
qed

lemma createServiceAuth_admits:
  assumes "distinct (map vr_id (fd_services db))" "row \<in> set (fd_services db)"
    and "service_admitted hcrypto jl requiredScopes idHeader secretHeader row scopes"
  shows "createServiceAuth hcrypto jl requiredScopes now idHeader secretHeader db =
    Inr (\<lparr>av_id = vr_id row, av_name = vr_name row, av_scopes = scopes\<rparr>, touch_service (vr_id row) now db)"
proof -
  obtain secret where a: "parseRequiredHeader idHeader INTERNAL_SERVICE_ID_HEADER = Inr (vr_id row)"
    "parseRequiredHeader secretHeader INTERNAL_SERVICE_SECRET_HEADER = Inr secret"
    "deriveInternalServiceSecretPrefix secret = Inr (vr_secret_prefix row)" "hashInternalServiceSecret hcrypto secret = Inr (vr_secret_hash row)"
    "vr_status row = ''active''" "parseInternalServiceScopesJson jl (vr_scopes_json row) = Inr scopes" "set requiredScopes \<subseteq> set scopes"
    using assms(3) unfolding service_admitted_def by blast
  have "find (\<lambda>r. vr_id r = vr_id row \<and> vr_secret_prefix r = vr_secret_prefix row \<and> vr_status r = ''active'') (fd_services db) = Some row"
    using assms(1,2) a(5) by (intro find_only) (auto intro: distinct_key)
  then show ?thesis using a by (simp add: createServiceAuth_def touch_service_def assertScopes_Inr[THEN iffD2])
qed

lemma normalize_scopes_idem: "normalizeInternalServiceScopes (normalizeInternalServiceScopes ws) = normalizeInternalServiceScopes ws"
proof -
  let ?n = "normalizeInternalServiceScopes ws"
  have "\<forall>w \<in> set ?n. trim w = w \<and> w \<noteq> []" by (auto simp: normalizeInternalServiceScopes_def)
  then have "map trim ?n = ?n" "filter (\<lambda>w. w \<noteq> []) ?n = ?n" by (auto simp: map_idI filter_id_conv)
  moreover have "distinct ?n" by (simp add: normalizeInternalServiceScopes_def)
  ultimately show ?thesis by (subst normalizeInternalServiceScopes_def) (simp add: js_Set_distinct)
qed

lemma stored_scopes_read_back:
  "json_parse jl (json_text jl (scopes_value scopes)) = Some (scopes_value scopes) \<Longrightarrow> parseInternalServiceScopesJson jl (json_text jl (scopes_value scopes)) = Inr (normalizeInternalServiceScopes scopes)"
  by (simp add: parseInternalServiceScopesJson_def) (simp add: scopes_value_def)

lemma scopes_payload_normal: "parseInternalServiceScopesPayload v = Inr scopes \<Longrightarrow> normalizeInternalServiceScopes scopes = scopes"
  by (auto simp: parseInternalServiceScopesPayload_def Let_def normalize_scopes_idem split: jsval.splits)

lemma generated_secret_parses:
  assumes "b64_law R" "bytes \<noteq> []"
  shows "parseServiceSecret (generateInternalServiceSecret R bytes) = Inr (generateInternalServiceSecret R bytes)"
    "\<forall>c \<in> set (generateInternalServiceSecret R bytes). \<not> is_ws c"
proof -
  have "encodeBase64url R bytes \<noteq> []" "\<forall>c \<in> set (encodeBase64url R bytes). \<not> is_ws c"
    using assms by (auto simp: b64_law_def encodeBase64url_def)
  then show "parseServiceSecret (generateInternalServiceSecret R bytes) = Inr (generateInternalServiceSecret R bytes)"
    "\<forall>c \<in> set (generateInternalServiceSecret R bytes). \<not> is_ws c"
    by (auto simp: parseServiceSecret_def generateInternalServiceSecret_def INTERNAL_SERVICE_SECRET_MARKER_def is_ws_def startsWith_def)
qed

lemma parseRequiredHeader_plain:
  "v \<noteq> [] \<Longrightarrow> \<forall>c \<in> set v. \<not> is_ws c \<Longrightarrow> parseRequiredHeader (Some v) label = Inr v"
  by (simp add: parseRequiredHeader_def trim_noop)

lemma rotate_service_Inr:
  assumes "rotate_service_route R hcrypto jl env bytes t hum path payload db = Inr (secret, db')"
  obtains sid body parsed service scopes h pre where
    "parseInternalServicePathId (ulids R) env path = Inr sid" "payload = Some body" "parseInternalServiceRotatePayload body = Inr parsed"
    "service \<in> set (fd_services db)" "vr_id service = sid" "vr_status service = ''active''"
    "case parsed of Some ws \<Rightarrow> scopes = ws | None \<Rightarrow> stored_scopes jl (vr_scopes_json service) = Inr scopes"
    "secret = generateInternalServiceSecret R bytes" "hashInternalServiceSecret hcrypto secret = Inr h"
    "deriveInternalServiceSecretPrefix secret = Inr pre"
    "db' = db\<lparr>fd_services := snd (sql_update (\<lambda>r. vr_id r = sid)
       (\<lambda>r. r\<lparr>vr_secret_hash := h, vr_secret_prefix := pre, vr_scopes_json := json_text jl (scopes_value scopes),
              vr_rotated_at := Some t, vr_updated_at := t\<rparr>) (fd_services db))\<rparr>"
proof -
  have role: "ah_role hum = ''admin''" using assms by (auto simp: rotate_service_route_def throw_if_def split: if_splits)
  obtain sid body parsed where a: "parseInternalServicePathId (ulids R) env path = Inr sid" "payload = Some body"
    "parseInternalServiceRotatePayload body = Inr parsed"
    using assms role by (cases "parseInternalServicePathId (ulids R) env path"; cases payload;
        cases "parseInternalServiceRotatePayload (the payload)") (auto simp: rotate_service_route_def of_option_def)
  obtain service where s: "find (\<lambda>r. vr_id r = sid) (fd_services db) = Some service"
    using assms role a by (cases "find (\<lambda>r. vr_id r = sid) (fd_services db)") (auto simp: rotate_service_route_def of_option_def)
  have act: "vr_status service = ''active''"
    using assms role a s by (auto simp: rotate_service_route_def of_option_def throw_if_def split: if_splits)
  obtain scopes where w: "(case parsed of Some scopes \<Rightarrow> Inr scopes | None \<Rightarrow> stored_scopes jl (vr_scopes_json service)) = Inr scopes"
    using assms role a s act by (auto simp: rotate_service_route_def of_option_def)
  obtain h pre where b: "secret = generateInternalServiceSecret R bytes" "hashInternalServiceSecret hcrypto secret = Inr h"
    "deriveInternalServiceSecretPrefix secret = Inr pre"
    "db' = db\<lparr>fd_services := snd (sql_update (\<lambda>r. vr_id r = vr_id service)
       (\<lambda>r. r\<lparr>vr_secret_hash := h, vr_secret_prefix := pre, vr_scopes_json := json_text jl (scopes_value scopes),
              vr_rotated_at := Some t, vr_updated_at := t\<rparr>) (fd_services db))\<rparr>"
    using assms role a s act w
    by (cases "hashInternalServiceSecret hcrypto (generateInternalServiceSecret R bytes)";
        cases "deriveInternalServiceSecretPrefix (generateInternalServiceSecret R bytes)")
       (auto simp: rotate_service_route_def of_option_def Let_def throw_if_def split: if_splits)
  have "service \<in> set (fd_services db)" "vr_id service = sid" using find_Some_in[OF s] by simp_all
  moreover have "case parsed of Some ws \<Rightarrow> scopes = ws | None \<Rightarrow> stored_scopes jl (vr_scopes_json service) = Inr scopes"
    using w by (cases parsed) simp_all
  ultimately show thesis using that[OF a _ _ act _ b(1-3)] b(4) by blast
qed

lemma service_path_plain:
  assumes "parseInternalServicePathId ul env path = Inr sid"
  shows "sid \<noteq> []" "\<forall>c \<in> set sid. \<not> is_ws c"
proof -
  obtain r where r: "parseUlid ul (trim path) = Inr r" "fst r = sid" using assms by (auto simp: parseInternalServicePathId_def)
  then have s: "sid = trim path" "ULID_PATTERN (trim path)" using parseUlid_Inr[OF r(1)] by simp_all
  then show "sid \<noteq> []" by (auto simp: ULID_PATTERN_def)
  show "\<forall>c \<in> set sid. \<not> is_ws c" using ulid_no_sep(3)[OF r(1)] s(1) by simp
qed

text \<open>
  Rotating a service's secret puts the new secret in the place of the old one. From then on the service is let
  in with the secret the rotation handed out, to every route whose scopes the rotation gave it; and with any
  secret of another hash, the old one included, it is refused.
\<close>
theorem rotation_replaces_secret:
  assumes "distinct (map vr_id (fd_services db))" "b64_law R" "bytes \<noteq> []"
    and "json_parse jl (json_text jl (scopes_value scopes)) = Some (scopes_value scopes)"
    and "rotate_service_route R hcrypto jl env bytes t hum path (Some body) db = Inr (secret, db')"
    and "parseInternalServicePathId (ulids R) env path = Inr sid" "parseInternalServiceRotatePayload body = Inr (Some scopes)"
    and "set requiredScopes \<subseteq> set scopes"
    and "parseRequiredHeader oldHeader INTERNAL_SERVICE_SECRET_HEADER = Inr old"
      "hashInternalServiceSecret hcrypto old \<noteq> hashInternalServiceSecret hcrypto secret"
  shows "(\<exists>svc db''. createServiceAuth hcrypto jl requiredScopes now (Some sid) (Some secret) db' = Inr (svc, db'') \<and> av_scopes svc = scopes) \<and>
    (\<exists>e. createServiceAuth hcrypto jl anyScopes now (Some sid) oldHeader db' = Inl e)"
proof -
  from assms(5) obtain service h pre where service: "service \<in> set (fd_services db)" "vr_id service = sid" "vr_status service = ''active''"
    and secret: "secret = generateInternalServiceSecret R bytes" "hashInternalServiceSecret hcrypto secret = Inr h"
      "deriveInternalServiceSecretPrefix secret = Inr pre"
    and db': "db' = db\<lparr>fd_services := snd (sql_update (\<lambda>r. vr_id r = sid)
       (\<lambda>r. r\<lparr>vr_secret_hash := h, vr_secret_prefix := pre, vr_scopes_json := json_text jl (scopes_value scopes),
              vr_rotated_at := Some t, vr_updated_at := t\<rparr>) (fd_services db))\<rparr>"
    using assms(6,7) by (auto elim: rotate_service_Inr)
  define row where "row = service\<lparr>vr_secret_hash := h, vr_secret_prefix := pre, vr_scopes_json := json_text jl (scopes_value scopes),
              vr_rotated_at := Some t, vr_updated_at := t\<rparr>"
  have ids: "distinct (map vr_id (fd_services db'))" using assms(1) by (simp add: db' map_upd_same)
  have row: "row \<in> set (fd_services db')" using service(1,2) by (auto simp: db' row_def sql_update_snd intro!: image_eqI[of _ _ service])
  have cols: "vr_id row = sid" "vr_status row = ''active''" "vr_secret_hash row = h" "vr_secret_prefix row = pre"
    "vr_scopes_json row = json_text jl (scopes_value scopes)"
    using service(2,3) by (simp_all add: row_def)
  have normal: "normalizeInternalServiceScopes scopes = scopes"
    using assms(7) by (auto simp: parseInternalServiceRotatePayload_def throw_if_def scopes_payload_normal split: if_splits)
  note plain = parseRequiredHeader_plain[OF service_path_plain[OF assms(6)]]
  have "secret \<noteq> []" using secret(1) by (simp add: generateInternalServiceSecret_def INTERNAL_SERVICE_SECRET_MARKER_def)
  then have "parseRequiredHeader (Some secret) INTERNAL_SERVICE_SECRET_HEADER = Inr secret"
    using generated_secret_parses(2)[OF assms(2,3)] secret(1) by (simp add: parseRequiredHeader_plain)
  then have "service_admitted hcrypto jl requiredScopes (Some sid) (Some secret) row scopes"
    unfolding service_admitted_def using plain secret(2,3) cols normal assms(8) stored_scopes_read_back[OF assms(4)] by simp
  from createServiceAuth_admits[OF ids row this, of now]
  have new: "\<exists>svc db''. createServiceAuth hcrypto jl requiredScopes now (Some sid) (Some secret) db' = Inr (svc, db'') \<and> av_scopes svc = scopes"
    by simp
  have "createServiceAuth hcrypto jl anyScopes now (Some sid) oldHeader db' \<noteq> Inr (svc, db'')" for svc db''
  proof
    assume "createServiceAuth hcrypto jl anyScopes now (Some sid) oldHeader db' = Inr (svc, db'')"
    then obtain r where r: "r \<in> set (fd_services db')" "service_admitted hcrypto jl anyScopes (Some sid) oldHeader r (av_scopes svc)"
      using createServiceAuth_only by blast
    then have "vr_id r = sid" "hashInternalServiceSecret hcrypto old = Inr (vr_secret_hash r)"
      using plain assms(9) unfolding service_admitted_def by auto
    moreover have "r = row" using distinct_key[OF ids r(1) row] calculation(1) cols(1) by simp
    ultimately show False using cols(3) secret(2) assms(10) by simp
  qed
  then have "\<exists>e. createServiceAuth hcrypto jl anyScopes now (Some sid) oldHeader db' = Inl e"
    by (cases "createServiceAuth hcrypto jl anyScopes now (Some sid) oldHeader db'") auto
  with new show ?thesis by blast
qed

section \<open>Concrete runs\<close>

definition demo_human_row :: human_row where
  "demo_human_row = \<lparr>hr_id = ''H'', hr_did = demo_human, hr_display_name = ''n'', hr_role = ''admin'', hr_status = ''active'',
     hr_onboarding_source = None, hr_agent_limit = None, hr_created_at = ''t'', hr_updated_at = ''t''\<rparr>"

definition demo_group_id :: string where "demo_group_id = ''grp_00000000000000000000000001''"

definition demo_token_row :: "string \<Rightarrow> join_token_row" where
  "demo_token_row i = \<lparr>jt_id = i, jt_group_id = demo_group_id, jt_token_hash = i, jt_token_prefix = ''p'', jt_role = ''member'', jt_max_uses = 1,
     jt_used_count = 0, jt_expires_at = ''u'', jt_revoked_at = None, jt_issued_by = ''H'', jt_created_at = ''t'', jt_updated_at = ''t''\<rparr>"

definition demo_group_row :: group_row where
  "demo_group_row = \<lparr>gr_id = demo_group_id, gr_name = ''g'', gr_created_by = ''H'', gr_created_at = ''t'', gr_updated_at = ''t''\<rparr>"

definition demo_full_db :: full_db where
  "demo_full_db = \<lparr>fd_core = demo_db, fd_humans = [demo_human_row], fd_api_keys = [], fd_services = [], fd_invites = [], fd_starter_passes = [],
     fd_groups = [demo_group_row], fd_members = [], fd_join_tokens = [demo_token_row ''1'', demo_token_row ''2'']\<rparr>"

definition demo_key_id :: string where "demo_key_id = ''00000000000000000000000005''"

definition demo_key_row :: api_key_row where
  "demo_key_row = new_api_key demo_runtime demo_crypto demo_key_id ''H'' ''n'' [1] ''t''"

definition demo_keyed_db :: full_db where
  "demo_keyed_db = demo_full_db\<lparr>fd_api_keys := [demo_key_row], fd_join_tokens := []\<rparr>"

definition demo_bearer :: string where "demo_bearer = ''Bearer '' @ generateApiKeyToken demo_runtime [1]"

lemma demo_pat:
  "resolvePatHuman demo_crypto t (Some demo_bearer) demo_keyed_db =
   Inr (toAuthenticatedHuman (demo_key_row, demo_human_row), touch_key demo_key_id t demo_keyed_db)"
proof -
  have wf: "accounts_wf demo_keyed_db" by (simp add: accounts_wf_def demo_keyed_db_def demo_full_db_def)
  have k: "key_of demo_crypto demo_keyed_db (generateApiKeyToken demo_runtime [1]) demo_key_row demo_human_row"
    by (simp add: key_of_def demo_keyed_db_def demo_full_db_def demo_key_row_def new_api_key_def Let_def demo_human_row_def)
  have "resolvePatLookupRow demo_crypto demo_keyed_db (Some demo_bearer) = Inr (demo_key_row, demo_human_row)"
    using resolvePatLookupRow_key[OF wf generated_key_parses[OF demo_laws(1), of "[1]"] k]
    by (simp add: demo_bearer_def demo_key_row_def new_api_key_def Let_def demo_human_row_def)
  then show ?thesis by (simp add: resolvePatHuman_def demo_key_row_def new_api_key_def Let_def)
qed


definition demo_admin :: AuthenticatedHuman where
  "demo_admin = toAuthenticatedHuman (demo_key_row, demo_human_row)"

lemma demo_admin_cols: "ah_id demo_admin = ''H''" "ah_role demo_admin = ''admin''"
  by (simp_all add: demo_admin_def toAuthenticatedHuman_def demo_human_row_def)

lemma demo_accounts_wf: "accounts_wf demo_full_db" "accounts_wf demo_keyed_db"
  by (simp_all add: accounts_wf_def demo_keyed_db_def demo_full_db_def)

theorem api_key_lifetime_witness:
  "\<exists>token db1 k. create_api_key_route demo_runtime demo_crypto EnvLocal demo_key_id [1] ''t'' demo_admin (Some (JObj [])) demo_full_db = Inr (token, db1) \<and>
     resolvePatLookupRow demo_crypto db1 (Some (''Bearer '' @ token)) = Inr (k, demo_human_row) \<and> kr_human_id k = ''H''"
proof -
  let ?db1 = "demo_full_db\<lparr>fd_api_keys := [new_api_key demo_runtime demo_crypto demo_key_id ''H'' ''api-key'' [1] ''t'']\<rparr>"
  let ?token = "generateApiKeyToken demo_runtime [1]"
  have c: "create_api_key_route demo_runtime demo_crypto EnvLocal demo_key_id [1] ''t'' demo_admin (Some (JObj [])) demo_full_db = Inr (?token, ?db1)"
    by (simp add: create_api_key_route_def parseApiKeyCreatePayload_def optional_name_def nullish_def of_option_def demo_admin_cols demo_full_db_def
        DEFAULT_API_KEY_NAME_def MAX_API_KEY_NAME_LENGTH_def)
  have h: "demo_human_row \<in> set (fd_humans ?db1)" "hr_id demo_human_row = ah_id demo_admin" "hr_status demo_human_row = ''active''"
    by (simp_all add: demo_full_db_def demo_admin_cols demo_human_row_def)
  have new: "\<And>k. k \<in> set (fd_api_keys ?db1) \<Longrightarrow> kr_status k = ''active''" by (simp add: new_api_key_def Let_def)
  have "\<exists>k \<in> set (fd_api_keys ?db1). kr_id k = demo_key_id \<and> kr_human_id k = ah_id demo_admin \<and>
      resolvePatLookupRow demo_crypto ?db1 (Some (''Bearer '' @ ?token)) =
      (if kr_status k \<noteq> ''active'' then Inl api_key_revoked else if hr_status demo_human_row \<noteq> ''active'' then Inl api_key_invalid else Inr (k, demo_human_row))"
    by (rule api_key_lifetime[OF demo_accounts_wf(1) demo_laws(1) _ c]) (simp_all add: h demo_full_db_def)
  then show ?thesis using c h(3) new demo_admin_cols by auto
qed

lemma demo_key_path: "parseApiKeyRevokePath demo_ulids EnvLocal demo_key_id = Inr demo_key_id"
  by code_simp

theorem revoked_api_key_stays_revoked_witness:
  "\<exists>db1. revoke_api_key_route demo_ulids EnvLocal demo_admin demo_key_id demo_keyed_db = Inr db1 \<and>
     resolvePatHuman demo_crypto ''t'' (Some demo_bearer) db1 \<in> {Inl api_key_revoked, Inl api_key_invalid}"
proof -
  have key: "demo_key_row \<in> set (fd_api_keys demo_keyed_db)" "kr_id demo_key_row = demo_key_id" "kr_human_id demo_key_row = ''H''"
    "hashApiKeyToken demo_crypto (generateApiKeyToken demo_runtime [1]) = kr_key_hash demo_key_row"
    by (simp_all add: demo_keyed_db_def demo_key_row_def new_api_key_def Let_def)
  have "\<exists>db1. revoke_api_key_route demo_ulids EnvLocal demo_admin demo_key_id demo_keyed_db = Inr db1"
    using key(2,3) by (simp add: revoke_api_key_route_def demo_key_path demo_keyed_db_def demo_admin_cols)
  then obtain db1 where r: "revoke_api_key_route demo_ulids EnvLocal demo_admin demo_key_id demo_keyed_db = Inr db1" by blast
  have "parseBearerPat (Some demo_bearer) = Inr (generateApiKeyToken demo_runtime [1])"
    unfolding demo_bearer_def by (rule generated_key_parses) (simp_all add: demo_laws)
  from revoked_api_key_stays_revoked[OF demo_accounts_wf(2) r demo_key_path key(1,2) rtranclp.rtrancl_refl this key(4)] r show ?thesis by blast
qed

definition demo_service :: service_row where
  "demo_service = \<lparr>vr_id = demo_key_id, vr_name = ''proxy-pairing'', vr_secret_hash = ''h'', vr_secret_prefix = ''clw_srv_old'', vr_scopes_json = ''s'',
     vr_status = ''active'', vr_created_by = ''H'', vr_rotated_at = None, vr_last_used_at = None, vr_created_at = ''t'', vr_updated_at = ''t''\<rparr>"

definition demo_json :: json_lib where
  "demo_json = \<lparr>json_parse = (\<lambda>_. Some (scopes_value [''groups.read''])), json_text = (\<lambda>_. ''s'')\<rparr>"

definition demo_plain_crypto :: http_crypto where
  "demo_plain_crypto = demo_crypto\<lparr>sha256 := (\<lambda>bs. bs)\<rparr>"

theorem rotation_replaces_secret_witness:
  "\<exists>secret db'. rotate_service_route demo_runtime demo_plain_crypto demo_json EnvLocal [1] ''t'' demo_admin demo_key_id
       (Some (JObj [(''scopes'', JArr [JStr ''groups.read''])])) (demo_full_db\<lparr>fd_services := [demo_service]\<rparr>) = Inr (secret, db') \<and>
     (\<exists>svc db''. createServiceAuth demo_plain_crypto demo_json [''groups.read''] ''t'' (Some demo_key_id) (Some secret) db' = Inr (svc, db'')) \<and>
     (\<exists>e. createServiceAuth demo_plain_crypto demo_json [''groups.read''] ''t'' (Some demo_key_id) (Some ''clw_srv_old'') db' = Inl e)"
proof -
  let ?db = "demo_full_db\<lparr>fd_services := [demo_service]\<rparr>" and ?body = "JObj [(''scopes'', JArr [JStr ''groups.read''])]"
  let ?r = "rotate_service_route demo_runtime demo_plain_crypto demo_json EnvLocal [1] ''t'' demo_admin demo_key_id (Some ?body) ?db"
  let ?secret = "generateInternalServiceSecret demo_runtime [1]"
  have path: "parseInternalServicePathId (ulids demo_runtime) EnvLocal demo_key_id = Inr demo_key_id"
    and body: "parseInternalServiceRotatePayload ?body = Inr (Some [''groups.read''])"
    and old: "parseRequiredHeader (Some ''clw_srv_old'') INTERNAL_SERVICE_SECRET_HEADER = Inr ''clw_srv_old''"
    and differ: "hashInternalServiceSecret demo_plain_crypto ''clw_srv_old'' \<noteq> hashInternalServiceSecret demo_plain_crypto ?secret"
    and isl: "\<not> isl ?r" "fst (projr ?r) = ?secret" by code_simp+
  then obtain db' where r: "?r = Inr (?secret, db')" by (cases ?r) auto
  have "distinct (map vr_id (fd_services ?db))" "json_parse demo_json (json_text demo_json (scopes_value [''groups.read''])) = Some (scopes_value [''groups.read''])"
    by (simp_all add: demo_json_def)
  from rotation_replaces_secret[OF this(1) demo_laws(1) _ this(2) r path body _ old differ, of "[''groups.read'']" "''t''" "[''groups.read'']"]
  show ?thesis using r by auto
qed

end
