(* ===== verification/Agent_Groups.thy ===== *)
theory Agent_Groups
  imports Registry_Accounts
begin

text \<open>
  Groups of agents at the registry: \<open>group-lifecycle.ts\<close> (payloads and join tokens), \<open>helpers/group-route-auth.ts\<close>
  and \<open>helpers/group-access.ts\<close> (who asks, and what that caller may see or manage),
  \<open>helpers/group-notifications.ts\<close>, \<open>routes/group-route-errors.ts\<close> and \<open>routes/groups.ts\<close>.

  A handler is a function on the database that also returns what it answers; an exception leaves the changes made
  before it (the last use of an API key). Joining is split where the code awaits: the reads, the conditional insert
  of the member, the conditional count of the token's uses, and the deletion that undoes the insert where the database
  has no transactions. \<open>group_step\<close> interleaves these statements freely, with every other write to the tables.

  Shown: no interleaving brings a group over twenty-five members, lists a member twice or lets a token admit more
  agents than it was issued for; who may manage a group; that an issued token lets an active agent in; and, as a
  weakness of the undoing, that a failed join can remove the member a completed one has added.
\<close>

section \<open>Payloads and join tokens (group-lifecycle.ts)\<close>

definition MAX_GROUP_NAME_LENGTH :: nat where "MAX_GROUP_NAME_LENGTH = 80"
definition GROUP_JOIN_TOKEN_MARKER :: string where "GROUP_JOIN_TOKEN_MARKER = ''clw_gjt_''"
definition GROUP_JOIN_TOKEN_LOOKUP_ENTROPY_LENGTH :: nat where "GROUP_JOIN_TOKEN_LOOKUP_ENTROPY_LENGTH = 8"
definition DEFAULT_GROUP_JOIN_TOKEN_TTL_SECONDS :: real where "DEFAULT_GROUP_JOIN_TOKEN_TTL_SECONDS = 60 * 60"
definition MAX_GROUP_JOIN_TOKEN_TTL_SECONDS :: real where "MAX_GROUP_JOIN_TOKEN_TTL_SECONDS = 30 * 24 * 60 * 60"
definition MAX_GROUP_JOIN_TOKEN_MAX_USES :: real where "MAX_GROUP_JOIN_TOKEN_MAX_USES = 25"
definition MAX_GROUP_MEMBERS :: nat where "MAX_GROUP_MEMBERS = 25"

record GroupJoinTokenIssuePayload =
  gj_expiresAt :: string
  gj_maxUses :: real
  gj_role :: string

definition group_create_invalid :: "RuntimeEnvironment \<Rightarrow> app_error" where
  "group_create_invalid env = AppError ''GROUP_CREATE_INVALID'' (hidden env ''Group create payload is invalid'') 400"

definition group_token_issue_invalid :: "RuntimeEnvironment \<Rightarrow> app_error" where
  "group_token_issue_invalid env = AppError ''GROUP_JOIN_TOKEN_ISSUE_INVALID'' (hidden env ''Group join token payload is invalid'') 400"

definition groupJoinInvalidError :: "RuntimeEnvironment \<Rightarrow> app_error" where
  "groupJoinInvalidError env = AppError ''GROUP_JOIN_INVALID'' (hidden env ''Group join payload is invalid'') 400"

definition parseGroupCreatePayload :: "RuntimeEnvironment \<Rightarrow> jsval \<Rightarrow> (app_error, string) result" where
  "parseGroupCreatePayload env payload =
     throw_if (\<not> is_plain_object payload) (group_create_invalid env)
     (case js_get payload ''name'' of
        JStr s \<Rightarrow> (let name = trim s in
          throw_if (length name = 0 \<or> length name > MAX_GROUP_NAME_LENGTH \<or> hasControlChars name) (group_create_invalid env) (Inr name))
      | _ \<Rightarrow> Inl (group_create_invalid env))"

text \<open>A field that may be absent and otherwise is an integer between two bounds; \<open>None\<close> is a field error.\<close>
definition bounded_integer :: "real \<Rightarrow> real \<Rightarrow> real \<Rightarrow> jsval \<Rightarrow> real option" where
  "bounded_integer fallback lo hi v =
     (if v = JUndefined then Some fallback
      else (case js_integer v of None \<Rightarrow> None | Some x \<Rightarrow> if x < lo \<or> x > hi then None else Some x))"

definition join_role :: "jsval \<Rightarrow> string option" where
  "join_role v = (if v = JUndefined then Some ''member'' else if v = JStr ''member'' then Some ''member''
     else if v = JStr ''admin'' then Some ''admin'' else None)"

definition parseGroupJoinTokenIssuePayload :: "RuntimeEnvironment \<Rightarrow> ms \<Rightarrow> jsval \<Rightarrow> (app_error, GroupJoinTokenIssuePayload) result" where
  "parseGroupJoinTokenIssuePayload env nowMs payload =
     throw_if (\<not> is_plain_object payload) (group_token_issue_invalid env)
     (case (bounded_integer DEFAULT_GROUP_JOIN_TOKEN_TTL_SECONDS 60 MAX_GROUP_JOIN_TOKEN_TTL_SECONDS (js_get payload ''expiresInSeconds''),
            bounded_integer 1 1 MAX_GROUP_JOIN_TOKEN_MAX_USES (js_get payload ''maxUses''), join_role (js_get payload ''role'')) of
        (Some expiresInSeconds, Some maxUses, Some role) \<Rightarrow>
          Inr \<lparr>gj_expiresAt = toIso (nowMs + expiresInSeconds * 1000), gj_maxUses = maxUses, gj_role = role\<rparr>
      | _ \<Rightarrow> Inl (group_token_issue_invalid env))"

definition parseGroupJoinPayload :: "RuntimeEnvironment \<Rightarrow> jsval \<Rightarrow> (app_error, string) result" where
  "parseGroupJoinPayload env payload =
     throw_if (\<not> is_plain_object payload) (groupJoinInvalidError env)
     (case parseOptionalTrimmedString (js_get payload ''groupJoinToken'') of
        None \<Rightarrow> Inl (groupJoinInvalidError env)
      | Some token \<Rightarrow> throw_if (\<not> startsWith token GROUP_JOIN_TOKEN_MARKER) (groupJoinInvalidError env) (Inr token))"

definition parseGroupIdPath :: "ulid_lib \<Rightarrow> RuntimeEnvironment \<Rightarrow> string \<Rightarrow> (app_error, string) result" where
  "parseGroupIdPath ul env pathId =
     catchE (parseGroupId ul (trim pathId))
       (AppError ''GROUP_INVALID_PATH'' (if env = EnvProduction then ''Request could not be processed'' else ''Group path is invalid'') 400)"

definition groupJoinTokenInvalidError :: app_error where
  "groupJoinTokenInvalidError = AppError ''GROUP_JOIN_TOKEN_INVALID'' ''Group join token is invalid'' 400"

definition parseGroupJoinToken :: "string \<Rightarrow> (app_error, string) result" where
  "parseGroupJoinToken token =
     (let normalized = trim token in
      throw_if (\<not> startsWith normalized GROUP_JOIN_TOKEN_MARKER \<or> length normalized \<le> length GROUP_JOIN_TOKEN_MARKER)
        groupJoinTokenInvalidError (Inr normalized))"

definition deriveGroupJoinTokenLookupPrefix :: "string \<Rightarrow> (app_error, string) result" where
  "deriveGroupJoinTokenLookupPrefix token =
     bindE (parseGroupJoinToken token) (\<lambda>normalized.
     let entropyPrefix = take GROUP_JOIN_TOKEN_LOOKUP_ENTROPY_LENGTH (drop (length GROUP_JOIN_TOKEN_MARKER) normalized) in
     throw_if (length entropyPrefix = 0) groupJoinTokenInvalidError (Inr (GROUP_JOIN_TOKEN_MARKER @ entropyPrefix)))"

definition hashGroupJoinToken :: "http_crypto \<Rightarrow> string \<Rightarrow> (app_error, string) result" where
  "hashGroupJoinToken hcrypto token =
     bindE (parseGroupJoinToken token) (\<lambda>normalized. Inr (concat (map hex_byte (sha256 hcrypto (utf8_encode hcrypto normalized)))))"

definition generateGroupJoinToken :: "runtime \<Rightarrow> bytes \<Rightarrow> string" where
  "generateGroupJoinToken R randomBytes = GROUP_JOIN_TOKEN_MARKER @ encodeBase64url R randomBytes"

section \<open>Errors (group-route-errors.ts)\<close>

definition groupNotFoundError :: app_error where
  "groupNotFoundError = AppError ''GROUP_NOT_FOUND'' ''Group was not found'' 404"

definition groupManageForbiddenError :: app_error where
  "groupManageForbiddenError = AppError ''GROUP_MANAGE_FORBIDDEN'' ''Group management access is forbidden'' 403"

definition groupReadForbiddenError :: app_error where
  "groupReadForbiddenError = AppError ''GROUP_READ_FORBIDDEN'' ''Group read access is forbidden'' 403"

definition groupJoinTokenExpiredError :: app_error where
  "groupJoinTokenExpiredError = AppError ''GROUP_JOIN_TOKEN_EXPIRED'' ''Group join token has expired'' 400"

definition groupJoinTokenExhaustedError :: app_error where
  "groupJoinTokenExhaustedError = AppError ''GROUP_JOIN_TOKEN_EXHAUSTED'' ''Group join token has already been used'' 409"

definition groupMemberLimitReachedError :: app_error where
  "groupMemberLimitReachedError = AppError ''GROUP_MEMBER_LIMIT_REACHED'' (''Group cannot have more than '' @ nat_str MAX_GROUP_MEMBERS @ '' members'') 409"

definition groupMemberNotFoundError :: app_error where
  "groupMemberNotFoundError = AppError ''GROUP_MEMBER_NOT_FOUND'' ''Agent was not found'' 404"

text \<open>The two errors of the same codes that this file raises whatever the environment.\<close>
definition groupCreateInvalidError :: app_error where
  "groupCreateInvalidError = AppError ''GROUP_CREATE_INVALID'' ''Group create payload is invalid'' 400"

definition groupJoinTokenIssueInvalidError :: app_error where
  "groupJoinTokenIssueInvalidError = AppError ''GROUP_JOIN_TOKEN_ISSUE_INVALID'' ''Group join token payload is invalid'' 400"

section \<open>Handlers\<close>

type_synonym 'a handler = "full_db \<Rightarrow> (route_error, 'a) result \<times> full_db"

definition bindH :: "'a handler \<Rightarrow> ('a \<Rightarrow> 'b handler) \<Rightarrow> 'b handler" where
  "bindH m k db = (case m db of (Inl e, db') \<Rightarrow> (Inl e, db') | (Inr x, db') \<Rightarrow> k x db')"

definition liftH :: "(route_error, 'a) result \<Rightarrow> 'a handler" where
  "liftH r db = (r, db)"

definition readH :: "(full_db \<Rightarrow> (route_error, 'a) result) \<Rightarrow> 'a handler" where
  "readH f db = (f db, db)"

definition writeH :: "(full_db \<Rightarrow> full_db) \<Rightarrow> 'a \<Rightarrow> 'a handler" where
  "writeH f x db = (Inr x, f db)"

definition routeE :: "(app_error, 'a) result \<Rightarrow> (route_error, 'a) result" where
  "routeE r = map_sum RouteError id r"

section \<open>The caller (group-route-auth.ts)\<close>

datatype GroupRouteAuthActor = HumanActor (actor_humanId: string) | AgentActor (actor_humanId: string) (actor_agentId: string) (actor_agentDid: string)

definition parseJsonBodyFromBytes :: "claw_env \<Rightarrow> bytes \<Rightarrow> app_error \<Rightarrow> (app_error, jsval) result" where
  "parseJsonBodyFromBytes ce bodyBytes invalidError =
     (if length (trim (ce_text ce bodyBytes)) = 0 then Inr (JObj []) else of_option invalidError (utf8_json (ce_runtime ce) bodyBytes))"

definition isBearerAuth :: "string option \<Rightarrow> bool" where
  "isBearerAuth authorization = (case authorization of None \<Rightarrow> False | Some a \<Rightarrow> startsWith a ''Bearer '')"

definition assertAgentIsActiveCurrent :: "full_db \<Rightarrow> string \<Rightarrow> string \<Rightarrow> (app_error, agent_row) result" where
  "assertAgentIsActiveCurrent db agentDid aitJti =
     (case find (\<lambda>r. ar_did r = agentDid) (db_agents (fd_core db)) of
        None \<Rightarrow> Inl validate_unauthorized
      | Some row \<Rightarrow> throw_if (ar_status row \<noteq> ''active'' \<or> ar_current_jti row \<noteq> Some aitJti) validate_unauthorized (Inr row))"

text \<open>A human by an API key, when the header names one; otherwise the agent that signed the request.\<close>
definition resolveGroupRouteAuthActor :: "claw_env \<Rightarrow> refresh_moment \<Rightarrow> string \<Rightarrow> proxy_request \<Rightarrow> GroupRouteAuthActor handler" where
  "resolveGroupRouteAuthActor ce rm now rq =
     (let authorization = rq_header rq ''authorization'' in
      if isBearerAuth authorization
      then (\<lambda>db. case resolvePatHuman (ce_crypto ce) now authorization db of
              Inl e \<Rightarrow> (Inl (RouteError e), db) | Inr (hum, db') \<Rightarrow> (Inr (HumanActor (ah_id hum)), db'))
      else bindH (liftH (verifyAgentClawRequest ce rm rq)) (\<lambda>claims.
           bindH (readH (\<lambda>db. routeE (assertAgentIsActiveCurrent db (ait_sub claims) (ait_jti claims)))) (\<lambda>activeAgent.
           liftH (Inr (AgentActor (ar_owner_id activeAgent) (ar_id activeAgent) (ar_did activeAgent))))))"

section \<open>What the caller may do (group-access.ts)\<close>

definition find_group :: "full_db \<Rightarrow> string \<Rightarrow> group_row option" where
  "find_group db groupId = find (\<lambda>r. gr_id r = groupId) (fd_groups db)"

definition members_with_agents :: "full_db \<Rightarrow> (member_row \<times> agent_row) list" where
  "members_with_agents db = inner_join (\<lambda>m a. mr_agent_id m = ar_id a) (fd_members db) (db_agents (fd_core db))"

text \<open>The group, the creator's shortcut, and the query for a membership that the four functions differ in.\<close>
definition resolve_group :: "full_db \<Rightarrow> string \<Rightarrow> string \<Rightarrow> bool \<Rightarrow> app_error \<Rightarrow> (app_error, string \<times> string) result" where
  "resolve_group db groupId humanId hasMembership forbidden =
     (case find_group db groupId of
        None \<Rightarrow> Inl groupNotFoundError
      | Some grp \<Rightarrow>
          if gr_created_by grp = humanId then Inr (gr_id grp, gr_name grp)
          else throw_if (\<not> hasMembership) forbidden (Inr (gr_id grp, gr_name grp)))"

definition resolveReadableGroupForHuman :: "full_db \<Rightarrow> string \<Rightarrow> string \<Rightarrow> (app_error, string \<times> string) result" where
  "resolveReadableGroupForHuman db groupId humanId =
     resolve_group db groupId humanId
       (list_ex (\<lambda>(m, a). mr_group_id m = groupId \<and> ar_owner_id a = humanId \<and> ar_status a = ''active'') (members_with_agents db))
       groupReadForbiddenError"

definition resolveManageableGroupForHuman :: "full_db \<Rightarrow> string \<Rightarrow> string \<Rightarrow> (app_error, string \<times> string) result" where
  "resolveManageableGroupForHuman db groupId humanId =
     resolve_group db groupId humanId
       (list_ex (\<lambda>(m, a). mr_group_id m = groupId \<and> mr_role m = ''admin'' \<and> ar_owner_id a = humanId \<and> ar_status a = ''active'')
         (members_with_agents db))
       groupManageForbiddenError"

definition resolveReadableGroupForAgent :: "full_db \<Rightarrow> string \<Rightarrow> string \<Rightarrow> string \<Rightarrow> (app_error, string \<times> string) result" where
  "resolveReadableGroupForAgent db groupId agentId humanId =
     resolve_group db groupId humanId (list_ex (\<lambda>m. mr_group_id m = groupId \<and> mr_agent_id m = agentId) (fd_members db)) groupReadForbiddenError"

definition resolveManageableGroupForAgent :: "full_db \<Rightarrow> string \<Rightarrow> string \<Rightarrow> string \<Rightarrow> (app_error, string \<times> string) result" where
  "resolveManageableGroupForAgent db groupId agentId humanId =
     resolve_group db groupId humanId
       (list_ex (\<lambda>m. mr_group_id m = groupId \<and> mr_agent_id m = agentId \<and> mr_role m = ''admin'') (fd_members db)) groupManageForbiddenError"

definition resolveReadableGroupForActor :: "full_db \<Rightarrow> string \<Rightarrow> GroupRouteAuthActor \<Rightarrow> (app_error, string \<times> string) result" where
  "resolveReadableGroupForActor db groupId actor =
     (case actor of
        HumanActor humanId \<Rightarrow> resolveReadableGroupForHuman db groupId humanId
      | AgentActor humanId agentId _ \<Rightarrow> resolveReadableGroupForAgent db groupId agentId humanId)"

definition resolveManageableGroupForActor :: "full_db \<Rightarrow> string \<Rightarrow> GroupRouteAuthActor \<Rightarrow> (app_error, string \<times> string) result" where
  "resolveManageableGroupForActor db groupId actor =
     (case actor of
        HumanActor humanId \<Rightarrow> resolveManageableGroupForHuman db groupId humanId
      | AgentActor humanId agentId _ \<Rightarrow> resolveManageableGroupForAgent db groupId agentId humanId)"

section \<open>Creating a group and issuing join tokens (groups.ts)\<close>

definition create_group_route :: "claw_env \<Rightarrow> refresh_moment \<Rightarrow> string \<Rightarrow> string \<Rightarrow> proxy_request \<Rightarrow> group_row handler" where
  "create_group_route ce rm createdAt ulid rq =
     bindH (resolveGroupRouteAuthActor ce rm createdAt rq) (\<lambda>actor.
     bindH (liftH (routeE (parseJsonBodyFromBytes ce (rq_body rq) groupCreateInvalidError))) (\<lambda>payload.
     bindH (liftH (routeE (parseGroupCreatePayload (ce_environment ce) payload))) (\<lambda>name.
     let grp = \<lparr>gr_id = GROUP_ID_PREFIX @ ulid, gr_name = name, gr_created_by = actor_humanId actor, gr_created_at = createdAt, gr_updated_at = createdAt\<rparr> in
     writeH (\<lambda>db. db\<lparr>fd_groups := fd_groups db @ [grp]\<rparr>) grp)))"

text \<open>What a request to issue a token reads and draws at random.\<close>
record issue_moment =
  im_nowMs :: ms
  im_createdAt :: string
  im_tokenId :: string
  im_bytes :: bytes

definition new_join_token :: "claw_env \<Rightarrow> issue_moment \<Rightarrow> string \<Rightarrow> string \<Rightarrow> GroupJoinTokenIssuePayload \<Rightarrow> (app_error, string \<times> join_token_row) result" where
  "new_join_token ce im groupId issuedBy payload =
     (let token = generateGroupJoinToken (ce_runtime ce) (im_bytes im) in
      bindE (hashGroupJoinToken (ce_crypto ce) token) (\<lambda>tokenHash.
      bindE (deriveGroupJoinTokenLookupPrefix token) (\<lambda>tokenPrefix.
      Inr (token, \<lparr>jt_id = im_tokenId im, jt_group_id = groupId, jt_token_hash = tokenHash, jt_token_prefix = tokenPrefix,
        jt_role = gj_role payload, jt_max_uses = \<lfloor>gj_maxUses payload\<rfloor>, jt_used_count = 0, jt_expires_at = gj_expiresAt payload, jt_revoked_at = None,
        jt_issued_by = issuedBy, jt_created_at = im_createdAt im, jt_updated_at = im_createdAt im\<rparr>))))"

definition issue_join_token_route ::
  "claw_env \<Rightarrow> refresh_moment \<Rightarrow> issue_moment \<Rightarrow> string \<Rightarrow> proxy_request \<Rightarrow> (string \<times> join_token_row) handler" where
  "issue_join_token_route ce rm im pathId rq =
     bindH (liftH (routeE (parseGroupIdPath (ulids (ce_runtime ce)) (ce_environment ce) pathId))) (\<lambda>groupId.
     bindH (resolveGroupRouteAuthActor ce rm (im_createdAt im) rq) (\<lambda>actor.
     bindH (readH (\<lambda>db. routeE (resolveManageableGroupForActor db groupId actor))) (\<lambda>_.
     bindH (liftH (routeE (parseJsonBodyFromBytes ce (rq_body rq) groupJoinTokenIssueInvalidError))) (\<lambda>payload.
     bindH (liftH (routeE (parseGroupJoinTokenIssuePayload (ce_environment ce) (im_nowMs im) payload))) (\<lambda>parsedPayload.
     bindH (liftH (routeE (new_join_token ce im groupId (actor_humanId actor) parsedPayload))) (\<lambda>(token, row).
     writeH (\<lambda>db. db\<lparr>fd_join_tokens := fd_join_tokens db @ [row]\<rparr>) (token, row)))))))"

section \<open>Joining\<close>

text \<open>What a join holds once its reads are done.\<close>
record joining =
  jn_token :: join_token_row
  jn_group :: group_row
  jn_agent :: agent_row
  jn_joinedAt :: string

text \<open>\<open>joined\<close>, the role and the time.\<close>
record join_result =
  jr_joined :: bool
  jr_role :: string
  jr_joinedAt :: string

datatype join_decision = AlreadyMember string join_result | JoinMutation joining

definition find_member :: "full_db \<Rightarrow> string \<Rightarrow> string \<Rightarrow> member_row option" where
  "find_member db groupId agentId = find (\<lambda>m. mr_group_id m = groupId \<and> mr_agent_id m = agentId) (fd_members db)"

definition existing_result :: "member_row \<Rightarrow> join_result" where
  "existing_result m = \<lparr>jr_joined = False, jr_role = mr_role m, jr_joinedAt = mr_joined_at m\<rparr>"

definition join_body_error :: app_error where
  "join_body_error = AppError ''GROUP_JOIN_INVALID'' ''Group join payload is invalid'' 400"

text \<open>The token's row: the first with this prefix whose hash is the token's.\<close>
definition find_join_token :: "claw_env \<Rightarrow> full_db \<Rightarrow> string \<Rightarrow> (app_error, join_token_row option) result" where
  "find_join_token ce db presented =
     bindE (deriveGroupJoinTokenLookupPrefix presented) (\<lambda>tokenPrefix.
     bindE (hashGroupJoinToken (ce_crypto ce) presented) (\<lambda>tokenHash.
     Inr (find (\<lambda>row. constantTimeEqual (jt_token_hash row) tokenHash) (filter (\<lambda>row. jt_token_prefix row = tokenPrefix) (fd_join_tokens db)))))"

definition join_decide :: "claw_env \<Rightarrow> ms \<Rightarrow> string \<Rightarrow> full_db \<Rightarrow> agent_row \<Rightarrow> join_token_row option \<Rightarrow> (app_error, join_decision) result" where
  "join_decide ce nowMs joinedAt db joiningAgent found =
     (case found of
        None \<Rightarrow> Inl groupJoinTokenInvalidError
      | Some token \<Rightarrow>
          throw_if (jt_revoked_at token \<noteq> None) groupJoinTokenInvalidError
          (throw_if (isIsoExpired (ce_date_parse ce) (jt_expires_at token) nowMs) groupJoinTokenExpiredError
          (throw_if (jt_used_count token \<ge> jt_max_uses token) groupJoinTokenExhaustedError
          (case find_group db (jt_group_id token) of
             None \<Rightarrow> Inl groupJoinTokenInvalidError
           | Some grp \<Rightarrow>
               (case find_member db (jt_group_id token) (ar_id joiningAgent) of
                  Some existing \<Rightarrow> Inr (AlreadyMember (jt_group_id token) (existing_result existing))
                | None \<Rightarrow> Inr (JoinMutation \<lparr>jn_token = token, jn_group = grp, jn_agent = joiningAgent, jn_joinedAt = joinedAt\<rparr>))))))"

definition join_check :: "claw_env \<Rightarrow> refresh_moment \<Rightarrow> ms \<Rightarrow> string \<Rightarrow> full_db \<Rightarrow> proxy_request \<Rightarrow> (route_error, join_decision) result" where
  "join_check ce rm nowMs joinedAt db rq =
     bindE (routeE (parseJsonBodyFromBytes ce (rq_body rq) join_body_error)) (\<lambda>payload.
     bindE (routeE (parseGroupJoinPayload (ce_environment ce) payload)) (\<lambda>presented.
     bindE (verifyAgentClawRequest ce rm rq) (\<lambda>claims.
     bindE (routeE (assertAgentIsActiveCurrent db (ait_sub claims) (ait_jti claims))) (\<lambda>joiningAgent.
     bindE (routeE (find_join_token ce db presented)) (\<lambda>found.
     routeE (join_decide ce nowMs joinedAt db joiningAgent found))))))"

text \<open>The three statements. The first two report how many rows they changed.\<close>
definition is_joiner :: "joining \<Rightarrow> member_row \<Rightarrow> bool" where
  "is_joiner jn m \<longleftrightarrow> mr_group_id m = jt_group_id (jn_token jn) \<and> mr_agent_id m = ar_id (jn_agent jn)"

definition joined_row :: "joining \<Rightarrow> member_row" where
  "joined_row jn = \<lparr>mr_group_id = jt_group_id (jn_token jn), mr_agent_id = ar_id (jn_agent jn), mr_role = jt_role (jn_token jn),
     mr_joined_at = jn_joinedAt jn, mr_updated_at = jn_joinedAt jn\<rparr>"

definition join_insert :: "joining \<Rightarrow> full_db \<Rightarrow> nat \<times> full_db" where
  "join_insert jn db =
     (if length (filter (\<lambda>m. mr_group_id m = jt_group_id (jn_token jn)) (fd_members db)) < MAX_GROUP_MEMBERS \<and>
         \<not> list_ex (is_joiner jn) (fd_members db)
      then (1, db\<lparr>fd_members := fd_members db @ [joined_row jn]\<rparr>) else (0, db))"

definition usable :: "joining \<Rightarrow> join_token_row \<Rightarrow> bool" where
  "usable jn r \<longleftrightarrow> jt_id r = jt_id (jn_token jn) \<and> jt_used_count r < jt_max_uses r \<and> jt_revoked_at r = None"

definition join_token_use :: "joining \<Rightarrow> full_db \<Rightarrow> nat \<times> full_db" where
  "join_token_use jn db =
     (case sql_update (usable jn) (\<lambda>r. r\<lparr>jt_used_count := jt_used_count r + 1, jt_updated_at := jn_joinedAt jn\<rparr>) (fd_join_tokens db) of
        (n, rows) \<Rightarrow> (n, db\<lparr>fd_join_tokens := rows\<rparr>))"

definition join_rollback :: "joining \<Rightarrow> full_db \<Rightarrow> full_db" where
  "join_rollback jn db = db\<lparr>fd_members := sql_delete (is_joiner jn) (fd_members db)\<rparr>"

text \<open>\<open>token_fails\<close>: the database refuses the update of the token.\<close>
definition applyJoinMutation :: "bool \<Rightarrow> bool \<Rightarrow> joining \<Rightarrow> full_db \<Rightarrow> (mutation_error, join_result) result \<times> full_db" where
  "applyJoinMutation rollbackOnFailure token_fails jn db =
     (case join_insert jn db of (insertedRows, db1) \<Rightarrow>
        if insertedRows = 0
        then (case find_member db1 (jt_group_id (jn_token jn)) (ar_id (jn_agent jn)) of
                Some existing \<Rightarrow> (Inr (existing_result existing), db1)
              | None \<Rightarrow> (Inl (Refused_by groupMemberLimitReachedError), db1))
        else if token_fails then (Inl DbFailure, if rollbackOnFailure then join_rollback jn db1 else db1)
        else (case join_token_use jn db1 of (updatedRows, db2) \<Rightarrow>
                if updatedRows = 0
                then (Inl (Refused_by groupJoinTokenExhaustedError), if rollbackOnFailure then join_rollback jn db2 else db2)
                else (Inr \<lparr>jr_joined = True, jr_role = jt_role (jn_token jn), jr_joinedAt = jn_joinedAt jn\<rparr>, db2)))"

text \<open>In a transaction an exception restores the database; without one the handler undoes the insert itself.\<close>
definition join_transaction :: "bool \<Rightarrow> joining \<Rightarrow> full_db \<Rightarrow> (mutation_error, join_result) result \<times> full_db" where
  "join_transaction token_fails jn db =
     (case applyJoinMutation False token_fails jn db of (Inl e, _) \<Rightarrow> (Inl e, db) | (Inr r, db') \<Rightarrow> (Inr r, db'))"

definition join_fallback :: "bool \<Rightarrow> joining \<Rightarrow> full_db \<Rightarrow> (mutation_error, join_result) result \<times> full_db" where
  "join_fallback token_fails jn db = applyJoinMutation True token_fails jn db"

section \<open>Reading, removing and deleting\<close>

text \<open>\<open>GET /v1/groups/:id/members\<close>: the active members.\<close>
definition members_route :: "claw_env \<Rightarrow> refresh_moment \<Rightarrow> string \<Rightarrow> string \<Rightarrow> proxy_request \<Rightarrow> (string \<times> (string \<times> string \<times> string) list) handler" where
  "members_route ce rm now pathId rq =
     bindH (liftH (routeE (parseGroupIdPath (ulids (ce_runtime ce)) (ce_environment ce) pathId))) (\<lambda>groupId.
     bindH (resolveGroupRouteAuthActor ce rm now rq) (\<lambda>actor.
     bindH (readH (\<lambda>db. routeE (resolveReadableGroupForActor db groupId actor))) (\<lambda>_.
     readH (\<lambda>db. Inr (groupId, map (\<lambda>(m, a). (ar_did a, mr_role m, mr_joined_at m))
       (filter (\<lambda>(m, a). mr_group_id m = groupId \<and> ar_status a = ''active'') (members_with_agents db)))))))"

definition get_group_route :: "claw_env \<Rightarrow> refresh_moment \<Rightarrow> string \<Rightarrow> string \<Rightarrow> proxy_request \<Rightarrow> (string \<times> string) handler" where
  "get_group_route ce rm now pathId rq =
     bindH (liftH (routeE (parseGroupIdPath (ulids (ce_runtime ce)) (ce_environment ce) pathId))) (\<lambda>groupId.
     bindH (resolveGroupRouteAuthActor ce rm now rq) (\<lambda>actor.
     readH (\<lambda>db. routeE (resolveReadableGroupForActor db groupId actor))))"

definition group_member_path_error :: app_error where
  "group_member_path_error = AppError ''GROUP_MEMBER_INVALID_PATH'' ''Group member path is invalid'' 400"

text \<open>\<open>DELETE /v1/groups/:id/members/:agentDid\<close>, behind \<open>createApiKeyAuth\<close>: the reads, then the statement.\<close>
definition remove_member_read :: "claw_env \<Rightarrow> AuthenticatedHuman \<Rightarrow> string \<Rightarrow> string \<Rightarrow> full_db \<Rightarrow> (app_error, string \<times> string) result" where
  "remove_member_read ce hum pathId pathDid db =
     bindE (parseGroupIdPath (ulids (ce_runtime ce)) (ce_environment ce) pathId) (\<lambda>groupId.
     bindE (catchE (parseAgentDid (ulids (ce_runtime ce)) (trim pathDid)) group_member_path_error) (\<lambda>_.
     bindE (resolveManageableGroupForHuman db groupId (ah_id hum)) (\<lambda>_.
     case find (\<lambda>r. ar_did r = trim pathDid) (db_agents (fd_core db)) of
       None \<Rightarrow> Inl groupMemberNotFoundError
     | Some targetAgent \<Rightarrow> Inr (groupId, ar_id targetAgent))))"

definition delete_member :: "string \<Rightarrow> string \<Rightarrow> full_db \<Rightarrow> full_db" where
  "delete_member groupId agentId db = db\<lparr>fd_members := sql_delete (\<lambda>m. mr_group_id m = groupId \<and> mr_agent_id m = agentId) (fd_members db)\<rparr>"

definition remove_member_route :: "claw_env \<Rightarrow> AuthenticatedHuman \<Rightarrow> string \<Rightarrow> string \<Rightarrow> full_db \<Rightarrow> (app_error, full_db) result" where
  "remove_member_route ce hum pathId pathDid db =
     bindE (remove_member_read ce hum pathId pathDid db) (\<lambda>(groupId, agentId). Inr (delete_member groupId agentId db))"

text \<open>\<open>DELETE /v1/groups/:id\<close>: its three statements, in their order.\<close>
definition delete_group_tokens :: "string \<Rightarrow> full_db \<Rightarrow> full_db" where
  "delete_group_tokens groupId db = db\<lparr>fd_join_tokens := sql_delete (\<lambda>r. jt_group_id r = groupId) (fd_join_tokens db)\<rparr>"

definition delete_group_members :: "string \<Rightarrow> full_db \<Rightarrow> full_db" where
  "delete_group_members groupId db = db\<lparr>fd_members := sql_delete (\<lambda>m. mr_group_id m = groupId) (fd_members db)\<rparr>"

definition delete_group_row :: "string \<Rightarrow> full_db \<Rightarrow> full_db" where
  "delete_group_row groupId db = db\<lparr>fd_groups := sql_delete (\<lambda>g. gr_id g = groupId) (fd_groups db)\<rparr>"

definition applyGroupDeleteMutation :: "string \<Rightarrow> full_db \<Rightarrow> full_db" where
  "applyGroupDeleteMutation groupId db = delete_group_row groupId (delete_group_members groupId (delete_group_tokens groupId db))"

definition delete_group_route :: "claw_env \<Rightarrow> AuthenticatedHuman \<Rightarrow> string \<Rightarrow> full_db \<Rightarrow> (app_error, full_db) result" where
  "delete_group_route ce hum pathId db =
     bindE (parseGroupIdPath (ulids (ce_runtime ce)) (ce_environment ce) pathId) (\<lambda>groupId.
     bindE (resolveManageableGroupForHuman db groupId (ah_id hum)) (\<lambda>_.
     Inr (applyGroupDeleteMutation groupId db)))"

definition membership_invalid :: app_error where
  "membership_invalid = AppError ''GROUP_MEMBERSHIP_INVALID'' ''Group membership payload is invalid'' 400"

text \<open>The proxy's question, behind \<open>createServiceAuth\<close> with the scope \<open>groups.read\<close>; \<open>None\<close> is a body that is not JSON.\<close>
definition membership_answer :: "ulid_lib \<Rightarrow> RuntimeEnvironment \<Rightarrow> full_db \<Rightarrow> jsval option \<Rightarrow> (app_error, jsval) result" where
  "membership_answer ul env db payload =
     bindE (of_option membership_invalid payload) (\<lambda>body.
     throw_if (\<not> is_plain_object body) membership_invalid
     (case (js_get body ''groupId'', js_get body ''memberAgentDid'') of
        (JStr groupIdText, JStr memberText) \<Rightarrow>
          bindE (parseGroupIdPath ul env groupIdText) (\<lambda>groupId.
          bindE (catchE (parseAgentDid ul (trim memberText)) membership_invalid) (\<lambda>_.
          Inr (JObj [(''isMember'', JBool (list_ex (\<lambda>(m, a). mr_group_id m = groupId \<and> ar_did a = trim memberText \<and> ar_status a = ''active'')
            (members_with_agents db)))])))
      | _ \<Rightarrow> Inl membership_invalid))"

section \<open>Overlapping requests\<close>

text \<open>
  The database; the joins that have inserted their member and not yet counted the use; the joins that have
  completed; every token ever issued. The code has only the first.
\<close>
record group_sys =
  gs_db :: full_db
  gs_pending :: "joining list"
  gs_joined :: "joining list"
  gs_issued :: "join_token_row list"

text \<open>
  Every write to members and tokens. A join may have read anything, any time before its insert; the update of the
  token may fail for reasons of the database, so that a pending join may be undone at any time. The ids of new
  tokens are fresh. \<open>other\<close> stands for the writes to other tables.
\<close>
inductive group_step :: "group_sys \<Rightarrow> group_sys \<Rightarrow> bool" where
  insert_member: "join_insert jn (gs_db s) = (Suc n, db') \<Longrightarrow> group_step s (s\<lparr>gs_db := db', gs_pending := jn # gs_pending s\<rparr>)"
| count_use: "jn \<in> set (gs_pending s) \<Longrightarrow> join_token_use jn (gs_db s) = (Suc n, db') \<Longrightarrow>
     group_step s (s\<lparr>gs_db := db', gs_pending := remove1 jn (gs_pending s), gs_joined := gs_joined s @ [jn]\<rparr>)"
| undo: "jn \<in> set (gs_pending s) \<Longrightarrow>
     group_step s (s\<lparr>gs_db := join_rollback jn (gs_db s), gs_pending := remove1 jn (gs_pending s)\<rparr>)"
| transaction: "join_transaction fails jn (gs_db s) = (Inr r, db') \<Longrightarrow> jr_joined r \<Longrightarrow>
     group_step s (s\<lparr>gs_db := db', gs_joined := gs_joined s @ [jn]\<rparr>)"
| issue: "issue_join_token_route ce rm im path rq (gs_db s) = (Inr (token, row), db') \<Longrightarrow> jt_id row \<notin> jt_id ` set (gs_issued s) \<Longrightarrow>
     group_step s (s\<lparr>gs_db := db', gs_issued := gs_issued s @ [row]\<rparr>)"
| remove: "group_step s (s\<lparr>gs_db := delete_member g a (gs_db s)\<rparr>)"
| delete_tokens: "group_step s (s\<lparr>gs_db := delete_group_tokens g (gs_db s)\<rparr>)"
| delete_members: "group_step s (s\<lparr>gs_db := delete_group_members g (gs_db s)\<rparr>)"
| delete_group: "group_step s (s\<lparr>gs_db := delete_group_row g (gs_db s)\<rparr>)"
| other: "fd_members db' = fd_members (gs_db s) \<Longrightarrow> fd_join_tokens db' = fd_join_tokens (gs_db s) \<Longrightarrow> group_step s (s\<lparr>gs_db := db'\<rparr>)"

definition members_ok :: "member_row list \<Rightarrow> bool" where
  "members_ok ms \<longleftrightarrow> (\<forall>g. length (filter (\<lambda>m. mr_group_id m = g) ms) \<le> MAX_GROUP_MEMBERS) \<and>
     distinct (map (\<lambda>m. (mr_group_id m, mr_agent_id m)) ms)"

text \<open>The agents a token has admitted.\<close>
definition admissions :: "joining list \<Rightarrow> string \<Rightarrow> int" where
  "admissions js tid = int (count_list (map (\<lambda>jn. jt_id (jn_token jn)) js) tid)"

definition tokens_ok :: "join_token_row list \<Rightarrow> join_token_row list \<Rightarrow> joining list \<Rightarrow> bool" where
  "tokens_ok rows handed js \<longleftrightarrow> distinct (map jt_id rows) \<and> distinct (map jt_id handed) \<and>
     (\<forall>t \<in> set rows. jt_used_count t = admissions js (jt_id t) \<and> (\<exists>i \<in> set handed. jt_id i = jt_id t \<and> jt_max_uses i = jt_max_uses t)) \<and>
     (\<forall>i \<in> set handed. admissions js (jt_id i) \<le> jt_max_uses i \<and> jt_max_uses i \<le> 25) \<and>
     (\<forall>jn \<in> set js. jt_id (jn_token jn) \<in> jt_id ` set handed)"

definition gs_inv :: "group_sys \<Rightarrow> bool" where
  "gs_inv s \<longleftrightarrow> members_ok (fd_members (gs_db s)) \<and> tokens_ok (fd_join_tokens (gs_db s)) (gs_issued s) (gs_joined s)"

text \<open>A database in which no token has been used yet.\<close>
definition gs_start :: "group_sys \<Rightarrow> bool" where
  "gs_start s \<longleftrightarrow> members_ok (fd_members (gs_db s)) \<and> distinct (map jt_id (fd_join_tokens (gs_db s))) \<and>
     (\<forall>t \<in> set (fd_join_tokens (gs_db s)). jt_used_count t = 0 \<and> 0 \<le> jt_max_uses t \<and> jt_max_uses t \<le> 25) \<and>
     gs_issued s = fd_join_tokens (gs_db s) \<and> gs_pending s = [] \<and> gs_joined s = []"

subsection \<open>Members\<close>

lemma members_ok_delete: "members_ok ms \<Longrightarrow> members_ok (sql_delete p ms)"
proof -
  assume ok: "members_ok ms"
  have "length (filter (\<lambda>m. mr_group_id m = g) (sql_delete p ms)) \<le> length (filter (\<lambda>m. mr_group_id m = g) ms)" for g
    by (induction ms) (auto simp: sql_delete_def)
  moreover have "distinct (map f ms) \<Longrightarrow> distinct (map f (sql_delete p ms))" for f :: "member_row \<Rightarrow> string \<times> string"
    by (simp add: sql_delete_def distinct_map_filter)
  ultimately show ?thesis using ok unfolding members_ok_def by (meson order_trans)
qed

lemma members_ok_insert:
  assumes "members_ok (fd_members db)" "join_insert jn db = (n, db')"
  shows "members_ok (fd_members db')" "fd_join_tokens db' = fd_join_tokens db"
proof -
  have "members_ok (fd_members db @ [joined_row jn])"
    if "length (filter (\<lambda>m. mr_group_id m = jt_group_id (jn_token jn)) (fd_members db)) < MAX_GROUP_MEMBERS"
      "\<not> list_ex (is_joiner jn) (fd_members db)"
    using that assms(1) by (auto simp: members_ok_def joined_row_def list_ex_iff is_joiner_def)
  then show "members_ok (fd_members db')" "fd_join_tokens db' = fd_join_tokens db"
    using assms by (auto simp: join_insert_def split: if_splits)
qed

subsection \<open>Tokens\<close>

lemma admissions_append [simp]:
  "admissions (js @ [jn]) tid = admissions js tid + (if jt_id (jn_token jn) = tid then 1 else 0)"
  by (simp add: admissions_def)

lemma admissions_new: "tid \<notin> jt_id ` jn_token ` set js \<Longrightarrow> admissions js tid = 0"
  unfolding admissions_def by (simp add: count_list_0_iff image_image)

lemma join_token_use_members: "join_token_use jn db = (n, db') \<Longrightarrow> fd_members db' = fd_members db"
  by (auto simp: join_token_use_def split: prod.splits)

lemma tokens_ok_use:
  assumes ok: "tokens_ok (fd_join_tokens db) handed js" and u: "join_token_use jn db = (Suc n, db')"
  shows "tokens_ok (fd_join_tokens db') handed (js @ [jn])"
proof -
  let ?tid = "jt_id (jn_token jn)"
  let ?f = "\<lambda>r. if usable jn r then r\<lparr>jt_used_count := jt_used_count r + 1, jt_updated_at := jn_joinedAt jn\<rparr> else r"
  have db': "fd_join_tokens db' = map ?f (fd_join_tokens db)" and ne: "filter (usable jn) (fd_join_tokens db) \<noteq> []"
    using u by (auto simp: join_token_use_def sql_update_def)
  from ne obtain r0 where r0: "r0 \<in> set (fd_join_tokens db)" "usable jn r0" by (auto simp: filter_empty_conv)
  then have id0: "jt_id r0 = ?tid" by (simp add: usable_def)
  have ids: "distinct (map jt_id (fd_join_tokens db))" and handed: "distinct (map jt_id handed)" using ok by (simp_all add: tokens_ok_def)
  have only: "usable jn r \<longleftrightarrow> jt_id r = ?tid" if "r \<in> set (fd_join_tokens db)" for r
    using distinct_key[OF ids that r0(1)] r0(2) id0 by (auto simp: usable_def)
  obtain i0 where i0: "i0 \<in> set handed" "jt_id i0 = ?tid" "jt_max_uses i0 = jt_max_uses r0"
    using ok r0(1) id0 unfolding tokens_ok_def by force
  have lt: "admissions js ?tid < jt_max_uses i0"
    using ok r0 id0 i0(3) by (auto simp: tokens_ok_def usable_def)
  have "map jt_id (map ?f (fd_join_tokens db)) = map jt_id (fd_join_tokens db)" by simp
  with ids have rows: "distinct (map jt_id (map ?f (fd_join_tokens db)))" by (simp only:)
  have used: "\<forall>t \<in> set (map ?f (fd_join_tokens db)). jt_used_count t = admissions (js @ [jn]) (jt_id t) \<and>
      (\<exists>i \<in> set handed. jt_id i = jt_id t \<and> jt_max_uses i = jt_max_uses t)"
  proof
    fix t assume "t \<in> set (map ?f (fd_join_tokens db))"
    then obtain x where x: "x \<in> set (fd_join_tokens db)" "t = ?f x" by auto
    have "jt_used_count x = admissions js (jt_id x)" "\<exists>i \<in> set handed. jt_id i = jt_id x \<and> jt_max_uses i = jt_max_uses x"
      using ok x(1) by (simp_all add: tokens_ok_def)
    moreover have "jt_id t = jt_id x" "jt_max_uses t = jt_max_uses x"
      "jt_used_count t = jt_used_count x + (if jt_id (jn_token jn) = jt_id x then 1 else 0)"
      using only[OF x(1)] x(2) by simp_all
    ultimately show "jt_used_count t = admissions (js @ [jn]) (jt_id t) \<and> (\<exists>i \<in> set handed. jt_id i = jt_id t \<and> jt_max_uses i = jt_max_uses t)"
      by simp
  qed
  have bound: "\<forall>i \<in> set handed. admissions (js @ [jn]) (jt_id i) \<le> jt_max_uses i \<and> jt_max_uses i \<le> 25"
  proof
    fix i assume i: "i \<in> set handed"
    show "admissions (js @ [jn]) (jt_id i) \<le> jt_max_uses i \<and> jt_max_uses i \<le> 25"
    proof (cases "jt_id i = ?tid")
      case True
      then have "i = i0" using distinct_key[OF handed i i0(1)] i0(2) by simp
      then show ?thesis using lt ok i True by (auto simp: tokens_ok_def)
    qed (use ok i in \<open>auto simp: tokens_ok_def\<close>)
  qed
  have known: "\<forall>j \<in> set (js @ [jn]). jt_id (jn_token j) \<in> jt_id ` set handed"
    using ok imageI[OF i0(1), of jt_id] i0(2) by (simp add: tokens_ok_def)
  show ?thesis unfolding tokens_ok_def db' by (intro conjI rows handed used bound known)
qed

lemma tokens_ok_delete: "tokens_ok rows handed js \<Longrightarrow> tokens_ok (sql_delete p rows) handed js"
  by (auto simp: tokens_ok_def sql_delete_def distinct_map_filter)

lemma bounded_integer_bounds: "bounded_integer d lo hi v = Some x \<Longrightarrow> lo \<le> d \<Longrightarrow> d \<le> hi \<Longrightarrow> lo \<le> x \<and> x \<le> hi"
  by (auto simp: bounded_integer_def split: if_splits option.splits)

subsection \<open>Handlers\<close>

lemma bindH_Inr: "bindH m k db = (Inr y, db') \<longleftrightarrow> (\<exists>x db1. m db = (Inr x, db1) \<and> k x db1 = (Inr y, db'))"
  by (auto simp: bindH_def split: prod.splits sum.splits)

lemma handler_simps:
  "liftH r db = (Inr x, db') \<longleftrightarrow> r = Inr x \<and> db' = db" "readH f db = (Inr x, db') \<longleftrightarrow> f db = Inr x \<and> db' = db"
  "writeH g w db = (Inr x, db') \<longleftrightarrow> w = x \<and> db' = g db"
  by (auto simp: liftH_def readH_def writeH_def)

lemma routeE_Inr [simp]: "routeE r = Inr x \<longleftrightarrow> r = Inr x"
  by (cases r) (auto simp: routeE_def)

lemma touch_key_frame [simp]:
  "fd_members (touch_key k t db) = fd_members db" "fd_join_tokens (touch_key k t db) = fd_join_tokens db"
  "fd_groups (touch_key k t db) = fd_groups db" "fd_core (touch_key k t db) = fd_core db" "fd_humans (touch_key k t db) = fd_humans db"
  by (simp_all add: touch_key_def)

text \<open>Who a caller is found to be; the search changes at most the last use of an API key.\<close>
lemma actor_cases:
  assumes "resolveGroupRouteAuthActor ce rm now rq db = (Inr actor, db')"
  obtains (by_key) hum kid where "resolvePatHuman (ce_crypto ce) now (rq_header rq ''authorization'') db = Inr (hum, db')"
      "actor = HumanActor (ah_id hum)" "db' = touch_key kid now db"
  | (by_signature) claims a where "verifyAgentClawRequest ce rm rq = Inr claims"
      "assertAgentIsActiveCurrent db (ait_sub claims) (ait_jti claims) = Inr a"
      "actor = AgentActor (ar_owner_id a) (ar_id a) (ar_did a)" "db' = db"
proof (cases "isBearerAuth (rq_header rq ''authorization'')")
  case True
  then obtain hum where h: "resolvePatHuman (ce_crypto ce) now (rq_header rq ''authorization'') db = Inr (hum, db')" "actor = HumanActor (ah_id hum)"
    using assms by (auto simp: resolveGroupRouteAuthActor_def split: sum.splits)
  then obtain kid where "db' = touch_key kid now db" by (auto simp: resolvePatHuman_def)
  with h show thesis by (rule by_key)
next
  case False
  then show thesis using assms by_signature by (auto simp: resolveGroupRouteAuthActor_def bindH_Inr handler_simps)
qed

lemma actor_frame:
  assumes "resolveGroupRouteAuthActor ce rm now rq db = (Inr actor, db')"
  shows "fd_members db' = fd_members db" "fd_join_tokens db' = fd_join_tokens db" "fd_groups db' = fd_groups db" "fd_core db' = fd_core db"
  using assms by (cases rule: actor_cases; simp)+

lemma new_join_token_Inr:
  "new_join_token ce im g by payload = Inr (token, row) \<Longrightarrow>
   token = generateGroupJoinToken (ce_runtime ce) (im_bytes im) \<and> hashGroupJoinToken (ce_crypto ce) token = Inr (jt_token_hash row) \<and>
   deriveGroupJoinTokenLookupPrefix token = Inr (jt_token_prefix row) \<and> jt_id row = im_tokenId im \<and> jt_group_id row = g \<and> jt_role row = gj_role payload \<and>
   jt_max_uses row = \<lfloor>gj_maxUses payload\<rfloor> \<and> jt_used_count row = 0 \<and> jt_expires_at row = gj_expiresAt payload \<and> jt_revoked_at row = None \<and> jt_issued_by row = by"
  by (auto simp: new_join_token_def Let_def)

lemma issue_payload_Inr:
  assumes "parseGroupJoinTokenIssuePayload env nowMs payload = Inr p"
  shows "1 \<le> gj_maxUses p" "gj_maxUses p \<le> 25" "gj_role p \<in> {''member'', ''admin''}"
    "\<exists>ttl. gj_expiresAt p = toIso (nowMs + ttl * 1000) \<and> 60 \<le> ttl \<and> ttl \<le> MAX_GROUP_JOIN_TOKEN_TTL_SECONDS"
proof -
  obtain ttl m r where *: "bounded_integer DEFAULT_GROUP_JOIN_TOKEN_TTL_SECONDS 60 MAX_GROUP_JOIN_TOKEN_TTL_SECONDS (js_get payload ''expiresInSeconds'') = Some ttl"
    "bounded_integer 1 1 MAX_GROUP_JOIN_TOKEN_MAX_USES (js_get payload ''maxUses'') = Some m" "join_role (js_get payload ''role'') = Some r"
    "p = \<lparr>gj_expiresAt = toIso (nowMs + ttl * 1000), gj_maxUses = m, gj_role = r\<rparr>"
    using assms unfolding parseGroupJoinTokenIssuePayload_def throw_if_def by (auto split: if_splits option.splits)
  show "1 \<le> gj_maxUses p" "gj_maxUses p \<le> 25"
    using bounded_integer_bounds[OF *(2)] *(4) by (simp_all add: MAX_GROUP_JOIN_TOKEN_MAX_USES_def)
  show "gj_role p \<in> {''member'', ''admin''}" using *(3,4) by (auto simp: join_role_def split: if_splits)
  show "\<exists>ttl. gj_expiresAt p = toIso (nowMs + ttl * 1000) \<and> 60 \<le> ttl \<and> ttl \<le> MAX_GROUP_JOIN_TOKEN_TTL_SECONDS"
    using bounded_integer_bounds[OF *(1)] *(4) by (auto simp: DEFAULT_GROUP_JOIN_TOKEN_TTL_SECONDS_def MAX_GROUP_JOIN_TOKEN_TTL_SECONDS_def)
qed

text \<open>A token is issued to a caller that may manage the group.\<close>
lemma issue_route_Inr:
  assumes "issue_join_token_route ce rm im path rq db = (Inr (token, row), db')"
  obtains groupId actor db1 r payload where
    "parseGroupIdPath (ulids (ce_runtime ce)) (ce_environment ce) path = Inr groupId"
    "resolveGroupRouteAuthActor ce rm (im_createdAt im) rq db = (Inr actor, db1)" "resolveManageableGroupForActor db1 groupId actor = Inr r"
    "1 \<le> gj_maxUses payload" "gj_maxUses payload \<le> 25"
    "\<exists>ttl. gj_expiresAt payload = toIso (im_nowMs im + ttl * 1000) \<and> 60 \<le> ttl \<and> ttl \<le> MAX_GROUP_JOIN_TOKEN_TTL_SECONDS"
    "new_join_token ce im groupId (actor_humanId actor) payload = Inr (token, row)"
    "db' = db1\<lparr>fd_join_tokens := fd_join_tokens db1 @ [row]\<rparr>"
proof -
  obtain groupId actor db1 r body payload where a: "parseGroupIdPath (ulids (ce_runtime ce)) (ce_environment ce) path = Inr groupId"
    "resolveGroupRouteAuthActor ce rm (im_createdAt im) rq db = (Inr actor, db1)" "resolveManageableGroupForActor db1 groupId actor = Inr r"
    "parseGroupJoinTokenIssuePayload (ce_environment ce) (im_nowMs im) body = Inr payload"
    "new_join_token ce im groupId (actor_humanId actor) payload = Inr (token, row)" "db' = db1\<lparr>fd_join_tokens := fd_join_tokens db1 @ [row]\<rparr>"
    using assms unfolding issue_join_token_route_def by (auto simp: bindH_Inr handler_simps)
  show thesis using that[OF a(1-3) issue_payload_Inr(1,2,4)[OF a(4)] a(5,6)] .
qed

text \<open>What a request for a token adds: one row, unused, for one to twenty-five uses.\<close>
lemma issue_route_adds:
  assumes "issue_join_token_route ce rm im path rq db = (Inr (token, row), db')"
  shows "fd_join_tokens db' = fd_join_tokens db @ [row]" "fd_members db' = fd_members db"
    "jt_used_count row = 0" "1 \<le> jt_max_uses row" "jt_max_uses row \<le> 25"
  using assms
proof -
  obtain groupId actor db1 payload where a: "resolveGroupRouteAuthActor ce rm (im_createdAt im) rq db = (Inr actor, db1)"
    "1 \<le> gj_maxUses payload" "gj_maxUses payload \<le> 25" "new_join_token ce im groupId (actor_humanId actor) payload = Inr (token, row)"
    "db' = db1\<lparr>fd_join_tokens := fd_join_tokens db1 @ [row]\<rparr>"
    using assms by (rule issue_route_Inr)
  show "fd_join_tokens db' = fd_join_tokens db @ [row]" "fd_members db' = fd_members db" using actor_frame[OF a(1)] a(5) by simp_all
  have "jt_max_uses row = \<lfloor>gj_maxUses payload\<rfloor>" "jt_used_count row = 0" using new_join_token_Inr[OF a(4)] by simp_all
  then show "jt_used_count row = 0" "1 \<le> jt_max_uses row" "jt_max_uses row \<le> 25" using a(2,3) by linarith+
qed

lemma tokens_ok_issue:
  assumes "tokens_ok rows handed js" "jt_id row \<notin> jt_id ` set handed" "jt_used_count row = 0" "1 \<le> jt_max_uses row" "jt_max_uses row \<le> 25"
  shows "tokens_ok (rows @ [row]) (handed @ [row]) js"
proof -
  have none: "admissions js (jt_id row) = 0" using assms(1,2) by (intro admissions_new) (auto simp: tokens_ok_def)
  have "jt_id t \<in> jt_id ` set handed" if "t \<in> set rows" for t
  proof -
    have "\<forall>t \<in> set rows. \<exists>i \<in> set handed. jt_id i = jt_id t" using assms(1) by (simp add: tokens_ok_def) blast
    then obtain i where "i \<in> set handed" "jt_id t = jt_id i" using \<open>t \<in> set rows\<close> by fastforce
    then show ?thesis by (rule image_eqI[rotated])
  qed
  then have "jt_id row \<notin> jt_id ` set rows" using assms(2) by auto
  moreover have "\<forall>t \<in> set rows. jt_used_count t = admissions js (jt_id t) \<and> (\<exists>i \<in> set handed. jt_id i = jt_id t \<and> jt_max_uses i = jt_max_uses t)"
    "\<forall>i \<in> set handed. admissions js (jt_id i) \<le> jt_max_uses i \<and> jt_max_uses i \<le> 25" "\<forall>jn \<in> set js. jt_id (jn_token jn) \<in> jt_id ` set handed"
    "distinct (map jt_id rows)" "distinct (map jt_id handed)"
    using assms(1) by (simp_all add: tokens_ok_def)
  ultimately show ?thesis using assms(2-5) none unfolding tokens_ok_def by simp
qed

lemma join_transaction_joined:
  assumes "join_transaction fails jn db = (Inr r, db')" "jr_joined r"
  obtains n db1 m where "join_insert jn db = (n, db1)" "join_token_use jn db1 = (Suc m, db')"
proof -
  have "applyJoinMutation False fails jn db = (Inr r, db')"
    using assms(1) by (auto simp: join_transaction_def split: prod.splits sum.splits)
  then show thesis using assms(2) that
    by (auto simp: applyJoinMutation_def existing_result_def gr0_conv_Suc split: prod.splits if_splits option.splits)
qed

lemma gs_inv_step:
  assumes "group_step s s'" "gs_inv s" shows "gs_inv s'"
  using assms
proof cases
  case (insert_member jn n db')
  then show ?thesis using assms(2) members_ok_insert[OF _ insert_member(2)] by (simp add: gs_inv_def)
next
  case (count_use jn n db')
  then show ?thesis using assms(2) tokens_ok_use[OF _ count_use(3)] join_token_use_members[OF count_use(3)] by (simp add: gs_inv_def)
next
  case (transaction fails jn r db')
  obtain n db1 m where j: "join_insert jn (gs_db s) = (n, db1)" "join_token_use jn db1 = (Suc m, db')"
    using transaction(2,3) by (rule join_transaction_joined)
  have "members_ok (fd_members db1)" "tokens_ok (fd_join_tokens db1) (gs_issued s) (gs_joined s)"
    using assms(2) members_ok_insert[OF _ j(1)] by (simp_all add: gs_inv_def)
  then show ?thesis using tokens_ok_use[OF _ j(2)] join_token_use_members[OF j(2)] transaction(1) by (simp add: gs_inv_def)
next
  case (issue ce rm im path rq token row db')
  then show ?thesis using assms(2) issue_route_adds[OF issue(2)] tokens_ok_issue by (simp add: gs_inv_def)
qed (use assms(2) in \<open>simp_all add: gs_inv_def members_ok_delete tokens_ok_delete join_rollback_def delete_member_def
      delete_group_tokens_def delete_group_members_def delete_group_row_def\<close>)

lemma gs_inv_reach: "group_step\<^sup>*\<^sup>* s0 s \<Longrightarrow> gs_inv s0 \<Longrightarrow> gs_inv s"
  by (induction rule: rtranclp_induct) (auto intro: gs_inv_step)

lemma gs_inv_start: "gs_start s \<Longrightarrow> gs_inv s"
  by (auto simp: gs_start_def gs_inv_def tokens_ok_def admissions_def)

text \<open>
  (C15) However the requests of many agents overlap, statement by statement and with joins undone half way, no group
  ever has more than twenty-five members, no agent is listed in a group twice, and no join token admits more
  agents than it was issued for, which is at most twenty-five.
\<close>
theorem group_bounds:
  assumes "gs_start s0" "group_step\<^sup>*\<^sup>* s0 s"
  shows "length (filter (\<lambda>m. mr_group_id m = g) (fd_members (gs_db s))) \<le> 25 \<and>
    distinct (map (\<lambda>m. (mr_group_id m, mr_agent_id m)) (fd_members (gs_db s))) \<and>
    (\<forall>i \<in> set (gs_issued s). admissions (gs_joined s) (jt_id i) \<le> jt_max_uses i \<and> jt_max_uses i \<le> 25)"
proof -
  have "gs_inv s" using gs_inv_reach[OF assms(2)] gs_inv_start[OF assms(1)] by simp
  then show ?thesis by (simp add: gs_inv_def members_ok_def tokens_ok_def MAX_GROUP_MEMBERS_def)
qed

section \<open>Who may manage a group\<close>

text \<open>The human created the group, or owns an active agent that is an admin of it.\<close>
definition manages_group :: "full_db \<Rightarrow> string \<Rightarrow> string \<Rightarrow> bool" where
  "manages_group db groupId humanId \<longleftrightarrow>
     (\<exists>grp \<in> set (fd_groups db). gr_id grp = groupId \<and>
        (gr_created_by grp = humanId \<or>
         (\<exists>m \<in> set (fd_members db). \<exists>a \<in> set (db_agents (fd_core db)). mr_group_id m = groupId \<and> mr_agent_id m = ar_id a \<and>
            mr_role m = ''admin'' \<and> ar_owner_id a = humanId \<and> ar_status a = ''active'')))"

lemma resolve_group_Inr:
  "resolve_group db groupId humanId hasMembership e = Inr r \<longleftrightarrow>
     (\<exists>grp. find_group db groupId = Some grp \<and> r = (gr_id grp, gr_name grp) \<and> (gr_created_by grp = humanId \<or> hasMembership))"
  by (auto simp: resolve_group_def split: option.splits)

lemma find_group_Some: "find_group db groupId = Some grp \<Longrightarrow> grp \<in> set (fd_groups db) \<and> gr_id grp = groupId"
  unfolding find_group_def by (rule find_Some_in)

lemma manageable_human:
  assumes "resolveManageableGroupForHuman db groupId humanId = Inr r"
  shows "manages_group db groupId humanId"
proof -
  obtain grp where g: "find_group db groupId = Some grp" and c: "gr_created_by grp = humanId \<or>
      (\<exists>(m, a) \<in> set (members_with_agents db). mr_group_id m = groupId \<and> mr_role m = ''admin'' \<and> ar_owner_id a = humanId \<and> ar_status a = ''active'')"
    using assms unfolding resolveManageableGroupForHuman_def resolve_group_Inr list_ex_iff by blast
  show ?thesis unfolding manages_group_def using find_group_Some[OF g] c by (intro bexI[of _ grp]) (auto simp: members_with_agents_def)
qed

lemma active_current_Inr:
  "assertAgentIsActiveCurrent db did jti = Inr a \<Longrightarrow>
   a \<in> set (db_agents (fd_core db)) \<and> ar_did a = did \<and> ar_status a = ''active'' \<and> ar_current_jti a = Some jti"
  by (auto simp: assertAgentIsActiveCurrent_def dest: find_Some_in split: option.splits)

text \<open>An agent that manages a group does so for its owner.\<close>
lemma manageable_actor:
  assumes "resolveGroupRouteAuthActor ce rm now rq db = (Inr actor, db1)" "resolveManageableGroupForActor db1 groupId actor = Inr r"
  shows "manages_group db groupId (actor_humanId actor)"
proof -
  have same: "manages_group db1 = manages_group db" using actor_frame[OF assms(1)] by (intro ext) (simp add: manages_group_def)
  from assms(1) show ?thesis
  proof (cases rule: actor_cases)
    case (by_key hum kid)
    then show ?thesis using assms(2) same manageable_human[of db1] by (simp add: resolveManageableGroupForActor_def)
  next
    case (by_signature claims a)
    note a = active_current_Inr[OF by_signature(2)]
    obtain grp where g: "find_group db1 groupId = Some grp" and c: "gr_created_by grp = ar_owner_id a \<or>
        (\<exists>m \<in> set (fd_members db1). mr_group_id m = groupId \<and> mr_agent_id m = ar_id a \<and> mr_role m = ''admin'')"
      using assms(2) by_signature(3)
      by (auto simp: resolveManageableGroupForActor_def resolveManageableGroupForAgent_def resolve_group_Inr list_ex_iff)
    have "manages_group db1 groupId (ar_owner_id a)"
      unfolding manages_group_def using find_group_Some[OF g] c a by_signature(4) by (intro bexI[of _ grp]) auto
    then show ?thesis using same by_signature(3) by simp
  qed
qed


section \<open>An issued token lets an agent in\<close>

lemma generated_join_token_parses:
  assumes "b64_law R" "bytes \<noteq> []"
  shows "parseGroupJoinToken (generateGroupJoinToken R bytes) = Inr (generateGroupJoinToken R bytes)"
proof -
  have "encodeBase64url R bytes \<noteq> []" "\<forall>c \<in> set (encodeBase64url R bytes). \<not> is_ws c"
    using assms by (auto simp: b64_law_def encodeBase64url_def)
  then have "trim (generateGroupJoinToken R bytes) = generateGroupJoinToken R bytes" "length GROUP_JOIN_TOKEN_MARKER < length (generateGroupJoinToken R bytes)"
    by (auto intro!: trim_noop simp: generateGroupJoinToken_def GROUP_JOIN_TOKEN_MARKER_def is_ws_def)
  then show ?thesis by (simp add: parseGroupJoinToken_def generateGroupJoinToken_def)
qed

text \<open>An active agent with this DID is a member of the group.\<close>
definition active_member :: "full_db \<Rightarrow> string \<Rightarrow> string \<Rightarrow> bool" where
  "active_member db groupId did \<longleftrightarrow> (\<exists>m \<in> set (fd_members db). \<exists>a \<in> set (db_agents (fd_core db)).
     mr_agent_id m = ar_id a \<and> mr_group_id m = groupId \<and> ar_did a = did \<and> ar_status a = ''active'')"

lemma list_ex_members:
  "list_ex P (members_with_agents db) \<longleftrightarrow> (\<exists>m \<in> set (fd_members db). \<exists>a \<in> set (db_agents (fd_core db)). mr_agent_id m = ar_id a \<and> P (m, a))"
  unfolding members_with_agents_def list_ex_iff by fastforce

lemma membership_answer_body:
  assumes "parseGroupId ul (trim g) = Inr n" "parseAgentDid ul (trim did) = Inr p"
  shows "membership_answer ul env db (Some (membership_body g did)) = Inr (JObj [(''isMember'', JBool (active_member db n (trim did)))])"
  using assms by (simp add: membership_answer_def membership_body_def parseGroupIdPath_def catchE_def of_option_def list_ex_members active_member_def)

lemma find_join_token_new:
  assumes "hashGroupJoinToken (ce_crypto ce) token = Inr (jt_token_hash row)" "deriveGroupJoinTokenLookupPrefix token = Inr (jt_token_prefix row)"
    "row \<in> set (fd_join_tokens db)" "\<And>r. r \<in> set (fd_join_tokens db) \<Longrightarrow> jt_token_hash r = jt_token_hash row \<Longrightarrow> r = row"
  shows "find_join_token ce db token = Inr (Some row)"
proof -
  have "find (\<lambda>r. constantTimeEqual (jt_token_hash r) (jt_token_hash row)) (filter (\<lambda>r. jt_token_prefix r = jt_token_prefix row) (fd_join_tokens db)) = Some row"
    using assms(3,4) by (intro find_only) auto
  then show ?thesis using assms(1,2) by (simp add: find_join_token_def)
qed

lemma join_transaction_succeeds:
  assumes "length (filter (\<lambda>m. mr_group_id m = jt_group_id (jn_token jn)) (fd_members db)) < 25"
    "find_member db (jt_group_id (jn_token jn)) (ar_id (jn_agent jn)) = None"
    "jn_token jn \<in> set (fd_join_tokens db)" "usable jn (jn_token jn)"
  shows "\<exists>db'. join_transaction False jn db =
      (Inr \<lparr>jr_joined = True, jr_role = jt_role (jn_token jn), jr_joinedAt = jn_joinedAt jn\<rparr>, db') \<and>
    fd_members db' = fd_members db @ [joined_row jn] \<and> fd_core db' = fd_core db"
proof -
  have "\<not> list_ex (is_joiner jn) (fd_members db)"
    using assms(2) by (auto simp: find_member_def find_None_iff list_ex_iff is_joiner_def)
  then have ins: "join_insert jn db = (1, db\<lparr>fd_members := fd_members db @ [joined_row jn]\<rparr>)"
    using assms(1) by (simp add: join_insert_def MAX_GROUP_MEMBERS_def)
  have "filter (usable jn) (fd_join_tokens db) \<noteq> []" using assms(3,4) by (auto simp: filter_empty_conv)
  then show ?thesis by (simp add: join_transaction_def applyJoinMutation_def ins join_token_use_def sql_update_def)
qed


section \<open>Concrete runs\<close>

definition demo_joining :: "string \<Rightarrow> string \<Rightarrow> joining" where
  "demo_joining tok a = \<lparr>jn_token = demo_token_row tok, jn_group = demo_group_row, jn_agent = demo_agent a ''j'', jn_joinedAt = ''t''\<rparr>"

text \<open>
  Agent \<open>a\<close> joins with the first token and has inserted its row; agent \<open>b\<close> uses the token up; \<open>a\<close>'s row is removed by
  a manager; \<open>a\<close> joins again with the second token and completes; then the first join finds its token used up and
  undoes an insert that is no longer its own.
\<close>
definition demo_gs0 :: group_sys where
  "demo_gs0 = \<lparr>gs_db = demo_full_db, gs_pending = [], gs_joined = [], gs_issued = fd_join_tokens demo_full_db\<rparr>"

definition demo_gs1 :: group_sys where
  "demo_gs1 = demo_gs0\<lparr>gs_db := snd (join_insert (demo_joining ''1'' ''a'') (gs_db demo_gs0)), gs_pending := [demo_joining ''1'' ''a'']\<rparr>"

definition demo_gs2 :: group_sys where
  "demo_gs2 = demo_gs1\<lparr>gs_db := snd (join_transaction False (demo_joining ''1'' ''b'') (gs_db demo_gs1)), gs_joined := [demo_joining ''1'' ''b'']\<rparr>"

definition demo_gs3 :: group_sys where
  "demo_gs3 = demo_gs2\<lparr>gs_db := delete_member demo_group_id ''a'' (gs_db demo_gs2)\<rparr>"

definition demo_gs4 :: group_sys where
  "demo_gs4 = demo_gs3\<lparr>gs_db := snd (join_transaction False (demo_joining ''2'' ''a'') (gs_db demo_gs3)),
     gs_joined := [demo_joining ''1'' ''b'', demo_joining ''2'' ''a'']\<rparr>"

definition demo_gs5 :: group_sys where
  "demo_gs5 = demo_gs4\<lparr>gs_db := join_rollback (demo_joining ''1'' ''a'') (gs_db demo_gs4), gs_pending := []\<rparr>"

lemmas demo_gs_defs = demo_gs5_def demo_gs4_def demo_gs3_def demo_gs2_def demo_gs1_def demo_gs0_def demo_full_db_def demo_joining_def
  demo_token_row_def demo_agent_def demo_group_row_def
  join_insert_def is_joiner_def joined_row_def usable_def join_token_use_def sql_update_def sql_delete_def join_rollback_def delete_member_def
  join_transaction_def applyJoinMutation_def existing_result_def MAX_GROUP_MEMBERS_def

lemma demo_gs_start: "gs_start demo_gs0"
  by (simp add: gs_start_def members_ok_def demo_gs_defs)

lemma demo_gs_run: "group_step demo_gs0 demo_gs1" "group_step demo_gs1 demo_gs2" "group_step demo_gs2 demo_gs3" "group_step demo_gs3 demo_gs4"
  "group_step demo_gs4 demo_gs5"
proof -
  have "join_insert (demo_joining ''1'' ''a'') (gs_db demo_gs0) = (Suc 0, gs_db demo_gs1)" by (simp add: demo_gs_defs)
  from group_step.insert_member[OF this] show "group_step demo_gs0 demo_gs1" by (simp add: demo_gs1_def demo_gs0_def)
  have "join_transaction False (demo_joining ''1'' ''b'') (gs_db demo_gs1) = (Inr \<lparr>jr_joined = True, jr_role = ''member'', jr_joinedAt = ''t''\<rparr>, gs_db demo_gs2)"
    by (simp add: demo_gs_defs)
  from group_step.transaction[OF this] show "group_step demo_gs1 demo_gs2" by (simp add: demo_gs2_def demo_gs1_def demo_gs0_def)
  show "group_step demo_gs2 demo_gs3" unfolding demo_gs3_def by (rule group_step.remove)
  have "join_transaction False (demo_joining ''2'' ''a'') (gs_db demo_gs3) = (Inr \<lparr>jr_joined = True, jr_role = ''member'', jr_joinedAt = ''t''\<rparr>, gs_db demo_gs4)"
    by (simp add: demo_gs_defs)
  from group_step.transaction[OF this] show "group_step demo_gs3 demo_gs4" by (simp add: demo_gs4_def demo_gs3_def demo_gs2_def demo_gs1_def demo_gs0_def)
  have "demo_joining ''1'' ''a'' \<in> set (gs_pending demo_gs4)" by (simp add: demo_gs4_def demo_gs3_def demo_gs2_def demo_gs1_def)
  from group_step.undo[OF this] show "group_step demo_gs4 demo_gs5"
    by (simp add: demo_gs5_def demo_gs4_def demo_gs3_def demo_gs2_def demo_gs1_def demo_gs0_def)
qed

lemma demo_gs_reach: "group_step\<^sup>*\<^sup>* demo_gs0 demo_gs4"
  using demo_gs_run(1-4) by (meson converse_rtranclp_into_rtranclp rtranclp.rtrancl_refl)

theorem group_bounds_witness:
  "gs_start demo_gs0 \<and> group_step\<^sup>*\<^sup>* demo_gs0 demo_gs4 \<and>
   length (filter (\<lambda>m. mr_group_id m = demo_group_id) (fd_members (gs_db demo_gs4))) \<le> 25"
  using group_bounds[OF demo_gs_start demo_gs_reach, of demo_group_id] demo_gs_start demo_gs_reach by blast

text \<open>
  The undoing of a failed join names the group and the agent, not the row it inserted. It can remove the member that
  another, completed join of the same agent has added since: the agent was told that it had joined, nobody removed it,
  and it is not a member.
\<close>
lemma undone_join_removes_member:
  "group_step\<^sup>*\<^sup>* demo_gs0 demo_gs4 \<and> demo_joining ''2'' ''a'' \<in> set (gs_joined demo_gs4) \<and>
   find_member (gs_db demo_gs4) demo_group_id ''a'' \<noteq> None \<and> fst (join_token_use (demo_joining ''1'' ''a'') (gs_db demo_gs4)) = 0 \<and>
   group_step demo_gs4 demo_gs5 \<and> find_member (gs_db demo_gs5) demo_group_id ''a'' = None"
proof -
  have "demo_joining ''2'' ''a'' \<in> set (gs_joined demo_gs4)" by (simp add: demo_gs4_def)
  moreover have "find_member (gs_db demo_gs4) demo_group_id ''a'' \<noteq> None" "fst (join_token_use (demo_joining ''1'' ''a'') (gs_db demo_gs4)) = 0"
    "find_member (gs_db demo_gs5) demo_group_id ''a'' = None"
    by (simp_all add: demo_gs_defs find_member_def)
  ultimately show ?thesis using demo_gs_run(5) demo_gs_reach by blast
qed

text \<open>A manager with an API key issues a token.\<close>
definition demo_group_request :: proxy_request where
  "demo_group_request = \<lparr>rq_method = ''POST'', rq_path = [], rq_url = [], rq_headers = [(''authorization'', demo_bearer)], rq_body = []\<rparr>"

definition demo_issue_moment :: issue_moment where
  "demo_issue_moment = \<lparr>im_nowMs = 0, im_createdAt = ''t'', im_tokenId = ''3'', im_bytes = [2]\<rparr>"

lemma demo_issue:
  "\<exists>token row db'. issue_join_token_route demo_claw_env demo_moment demo_issue_moment demo_group_id demo_group_request demo_keyed_db = (Inr (token, row), db') \<and>
     jt_group_id row = demo_group_id"
proof -
  have path: "parseGroupIdPath (ulids (ce_runtime demo_claw_env)) (ce_environment demo_claw_env) demo_group_id = Inr demo_group_id"
    by code_simp
  have bearer: "isBearerAuth (rq_header demo_group_request ''authorization'')" "rq_header demo_group_request ''authorization'' = Some demo_bearer"
    by (simp_all add: isBearerAuth_def rq_header_def demo_group_request_def demo_bearer_def startsWith_def)
  have actor: "resolveGroupRouteAuthActor demo_claw_env demo_moment t demo_group_request demo_keyed_db =
      (Inr (HumanActor ''H''), touch_key demo_key_id t demo_keyed_db)" for t
    using bearer demo_pat[of t] by (simp add: resolveGroupRouteAuthActor_def demo_claw_env_def toAuthenticatedHuman_def demo_human_row_def)
  have manage: "resolveManageableGroupForActor (touch_key demo_key_id t demo_keyed_db) demo_group_id (HumanActor ''H'') = Inr (demo_group_id, ''g'')" for t
    by (simp add: resolveManageableGroupForActor_def resolveManageableGroupForHuman_def resolve_group_def find_group_def demo_keyed_db_def
        demo_full_db_def demo_group_row_def)
  have body: "parseJsonBodyFromBytes demo_claw_env (rq_body demo_group_request) e = Inr (JObj [])" for e
    by (simp add: parseJsonBodyFromBytes_def demo_claw_env_def demo_group_request_def)
  obtain p where p: "parseGroupJoinTokenIssuePayload (ce_environment demo_claw_env) (im_nowMs demo_issue_moment) (JObj []) = Inr p"
    by (simp add: parseGroupJoinTokenIssuePayload_def bounded_integer_def join_role_def)
  have "parseGroupJoinToken (generateGroupJoinToken demo_runtime [2]) = Inr (generateGroupJoinToken demo_runtime [2])"
    by (rule generated_join_token_parses) (simp_all add: demo_laws)
  moreover have "encodeBase64url demo_runtime [2] \<noteq> []" using demo_laws(1) by (auto simp: b64_law_def encodeBase64url_def)
  ultimately obtain token row where n: "new_join_token demo_claw_env demo_issue_moment demo_group_id ''H'' p = Inr (token, row)"
    by (simp add: new_join_token_def hashGroupJoinToken_def deriveGroupJoinTokenLookupPrefix_def demo_claw_env_def demo_issue_moment_def
        generateGroupJoinToken_def GROUP_JOIN_TOKEN_LOOKUP_ENTROPY_LENGTH_def Let_def)
  have "issue_join_token_route demo_claw_env demo_moment demo_issue_moment demo_group_id demo_group_request demo_keyed_db =
      (Inr (token, row), (touch_key demo_key_id (im_createdAt demo_issue_moment) demo_keyed_db)
         \<lparr>fd_join_tokens := fd_join_tokens (touch_key demo_key_id (im_createdAt demo_issue_moment) demo_keyed_db) @ [row]\<rparr>)"
    by (simp add: issue_join_token_route_def bindH_def liftH_def readH_def writeH_def routeE_def path actor manage body p n)
  then show ?thesis using new_join_token_Inr[OF n] by blast
qed



end
