(* ===== verification/Pair_Events.thy ===== *)
theory Pair_Events
  imports Date_Time Trust_State
begin

text \<open>
  The event that tells an initiator that its pairing was accepted: \<open>packages/protocol/src/pairing-events.ts\<close>.
  The proxy creates it when a ticket is confirmed, sends it through a queue as JSON, and the consumer parses it
  again.

  \<open>parsePairAcceptedEvent\<close> takes any JavaScript value; the exceptions it throws carry a message
  (\<open>event_error\<close>). \<open>Date.parse\<close> is the argument \<open>date_parse\<close>. The guard against a host without a global
  \<open>URL\<close> is left out.

  Shown: an instant from 1970 up to the year 9999 prints in the form the parser demands, so an event that was
  created from good data is one that the consumer accepts, unchanged.
\<close>

section \<open>Constants and types\<close>

definition PAIR_ACCEPTED_EVENT_TYPE :: string where
  "PAIR_ACCEPTED_EVENT_TYPE = ''pair.accepted''"
definition PAIR_ACCEPTED_TRUSTED_DELIVERY_SOURCE :: string where
  "PAIR_ACCEPTED_TRUSTED_DELIVERY_SOURCE = ''proxy.events.queue.pair_accepted''"
definition PAIR_ACCEPTED_NOTIFICATION_MESSAGE :: string where
  "PAIR_ACCEPTED_NOTIFICATION_MESSAGE = ''Clawdentity pairing complete. You can now message this peer.''"

record PairAcceptedResponderProfile =
  pr_agentName :: string
  pr_humanName :: string
  pr_proxyOrigin :: string

record PairAcceptedEvent =
  pe_initiatorAgentDid :: string
  pe_responderAgentDid :: string
  pe_responderProfile :: PairAcceptedResponderProfile
  pe_issuerProxyOrigin :: string
  pe_eventTimestampUtc :: string
  pe_msg :: "string option"

text \<open>An \<open>Error\<close> with its message, or the exception of the DID parser.\<close>
datatype event_error = EventError string | EventDidError parse_error

section \<open>Parsing\<close>

definition event_field_error :: "string \<Rightarrow> string \<Rightarrow> event_error" where
  "event_field_error field what = EventError (''Pair accepted event field '' @ [CHR 0x27] @ field @ [CHR 0x27] @ '' '' @ what)"

fun parseNonBlankString :: "jsval \<Rightarrow> string \<Rightarrow> (event_error, string) result" where
  "parseNonBlankString (JStr s) field =
     (if length (trim s) = 0 then Inl (event_field_error field ''must be a non-empty string'') else Inr (trim s))"
| "parseNonBlankString _ field = Inl (event_field_error field ''must be a non-empty string'')"

definition parseAgentDidString :: "ulid_lib \<Rightarrow> jsval \<Rightarrow> string \<Rightarrow> (event_error, string) result" where
  "parseAgentDidString ul value field =
     bindE (parseNonBlankString value field) (\<lambda>normalized.
     case parseAgentDid ul normalized of Inl e \<Rightarrow> Inl (EventDidError e) | Inr _ \<Rightarrow> Inr normalized)"

definition parseHttpOrigin :: "runtime \<Rightarrow> jsval \<Rightarrow> string \<Rightarrow> (event_error, string) result" where
  "parseHttpOrigin rt value field =
     bindE (parseNonBlankString value field) (\<lambda>normalized.
     case url_parse rt normalized of
       None \<Rightarrow> Inl (event_field_error field ''must be a valid http(s) URL origin'')
     | Some (protocol, origin) \<Rightarrow>
         if protocol \<noteq> ''https:'' \<and> protocol \<noteq> ''http:''
         then Inl (event_field_error field ''must be a valid http(s) URL origin'') else Inr origin)"

definition is_digit :: "char \<Rightarrow> bool" where
  "is_digit c \<longleftrightarrow> (let n = (of_char c :: nat) in 48 \<le> n \<and> n \<le> 57)"

text \<open>A text of a fixed form; \<open>d\<close> stands for a decimal digit.\<close>
definition has_form :: "string \<Rightarrow> string \<Rightarrow> bool" where
  "has_form form s \<longleftrightarrow> list_all2 (\<lambda>f c. if f = CHR ''d'' then is_digit c else c = f) form s"

text \<open>The regular expression: date and time, an optional fraction of one to nine digits, the zone.\<close>
definition isoTimestampPattern :: "string \<Rightarrow> bool" where
  "isoTimestampPattern s \<longleftrightarrow>
     has_form ''dddd-dd-ddTdd:dd:dd'' (take 19 s) \<and>
     (let rest = drop 19 s;
          zone = (if startsWith rest ''.'' then dropWhile is_digit (tl rest) else rest) in
      (startsWith rest ''.'' \<longrightarrow> length (takeWhile is_digit (tl rest)) \<in> {1..9}) \<and>
      (zone = ''Z'' \<or> has_form ''+dd:dd'' zone \<or> has_form ''-dd:dd'' zone))"

definition parseTimestampUtc :: "(string \<Rightarrow> ms option) \<Rightarrow> jsval \<Rightarrow> (event_error, string) result" where
  "parseTimestampUtc date_parse value =
     bindE (parseNonBlankString value ''eventTimestampUtc'') (\<lambda>normalized.
     throw_if (\<not> isoTimestampPattern normalized) (event_field_error ''eventTimestampUtc'' ''must be a valid ISO timestamp'')
     (case date_parse normalized of
        None \<Rightarrow> Inl (event_field_error ''eventTimestampUtc'' ''must be a valid ISO timestamp'')
      | Some epochMs \<Rightarrow> Inr (toIso epochMs)))"

fun parseOptionalMessage :: "jsval \<Rightarrow> (event_error, string option) result" where
  "parseOptionalMessage JUndefined = Inr None"
| "parseOptionalMessage (JStr s) = (if length (trim s) = 0 then Inr None else Inr (Some (trim s)))"
| "parseOptionalMessage _ = Inl (event_field_error ''message'' ''must be a string'')"

definition parseResponderProfile :: "runtime \<Rightarrow> jsval \<Rightarrow> (event_error, PairAcceptedResponderProfile) result" where
  "parseResponderProfile rt value =
     throw_if (\<not> is_plain_object value) (event_field_error ''responderProfile'' ''must be an object'')
     (bindE (parseNonBlankString (js_get value ''agentName'') ''responderProfile.agentName'') (\<lambda>name.
      bindE (parseNonBlankString (js_get value ''humanName'') ''responderProfile.humanName'') (\<lambda>person.
      bindE (parseHttpOrigin rt (js_get value ''proxyOrigin'') ''responderProfile.proxyOrigin'') (\<lambda>origin.
      Inr \<lparr>pr_agentName = name, pr_humanName = person, pr_proxyOrigin = origin\<rparr>))))"

definition parsePairAcceptedEvent ::
  "runtime \<Rightarrow> (string \<Rightarrow> ms option) \<Rightarrow> jsval \<Rightarrow> (event_error, PairAcceptedEvent) result" where
  "parsePairAcceptedEvent rt date_parse payload =
     throw_if (\<not> is_plain_object payload) (EventError ''Pair accepted event payload must be an object'')
     (throw_if (js_get payload ''type'' \<noteq> JStr PAIR_ACCEPTED_EVENT_TYPE) (EventError ''Unsupported pair accepted event type'')
     (bindE (parseOptionalMessage (js_get payload ''message'')) (\<lambda>message.
      bindE (parseAgentDidString (ulids rt) (js_get payload ''initiatorAgentDid'') ''initiatorAgentDid'') (\<lambda>initiator.
      bindE (parseAgentDidString (ulids rt) (js_get payload ''responderAgentDid'') ''responderAgentDid'') (\<lambda>responder.
      bindE (parseResponderProfile rt (js_get payload ''responderProfile'')) (\<lambda>profile.
      bindE (parseHttpOrigin rt (js_get payload ''issuerProxyOrigin'') ''issuerProxyOrigin'') (\<lambda>issuer.
      bindE (parseTimestampUtc date_parse (js_get payload ''eventTimestampUtc'')) (\<lambda>stamp.
      Inr \<lparr>pe_initiatorAgentDid = initiator, pe_responderAgentDid = responder, pe_responderProfile = profile,
           pe_issuerProxyOrigin = issuer, pe_eventTimestampUtc = stamp, pe_msg = message\<rparr>))))))))"

text \<open>The object an event is in JavaScript; \<open>message\<close> is left out when it is absent.\<close>
definition responder_profile_js :: "PairAcceptedResponderProfile \<Rightarrow> jsval" where
  "responder_profile_js p = JObj [(''agentName'', JStr (pr_agentName p)), (''humanName'', JStr (pr_humanName p)),
     (''proxyOrigin'', JStr (pr_proxyOrigin p))]"

definition pair_event_js :: "PairAcceptedEvent \<Rightarrow> jsval" where
  "pair_event_js e = JObj
     ([(''type'', JStr PAIR_ACCEPTED_EVENT_TYPE), (''initiatorAgentDid'', JStr (pe_initiatorAgentDid e)),
       (''responderAgentDid'', JStr (pe_responderAgentDid e)), (''responderProfile'', responder_profile_js (pe_responderProfile e)),
       (''issuerProxyOrigin'', JStr (pe_issuerProxyOrigin e)), (''eventTimestampUtc'', JStr (pe_eventTimestampUtc e))] @
      (case pe_msg e of None \<Rightarrow> [] | Some m \<Rightarrow> [(''message'', JStr m)]))"

text \<open>The input has the fields of an event, so it is one that has not been checked yet.\<close>
definition createPairAcceptedEvent ::
  "runtime \<Rightarrow> (string \<Rightarrow> ms option) \<Rightarrow> PairAcceptedEvent \<Rightarrow> (event_error, PairAcceptedEvent) result" where
  "createPairAcceptedEvent rt date_parse input = parsePairAcceptedEvent rt date_parse (pair_event_js input)"

section \<open>Instants print in the form that is parsed\<close>

lemma nat_str_is_digits: "list_all is_digit (nat_str n)"
proof (induction n rule: nat_str.induct)
  case (1 n)
  have dig: "is_digit (char_of (48 + k))" if "k < 10" for k :: nat
    using that by (simp add: is_digit_def)
  have "is_digit (char_of (48 + n mod 10))" by (rule dig) simp
  then show ?case using 1 dig by (subst nat_str.simps) auto
qed

lemma nat_str_length: "n < 10 ^ Suc k \<Longrightarrow> length (nat_str n) \<le> Suc k"
proof (induction k arbitrary: n)
  case 0
  then show ?case by (subst nat_str.simps) simp
next
  case (Suc k)
  show ?case
  proof (cases "n < 10")
    case True
    then show ?thesis by (subst nat_str.simps) simp
  next
    case False
    have "n div 10 < 10 ^ Suc k" using Suc.prems by (simp add: less_mult_imp_div_less)
    then have "length (nat_str (n div 10)) \<le> Suc k" by (rule Suc.IH)
    then show ?thesis using False by (subst nat_str.simps) simp
  qed
qed

lemma has_form_digits: "list_all is_digit s \<Longrightarrow> has_form (replicate (length s) CHR ''d'') s"
  by (induction s) (simp_all add: has_form_def)

lemma pad_left_form:
  assumes "0 \<le> i" and "i < 10 ^ Suc k"
  shows "has_form (replicate (Suc k) CHR ''d'') (pad_left (Suc k) (int_str i))"
proof -
  have s: "int_str i = nat_str (nat i)" using assms(1) by (simp add: int_str_def)
  have "nat i < 10 ^ Suc k" using assms by (simp add: nat_less_iff)
  then have len: "length (pad_left (Suc k) (int_str i)) = Suc k"
    using nat_str_length [of "nat i" k] by (simp add: pad_left_def s)
  have "is_digit CHR ''0''" by (simp add: is_digit_def)
  then have "list_all is_digit (pad_left (Suc k) (int_str i))"
    using nat_str_is_digits [of "nat i"] by (auto simp: pad_left_def s list_all_iff)
  then show ?thesis using has_form_digits len by metis
qed

lemma has_form_append: "has_form f s \<Longrightarrow> has_form g r \<Longrightarrow> has_form (f @ g) (s @ r)"
  by (simp add: has_form_def list_all2_appendI)

lemma has_form_Cons: "has_form (c # g) (c # r) \<longleftrightarrow> (c = CHR ''d'' \<longrightarrow> is_digit c) \<and> has_form g r"
  by (simp add: has_form_def)

lemma has_form_length: "has_form f s \<Longrightarrow> length s = length f"
  by (simp add: has_form_def list_all2_lengthD)

lemma civil_bounds:
  assumes "civil_from_days days = (y, m, d)"
  shows "0 \<le> m \<and> m < 100 \<and> 0 \<le> d \<and> d < 100"
    and "0 \<le> days \<Longrightarrow> days < 2786860 \<Longrightarrow> 0 \<le> y \<and> y \<le> 9999"
proof -
  define era where "era = (days + 719468) div 146097"
  define doe where "doe = days + 719468 - era * 146097"
  define yoe where "yoe = (doe - doe div 1460 + doe div 36524 - doe div 146096) div 365"
  define doy where "doy = doe - (365 * yoe + yoe div 4 - yoe div 100)"
  define mp where "mp = (5 * doy + 2) div 153"
  define mon where "mon = (if mp < 10 then mp + 3 else mp - 9)"
  have "civil_from_days days = (yoe + era * 400 + (if mon \<le> 2 then 1 else 0), mon, doy - (153 * mp + 2) div 5 + 1)"
    by (simp only: civil_from_days_def Let_def era_def doe_def yoe_def doy_def mp_def mon_def)
  then have m: "m = (if mp < 10 then mp + 3 else mp - 9)" and d: "d = doy - (153 * mp + 2) div 5 + 1"
    and y: "y = yoe + era * 400 + (if m \<le> 2 then 1 else 0)"
    using assms by (simp_all only: prod.inject mon_def)
  have doe: "doe = (days + 719468) mod 146097" by (simp add: doe_def era_def minus_div_mult_eq_mod)
  then have doe_b: "0 \<le> doe" "doe < 146097" by simp_all
  have q: "1460 * (doe div 1460) \<le> doe" "doe < 1460 * (doe div 1460) + 1460"
    "36524 * (doe div 36524) \<le> doe" "doe < 36524 * (doe div 36524) + 36524"
    "0 \<le> doe div 146096" "doe div 146096 \<le> 1"
    using doe_b by linarith+
  have yoe: "365 * yoe \<le> doe - doe div 1460 + doe div 36524 - doe div 146096"
    "doe - doe div 1460 + doe div 36524 - doe div 146096 < 365 * yoe + 365"
    unfolding yoe_def by linarith+
  have yq: "4 * (yoe div 4) \<le> yoe" "yoe < 4 * (yoe div 4) + 4" "100 * (yoe div 100) \<le> yoe" "yoe < 100 * (yoe div 100) + 100"
    by linarith+
  have doy: "- 20 \<le> doy" "doy \<le> 400"
    using doe_b q yoe yq unfolding doy_def by linarith+
  have mp: "153 * mp \<le> 5 * doy + 2" "5 * doy + 2 < 153 * mp + 153"
    unfolding mp_def by linarith+
  have "5 * ((153 * mp + 2) div 5) \<le> 153 * mp + 2" "153 * mp + 2 < 5 * ((153 * mp + 2) div 5) + 5"
    by linarith+
  then have "0 \<le> d" "d < 100" using mp unfolding d by linarith+
  moreover have "0 \<le> m" "m < 100" using doy mp unfolding m by (auto split: if_splits)
  ultimately show "0 \<le> m \<and> m < 100 \<and> 0 \<le> d \<and> d < 100" by simp
  have "- 1 \<le> yoe" "yoe \<le> 400" using doe_b q yoe by linarith+
  show "0 \<le> y \<and> y \<le> 9999" if "0 \<le> days" "days < 2786860"
  proof -
    have "4 \<le> era" "era \<le> 23" using that unfolding era_def by linarith+
    then show ?thesis using \<open>- 1 \<le> yoe\<close> \<open>yoe \<le> 400\<close> unfolding y by auto
  qed
qed

text \<open>The instants from 1970 until the middle of the ten-thousands cycle, in the year 9600.\<close>
definition iso_range :: "ms \<Rightarrow> bool" where
  "iso_range t \<longleftrightarrow> 0 \<le> t \<and> t < 2786860 * 86400000"

lemma toIso_form:
  assumes "iso_range t"
  shows "has_form ''dddd-dd-ddTdd:dd:dd.dddZ'' (toIso t)"
proof -
  define n where "n = \<lfloor>t\<rfloor>"
  have n: "0 \<le> n" "n < 2786860 * 86400000"
    using assms unfolding n_def iso_range_def by (simp, linarith)
  define r where "r = n mod 86400000"
  have r: "0 \<le> r" "r < 86400000" by (simp_all add: r_def)
  obtain y m d where c: "civil_from_days (n div 86400000) = (y, m, d)" by (metis prod_cases3)
  have "0 \<le> n div 86400000" "n div 86400000 < 2786860" using n by linarith+
  then have y: "0 \<le> y" "y \<le> 9999" using civil_bounds(2) [OF c] by blast+
  have md: "0 \<le> m" "m < 100" "0 \<le> d" "d < 100" using civil_bounds(1) [OF c] by blast+
  have four: "has_form ''dddd'' (pad_left 4 (int_str i))" if "0 \<le> i" "i < 10000" for i
    using pad_left_form [of i 3] that by (simp add: eval_nat_numeral)
  have two: "has_form ''dd'' (pad_left 2 (int_str i))" if "0 \<le> i" "i < 100" for i
    using pad_left_form [of i 1] that by (simp add: eval_nat_numeral)
  have three: "has_form ''ddd'' (pad_left 3 (int_str i))" if "0 \<le> i" "i < 1000" for i
    using pad_left_form [of i 2] that by (simp add: eval_nat_numeral)
  have ts: "0 \<le> r div 3600000" "r div 3600000 < 100" "0 \<le> r div 60000 mod 60" "r div 60000 mod 60 < 100"
    "0 \<le> r div 1000 mod 60" "r div 1000 mod 60 < 100" "0 \<le> r mod 1000" "r mod 1000 < 1000"
    using r by (simp_all add: order.strict_trans [OF pos_mod_bound])
  have "toIso t = pad_left 4 (int_str y) @ ''-'' @ pad_left 2 (int_str m) @ ''-'' @ pad_left 2 (int_str d) @ ''T'' @
         pad_left 2 (int_str (r div 3600000)) @ '':'' @ pad_left 2 (int_str (r div 60000 mod 60)) @ '':'' @
         pad_left 2 (int_str (r div 1000 mod 60)) @ ''.'' @ pad_left 3 (int_str (r mod 1000)) @ ''Z''"
    using assms y by (simp only: toIso_def iso_range_def Let_def if_True n_def [symmetric] c prod.case r_def [symmetric]
        iso_year_def simp_thms)
  moreover have "''dddd-dd-ddTdd:dd:dd.dddZ'' = ''dddd'' @ ''-'' @ ''dd'' @ ''-'' @ ''dd'' @ ''T'' @ ''dd'' @ '':'' @ ''dd'' @ '':'' @
      ''dd'' @ ''.'' @ ''ddd'' @ ''Z''"
    by simp
  moreover have lit: "has_form ''-'' ''-''" "has_form ''T'' ''T''" "has_form '':'' '':''" "has_form ''.'' ''.''" "has_form ''Z'' ''Z''"
    by (simp_all add: has_form_def)
  ultimately show ?thesis
    using y by (simp only:) (intro has_form_append lit four two three md ts; simp)
qed

lemma has_form_Cons1:
  "has_form [] s \<longleftrightarrow> s = []"
  "has_form (f # g) s \<longleftrightarrow> (\<exists>c r. s = c # r \<and> (if f = CHR ''d'' then is_digit c else c = f) \<and> has_form g r)"
  by (simp_all add: has_form_def list_all2_Cons1)

lemma has_form_take_drop: "has_form (f @ g) s \<Longrightarrow> has_form f (take (length f) s) \<and> has_form g (drop (length f) s)"
proof (induction f arbitrary: s)
  case (Cons a f)
  then obtain c r where "s = c # r" "if a = CHR ''d'' then is_digit c else c = a" "has_form (f @ g) r"
    by (simp only: append_Cons has_form_Cons1) blast
  then show ?case using Cons.IH by (simp only: has_form_Cons1 length_Cons take_Suc_Cons drop_Suc_Cons) blast
qed (simp add: has_form_Cons1)

lemma has_form_chars: "has_form f s \<Longrightarrow> c \<in> set s \<Longrightarrow> is_digit c \<or> c \<in> set f"
proof (induction f arbitrary: s)
  case (Cons a f)
  then obtain x r where "s = x # r" "if a = CHR ''d'' then is_digit x else x = a" "has_form f r"
    by (simp only: has_form_Cons1) blast
  then show ?case using Cons by (cases "c = x") (auto split: if_splits)
qed (simp add: has_form_Cons1)

lemma toIso_pattern:
  assumes "iso_range t"
  shows "isoTimestampPattern (toIso t)" and "trim (toIso t) = toIso t" and "toIso t \<noteq> []"
proof -
  note form = toIso_form [OF assms]
  define date_form where "date_form = ''dddd-dd-ddTdd:dd:dd''"
  have len: "length date_form = 19" by (simp add: date_form_def)
  have "has_form (date_form @ ''.dddZ'') (toIso t)" using form by (simp add: date_form_def)
  from has_form_take_drop [OF this] have "has_form date_form (take 19 (toIso t))" and tail: "has_form ''.dddZ'' (drop 19 (toIso t))"
    unfolding len by blast+
  moreover obtain a b c where "drop 19 (toIso t) = [CHR ''.'', a, b, c, CHR ''Z'']" "is_digit a" "is_digit b" "is_digit c"
    using tail by (simp add: has_form_Cons1) blast
  moreover have "\<not> is_digit CHR ''Z''" by (simp add: is_digit_def)
  ultimately show "isoTimestampPattern (toIso t)"
    unfolding isoTimestampPattern_def date_form_def by (simp add: startsWith_def)
  have "\<not> is_ws c" if "is_digit c" for c using that by (auto simp: is_digit_def is_ws_def Let_def)
  moreover have "\<forall>f \<in> set ''dddd-dd-ddTdd:dd:dd.dddZ''. \<not> is_ws f" by (simp add: is_ws_def)
  ultimately have "\<forall>c \<in> set (toIso t). \<not> is_ws c" using has_form_chars [OF form] by blast
  then show "trim (toIso t) = toIso t" by (rule trim_noop)
  show "toIso t \<noteq> []" using has_form_length [OF form] by auto
qed

section \<open>Creating and parsing\<close>

text \<open>ECMAScript: \<open>Date.parse\<close> reads back what \<open>toISOString\<close> printed for an instant.\<close>
definition reads_date :: "(string \<Rightarrow> ms option) \<Rightarrow> ms \<Rightarrow> bool" where
  "reads_date date_parse t \<longleftrightarrow> date_parse (toIso t) = Some t"

text \<open>An \<open>http(s)\<close> origin as the URL parser prints it.\<close>
definition is_http_origin :: "runtime \<Rightarrow> string \<Rightarrow> bool" where
  "is_http_origin rt u \<longleftrightarrow>
     (\<exists>protocol. url_parse rt u = Some (protocol, u) \<and> (protocol = ''https:'' \<or> protocol = ''http:'')) \<and> trim u = u \<and> u \<noteq> []"

lemma url_origin_law_http_origin:
  "url_origin_law rt \<Longrightarrow> url_parse rt u = Some (protocol, origin) \<Longrightarrow> protocol = ''https:'' \<or> protocol = ''http:'' \<Longrightarrow>
   is_http_origin rt origin"
  unfolding url_origin_law_def is_http_origin_def by blast

text \<open>An event in normal form.\<close>
definition event_normal :: "runtime \<Rightarrow> PairAcceptedEvent \<Rightarrow> bool" where
  "event_normal rt e \<longleftrightarrow>
     is_agent_did (ulids rt) (pe_initiatorAgentDid e) \<and> is_agent_did (ulids rt) (pe_responderAgentDid e) \<and>
     (\<forall>s \<in> {pr_agentName (pe_responderProfile e), pr_humanName (pe_responderProfile e)}. trim s = s \<and> s \<noteq> []) \<and>
     is_http_origin rt (pr_proxyOrigin (pe_responderProfile e)) \<and> is_http_origin rt (pe_issuerProxyOrigin e) \<and>
     (\<forall>m. pe_msg e = Some m \<longrightarrow> trim m = m \<and> m \<noteq> [])"

lemma parseNonBlankString_Inr: "parseNonBlankString x field = Inr s \<longleftrightarrow> (\<exists>v. x = JStr v \<and> s = trim v \<and> s \<noteq> [])"
  by (cases "(x, field)" rule: parseNonBlankString.cases) auto

lemma parseHttpOrigin_origin: "is_http_origin rt u \<Longrightarrow> parseHttpOrigin rt (JStr u) field = Inr u"
  by (auto simp: parseHttpOrigin_def is_http_origin_def)

lemma parseHttpOrigin_Inr:
  assumes "url_origin_law rt" and "parseHttpOrigin rt x field = Inr u"
  shows "is_http_origin rt u"
proof -
  obtain n where "(case url_parse rt n of None \<Rightarrow> Inl (event_field_error field ''must be a valid http(s) URL origin'')
     | Some (protocol, origin) \<Rightarrow> if protocol \<noteq> ''https:'' \<and> protocol \<noteq> ''http:''
         then Inl (event_field_error field ''must be a valid http(s) URL origin'') else Inr origin) = Inr u"
    using assms(2) unfolding parseHttpOrigin_def bindE_eq_Inr by blast
  then obtain protocol where "url_parse rt n = Some (protocol, u)" "protocol = ''https:'' \<or> protocol = ''http:''"
    by (cases "url_parse rt n") (auto split: if_splits)
  then show ?thesis using url_origin_law_http_origin [OF assms(1)] by blast
qed

lemma parseAgentDidString_Inr:
  "parseAgentDidString ul x field = Inr d \<longleftrightarrow> (\<exists>v. x = JStr v \<and> d = trim v \<and> is_agent_did ul d)"
proof -
  have ne: "is_agent_did ul d \<Longrightarrow> d \<noteq> []" for d using agent_did_nonempty is_agent_did_iff by metis
  have "(case parseAgentDid ul n of Inl e \<Rightarrow> Inl (EventDidError e) | Inr _ \<Rightarrow> Inr n) = Inr d \<longleftrightarrow> n = d \<and> is_agent_did ul d" for n
    by (auto simp: is_agent_did_iff split: sum.split)
  then have "parseAgentDidString ul x field = Inr d \<longleftrightarrow> parseNonBlankString x field = Inr d \<and> is_agent_did ul d"
    by (cases "parseNonBlankString x field") (auto simp: parseAgentDidString_def simp del: bindE_eq_Inr)
  then show ?thesis using ne [of d] unfolding parseNonBlankString_Inr by blast
qed

lemma agent_did_trimmed: "is_agent_did ul d \<Longrightarrow> trim d = d"
  using agent_did_chars(2) is_agent_did_iff by metis

lemma parseOptionalMessage_js: "(\<forall>m. msg = Some m \<longrightarrow> trim m = m \<and> m \<noteq> []) \<Longrightarrow> parseOptionalMessage (js_opt_str msg) = Inr msg"
  by (cases msg) auto

lemma parseOptionalMessage_Inr:
  assumes "parseOptionalMessage x = Inr (Some m)" shows "trim m = m" "m \<noteq> []"
  using assms by (cases x; auto split: if_splits)+

lemma pair_event_fields:
  "js_get (pair_event_js e) ''type'' = JStr PAIR_ACCEPTED_EVENT_TYPE"
  "js_get (pair_event_js e) ''message'' = js_opt_str (pe_msg e)"
  "js_get (pair_event_js e) ''initiatorAgentDid'' = JStr (pe_initiatorAgentDid e)"
  "js_get (pair_event_js e) ''responderAgentDid'' = JStr (pe_responderAgentDid e)"
  "js_get (pair_event_js e) ''responderProfile'' = responder_profile_js (pe_responderProfile e)"
  "js_get (pair_event_js e) ''issuerProxyOrigin'' = JStr (pe_issuerProxyOrigin e)"
  "js_get (pair_event_js e) ''eventTimestampUtc'' = JStr (pe_eventTimestampUtc e)"
  "is_plain_object (pair_event_js e)"
  by (cases "pe_msg e"; simp add: pair_event_js_def)+

lemma json_wire_pair_event: "json_wire (pair_event_js e) = pair_event_js e"
  by (simp add: pair_event_js_def responder_profile_js_def split: option.split)

lemma create_event_normal:
  assumes "event_normal rt e" and "pe_eventTimestampUtc e = toIso t" and "iso_range t" and "reads_date dp t"
  shows "createPairAcceptedEvent rt dp e = Inr e"
proof -
  have "parseTimestampUtc dp (JStr (toIso t)) = Inr (toIso t)"
    using assms toIso_pattern [of t] by (simp add: parseTimestampUtc_def reads_date_def del: bindE_eq_Inr throw_if_eq_Inr)
  moreover have "parseResponderProfile rt (responder_profile_js (pe_responderProfile e)) = Inr (pe_responderProfile e)"
    using assms(1) parseHttpOrigin_origin
    by (simp add: parseResponderProfile_def responder_profile_js_def event_normal_def del: bindE_eq_Inr throw_if_eq_Inr)
  moreover have "parseAgentDidString (ulids rt) (JStr d) f = Inr d" if "is_agent_did (ulids rt) d" for d f
    using that agent_did_trimmed parseAgentDidString_Inr by metis
  moreover have "parseOptionalMessage (js_opt_str (pe_msg e)) = Inr (pe_msg e)"
    using assms(1) by (intro parseOptionalMessage_js) (simp add: event_normal_def)
  moreover have "parseHttpOrigin rt (JStr (pe_issuerProxyOrigin e)) ''issuerProxyOrigin'' = Inr (pe_issuerProxyOrigin e)"
    using assms(1) parseHttpOrigin_origin by (simp add: event_normal_def)
  ultimately show ?thesis
    using assms(1) unfolding createPairAcceptedEvent_def parsePairAcceptedEvent_def pair_event_fields assms(2)
    by (simp add: event_normal_def assms(2) pair_event_fields(8) del: bindE_eq_Inr throw_if_eq_Inr)
qed

text \<open>What the parser returns is in normal form.\<close>
lemma parsed_event_normal:
  assumes "parsePairAcceptedEvent rt dp x = Inr e" and "url_origin_law rt"
  shows "event_normal rt e"
  using assms(1)
  by (auto simp: parsePairAcceptedEvent_def parseAgentDidString_Inr parseResponderProfile_def parseNonBlankString_Inr
      event_normal_def dest: parseHttpOrigin_Inr [OF assms(2)] parseOptionalMessage_Inr)

text \<open>
  Whatever the proxy creates as the event of an accepted pairing at a given instant, the consumer of the queue
  reads back unchanged after it has travelled as JSON, with that instant as its time stamp.
\<close>
lemma created_event_is_read_back:
  assumes "createPairAcceptedEvent rt dp input = Inr e" and "pe_eventTimestampUtc input = toIso t"
    and "iso_range t" and "reads_date dp t" and "url_origin_law rt"
  shows "parsePairAcceptedEvent rt dp (json_wire (pair_event_js e)) = Inr e \<and> pe_eventTimestampUtc e = toIso t"
proof -
  have "parseTimestampUtc dp (JStr (toIso t)) = Inr (toIso t)"
    using assms toIso_pattern [of t] by (simp add: parseTimestampUtc_def reads_date_def del: bindE_eq_Inr throw_if_eq_Inr)
  then have stamp: "pe_eventTimestampUtc e = toIso t"
    using assms(1,2) by (auto simp: createPairAcceptedEvent_def parsePairAcceptedEvent_def pair_event_fields)
  have "event_normal rt e" using parsed_event_normal assms(1,5) createPairAcceptedEvent_def by metis
  from create_event_normal [OF this stamp assms(3,4)] show ?thesis
    using stamp by (simp add: createPairAcceptedEvent_def json_wire_pair_event)
qed

end
