(* ===== verification/Pairing_Route.thy ===== *)
theory Pairing_Route
  imports Proxy_Auth Pair_Events Identity_Client
begin

text \<open>
  The pairing routes of the proxy: \<open>apps/proxy/src/pairing-route.ts\<close>, with the signing key of
  \<open>pairing-ticket.ts\<close>.

  A handler takes the authenticated caller (\<open>None\<close> when the middleware left none), the request body (\<open>None\<close> when it
  is not JSON), the clock readings and the fresh values it draws, and the trust store, whose three methods are the
  record \<open>pairing_store\<close> over a state; \<open>memory_pairing_store\<close> is the in-memory store. It returns the response, or the
  exception it throws, and the new state; confirming also returns the messages sent to the event queue. An exception
  is an \<open>AppError\<close> or one the code does not expect (\<open>PairForeign\<close>: a \<open>TypeError\<close> on a \<open>null\<close> body, say).
  Logging is left out.

  Shown: what a started ticket is bound to; that it lets exactly the allowed responder pair within its lifetime
  whatever other calls come in between; that a confirmation that was recorded is never answered with an error; that
  only the two parties see the status.
\<close>

section \<open>Parsing\<close>

datatype pair_failure = PairError app_error | PairForeign

definition DEFAULT_PAIRING_TICKET_TTL_SECONDS :: real where "DEFAULT_PAIRING_TICKET_TTL_SECONDS = 300"
definition MAX_PAIRING_TICKET_TTL_SECONDS :: real where "MAX_PAIRING_TICKET_TTL_SECONDS = 900"
definition MAX_PROFILE_NAME_LENGTH :: nat where "MAX_PROFILE_NAME_LENGTH = 64"

definition pair_invalid_body :: "string \<Rightarrow> app_error" where
  "pair_invalid_body message = AppError ''PROXY_PAIR_INVALID_BODY'' message 400"

definition parseInternalServiceCredentials :: "string option \<Rightarrow> string option \<Rightarrow> (app_error, string \<times> string) result" where
  "parseInternalServiceCredentials serviceIdRaw serviceSecretRaw =
     (let serviceId = (case serviceIdRaw of Some s \<Rightarrow> trim s | None \<Rightarrow> []);
          serviceSecret = (case serviceSecretRaw of Some s \<Rightarrow> trim s | None \<Rightarrow> []) in
      throw_if (length serviceId = 0 \<or> length serviceSecret = 0)
        (AppError ''PROXY_INTERNAL_AUTH_CONFIG_INVALID'' ''Proxy internal service auth is not configured'' 500)
        (Inr (serviceId, serviceSecret)))"

definition normalizeProxyOrigin :: "runtime \<Rightarrow> string \<Rightarrow> string option" where
  "normalizeProxyOrigin R value = map_option snd (url_parse R value)"

definition parseTtlSeconds :: "jsval \<Rightarrow> (app_error, real) result" where
  "parseTtlSeconds value =
     (if value = JUndefined then Inr DEFAULT_PAIRING_TICKET_TTL_SECONDS
      else (case js_integer value of
              None \<Rightarrow> Inl (pair_invalid_body ''ttlSeconds must be an integer'')
            | Some n \<Rightarrow>
                if n < 1 \<or> n > MAX_PAIRING_TICKET_TTL_SECONDS
                then Inl (pair_invalid_body ''ttlSeconds must be between 1 and 900'') else Inr n))"

fun pair_hasControlChars :: "string \<Rightarrow> bool" where
  "pair_hasControlChars [] = False"
| "pair_hasControlChars (c # value) =
     (let code = (of_char c :: nat) in if code \<le> 31 \<or> code = 127 then True else pair_hasControlChars value)"

definition parseProfileName :: "jsval \<Rightarrow> string \<Rightarrow> (app_error, string) result" where
  "parseProfileName value label =
     (case value of
        JStr s \<Rightarrow>
          let normalized = trim s in
          if length normalized = 0 then Inl (pair_invalid_body (label @ '' is required''))
          else if length normalized > MAX_PROFILE_NAME_LENGTH
          then Inl (pair_invalid_body (label @ '' must be at most 64 characters''))
          else if pair_hasControlChars normalized then Inl (pair_invalid_body (label @ '' contains control characters''))
          else Inr normalized
      | _ \<Rightarrow> Inl (pair_invalid_body (label @ '' is required'')))"

definition parse_profile_origin :: "runtime \<Rightarrow> jsval \<Rightarrow> string \<Rightarrow> bool \<Rightarrow> (app_error, string option) result" where
  "parse_profile_origin R value label requireProxyOrigin =
     (case value of
        JUndefined \<Rightarrow>
          if requireProxyOrigin then Inl (pair_invalid_body (label @ ''.proxyOrigin is required'')) else Inr None
      | JStr s \<Rightarrow>
          (case url_parse R (trim s) of
             Some (protocol, origin) \<Rightarrow>
               if protocol \<noteq> ''https:'' \<and> protocol \<noteq> ''http:''
               then Inl (pair_invalid_body (label @ ''.proxyOrigin must be a valid URL origin'')) else Inr (Some origin)
           | None \<Rightarrow> Inl (pair_invalid_body (label @ ''.proxyOrigin must be a valid URL origin'')))
      | _ \<Rightarrow> Inl (pair_invalid_body (label @ ''.proxyOrigin must be a valid URL origin'')))"

definition route_parsePeerProfile :: "runtime \<Rightarrow> jsval \<Rightarrow> string \<Rightarrow> bool \<Rightarrow> (app_error, PeerProfile) result" where
  "route_parsePeerProfile R value label requireProxyOrigin =
     throw_if (\<not> is_object value) (pair_invalid_body (label @ '' is required''))
     (bindE (parseProfileName (js_get value ''agentName'') (label @ ''.agentName'')) (\<lambda>name.
      bindE (parseProfileName (js_get value ''humanName'') (label @ ''.humanName'')) (\<lambda>person.
      bindE (parse_profile_origin R (js_get value ''proxyOrigin'') label requireProxyOrigin) (\<lambda>origin.
      Inr \<lparr>agentName = name, humanName = person, proxyOrigin = origin\<rparr>))))"

definition parseOptionalResponderAgentDid :: "ulid_lib \<Rightarrow> jsval \<Rightarrow> (app_error, string option) result" where
  "parseOptionalResponderAgentDid ul value =
     (if value = JUndefined then Inr None
      else if \<not> isNonEmptyString value then Inl (pair_invalid_body ''allowResponderAgentDid must be a non-empty string'')
      else (let candidate = trim (js_str value) in
            case parseAgentDid ul candidate of
              Inl _ \<Rightarrow> Inl (pair_invalid_body ''allowResponderAgentDid must be a valid agent DID'')
            | Inr _ \<Rightarrow> Inr (Some candidate)))"

text \<open>The body as an object to read properties of: \<open>null\<close> has none and reading one throws a \<open>TypeError\<close>.\<close>
definition parseJsonBody :: "jsval option \<Rightarrow> (pair_failure, jsval) result" where
  "parseJsonBody raw =
     (case raw of
        None \<Rightarrow> Inl (PairError (pair_invalid_body ''Request body must be valid JSON''))
      | Some body \<Rightarrow> if body = JNull then Inl PairForeign else Inr body)"

definition pe :: "(app_error, 'a) result \<Rightarrow> (pair_failure, 'a) result" where
  "pe r = map_sum PairError id r"

section \<open>Ownership\<close>

text \<open>The client is created outside the \<open>try\<close>: its exceptions are not translated.\<close>
definition assertCallerOwnsInitiatorAgent ::
  "ulid_lib \<Rightarrow> url_lib \<Rightarrow> identity_fetch \<Rightarrow> RegistryIdentityClientInput \<Rightarrow> string \<Rightarrow> string \<Rightarrow> (pair_failure, unit) result" where
  "assertCallerOwnsInitiatorAgent ulib ul fetchImpl input ownerDid initiatorAgentDid =
     (case createRegistryIdentityClient ul input of
        Inl (AppFailure e) \<Rightarrow> Inl (PairError e)
      | Inl OtherFailure \<Rightarrow> Inl PairForeign
      | Inr client \<Rightarrow>
          (case checkAgentOwnership ulib ul fetchImpl client ownerDid initiatorAgentDid of
             Inl (AppFailure e) \<Rightarrow>
               if ae_code e = ''IDENTITY_SERVICE_UNAUTHORIZED''
               then Inl (PairError (AppError ''PROXY_INTERNAL_AUTH_UNAUTHORIZED'' ''Proxy internal service authorization failed'' 503))
               else Inl (PairError (AppError ''PROXY_PAIR_OWNERSHIP_UNAVAILABLE'' ''Registry owner lookup is unavailable'' 503))
           | Inl OtherFailure \<Rightarrow>
               Inl (PairError (AppError ''PROXY_PAIR_OWNERSHIP_UNAVAILABLE'' ''Registry owner lookup is unavailable'' 503))
           | Inr owns \<Rightarrow>
               if \<not> ow_ownsAgent owns \<or> ow_agentStatus owns \<noteq> Some ''active''
               then Inl (PairError (AppError ''PROXY_PAIR_OWNERSHIP_FORBIDDEN'' ''Caller does not control initiator agent DID'' 403))
               else Inr ()))"

section \<open>The store behind the routes\<close>

datatype store_failure = StoreError store_error | StoreForeign

record 's pairing_store =
  ps_create :: "PairingTicketInput \<Rightarrow> 's \<Rightarrow> (store_failure, PairingTicketResult) result \<times> 's"
  ps_confirm :: "PairingTicketConfirmInput \<Rightarrow> 's \<Rightarrow> (store_failure, PairingTicketConfirmResult) result \<times> 's"
  ps_status :: "PairingTicketStatusInput \<Rightarrow> 's \<Rightarrow> (store_failure, PairingTicketStatusResult) result \<times> 's"

fun toPairingStoreAppError :: "store_failure \<Rightarrow> app_error" where
  "toPairingStoreAppError (StoreError e) = AppError (se_code e) (se_message e) (se_status e)"
| "toPairingStoreAppError StoreForeign = AppError ''PROXY_PAIR_STATE_UNAVAILABLE'' ''Pairing state is unavailable'' 503"

text \<open>The in-memory store; the routes hand it the time, so its own clock readings \<open>c\<close>, \<open>c'\<close> go unused.\<close>
definition memory_pairing_store :: "runtime \<Rightarrow> ms \<Rightarrow> ms \<Rightarrow> memory_store pairing_store" where
  "memory_pairing_store R c c' =
     \<lparr>ps_create = (\<lambda>i s. map_prod (map_sum StoreError id) id (memory_createPairingTicket R c i s)),
      ps_confirm = (\<lambda>i s. map_prod (map_sum StoreError id) id (confirmPairingTicket R c c' i s)),
      ps_status = (\<lambda>i s. map_prod (map_sum StoreError id) id (resolveTicketStatus R c i s))\<rparr>"

section \<open>POST /pair/start\<close>

text \<open>
  What WebCrypto and the generators give for one request: the generated key and the exported \<open>x\<close> of its public key
  (\<open>None\<close> when a call rejects), the ids of the key and of the ticket, and the random nonce.
\<close>
record pair_fresh =
  pf_key :: "(bytes \<times> jsval) option"
  pf_pkid :: string
  pf_kid :: string
  pf_nonce :: bytes

definition createPairingTicketSigningKey :: "pair_fresh \<Rightarrow> (ticket_error, string \<times> bytes \<times> string) result option" where
  "createPairingTicketSigningKey v =
     (case pf_key v of
        None \<Rightarrow> None
      | Some (privateKey, x) \<Rightarrow>
          Some (if \<not> isNonEmptyString x
                then Inl (PairingTicketParseError ''PROXY_PAIR_TICKET_KEY_EXPORT_FAILED'' ''Pairing ticket signing key export failed'')
                else Inr (pf_pkid v, privateKey, js_str x)))"

definition signing_unavailable :: pair_failure where
  "signing_unavailable = PairError (AppError ''PROXY_PAIR_TICKET_SIGNING_UNAVAILABLE'' ''Pairing ticket signing is unavailable'' 503)"

definition auth_context_missing :: pair_failure where
  "auth_context_missing = PairError (AppError ''PROXY_PAIR_AUTH_CONTEXT_MISSING'' ''Verified auth context is required'' 500)"

text \<open>The options of the routes; \<open>pc_registryUrl\<close> is the URL as \<open>normalizeRegistryUrl\<close> left it when the handler was made.\<close>
record pair_config =
  pc_runtime :: runtime
  pc_urls :: url_lib
  pc_fetch :: identity_fetch
  pc_registryUrl :: string
  pc_serviceId :: "string option"
  pc_serviceSecret :: "string option"

text \<open>The checks before anything is created: lifetime, profile, allowed responder, credentials, ownership.\<close>
definition pair_start_checks ::
  "pair_config \<Rightarrow> ProxyAuthContext option \<Rightarrow> jsval option \<Rightarrow>
   (pair_failure, ProxyAuthContext \<times> real \<times> PeerProfile \<times> string option) result" where
  "pair_start_checks cfg auth raw =
     bindE (of_option auth_context_missing auth) (\<lambda>caller.
     bindE (parseJsonBody raw) (\<lambda>body.
     bindE (pe (parseTtlSeconds (js_get body ''ttlSeconds''))) (\<lambda>ttlSeconds.
     bindE (pe (route_parsePeerProfile (pc_runtime cfg) (js_get body ''initiatorProfile'') ''initiatorProfile'' False)) (\<lambda>initiatorProfile.
     bindE (pe (parseOptionalResponderAgentDid (ulids (pc_runtime cfg)) (js_get body ''allowResponderAgentDid''))) (\<lambda>allowResponderAgentDid.
     throw_if (is_object body \<and> js_get body ''callbackUrl'' \<noteq> JUndefined)
       (PairError (pair_invalid_body ''callbackUrl is no longer supported''))
     (bindE (pe (parseInternalServiceCredentials (pc_serviceId cfg) (pc_serviceSecret cfg))) (\<lambda>(serviceId, serviceSecret).
      bindE (assertCallerOwnsInitiatorAgent (ulids (pc_runtime cfg)) (pc_urls cfg) (pc_fetch cfg)
               \<lparr>ic_registryUrl = pc_registryUrl cfg, ic_serviceId = serviceId, ic_serviceSecret = serviceSecret\<rparr>
               (au_ownerDid caller) (au_agentDid caller)) (\<lambda>_.
      Inr (caller, ttlSeconds, initiatorProfile, allowResponderAgentDid)))))))))"

text \<open>The ticket: origin, signing key, signature; its expiry is the payload's.\<close>
definition pair_start_ticket ::
  "pair_config \<Rightarrow> pair_fresh \<Rightarrow> ms \<Rightarrow> real \<Rightarrow> string \<Rightarrow> (pair_failure, string \<times> PairingTicketPayload \<times> string \<times> string) result" where
  "pair_start_ticket cfg v issuedAtMs ttlSeconds url =
     bindE (of_option PairForeign (normalizeProxyOrigin (pc_runtime cfg) url)) (\<lambda>issuerProxyUrl.
     case createPairingTicketSigningKey v of
       Some (Inr (pkid, privateKey, publicKeyX)) \<Rightarrow>
         bindE (catchE (createPairingTicket (pc_runtime cfg) issuerProxyUrl (issuedAtMs + ttlSeconds * 1000) (pf_kid v)
                          (pf_nonce v) pkid privateKey) signing_unavailable) (\<lambda>(ticket, payload).
         Inr (ticket, payload, issuerProxyUrl, publicKeyX))
     | _ \<Rightarrow> Inl signing_unavailable)"

definition pair_start_input ::
  "ProxyAuthContext \<Rightarrow> PeerProfile \<Rightarrow> string option \<Rightarrow> string \<Rightarrow> PairingTicketPayload \<Rightarrow> string \<Rightarrow> string \<Rightarrow> ms \<Rightarrow> PairingTicketInput" where
  "pair_start_input caller initiatorProfile allowed ticket payload issuerProxyUrl publicKeyX issuedAtMs =
     \<lparr>ci_initiatorAgentDid = au_agentDid caller, ci_initiatorProfile = initiatorProfile, ci_issuerProxyUrl = issuerProxyUrl,
      ci_ticket = ticket, ci_publicKeyX = publicKeyX, ci_allowResponderAgentDid = allowed,
      ci_expiresAtMs = tk_exp payload * 1000, ci_nowMs = Some issuedAtMs\<rparr>"

definition pair_start_response :: "PairingTicketResult \<Rightarrow> http_response" where
  "pair_start_response r = http_response.Response 200 (json_wire (JObj
     [(''initiatorAgentDid'', JStr (cr_initiatorAgentDid r)), (''initiatorProfile'', profile_js (cr_initiatorProfile r)),
      (''ticket'', JStr (cr_ticket r)), (''expiresAt'', JStr (toIso (cr_expiresAtMs r)))]))"

definition createPairStartHandler ::
  "pair_config \<Rightarrow> 's pairing_store \<Rightarrow> pair_fresh \<Rightarrow> ms \<Rightarrow> string \<Rightarrow> ProxyAuthContext option \<Rightarrow> jsval option \<Rightarrow> 's \<Rightarrow>
   (pair_failure, http_response) result \<times> 's" where
  "createPairStartHandler cfg store v issuedAtMs url auth raw s =
     (case bindE (pair_start_checks cfg auth raw) (\<lambda>(caller, ttlSeconds, initiatorProfile, allowed).
           bindE (pair_start_ticket cfg v issuedAtMs ttlSeconds url) (\<lambda>(ticket, payload, issuerProxyUrl, publicKeyX).
           Inr (pair_start_input caller initiatorProfile allowed ticket payload issuerProxyUrl publicKeyX issuedAtMs))) of
        Inl e \<Rightarrow> (Inl e, s)
      | Inr input \<Rightarrow>
          (case ps_create store input s of
             (Inl e, s) \<Rightarrow> (Inl (PairError (toPairingStoreAppError e)), s)
           | (Inr r, s) \<Rightarrow> (Inr (pair_start_response r), s)))"

section \<open>POST /pair/confirm\<close>

definition required_ticket :: "jsval \<Rightarrow> (app_error, string) result" where
  "required_ticket body =
     (if \<not> isNonEmptyString (js_get body ''ticket'') then Inl (pair_invalid_body ''ticket is required'')
      else Inr (normalizePairingTicketText (js_str (js_get body ''ticket''))))"

text \<open>\<open>queue\<close>: whether \<open>EVENTS_QUEUE\<close> is bound, and then whether \<open>send\<close> succeeds. The result is what was sent.\<close>
definition publishPairAcceptedEvent ::
  "runtime \<Rightarrow> (string \<Rightarrow> ms option) \<Rightarrow> bool option \<Rightarrow> PairingTicketConfirmResult \<Rightarrow> string \<Rightarrow> (event_error, jsval list) result" where
  "publishPairAcceptedEvent R date_parse queue confirmed eventTimestampUtc =
     (let origin = (case proxyOrigin (fr_responderProfile confirmed) of None \<Rightarrow> [] | Some u \<Rightarrow> trim u) in
      if origin = [] then Inr []
      else bindE (createPairAcceptedEvent R date_parse
             \<lparr>pe_initiatorAgentDid = fr_initiatorAgentDid confirmed, pe_responderAgentDid = fr_responderAgentDid confirmed,
              pe_responderProfile = \<lparr>pr_agentName = agentName (fr_responderProfile confirmed),
                pr_humanName = humanName (fr_responderProfile confirmed), pr_proxyOrigin = origin\<rparr>,
              pe_issuerProxyOrigin = fr_issuerProxyUrl confirmed, pe_eventTimestampUtc = eventTimestampUtc,
              pe_msg = Some PAIR_ACCEPTED_NOTIFICATION_MESSAGE\<rparr>) (\<lambda>event.
           Inr (if queue = Some True then [json_wire (pair_event_js event)] else [])))"

definition pair_confirm_checks ::
  "runtime \<Rightarrow> ProxyAuthContext option \<Rightarrow> jsval option \<Rightarrow> (pair_failure, ProxyAuthContext \<times> string \<times> PeerProfile) result" where
  "pair_confirm_checks R auth raw =
     bindE (of_option auth_context_missing auth) (\<lambda>caller.
     bindE (parseJsonBody raw) (\<lambda>body.
     bindE (pe (required_ticket body)) (\<lambda>ticket.
     bindE (pe (route_parsePeerProfile R (js_get body ''responderProfile'') ''responderProfile'' True)) (\<lambda>responderProfile.
     case parsePairingTicket R ticket of
       Inl e \<Rightarrow> Inl (PairError (AppError (te_code e) (te_message e) 400))
     | Inr _ \<Rightarrow> Inr (caller, ticket, responderProfile)))))"

definition pair_confirm_response :: "PairingTicketConfirmResult \<Rightarrow> http_response" where
  "pair_confirm_response r = http_response.Response 201 (json_wire (JObj
     [(''paired'', JBool True), (''initiatorAgentDid'', JStr (fr_initiatorAgentDid r)),
      (''initiatorProfile'', profile_js (fr_initiatorProfile r)), (''responderAgentDid'', JStr (fr_responderAgentDid r)),
      (''responderProfile'', profile_js (fr_responderProfile r))]))"

text \<open>The clock is read once for the confirmation and once for the event.\<close>
definition createPairConfirmHandler ::
  "runtime \<Rightarrow> (string \<Rightarrow> ms option) \<Rightarrow> 's pairing_store \<Rightarrow> bool option \<Rightarrow> ms \<Rightarrow> ms \<Rightarrow> ProxyAuthContext option \<Rightarrow> jsval option \<Rightarrow> 's \<Rightarrow>
   (pair_failure, http_response) result \<times> 's \<times> jsval list" where
  "createPairConfirmHandler R date_parse store queue nowMs eventNowMs auth raw s =
     (case pair_confirm_checks R auth raw of
        Inl e \<Rightarrow> (Inl e, s, [])
      | Inr (caller, ticket, responderProfile) \<Rightarrow>
          (case ps_confirm store \<lparr>fi_ticket = ticket, fi_responderAgentDid = au_agentDid caller,
                  fi_responderProfile = responderProfile, fi_nowMs = Some nowMs\<rparr> s of
             (Inl e, s) \<Rightarrow> (Inl (PairError (toPairingStoreAppError e)), s, [])
           | (Inr confirmed, s) \<Rightarrow>
               (case publishPairAcceptedEvent R date_parse queue confirmed (toIso eventNowMs) of
                  Inl _ \<Rightarrow> (Inl PairForeign, s, [])
                | Inr sent \<Rightarrow> (Inr (pair_confirm_response confirmed), s, sent))))"

section \<open>POST /pair/status\<close>

fun status_initiator :: "PairingTicketStatusResult \<Rightarrow> string" where
  "status_initiator (StatusPending p) = st_initiatorAgentDid p"
| "status_initiator (StatusConfirmed c) = cf_initiatorAgentDid c"

fun status_responder :: "PairingTicketStatusResult \<Rightarrow> string option" where
  "status_responder (StatusPending p) = None"
| "status_responder (StatusConfirmed c) = Some (cf_responderAgentDid c)"

fun pair_status_response :: "PairingTicketStatusResult \<Rightarrow> http_response" where
  "pair_status_response (StatusPending p) = http_response.Response 200 (json_wire (JObj
     [(''status'', JStr ''pending''), (''initiatorAgentDid'', JStr (st_initiatorAgentDid p)),
      (''initiatorProfile'', profile_js (st_initiatorProfile p)), (''responderAgentDid'', JUndefined),
      (''responderProfile'', JUndefined), (''expiresAt'', JStr (toIso (st_expiresAtMs p))), (''confirmedAt'', JUndefined)]))"
| "pair_status_response (StatusConfirmed c) = http_response.Response 200 (json_wire (JObj
     [(''status'', JStr ''confirmed''), (''initiatorAgentDid'', JStr (cf_initiatorAgentDid c)),
      (''initiatorProfile'', profile_js (cf_initiatorProfile c)), (''responderAgentDid'', JStr (cf_responderAgentDid c)),
      (''responderProfile'', profile_js (cf_responderProfile c)), (''expiresAt'', JStr (toIso (cf_expiresAtMs c))),
      (''confirmedAt'', JStr (toIso (cf_confirmedAtMs c)))]))"

definition createPairStatusHandler ::
  "'s pairing_store \<Rightarrow> ms \<Rightarrow> ProxyAuthContext option \<Rightarrow> jsval option \<Rightarrow> 's \<Rightarrow> (pair_failure, http_response) result \<times> 's" where
  "createPairStatusHandler store nowMs auth raw s =
     (case bindE (of_option auth_context_missing auth) (\<lambda>caller.
           bindE (parseJsonBody raw) (\<lambda>body.
           bindE (pe (required_ticket body)) (\<lambda>ticket. Inr (caller, ticket)))) of
        Inl e \<Rightarrow> (Inl e, s)
      | Inr (caller, ticket) \<Rightarrow>
          (case ps_status store \<lparr>si_ticket = ticket, si_nowMs = Some nowMs\<rparr> s of
             (Inl e, s) \<Rightarrow> (Inl (PairError (toPairingStoreAppError e)), s)
           | (Inr status, s) \<Rightarrow>
               if au_agentDid caller = status_initiator status \<or> status_responder status = Some (au_agentDid caller)
               then (Inr (pair_status_response status), s)
               else (Inl (PairError (AppError ''PROXY_PAIR_STATUS_FORBIDDEN''
                       ''Caller is not a participant for this pairing ticket'' 403)), s)))"

section \<open>What the parsers let through\<close>

lemma pe_simps [simp]: "pe (Inl e) = Inl (PairError e)" "pe (Inr x) = Inr x"
  by (simp_all add: pe_def)

lemma pe_eq_Inr [simp]: "pe r = Inr x \<longleftrightarrow> r = Inr x"
  by (cases r) auto

lemma parseTtlSeconds_Inr: "parseTtlSeconds x = Inr n \<Longrightarrow> js_is_integer n \<and> 1 \<le> n \<and> n \<le> 900"
  by (auto simp: parseTtlSeconds_def DEFAULT_PAIRING_TICKET_TTL_SECONDS_def MAX_PAIRING_TICKET_TTL_SECONDS_def
      split: if_splits option.splits)

definition name_ok :: "string \<Rightarrow> bool" where
  "name_ok s \<longleftrightarrow> trim s = s \<and> s \<noteq> [] \<and> length s \<le> 64 \<and> \<not> pair_hasControlChars s"

definition route_profile_ok :: "runtime \<Rightarrow> PeerProfile \<Rightarrow> bool" where
  "route_profile_ok R p \<longleftrightarrow> name_ok (agentName p) \<and> name_ok (humanName p) \<and>
     (case proxyOrigin p of None \<Rightarrow> True | Some u \<Rightarrow> is_http_origin R u)"

lemma parseProfileName_Inr: "parseProfileName x label = Inr s \<Longrightarrow> name_ok s"
  by (cases x) (auto simp: parseProfileName_def name_ok_def MAX_PROFILE_NAME_LENGTH_def Let_def split: if_splits)

lemma parse_profile_origin_Inr:
  assumes "parse_profile_origin R x label required = Inr u" and "url_origin_law R"
  shows "(case u of None \<Rightarrow> \<not> required | Some v \<Rightarrow> is_http_origin R v)"
proof (cases x)
  case (JStr t)
  obtain protocol origin where "url_parse R (trim t) = Some (protocol, origin)" "u = Some origin"
      "protocol = ''https:'' \<or> protocol = ''http:''"
    using assms(1) JStr by (auto simp: parse_profile_origin_def split: option.splits if_splits)
  then show ?thesis using url_origin_law_http_origin [OF assms(2)] by auto
qed (use assms(1) in \<open>auto simp: parse_profile_origin_def split: if_splits\<close>)

lemma route_parsePeerProfile_Inr:
  assumes "route_parsePeerProfile R x label required = Inr p" and "url_origin_law R"
  shows "route_profile_ok R p" and "required \<Longrightarrow> proxyOrigin p \<noteq> None"
  using assms parseProfileName_Inr parse_profile_origin_Inr [OF _ assms(2)]
  by (fastforce simp: route_parsePeerProfile_def route_profile_ok_def split: option.splits)+

lemma parseOptionalResponderAgentDid_Inr:
  "parseOptionalResponderAgentDid ul x = Inr d \<Longrightarrow> (case d of None \<Rightarrow> True | Some r \<Rightarrow> is_agent_did ul r)"
  by (auto simp: parseOptionalResponderAgentDid_def is_agent_did_iff Let_def split: if_splits sum.splits)

text \<open>The registry, asked with the given credentials, said that the owner owns the agent and that it is active.\<close>
definition ownership_confirmed :: "pair_config \<Rightarrow> string \<Rightarrow> string \<Rightarrow> bool" where
  "ownership_confirmed cfg ownerDid agentDid \<longleftrightarrow>
     (\<exists>client answer. trim (ic_serviceId client) \<noteq> [] \<and> trim (ic_serviceSecret client) \<noteq> [] \<and>
        map_option trim (pc_serviceId cfg) = Some (trim (ic_serviceId client)) \<and>
        map_option trim (pc_serviceSecret cfg) = Some (trim (ic_serviceSecret client)) \<and>
        registry_said (pc_urls cfg) (pc_fetch cfg) client INTERNAL_IDENTITY_AGENT_OWNERSHIP_PATH
          (ownership_body ownerDid agentDid) answer \<and>
        js_get answer ''ownsAgent'' = JBool True \<and> js_get answer ''agentStatus'' = JStr ''active'')"

lemma assertCallerOwns_Inr:
  assumes "assertCallerOwnsInitiatorAgent ulib ul f input owner a = Inr u"
  shows "\<exists>client answer. createRegistryIdentityClient ul input = Inr client \<and> is_agent_did ulib a \<and>
     registry_said ul f client INTERNAL_IDENTITY_AGENT_OWNERSHIP_PATH (ownership_body owner a) answer \<and>
     js_get answer ''ownsAgent'' = JBool True \<and> js_get answer ''agentStatus'' = JStr ''active''"
proof -
  obtain client where c: "createRegistryIdentityClient ul input = Inr client"
    using assms by (auto simp: assertCallerOwnsInitiatorAgent_def split: sum.splits service_failure.splits)
  then obtain r where "checkAgentOwnership ulib ul f client owner a = Inr r" "ow_ownsAgent r" "ow_agentStatus r = Some ''active''"
    using assms by (auto simp: assertCallerOwnsInitiatorAgent_def split: sum.splits service_failure.splits if_splits)
  then show ?thesis using c by (auto simp: checkAgentOwnership_Inr parseOwnershipResponse_Inr)
qed

lemma credentials_Inr:
  "parseInternalServiceCredentials a b = Inr (x, y) \<Longrightarrow>
   map_option trim a = Some x \<and> map_option trim b = Some y \<and> x \<noteq> [] \<and> y \<noteq> []"
  by (auto simp: parseInternalServiceCredentials_def Let_def split: option.splits)

lemma createRegistryIdentityClient_Inr:
  "createRegistryIdentityClient ul input = Inr client \<Longrightarrow>
   ic_serviceId client = ic_serviceId input \<and> ic_serviceSecret client = ic_serviceSecret input"
  by (auto simp: createRegistryIdentityClient_def)

lemma pair_start_checks_Inr:
  assumes "pair_start_checks cfg auth raw = Inr (a, ttl, profile, allowed)" and "url_origin_law (pc_runtime cfg)"
  shows "auth = Some a" and "js_is_integer ttl" "1 \<le> ttl" "ttl \<le> 900"
    and "route_profile_ok (pc_runtime cfg) profile"
    and "(case allowed of None \<Rightarrow> True | Some d \<Rightarrow> is_agent_did (ulids (pc_runtime cfg)) d)"
    and "ownership_confirmed cfg (au_ownerDid a) (au_agentDid a)" "is_agent_did (ulids (pc_runtime cfg)) (au_agentDid a)"
    and "\<exists>body. raw = Some body \<and> parseTtlSeconds (js_get body ''ttlSeconds'') = Inr ttl \<and>
           parseOptionalResponderAgentDid (ulids (pc_runtime cfg)) (js_get body ''allowResponderAgentDid'') = Inr allowed"
proof -
  obtain body x y where b: "auth = Some a" "parseJsonBody raw = Inr body"
      "parseTtlSeconds (js_get body ''ttlSeconds'') = Inr ttl"
      "route_parsePeerProfile (pc_runtime cfg) (js_get body ''initiatorProfile'') ''initiatorProfile'' False = Inr profile"
      "parseOptionalResponderAgentDid (ulids (pc_runtime cfg)) (js_get body ''allowResponderAgentDid'') = Inr allowed"
      "parseInternalServiceCredentials (pc_serviceId cfg) (pc_serviceSecret cfg) = Inr (x, y)"
    and own: "assertCallerOwnsInitiatorAgent (ulids (pc_runtime cfg)) (pc_urls cfg) (pc_fetch cfg)
        \<lparr>ic_registryUrl = pc_registryUrl cfg, ic_serviceId = x, ic_serviceSecret = y\<rparr> (au_ownerDid a) (au_agentDid a) = Inr ()"
    using assms(1) by (auto simp: pair_start_checks_def)
  show "auth = Some a" by (rule b)
  show "js_is_integer ttl" "1 \<le> ttl" "ttl \<le> 900" using parseTtlSeconds_Inr [OF b(3)] by blast+
  show "route_profile_ok (pc_runtime cfg) profile" by (rule route_parsePeerProfile_Inr [OF b(4) assms(2)])
  show "(case allowed of None \<Rightarrow> True | Some d \<Rightarrow> is_agent_did (ulids (pc_runtime cfg)) d)"
    by (rule parseOptionalResponderAgentDid_Inr [OF b(5)])
  show "\<exists>body. raw = Some body \<and> parseTtlSeconds (js_get body ''ttlSeconds'') = Inr ttl \<and>
      parseOptionalResponderAgentDid (ulids (pc_runtime cfg)) (js_get body ''allowResponderAgentDid'') = Inr allowed"
    using b(2,3,5) by (auto simp: parseJsonBody_def split: option.splits if_splits)
  obtain client answer where c: "createRegistryIdentityClient (pc_urls cfg)
        \<lparr>ic_registryUrl = pc_registryUrl cfg, ic_serviceId = x, ic_serviceSecret = y\<rparr> = Inr client"
      "is_agent_did (ulids (pc_runtime cfg)) (au_agentDid a)"
      "registry_said (pc_urls cfg) (pc_fetch cfg) client INTERNAL_IDENTITY_AGENT_OWNERSHIP_PATH
         (ownership_body (au_ownerDid a) (au_agentDid a)) answer"
      "js_get answer ''ownsAgent'' = JBool True" "js_get answer ''agentStatus'' = JStr ''active''"
    using assertCallerOwns_Inr [OF own] by blast
  then show "is_agent_did (ulids (pc_runtime cfg)) (au_agentDid a)" by simp
  have xy: "trim x = x" "trim y = y" "x \<noteq> []" "y \<noteq> []" "map_option trim (pc_serviceId cfg) = Some x" "map_option trim (pc_serviceSecret cfg) = Some y"
    using credentials_Inr [OF b(6)] by auto
  then show "ownership_confirmed cfg (au_ownerDid a) (au_agentDid a)"
    using c createRegistryIdentityClient_Inr [OF c(1)] unfolding ownership_confirmed_def
    by (intro exI [of _ client] exI [of _ answer]) simp
qed

section \<open>A started ticket\<close>

lemma pair_start_ticket_Inr:
  assumes "pair_start_ticket cfg v now ttl url = Inr (ticket, payload, issuer, x)"
  obtains key where "pf_key v = Some (key, JStr x)" "normalizeProxyOrigin (pc_runtime cfg) url = Some issuer"
    "createPairingTicket (pc_runtime cfg) issuer (now + ttl * 1000) (pf_kid v) (pf_nonce v) (pf_pkid v) key = Inr (ticket, payload)"
proof -
  obtain key y where k: "pf_key v = Some (key, y)" "isNonEmptyString y"
    using assms by (cases "pf_key v")
      (auto simp: pair_start_ticket_def createPairingTicketSigningKey_def split: if_splits)
  then obtain z where "y = JStr z" by (auto simp: isNonEmptyString_iff)
  with k assms that show ?thesis
    by (auto simp: pair_start_ticket_def createPairingTicketSigningKey_def)
qed

lemma memory_create_Inr:
  assumes "memory_createPairingTicket R c i s = (Inr r, s')"
  obtains p where "parsePairingTicket R (normalizePairingTicketText (ci_ticket i)) = Inr p"
    "tk_iss p = ci_issuerProxyUrl i" "tk_exp p * 1000 = normalizeExpiryToWholeSecond (ci_expiresAtMs i)"
    "r = \<lparr>cr_ticket = normalizePairingTicketText (ci_ticket i), cr_expiresAtMs = tk_exp p * 1000,
          cr_initiatorAgentDid = ci_initiatorAgentDid i, cr_initiatorProfile = ci_initiatorProfile i, cr_issuerProxyUrl = tk_iss p\<rparr>"
    "pairingTickets s' = AList.update (tk_kid p)
        \<lparr>st_ticket = normalizePairingTicketText (ci_ticket i), st_expiresAtMs = tk_exp p * 1000,
         st_initiatorAgentDid = ci_initiatorAgentDid i, st_initiatorProfile = ci_initiatorProfile i, st_issuerProxyUrl = tk_iss p,
         st_publicKeyX = trim (ci_publicKeyX i), st_allowResponderAgentDid = map_option trim (ci_allowResponderAgentDid i)\<rparr>
        (pairingTickets (cleanup (resolve_now (ci_nowMs i) c) None s))"
    "confirmedPairingTickets s' = AList.delete (tk_kid p) (confirmedPairingTickets (cleanup (resolve_now (ci_nowMs i) c) None s))"
proof -
  obtain p where p: "parseStoredTicket R (normalizePairingTicketText (ci_ticket i)) = Inr p"
    using assms by (auto simp: memory_createPairingTicket_def Let_def split: sum.splits)
  show ?thesis
    by (rule that [of p]) (use assms p in \<open>auto simp: memory_createPairingTicket_def Let_def parseStoredTicket_Inr split: if_splits\<close>)
qed

lemma map_sum_id_Inr [simp]: "map_sum f id r = Inr x \<longleftrightarrow> r = Inr x"
  by (cases r) auto

lemma memory_pairing_store_ops [simp]:
  "ps_create (memory_pairing_store R c c') i s = map_prod (map_sum StoreError id) id (memory_createPairingTicket R c i s)"
  "ps_confirm (memory_pairing_store R c c') j s = map_prod (map_sum StoreError id) id (confirmPairingTicket R c c' j s)"
  "ps_status (memory_pairing_store R c c') k s = map_prod (map_sum StoreError id) id (resolveTicketStatus R c k s)"
  by (simp_all add: memory_pairing_store_def)

lemma pair_start_Inr:
  assumes "createPairStartHandler cfg (memory_pairing_store (pc_runtime cfg) c c') v now url auth raw s = (Inr resp, s')"
  obtains a ttl profile allowed ticket payload issuer x r
  where "pair_start_checks cfg auth raw = Inr (a, ttl, profile, allowed)"
    "pair_start_ticket cfg v now ttl url = Inr (ticket, payload, issuer, x)"
    "memory_createPairingTicket (pc_runtime cfg) c (pair_start_input a profile allowed ticket payload issuer x now) s = (Inr r, s')"
    "resp = pair_start_response r"
proof -
  obtain i where i: "bindE (pair_start_checks cfg auth raw) (\<lambda>(caller, ttlSeconds, initiatorProfile, allowed).
           bindE (pair_start_ticket cfg v now ttlSeconds url) (\<lambda>(ticket, payload, issuerProxyUrl, publicKeyX).
           Inr (pair_start_input caller initiatorProfile allowed ticket payload issuerProxyUrl publicKeyX now))) = Inr i"
    using assms by (auto simp: createPairStartHandler_def split: sum.splits)
  then obtain a ttl profile allowed ticket payload issuer x where
      "pair_start_checks cfg auth raw = Inr (a, ttl, profile, allowed)"
      "pair_start_ticket cfg v now ttl url = Inr (ticket, payload, issuer, x)"
      "i = pair_start_input a profile allowed ticket payload issuer x now"
    by (auto split: prod.splits)
  moreover obtain r where "memory_createPairingTicket (pc_runtime cfg) c i s = (Inr r, s')" "resp = pair_start_response r"
    using assms unfolding createPairStartHandler_def i
    by (cases "memory_createPairingTicket (pc_runtime cfg) c i s") (auto split: sum.splits)
  ultimately show ?thesis using that by blast
qed

lemma ticket_expiry_bounds:
  assumes "createPairingTicket R url (now + ttl * 1000) kid nb pk key = Inr (ticket, payload)" "1 \<le> ttl" "ttl \<le> 900"
  shows "now < tk_exp payload * 1000" and "tk_exp payload * 1000 \<le> now + 900 * 1000"
    and "normalizeExpiryToWholeSecond (tk_exp payload * 1000) = tk_exp payload * 1000"
  using assms createPairingTicket_Inr(3) [OF assms(1)] floor_mult_le [of 1000 "now + ttl * 1000"]
    floor_mult_gt [of 1000 "now + ttl * 1000"]
  by (simp_all add: normalizeExpiryToWholeSecond_def)

text \<open>How a stored ticket was made from a request.\<close>
definition issued_from ::
  "pair_config \<Rightarrow> pair_fresh \<Rightarrow> ms \<Rightarrow> string \<Rightarrow> jsval option \<Rightarrow> StoredPairingTicket \<Rightarrow> bool" where
  "issued_from cfg v now url raw d \<longleftrightarrow>
     (\<exists>body ttl allowed ticket payload issuer x. raw = Some body \<and> parseTtlSeconds (js_get body ''ttlSeconds'') = Inr ttl \<and>
        parseOptionalResponderAgentDid (ulids (pc_runtime cfg)) (js_get body ''allowResponderAgentDid'') = Inr allowed \<and>
        pair_start_ticket cfg v now ttl url = Inr (ticket, payload, issuer, x) \<and>
        st_ticket d = normalizePairingTicketText ticket \<and> st_publicKeyX d = trim x \<and>
        st_allowResponderAgentDid d = map_option trim allowed)"

text \<open>What a started ticket is bound to.\<close>
definition started_for :: "pair_config \<Rightarrow> ms \<Rightarrow> ProxyAuthContext \<Rightarrow> StoredPairingTicket \<Rightarrow> bool" where
  "started_for cfg now a d \<longleftrightarrow>
     st_initiatorAgentDid d = au_agentDid a \<and> route_profile_ok (pc_runtime cfg) (st_initiatorProfile d) \<and>
     (case st_allowResponderAgentDid d of None \<Rightarrow> True | Some r \<Rightarrow> is_agent_did (ulids (pc_runtime cfg)) r) \<and>
     now < st_expiresAtMs d \<and> st_expiresAtMs d \<le> now + 900 * 1000"

lemma started_stored:
  assumes "createPairStartHandler cfg (memory_pairing_store (pc_runtime cfg) c c') v now url auth raw s = (Inr resp, s')"
    and "url_origin_law (pc_runtime cfg)"
  obtains a p d where "auth = Some a" "ownership_confirmed cfg (au_ownerDid a) (au_agentDid a)" "started_for cfg now a d"
    "parsePairingTicket (pc_runtime cfg) (st_ticket d) = Inr p" "map_of (pairingTickets s') (tk_kid p) = Some d"
    "map_of (confirmedPairingTickets s') (tk_kid p) = None" "tk_exp p * 1000 = st_expiresAtMs d" "st_issuerProxyUrl d = tk_iss p"
    "js_get (resp_body resp) ''ticket'' = JStr (st_ticket d)" "issued_from cfg v now url raw d"
    "is_agent_did (ulids (pc_runtime cfg)) (au_agentDid a)"
proof -
  obtain a ttl profile allowed ticket payload issuer x r where
      chk: "pair_start_checks cfg auth raw = Inr (a, ttl, profile, allowed)"
    and tk: "pair_start_ticket cfg v now ttl url = Inr (ticket, payload, issuer, x)"
    and cr: "memory_createPairingTicket (pc_runtime cfg) c (pair_start_input a profile allowed ticket payload issuer x now) s = (Inr r, s')"
    and resp: "resp = pair_start_response r"
    by (rule pair_start_Inr [OF assms(1)])
  note chk' = pair_start_checks_Inr [OF chk assms(2)]
  obtain key where key: "createPairingTicket (pc_runtime cfg) issuer (now + ttl * 1000) (pf_kid v) (pf_nonce v) (pf_pkid v) key = Inr (ticket, payload)"
    by (rule pair_start_ticket_Inr [OF tk])
  note e = ticket_expiry_bounds [OF key chk'(3,4)]
  let ?t = "normalizePairingTicketText ticket"
  obtain p where p: "parsePairingTicket (pc_runtime cfg) ?t = Inr p" "tk_exp p * 1000 = tk_exp payload * 1000"
      "cr_ticket r = ?t"
      "pairingTickets s' = AList.update (tk_kid p) \<lparr>st_ticket = ?t, st_expiresAtMs = tk_exp p * 1000, st_initiatorAgentDid = au_agentDid a,
         st_initiatorProfile = profile, st_issuerProxyUrl = tk_iss p, st_publicKeyX = trim x,
         st_allowResponderAgentDid = map_option trim allowed\<rparr> (pairingTickets (cleanup now None s))"
      "confirmedPairingTickets s' = AList.delete (tk_kid p) (confirmedPairingTickets (cleanup now None s))"
    by (rule memory_create_Inr [OF cr]) (simp add: pair_start_input_def resolve_now_def e(3))
  have "case map_option trim allowed of None \<Rightarrow> True | Some d \<Rightarrow> is_agent_did (ulids (pc_runtime cfg)) d"
    using chk'(6) agent_did_trimmed by (cases allowed) auto
  moreover have "js_get (resp_body resp) ''ticket'' = JStr ?t"
    unfolding resp pair_start_response_def http_response.sel by (subst js_get_wire) (simp_all add: p(3))
  ultimately show ?thesis
    using that [OF chk'(1,7), of "\<lparr>st_ticket = ?t, st_expiresAtMs = tk_exp p * 1000, st_initiatorAgentDid = au_agentDid a,
         st_initiatorProfile = profile, st_issuerProxyUrl = tk_iss p, st_publicKeyX = trim x,
         st_allowResponderAgentDid = map_option trim allowed\<rparr>" p] p e(1,2) chk'(5,8,9) tk
    by (simp add: started_for_def update_conv' delete_conv' issued_from_def) blast
qed

text \<open>
  A ticket is started only for an authenticated caller of which the registry, asked with the proxy's
  credentials, says that the caller's owner owns this agent and that it is active. The stored ticket names that agent,
  carries a checked profile, allows only an agent DID as responder when one was given, and lives for more than no
  time and at most fifteen minutes; it is the ticket in the response.
\<close>
theorem started_ticket_is_bound:
  assumes "createPairStartHandler cfg (memory_pairing_store (pc_runtime cfg) c c') v now url auth raw s = (Inr resp, s')"
    and "url_origin_law (pc_runtime cfg)"
  shows "\<exists>a p d. auth = Some a \<and> ownership_confirmed cfg (au_ownerDid a) (au_agentDid a) \<and> started_for cfg now a d \<and>
     parsePairingTicket (pc_runtime cfg) (st_ticket d) = Inr p \<and> map_of (pairingTickets s') (tk_kid p) = Some d \<and>
     js_get (resp_body resp) ''ticket'' = JStr (st_ticket d)"
  using started_stored [OF assms] by metis

lemma started_wf:
  assumes "createPairStartHandler cfg (memory_pairing_store R c c') v now url auth raw s = (Inr resp, s')" and "memory_wf s" "R = pc_runtime cfg"
  shows "memory_wf s'"
proof -
  obtain i r where "memory_createPairingTicket R c i s = (Inr r, s')"
    using pair_start_Inr [OF assms(1) [unfolded assms(3)]] assms(3) by metis
  then show ?thesis using memory_wf_step [OF assms(2), of R "(c, c, CallCreate i)"] by simp
qed

section \<open>From start to confirmation\<close>

text \<open>The ticket \<open>d\<close> with id \<open>k\<close> waits for a responder.\<close>
definition on_offer :: "runtime \<Rightarrow> string \<Rightarrow> StoredPairingTicket \<Rightarrow> memory_store \<Rightarrow> bool" where
  "on_offer R k d s \<longleftrightarrow> memory_wf s \<and> map_of (pairingTickets s) k = Some d \<and> map_of (confirmedPairingTickets s) k = None \<and>
     (\<exists>p. parsePairingTicket R (st_ticket d) = Inr p \<and> tk_kid p = k \<and> tk_exp p * 1000 = st_expiresAtMs d)"

text \<open>
  A call that does not use the ticket up: it does not register the id anew, and if it tries to confirm the id, it is
  refused for another reason than expiry.
\<close>
fun spares :: "runtime \<Rightarrow> string \<Rightarrow> timed_call \<Rightarrow> memory_store \<Rightarrow> bool" where
  "spares R k (c, c', CallConfirm i) s =
     (case parsePairingTicket R (normalizePairingTicketText (fi_ticket i)) of
        Inl _ \<Rightarrow> True
      | Inr p \<Rightarrow> tk_kid p = k \<longrightarrow>
          (case fst (confirmPairingTicket R c c' i s) of Inl e \<Rightarrow> e \<noteq> err_expired | Inr _ \<Rightarrow> False))"
| "spares R k ev s = (\<not> registers R k ev)"

fun undisturbed :: "runtime \<Rightarrow> string \<Rightarrow> ms \<Rightarrow> timed_call list \<Rightarrow> memory_store \<Rightarrow> bool" where
  "undisturbed R k e [] s = True"
| "undisturbed R k e (ev # calls) s =
     (list_all (\<lambda>t. t < e) (call_times ev) \<and> spares R k ev s \<and> undisturbed R k e calls (memory_step R ev s))"

lemma on_offer_cleanup: "on_offer R k d s \<Longrightarrow> t < st_expiresAtMs d \<Longrightarrow> on_offer R k d (cleanup t j s)"
  by (auto simp: on_offer_def map_of_cleanup)

text \<open>Only the entries of the id matter.\<close>
lemma on_offer_cong:
  "on_offer R k d s1 \<Longrightarrow> memory_wf s \<Longrightarrow> map_of (pairingTickets s) k = map_of (pairingTickets s1) k \<Longrightarrow>
   map_of (confirmedPairingTickets s) k = map_of (confirmedPairingTickets s1) k \<Longrightarrow> on_offer R k d s"
  by (simp add: on_offer_def)

lemma on_offer_confirm:
  assumes off: "on_offer R k d s" and t: "resolve_now (fi_nowMs i) c < st_expiresAtMs d" and sp: "spares R k (c, c', CallConfirm i) s"
  shows "on_offer R k d (snd (confirmPairingTicket R c c' i s))"
proof -
  let ?t = "resolve_now (fi_nowMs i) c" and ?r = "confirmPairingTicket R c c' i s"
  have wf: "memory_wf (snd ?r)" using off by (simp add: on_offer_def memory_wf_confirm)
  show ?thesis
  proof (cases "confirm_lookup R ?t i s")
    case (Pair r0 s1)
    have s1: "s1 = s \<or> (\<exists>j. s1 = cleanup ?t j s)"
      using Pair by (auto simp: confirm_lookup_def Let_def split: sum.splits option.splits if_splits)
    then have off1: "on_offer R k d s1" using off on_offer_cleanup [OF off t] by auto
    show ?thesis
    proof (cases r0)
      case (Inl e)
      then show ?thesis using Pair off1 by (simp add: confirmPairingTicket_def)
    next
      case (Inr pd)
      then obtain p d' where pd: "pd = (p, d')" by (cases pd)
      have p: "parsePairingTicket R (normalizePairingTicketText (fi_ticket i)) = Inr p"
        using Pair Inr pd off confirm_lookup_Inr [of s R ?t i p d' s1] by (simp add: on_offer_def)
      have same: "map_of (pairingTickets (snd ?r)) k = map_of (pairingTickets s1) k \<and>
          map_of (confirmedPairingTickets (snd ?r)) k = map_of (confirmedPairingTickets s1) k"
      proof (cases "tk_kid p = k")
        case True
        then obtain e where "fst ?r = Inl e" "e \<noteq> err_expired" using sp p by (auto split: sum.splits)
        then show ?thesis using Pair Inr pd
          by (auto simp: confirmPairingTicket_def confirm_resume_def confirm_admit_def split: if_splits)
      next
        case False
        then show ?thesis using Pair Inr pd
          by (auto simp: confirmPairingTicket_def confirm_resume_def confirm_admit_def confirm_commit_def Let_def memory_frame
              delete_conv' update_conv')
      qed
      then show ?thesis using on_offer_cong [OF off1 wf] by blast
    qed
  qed
qed

lemma on_offer_status:
  assumes off: "on_offer R k d s" and t: "resolve_now (si_nowMs i) c < st_expiresAtMs d"
  shows "on_offer R k d (snd (resolveTicketStatus R c i s))"
proof (cases "parsePairingTicket R (normalizePairingTicketText (si_ticket i))")
  case (Inl e)
  then show ?thesis using off by (simp add: resolveTicketStatus_def parseStoredTicket_def Let_def)
next
  case (Inr p)
  let ?t = "resolve_now (si_nowMs i) c" and ?n = "normalizePairingTicketText (si_ticket i)"
  let ?s = "cleanup ?t (Some (tk_kid p)) s"
  have off1: "on_offer R k d ?s" using off t by (rule on_offer_cleanup)
  have wf: "memory_wf (snd (resolveTicketStatus R c i s))"
    using memory_wf_step [of s R "(c, c, CallStatus i)"] off by (simp add: on_offer_def)
  have "parseStoredTicket R ?n = Inr p" using Inr by (simp add: parseStoredTicket_Inr)
  moreover have "\<not> (st_ticket d = ?n \<and> tk_exp p * 1000 \<le> ?t)" using off t Inr by (auto simp: on_offer_def)
  ultimately have "map_of (pairingTickets (snd (resolveTicketStatus R c i s))) k = map_of (pairingTickets ?s) k \<and>
      map_of (confirmedPairingTickets (snd (resolveTicketStatus R c i s))) k = map_of (confirmedPairingTickets ?s) k"
    using off1 t by (cases "tk_kid p = k") (auto simp: resolveTicketStatus_def Let_def on_offer_def delete_conv' split: option.splits)
  then show ?thesis using on_offer_cong [OF off1 wf] by blast
qed

lemma on_offer_step:
  assumes off: "on_offer R k d s" and t: "list_all (\<lambda>u. u < st_expiresAtMs d) (call_times ev)" and sp: "spares R k ev s"
  shows "on_offer R k d (memory_step R ev s)"
proof -
  obtain c c' op where ev: "ev = (c, c', op)" by (cases ev)
  have wf: "memory_wf (memory_step R ev s)" using off by (simp add: on_offer_def memory_wf_step)
  note via = on_offer_cong [OF on_offer_cleanup [OF off] wf]
  show ?thesis
  proof (cases op)
    case (CallConfirm i)
    then show ?thesis using on_offer_confirm [OF off] t sp by (simp add: ev)
  next
    case (CallStatus i)
    then show ?thesis using on_offer_status [OF off] t by (simp add: ev)
  next
    case (CallCreate i)
    then show ?thesis using t sp
      by (intro via [of "resolve_now (ci_nowMs i) c" None])
        (auto simp: ev memory_createPairingTicket_def Let_def parseStoredTicket_Inr update_conv' delete_conv' split: sum.splits)
  next
    case (CallMarkRevoked a)
    then show ?thesis using t off wf
      by (cases "parseAgentDid (ulids R) a")
        (auto simp: ev memory_markAgentRevoked_def Let_def intro: on_offer_cong [OF on_offer_cleanup [OF off, of c None]])
  next
    case (CallIsRevoked a)
    then show ?thesis using t off on_offer_cleanup [OF off, of c None]
      by (auto simp: ev memory_isAgentRevoked_def Let_def split: sum.splits)
  next
    case (CallUpsertPair a b)
    then show ?thesis using wf by (intro on_offer_cong [OF off]) (simp_all add: ev memory_upsertPair_def memory_frame)
  qed
qed

lemma on_offer_run: "on_offer R k d s \<Longrightarrow> undisturbed R k (st_expiresAtMs d) calls s \<Longrightarrow> on_offer R k d (fold (memory_step R) calls s)"
  by (induction calls arbitrary: s) (simp_all add: on_offer_step)

text \<open>What the host promises of the values drawn for one request: WebCrypto's key signs, the ids and the nonce are not blank.\<close>
definition fresh_ok :: "runtime \<Rightarrow> pair_fresh \<Rightarrow> bool" where
  "fresh_ok R v \<longleftrightarrow> (\<exists>key x. pf_key v = Some (key, JStr x) \<and> key_pair R key x) \<and>
     trim (pf_kid v) = pf_kid v \<and> pf_kid v \<noteq> [] \<and> pf_nonce v \<noteq> []"

text \<open>JSON reads back the payload of the ticket that this request makes.\<close>
definition ticket_json_ok :: "pair_config \<Rightarrow> pair_fresh \<Rightarrow> ms \<Rightarrow> string \<Rightarrow> jsval \<Rightarrow> bool" where
  "ticket_json_ok cfg v now url body \<longleftrightarrow>
     (\<forall>ttl ticket payload issuer x. parseTtlSeconds (js_get body ''ttlSeconds'') = Inr ttl \<longrightarrow>
        pair_start_ticket cfg v now ttl url = Inr (ticket, payload, issuer, x) \<longrightarrow>
        json_utf8 (pc_runtime cfg) (signedPayloadJson payload) \<noteq> [] \<and>
        utf8_json (pc_runtime cfg) (json_utf8 (pc_runtime cfg) (signedPayloadJson payload)) = Some (signedPayloadJson payload))"

lemma signatureVerified_trim: "signatureVerified R p (trim x) = signatureVerified R p x"
  by (simp add: signatureVerified_def verifyPairingTicketSignature_def)

lemma issued_verifies:
  assumes "issued_from cfg v now url (Some body) d" and "b64_law (pc_runtime cfg)" "url_origin_law (pc_runtime cfg)"
    and "fresh_ok (pc_runtime cfg) v" and "ticket_json_ok cfg v now url body"
  shows "normalizePairingTicketText (st_ticket d) = st_ticket d"
    and "parsePairingTicket (pc_runtime cfg) (st_ticket d) = Inr p \<Longrightarrow> signatureVerified (pc_runtime cfg) p (st_publicKeyX d)"
proof -
  obtain ttl ticket payload issuer x where i: "parseTtlSeconds (js_get body ''ttlSeconds'') = Inr ttl"
      "pair_start_ticket cfg v now ttl url = Inr (ticket, payload, issuer, x)"
      "st_ticket d = normalizePairingTicketText ticket" "st_publicKeyX d = trim x"
    using assms(1) unfolding issued_from_def by blast
  have json: "json_utf8 (pc_runtime cfg) (signedPayloadJson payload) \<noteq> []"
      "utf8_json (pc_runtime cfg) (json_utf8 (pc_runtime cfg) (signedPayloadJson payload)) = Some (signedPayloadJson payload)"
    using assms(5) i(1,2) unfolding ticket_json_ok_def by blast+
  obtain key where key: "pf_key v = Some (key, JStr x)"
      "createPairingTicket (pc_runtime cfg) issuer (now + ttl * 1000) (pf_kid v) (pf_nonce v) (pf_pkid v) key = Inr (ticket, payload)"
    by (rule pair_start_ticket_Inr [OF i(2)])
  then have "key_pair (pc_runtime cfg) key x" using assms(4) by (auto simp: fresh_ok_def)
  note created = created_ticket_parses [OF key(2) assms(2,3) this json]
  have fresh: "trim (pf_kid v) = pf_kid v" "pf_kid v \<noteq> []" "pf_nonce v \<noteq> []" using assms(4) by (auto simp: fresh_ok_def)
  have n: "normalizePairingTicketText ticket = ticket"
    unfolding createPairingTicket_Inr(1) [OF key(2)] by (rule ticket_text_normal [OF assms(2) json(1)])
  then show "normalizePairingTicketText (st_ticket d) = st_ticket d" using i(3) by simp
  show "signatureVerified (pc_runtime cfg) p (st_publicKeyX d)" if "parsePairingTicket (pc_runtime cfg) (st_ticket d) = Inr p"
    using created [OF fresh] that i(3,4) n by (simp add: signatureVerified_trim)
qed

text \<open>The responder of a request may be the caller: none was named, or this one.\<close>
definition may_respond :: "jsval \<Rightarrow> string \<Rightarrow> bool" where
  "may_respond body d \<longleftrightarrow> js_get body ''allowResponderAgentDid'' = JUndefined \<or> js_get body ''allowResponderAgentDid'' = JStr d"

lemma allowed_responder:
  assumes "issued_from cfg v now url (Some body) d" and "may_respond body r" and "is_agent_did (ulids (pc_runtime cfg)) r"
  shows "st_allowResponderAgentDid d = None \<or> st_allowResponderAgentDid d = Some r"
  using assms agent_did_trimmed [OF assms(3)]
  by (auto simp: issued_from_def may_respond_def parseOptionalResponderAgentDid_def Let_def split: if_splits sum.splits)

lemma confirm_offer:
  assumes "on_offer R k d s" and "parsePairingTicket R (st_ticket d) = Inr p" "tk_kid p = k"
    and "normalizePairingTicketText (st_ticket d) = st_ticket d" "signatureVerified R p (st_publicKeyX d)"
    and "t < st_expiresAtMs d" "st_issuerProxyUrl d = tk_iss p"
    and "st_allowResponderAgentDid d = None \<or> st_allowResponderAgentDid d = Some r"
    and "i = \<lparr>fi_ticket = st_ticket d, fi_responderAgentDid = r, fi_responderProfile = prof, fi_nowMs = Some t\<rparr>"
  shows "fst (confirmPairingTicket R c c' i s) = Inr (confirmed_pair i d)"
proof -
  have "confirmable R (resolve_now (fi_nowMs i) c) i s p d"
    using assms by (auto simp: on_offer_def confirmable_def resolve_now_def)
  then show ?thesis using assms(1) by (subst confirm_state) (simp_all add: on_offer_def)
qed

section \<open>The answer to a confirmation\<close>

definition accepted_event :: "PairingTicketConfirmResult \<Rightarrow> ms \<Rightarrow> PairAcceptedEvent" where
  "accepted_event r t = \<lparr>pe_initiatorAgentDid = fr_initiatorAgentDid r, pe_responderAgentDid = fr_responderAgentDid r,
     pe_responderProfile = \<lparr>pr_agentName = agentName (fr_responderProfile r), pr_humanName = humanName (fr_responderProfile r),
       pr_proxyOrigin = (case proxyOrigin (fr_responderProfile r) of None \<Rightarrow> [] | Some u \<Rightarrow> u)\<rparr>,
     pe_issuerProxyOrigin = fr_issuerProxyUrl r, pe_eventTimestampUtc = toIso t, pe_msg = Some PAIR_ACCEPTED_NOTIFICATION_MESSAGE\<rparr>"

lemma notification_trimmed: "trim PAIR_ACCEPTED_NOTIFICATION_MESSAGE = PAIR_ACCEPTED_NOTIFICATION_MESSAGE"
  by (simp add: PAIR_ACCEPTED_NOTIFICATION_MESSAGE_def trim_def trimStart_def trimEnd_def is_ws_def)

lemma publish_accepted:
  assumes "route_profile_ok R (fr_responderProfile r)" "proxyOrigin (fr_responderProfile r) \<noteq> None"
    and "is_agent_did (ulids R) (fr_initiatorAgentDid r)" "is_agent_did (ulids R) (fr_responderAgentDid r)"
    and "is_http_origin R (fr_issuerProxyUrl r)" and "iso_range t" "reads_date dp t"
  shows "publishPairAcceptedEvent R dp queue r (toIso t) =
     Inr (if queue = Some True then [json_wire (pair_event_js (accepted_event r t))] else [])"
    and "parsePairAcceptedEvent R dp (json_wire (pair_event_js (accepted_event r t))) = Inr (accepted_event r t)"
proof -
  obtain u where u: "proxyOrigin (fr_responderProfile r) = Some u" using assms(2) by auto
  have o: "is_http_origin R u" using assms(1) u by (simp add: route_profile_ok_def)
  have "event_normal R (accepted_event r t)"
    using assms(1,3-5) o u notification_trimmed
    by (auto simp: event_normal_def accepted_event_def route_profile_ok_def name_ok_def PAIR_ACCEPTED_NOTIFICATION_MESSAGE_def)
  from create_event_normal [OF this _ assms(6,7)]
  have c: "createPairAcceptedEvent R dp (accepted_event r t) = Inr (accepted_event r t)" by (simp add: accepted_event_def)
  then show "parsePairAcceptedEvent R dp (json_wire (pair_event_js (accepted_event r t))) = Inr (accepted_event r t)"
    by (simp add: createPairAcceptedEvent_def json_wire_pair_event)
  have "trim u = u" "u \<noteq> []" using o by (simp_all add: is_http_origin_def)
  then show "publishPairAcceptedEvent R dp queue r (toIso t) =
     Inr (if queue = Some True then [json_wire (pair_event_js (accepted_event r t))] else [])"
    using c u by (simp add: publishPairAcceptedEvent_def accepted_event_def Let_def del: bindE_eq_Inr)
qed

lemma parsed_iss_origin:
  assumes "parsePairingTicket R t = Inr p" and "url_origin_law R"
  shows "is_http_origin R (tk_iss p)"
proof -
  obtain u where "assertHttpUrl R u = Inr (tk_iss p)"
    using assms(1) by (auto simp: parsePairingTicket_def Let_def)
  then show ?thesis using url_origin_law_http_origin [OF assms(2)]
    by (auto simp: assertHttpUrl_def split: option.splits if_splits)
qed

lemma case_Inr_const: "(case r of Inl e \<Rightarrow> Inl (f e) | Inr _ \<Rightarrow> Inr y) = Inr z \<longleftrightarrow> (\<exists>x. r = Inr x) \<and> y = z"
  by (cases r) auto

lemma pair_confirm_checks_Inr:
  "pair_confirm_checks R auth raw = Inr (b, ticket, prof) \<longleftrightarrow>
     auth = Some b \<and>
     (\<exists>body p. parseJsonBody raw = Inr body \<and> required_ticket body = Inr ticket \<and>
        route_parsePeerProfile R (js_get body ''responderProfile'') ''responderProfile'' True = Inr prof \<and>
        parsePairingTicket R ticket = Inr p)"
  by (auto simp: pair_confirm_checks_def case_Inr_const)

lemma confirmed_answer:
  assumes "pair_confirm_checks R auth raw = Inr (b, ticket, prof)"
    and "confirmPairingTicket R c c' \<lparr>fi_ticket = ticket, fi_responderAgentDid = au_agentDid b, fi_responderProfile = prof,
           fi_nowMs = Some now\<rparr> s = (Inr r, s')"
    and "memory_wf s" and "is_agent_did (ulids R) (fr_initiatorAgentDid r)" "is_agent_did (ulids R) (au_agentDid b)"
    and "url_origin_law R" and "iso_range now'" "reads_date dp now'"
  shows "createPairConfirmHandler R dp (memory_pairing_store R c c') queue now now' auth raw s =
     (Inr (pair_confirm_response r), s', if queue = Some True then [json_wire (pair_event_js (accepted_event r now'))] else [])"
    and "parsePairAcceptedEvent R dp (json_wire (pair_event_js (accepted_event r now'))) = Inr (accepted_event r now')"
proof -
  let ?i = "\<lparr>fi_ticket = ticket, fi_responderAgentDid = au_agentDid b, fi_responderProfile = prof, fi_nowMs = Some now\<rparr>"
  obtain body where "route_parsePeerProfile R (js_get body ''responderProfile'') ''responderProfile'' True = Inr prof"
    using assms(1) unfolding pair_confirm_checks_Inr by blast
  note prof = route_parsePeerProfile_Inr [OF this assms(6)]
  obtain p d where pd: "confirmable R (resolve_now (fi_nowMs ?i) c) ?i s p d" "r = confirmed_pair ?i d"
    using confirm_succeeds_iff [OF assms(3)] assms(2) by (metis fst_conv)
  have "is_http_origin R (tk_iss p)" using pd(1) parsed_iss_origin [OF _ assms(6)] by (auto simp: confirmable_def)
  then have iss: "is_http_origin R (fr_issuerProxyUrl r)" using pd by (simp add: confirmed_pair_def confirmable_def)
  have resp: "fr_responderAgentDid r = au_agentDid b" "fr_responderProfile r = prof" using pd(2) by (simp_all add: confirmed_pair_def)
  have ok: "route_profile_ok R (fr_responderProfile r)" "proxyOrigin (fr_responderProfile r) \<noteq> None"
    "is_agent_did (ulids R) (fr_responderAgentDid r)"
    using prof resp assms(5) by simp_all
  note pub = publish_accepted [OF ok(1,2) assms(4) ok(3) iss assms(7,8)]
  show "createPairConfirmHandler R dp (memory_pairing_store R c c') queue now now' auth raw s =
     (Inr (pair_confirm_response r), s', if queue = Some True then [json_wire (pair_event_js (accepted_event r now'))] else [])"
    using pub(1) assms(1,2) by (simp add: createPairConfirmHandler_def)
  show "parsePairAcceptedEvent R dp (json_wire (pair_event_js (accepted_event r now'))) = Inr (accepted_event r now')"
    by (rule pub(2))
qed

text \<open>
  (C12) A ticket handed out by the start route does its work. Whatever other calls reach the trust store before the
  ticket expires, as long as none uses it up: the allowed responder who confirms it in time is answered 201, after
  which the two agents may talk in both directions, and the notification of the initiator is sent to the queue when
  one is bound and accepts it, in a form the consumer reads back unchanged. Relied on: Ed25519, base64url, JSON on this
  ticket, URL origins and \<open>Date.parse\<close>.
\<close>
theorem started_ticket_pairs:
  assumes "createPairStartHandler cfg (memory_pairing_store R c c') v now url (Some a) (Some body) s = (Inr resp, s1)"
    and "R = pc_runtime cfg" "memory_wf s" "b64_law R" "url_origin_law R" "fresh_ok R v" "ticket_json_ok cfg v now url body"
    and "js_get (resp_body resp) ''ticket'' = JStr ticket" "parsePairingTicket R ticket = Inr p"
    and "undisturbed R (tk_kid p) (tk_exp p * 1000) calls s1" "t < tk_exp p * 1000"
    and "js_get body' ''ticket'' = JStr ticket" "may_respond body (au_agentDid b)" "is_agent_did (ulids R) (au_agentDid b)"
    and "route_parsePeerProfile R (js_get body' ''responderProfile'') ''responderProfile'' True = Inr prof"
    and "iso_range t'" "reads_date dp t'"
  shows "case createPairConfirmHandler R dp (memory_pairing_store R d d') queue t t' (Some b) (Some body') (fold (memory_step R) calls s1) of
      (reply, s2, sent) \<Rightarrow>
        \<exists>r. reply = Inr (pair_confirm_response r) \<and> fr_initiatorAgentDid r = au_agentDid a \<and> fr_responderAgentDid r = au_agentDid b \<and>
          memory_isPairAllowed s2 (au_agentDid a) (au_agentDid b) \<and> memory_isPairAllowed s2 (au_agentDid b) (au_agentDid a) \<and>
          sent = (if queue = Some True then [json_wire (pair_event_js (accepted_event r t'))] else []) \<and>
          parsePairAcceptedEvent R dp (json_wire (pair_event_js (accepted_event r t'))) = Inr (accepted_event r t')"
proof -
  let ?s = "fold (memory_step R) calls s1"
  obtain q e where q: "started_for cfg now a e" "parsePairingTicket R (st_ticket e) = Inr q" "map_of (pairingTickets s1) (tk_kid q) = Some e"
      "map_of (confirmedPairingTickets s1) (tk_kid q) = None" "tk_exp q * 1000 = st_expiresAtMs e" "st_issuerProxyUrl e = tk_iss q"
      "js_get (resp_body resp) ''ticket'' = JStr (st_ticket e)" "issued_from cfg v now url (Some body) e"
      "is_agent_did (ulids R) (au_agentDid a)"
    using started_stored [OF assms(1) [unfolded assms(2)]] assms(2,5) by blast
  have eq: "st_ticket e = ticket" "q = p" using q(2,7) assms(8,9) by auto
  note iss = issued_verifies [OF q(8) assms(4-7) [unfolded assms(2)], folded assms(2)]
  have wf1: "memory_wf s1" by (rule started_wf [OF assms(1,3,2)])
  then have "on_offer R (tk_kid p) e s1" using q eq by (auto simp: on_offer_def)
  then have off: "on_offer R (tk_kid p) e ?s" using assms(10) q(5) eq(2) by (intro on_offer_run) simp_all
  then have wf: "memory_wf ?s" by (simp add: on_offer_def)
  define i where "i = \<lparr>fi_ticket = st_ticket e, fi_responderAgentDid = au_agentDid b, fi_responderProfile = prof, fi_nowMs = Some t\<rparr>"
  obtain r s2 where r: "confirmPairingTicket R d d' i ?s = (r, s2)" by fastforce
  have resp: "st_allowResponderAgentDid e = None \<or> st_allowResponderAgentDid e = Some (au_agentDid b)"
    using allowed_responder [OF q(8) assms(13)] assms(2,14) by blast
  have "r = Inr (confirmed_pair i e)"
    using confirm_offer [OF off _ _ iss(1) _ _ _ resp i_def, of p d d'] q eq assms(11) iss(2) r by simp
  with r have cp: "confirmPairingTicket R d d' i ?s = (Inr (confirmed_pair i e), s2)" by simp
  have ini: "fr_initiatorAgentDid (confirmed_pair i e) = au_agentDid a" "fr_responderAgentDid (confirmed_pair i e) = au_agentDid b"
    using q(1) by (simp_all add: confirmed_pair_def started_for_def i_def)
  have trusts: "memory_isPairAllowed s2 (au_agentDid a) (au_agentDid b) \<and> memory_isPairAllowed s2 (au_agentDid b) (au_agentDid a)"
    using confirm_trusts [OF wf, of R d d' i "confirmed_pair i e"] cp ini by (simp add: i_def Let_def)
  have "parseJsonBody (Some body') = Inr body'" using assms(12) by (auto simp: parseJsonBody_def)
  moreover have "required_ticket body' = Inr (st_ticket e)"
    using assms(12) iss(1) eq parsed_text_nonblank [OF q(2)] by (simp add: required_ticket_def)
  ultimately have chk: "pair_confirm_checks R (Some b) (Some body') = Inr (b, st_ticket e, prof)"
    using assms(15) q(2) unfolding pair_confirm_checks_Inr by blast
  note ans = confirmed_answer [OF chk cp [unfolded i_def] wf _ assms(14,5,16,17), folded i_def, unfolded ini(1), OF q(9)]
  show ?thesis unfolding ans(1) prod.case using ans(2) ini trusts by blast
qed

section \<open>The status of a ticket\<close>

lemma status_ticket:
  assumes "resolveTicketStatus R c i s = (Inr st, s')" and "memory_wf s"
  obtains p where "parsePairingTicket R (normalizePairingTicketText (si_ticket i)) = Inr p"
    "(\<exists>d. st = StatusPending d \<and> map_of (pairingTickets s) (tk_kid p) = Some d \<and> st_ticket d = normalizePairingTicketText (si_ticket i)) \<or>
     (\<exists>f. st = StatusConfirmed f \<and> map_of (confirmedPairingTickets s) (tk_kid p) = Some f \<and> cf_ticket f = normalizePairingTicketText (si_ticket i))"
proof -
  obtain p where p: "parseStoredTicket R (normalizePairingTicketText (si_ticket i)) = Inr p"
    using assms(1) by (auto simp: resolveTicketStatus_def Let_def split: sum.splits)
  show ?thesis
    by (rule that [of p]) (use assms(1) p in \<open>auto simp: resolveTicketStatus_def Let_def parseStoredTicket_Inr map_of_cleanup [OF assms(2)]
        split: option.splits if_splits\<close>)
qed

text \<open>
  The status route tells about a ticket only to its parties: whoever gets an answer is authenticated, presented
  the very text of a stored ticket, and is the agent that started it or the agent that confirmed it. Asking changes
  nobody's trust.
\<close>
theorem status_only_for_parties:
  assumes "createPairStatusHandler (memory_pairing_store R c c') now auth raw s = (Inr resp, s')" and "memory_wf s"
  shows "pairKeys s' = pairKeys s \<and>
    (\<exists>a body p st. auth = Some a \<and> raw = Some body \<and> resp = pair_status_response st \<and>
      parsePairingTicket R (normalizePairingTicketText (normalizePairingTicketText (js_str (js_get body ''ticket'')))) = Inr p \<and>
      ((\<exists>d. st = StatusPending d \<and> map_of (pairingTickets s) (tk_kid p) = Some d \<and> st_initiatorAgentDid d = au_agentDid a) \<or>
       (\<exists>f. st = StatusConfirmed f \<and> map_of (confirmedPairingTickets s) (tk_kid p) = Some f \<and>
            au_agentDid a \<in> {cf_initiatorAgentDid f, cf_responderAgentDid f})))"
proof -
  obtain a body where ab: "auth = Some a" "parseJsonBody raw = Inr body"
      "required_ticket body = Inr (normalizePairingTicketText (js_str (js_get body ''ticket'')))"
    using assms(1) by (auto simp: createPairStatusHandler_def required_ticket_def split: sum.splits if_splits)
  then have raw: "raw = Some body" by (auto simp: parseJsonBody_def split: option.splits if_splits)
  define i where "i = \<lparr>si_ticket = normalizePairingTicketText (js_str (js_get body ''ticket'')), si_nowMs = Some now\<rparr>"
  obtain st where st: "resolveTicketStatus R c i s = (Inr st, s')" "resp = pair_status_response st"
      "au_agentDid a = status_initiator st \<or> status_responder st = Some (au_agentDid a)"
    using assms(1) ab unfolding createPairStatusHandler_def i_def
    by (auto simp: map_prod_def split: sum.splits prod.splits if_splits)
  have "pairKeys s' = pairKeys s" using status_frame(1) [of R c i s] st(1) by simp
  moreover obtain p where "parsePairingTicket R (normalizePairingTicketText (si_ticket i)) = Inr p"
    "(\<exists>d. st = StatusPending d \<and> map_of (pairingTickets s) (tk_kid p) = Some d) \<or>
     (\<exists>f. st = StatusConfirmed f \<and> map_of (confirmedPairingTickets s) (tk_kid p) = Some f)"
    by (rule status_ticket [OF st(1) assms(2)]) blast
  ultimately show ?thesis using ab(1) raw st(2,3)
    by (intro conjI exI [of _ a] exI [of _ body] exI [of _ p] exI [of _ st]) (auto simp: i_def)
qed

section \<open>A concrete pairing\<close>

definition demo_pair_config :: pair_config where
  "demo_pair_config = \<lparr>pc_runtime = demo_runtime,
     pc_urls = \<lparr>new_URL = (\<lambda>u b. Some \<lparr>u_protocol = ''https:'', u_hostname = ''r'', u_port = [], u_origin = ''https://r'', u_href = u, u_pathname = [], u_search = []\<rparr>),
       set_protocol = (\<lambda>_ u. u), set_hostname = (\<lambda>_ u. u), set_port = (\<lambda>_ u. u)\<rparr>,
     pc_fetch = (\<lambda>u hs body. IdentityAnswer 200 (JObj [(''ownsAgent'', JBool True), (''agentStatus'', JStr ''active'')])),
     pc_registryUrl = ''https://r'', pc_serviceId = Some ''i'', pc_serviceSecret = Some ''s''\<rparr>"

definition demo_fresh :: pair_fresh where
  "demo_fresh = \<lparr>pf_key = Some (demo_key, JStr ''X''), pf_pkid = ''P'', pf_kid = ''K'', pf_nonce = [1]\<rparr>"

definition demo_caller :: "char \<Rightarrow> ProxyAuthContext" where
  "demo_caller c = \<lparr>au_agentDid = demo_did c, au_ownerDid = ''did:cdi:a.b:human:00000000000000000000000001'', au_aitJti = [], au_issuer = [],
     au_cnfPublicKey = []\<rparr>"

definition demo_start_body :: jsval where
  "demo_start_body = JObj [(''ttlSeconds'', JNum 1), (''initiatorProfile'', profile_js demo_profile)]"

definition demo_confirm_body :: jsval where
  "demo_confirm_body = JObj [(''ticket'', JStr demo_ticket),
     (''responderProfile'', profile_js (demo_profile\<lparr>proxyOrigin := Some demo_origin\<rparr>))]"

definition demo_offer :: StoredPairingTicket where
  "demo_offer = demo_stored\<lparr>st_initiatorAgentDid := demo_did CHR ''1''\<rparr>"

lemma demo_owner: "\<exists>h. parseHumanDid demo_ulids ''did:cdi:a.b:human:00000000000000000000000001'' = Inr h"
proof -
  have "\<not> isl (parseHumanDid demo_ulids ''did:cdi:a.b:human:00000000000000000000000001'')" by code_simp
  then show ?thesis by (metis isl_def obj_sumE)
qed

lemma demo_profile_parses:
  "route_parsePeerProfile demo_runtime (profile_js demo_profile) label False = Inr demo_profile"
  "route_parsePeerProfile demo_runtime (profile_js (demo_profile\<lparr>proxyOrigin := Some demo_origin\<rparr>)) label True =
     Inr (demo_profile\<lparr>proxyOrigin := Some demo_origin\<rparr>)"
  using demo_laws(2)
  by (simp_all add: route_parsePeerProfile_def profile_js_def demo_profile_def parseProfileName_def parse_profile_origin_def
      trim_noop is_ws_def MAX_PROFILE_NAME_LENGTH_def Let_def demo_runtime_def demo_origin_def
      del: bindE_eq_Inr throw_if_eq_Inr)

lemma demo_checks:
  "pair_start_checks demo_pair_config (Some (demo_caller CHR ''1'')) (Some demo_start_body) =
     Inr (demo_caller CHR ''1'', 1, demo_profile, None)"
proof -
  let ?client = "\<lparr>ic_registryUrl = ''https://r/'', ic_serviceId = ''i'', ic_serviceSecret = ''s''\<rparr>"
  let ?yes = "JObj [(''ownsAgent'', JBool True), (''agentStatus'', JStr ''active'')]"
  have cl: "createRegistryIdentityClient (pc_urls demo_pair_config) \<lparr>ic_registryUrl = ''https://r'', ic_serviceId = ''i'', ic_serviceSecret = ''s''\<rparr> = Inr ?client"
    by (simp add: createRegistryIdentityClient_def client_normalizeRegistryUrl_def validateServiceIdentity_def demo_pair_config_def
        endsWith_def trim_noop is_ws_def del: bindE_eq_Inr)
  have "checkAgentOwnership demo_ulids (pc_urls demo_pair_config) (pc_fetch demo_pair_config) ?client
      ''did:cdi:a.b:human:00000000000000000000000001'' (demo_did CHR ''1'') = Inr \<lparr>ow_ownsAgent = True, ow_agentStatus = Some ''active''\<rparr>"
    unfolding checkAgentOwnership_Inr
    using demo_owner demo_agent_did(1)
    by (auto simp: registry_said_def demo_pair_config_def parseOwnershipResponse_Inr intro!: exI [of _ ?yes])
  then have own: "assertCallerOwnsInitiatorAgent demo_ulids (pc_urls demo_pair_config) (pc_fetch demo_pair_config)
      \<lparr>ic_registryUrl = ''https://r'', ic_serviceId = ''i'', ic_serviceSecret = ''s''\<rparr> ''did:cdi:a.b:human:00000000000000000000000001'' (demo_did CHR ''1'') = Inr ()"
    using cl by (simp add: assertCallerOwnsInitiatorAgent_def)
  have cfg: "pc_runtime demo_pair_config = demo_runtime" "ulids demo_runtime = demo_ulids" "pc_registryUrl demo_pair_config = ''https://r''"
    "pc_serviceId demo_pair_config = Some ''i''" "pc_serviceSecret demo_pair_config = Some ''s''"
    by (simp_all add: demo_pair_config_def demo_runtime_def)
  show ?thesis
    by (simp add: pair_start_checks_def cfg demo_start_body_def parseJsonBody_def parseTtlSeconds_def MAX_PAIRING_TICKET_TTL_SECONDS_def
        demo_profile_parses parseOptionalResponderAgentDid_def parseInternalServiceCredentials_def trim_noop is_ws_def demo_caller_def own
        del: bindE_eq_Inr throw_if_eq_Inr)
qed

lemma demo_issued:
  "pair_start_ticket demo_pair_config demo_fresh 4999 1 demo_origin = Inr (demo_ticket, demo_payload, demo_origin, ''X'')"
proof -
  have "trim ''X'' \<noteq> []" by (simp add: trim_noop is_ws_def)
  then have "createPairingTicketSigningKey demo_fresh = Some (Inr (''P'', demo_key, ''X''))"
    by (simp add: createPairingTicketSigningKey_def demo_fresh_def)
  moreover have "normalizeProxyOrigin demo_runtime demo_origin = Some demo_origin"
    by (simp add: normalizeProxyOrigin_def demo_runtime_def)
  ultimately show ?thesis
    using demo_created by (simp add: pair_start_ticket_def demo_pair_config_def demo_fresh_def del: bindE_eq_Inr)
qed

definition demo_offered :: memory_store where
  "demo_offered = createInMemoryProxyTrustStore\<lparr>pairingTickets := [(''K'', demo_offer)]\<rparr>"

definition demo_start_response :: http_response where
  "demo_start_response = pair_start_response \<lparr>cr_ticket = demo_ticket, cr_expiresAtMs = 5000, cr_initiatorAgentDid = demo_did CHR ''1'',
     cr_initiatorProfile = demo_profile, cr_issuerProxyUrl = demo_origin\<rparr>"

lemma demo_started:
  "createPairStartHandler demo_pair_config (memory_pairing_store demo_runtime 0 0) demo_fresh 4999 demo_origin (Some (demo_caller CHR ''1''))
     (Some demo_start_body) createInMemoryProxyTrustStore = (Inr demo_start_response, demo_offered)"
proof -
  have "parseStoredTicket demo_runtime demo_ticket = Inr demo_payload"
    using demo_parse by (simp add: parseStoredTicket_Inr)
  moreover have "normalizeExpiryToWholeSecond 5000 = 5000" by (simp add: normalizeExpiryToWholeSecond_def)
  moreover have "trim ''X'' = ''X''" by (simp add: trim_noop is_ws_def)
  ultimately have "memory_createPairingTicket demo_runtime 0
      (pair_start_input (demo_caller CHR ''1'') demo_profile None demo_ticket demo_payload demo_origin ''X'' 4999) createInMemoryProxyTrustStore =
      (Inr \<lparr>cr_ticket = demo_ticket, cr_expiresAtMs = 5000, cr_initiatorAgentDid = demo_did CHR ''1'', cr_initiatorProfile = demo_profile,
         cr_issuerProxyUrl = demo_origin\<rparr>, demo_offered)"
    by (simp add: memory_createPairingTicket_def pair_start_input_def demo_ticket_normal demo_fields Let_def demo_caller_def
        demo_offered_def demo_offer_def demo_stored_def cleanup_def alist_prune_def createInMemoryProxyTrustStore_def)
  then show ?thesis
    by (simp add: createPairStartHandler_def demo_checks demo_issued demo_start_response_def del: bindE_eq_Inr)
qed

lemma demo_start_ticket: "js_get (resp_body demo_start_response) ''ticket'' = JStr demo_ticket"
  unfolding demo_start_response_def pair_start_response_def http_response.sel by (subst js_get_wire) simp_all

lemma demo_fresh_ok: "fresh_ok demo_runtime demo_fresh" "ticket_json_ok demo_pair_config demo_fresh 4999 demo_origin demo_start_body"
proof -
  show "fresh_ok demo_runtime demo_fresh"
    using demo_laws(3) by (simp add: fresh_ok_def demo_fresh_def trim_noop is_ws_def)
  have "parseTtlSeconds (js_get demo_start_body ''ttlSeconds'') = Inr 1"
    by (simp add: demo_start_body_def parseTtlSeconds_def MAX_PAIRING_TICKET_TTL_SECONDS_def)
  then show "ticket_json_ok demo_pair_config demo_fresh 4999 demo_origin demo_start_body"
    using demo_issued unfolding ticket_json_ok_def by (auto simp: demo_pair_config_def demo_runtime_def)
qed

theorem started_ticket_is_bound_witness:
  "\<exists>a p d. Some (demo_caller CHR ''1'') = Some a \<and> ownership_confirmed demo_pair_config (au_ownerDid a) (au_agentDid a) \<and>
     started_for demo_pair_config 4999 a d \<and> parsePairingTicket (pc_runtime demo_pair_config) (st_ticket d) = Inr p \<and>
     map_of (pairingTickets demo_offered) (tk_kid p) = Some d \<and>
     js_get (resp_body demo_start_response) ''ticket'' = JStr (st_ticket d)"
proof (rule started_ticket_is_bound)
  have r: "pc_runtime demo_pair_config = demo_runtime" by (simp add: demo_pair_config_def)
  show "createPairStartHandler demo_pair_config (memory_pairing_store (pc_runtime demo_pair_config) 0 0) demo_fresh 4999 demo_origin
      (Some (demo_caller CHR ''1'')) (Some demo_start_body) createInMemoryProxyTrustStore = (Inr demo_start_response, demo_offered)"
    unfolding r by (rule demo_started)
  show "url_origin_law (pc_runtime demo_pair_config)" unfolding r by (rule demo_laws(2))
qed

text \<open>Between start and confirmation the initiator asks for the status.\<close>
definition demo_poll :: timed_call where
  "demo_poll = (0, 0, CallStatus \<lparr>si_ticket = demo_ticket, si_nowMs = Some 4999\<rparr>)"

theorem started_ticket_pairs_witness:
  "case createPairConfirmHandler demo_runtime (\<lambda>_. Some 4999) (memory_pairing_store demo_runtime 0 0) (Some True) 4999 4999
       (Some (demo_caller CHR ''2'')) (Some demo_confirm_body) (fold (memory_step demo_runtime) [demo_poll] demo_offered) of
     (reply, s2, sent) \<Rightarrow>
       \<exists>r. reply = Inr (pair_confirm_response r) \<and> fr_initiatorAgentDid r = au_agentDid (demo_caller CHR ''1'') \<and>
         fr_responderAgentDid r = au_agentDid (demo_caller CHR ''2'') \<and>
         memory_isPairAllowed s2 (au_agentDid (demo_caller CHR ''1'')) (au_agentDid (demo_caller CHR ''2'')) \<and>
         memory_isPairAllowed s2 (au_agentDid (demo_caller CHR ''2'')) (au_agentDid (demo_caller CHR ''1'')) \<and>
         sent = (if Some True = Some True then [json_wire (pair_event_js (accepted_event r 4999))] else []) \<and>
         parsePairAcceptedEvent demo_runtime (\<lambda>_. Some 4999) (json_wire (pair_event_js (accepted_event r 4999))) = Inr (accepted_event r 4999)"
proof (rule started_ticket_pairs [OF demo_started _ _ demo_laws(1,2) demo_fresh_ok demo_start_ticket demo_parse])
  show "demo_runtime = pc_runtime demo_pair_config" by (simp add: demo_pair_config_def)
  show "memory_wf createInMemoryProxyTrustStore" by (rule memory_wf_init)
  show "undisturbed demo_runtime (tk_kid demo_payload) (tk_exp demo_payload * 1000) [demo_poll] demo_offered"
    by (simp add: demo_poll_def demo_fields resolve_now_def)
  show "4999 < tk_exp demo_payload * 1000" by (simp add: demo_fields)
  show "js_get demo_confirm_body ''ticket'' = JStr demo_ticket" by (simp add: demo_confirm_body_def)
  show "may_respond demo_start_body (au_agentDid (demo_caller CHR ''2''))" by (simp add: may_respond_def demo_start_body_def)
  show "is_agent_did (ulids demo_runtime) (au_agentDid (demo_caller CHR ''2''))"
    using demo_agent_did(2) by (simp add: demo_caller_def demo_runtime_def)
  show "route_parsePeerProfile demo_runtime (js_get demo_confirm_body ''responderProfile'') ''responderProfile'' True =
      Inr (demo_profile\<lparr>proxyOrigin := Some demo_origin\<rparr>)"
    using demo_profile_parses(2) by (simp add: demo_confirm_body_def)
  show "iso_range 4999" by (simp add: iso_range_def)
  show "reads_date (\<lambda>_. Some 4999) 4999" by (simp add: reads_date_def)
qed

lemma demo_status_answer:
  "createPairStatusHandler (memory_pairing_store demo_runtime 0 0) 4999 (Some (demo_caller CHR ''1'')) (Some demo_confirm_body) demo_offered =
     (Inr (pair_status_response (StatusPending demo_offer)), demo_offered)"
proof -
  have "parseStoredTicket demo_runtime demo_ticket = Inr demo_payload"
    using demo_parse by (simp add: parseStoredTicket_Inr)
  moreover have "st_ticket demo_offer = demo_ticket" "st_expiresAtMs demo_offer = 5000" "st_initiatorAgentDid demo_offer = demo_did CHR ''1''"
    by (simp_all add: demo_offer_def demo_stored_def)
  ultimately have "resolveTicketStatus demo_runtime 0 \<lparr>si_ticket = demo_ticket, si_nowMs = Some 4999\<rparr> demo_offered = (Inr (StatusPending demo_offer), demo_offered)"
    by (simp add: resolveTicketStatus_def Let_def demo_ticket_normal resolve_now_def demo_fields demo_offered_def cleanup_def alist_prune_def
        createInMemoryProxyTrustStore_def)
  moreover have "required_ticket demo_confirm_body = Inr demo_ticket"
    using parsed_text_nonblank [OF demo_parse] by (simp add: required_ticket_def demo_confirm_body_def demo_ticket_normal)
  moreover have "parseJsonBody (Some demo_confirm_body) = Inr demo_confirm_body" by (simp add: parseJsonBody_def demo_confirm_body_def)
  ultimately show ?thesis
    using \<open>st_initiatorAgentDid demo_offer = demo_did CHR ''1''\<close>
    by (simp add: createPairStatusHandler_def demo_caller_def del: bindE_eq_Inr)
qed

theorem status_only_for_parties_witness:
  "pairKeys demo_offered = pairKeys demo_offered \<and>
    (\<exists>a body p st. Some (demo_caller CHR ''1'') = Some a \<and> Some demo_confirm_body = Some body \<and>
      pair_status_response (StatusPending demo_offer) = pair_status_response st \<and>
      parsePairingTicket demo_runtime (normalizePairingTicketText (normalizePairingTicketText (js_str (js_get body ''ticket'')))) = Inr p \<and>
      ((\<exists>d. st = StatusPending d \<and> map_of (pairingTickets demo_offered) (tk_kid p) = Some d \<and> st_initiatorAgentDid d = au_agentDid a) \<or>
       (\<exists>f. st = StatusConfirmed f \<and> map_of (confirmedPairingTickets demo_offered) (tk_kid p) = Some f \<and>
            au_agentDid a \<in> {cf_initiatorAgentDid f, cf_responderAgentDid f})))"
  by (rule status_only_for_parties [OF demo_status_answer]) (simp add: demo_offered_def memory_wf_def createInMemoryProxyTrustStore_def)

end
