(* ===== verification/Registry_Identity.thy ===== *)
theory Registry_Identity
  imports Agent_Groups Pairing_Route
begin

text \<open>
  The registry's answers to the proxy, from both ends: the client of \<open>Identity_Client\<close> asks, the routes of
  \<open>Registry_Accounts\<close> and \<open>Agent_Groups\<close> answer behind \<open>createServiceAuth\<close>, and an error becomes the response that
  \<open>packages/sdk/src/exceptions.ts\<close> makes of it. That a URL of the client reaches the registry is a hypothesis
  (\<open>membership_served\<close>, \<open>ownership_served\<close>); the database it finds there may be another one at every request.

  Shown: a message to a group passes the proxy exactly for active members of the group in the registry's database,
  and a pairing ticket is only ever started for an agent that the database says belongs to the caller's owner.
\<close>

section \<open>Responses (exceptions.ts)\<close>

definition error_envelope :: "string \<Rightarrow> string \<Rightarrow> string \<Rightarrow> jsval" where
  "error_envelope code message requestId =
     JObj [(''error'', JObj [(''code'', JStr code), (''message'', JStr message), (''requestId'', JStr requestId)])]"

text \<open>\<open>toErrorEnvelope\<close> without details; an exception that is no \<open>AppError\<close> is hidden.\<close>
fun toErrorEnvelope :: "string \<Rightarrow> route_error \<Rightarrow> nat \<times> jsval" where
  "toErrorEnvelope requestId (RouteError e) = (ae_status e, error_envelope (ae_code e) (ae_message e) requestId)"
| "toErrorEnvelope requestId _ = (500, error_envelope ''INTERNAL_SERVER_ERROR'' ''Internal Server Error'' requestId)"

text \<open>What the registry holds when a service asks.\<close>
record service_env =
  se_crypto :: http_crypto
  se_json :: json_lib
  se_ulids :: ulid_lib
  se_environment :: RuntimeEnvironment
  se_now :: string
  se_requestId :: string

definition service_endpoint ::
  "service_env \<Rightarrow> string list \<Rightarrow> (full_db \<Rightarrow> (route_error, jsval) result) \<Rightarrow> full_db \<Rightarrow> (string \<times> string) list \<Rightarrow> identity_answer" where
  "service_endpoint se scopes handler db headers =
     (let respond = (\<lambda>e. case toErrorEnvelope (se_requestId se) e of (status, body) \<Rightarrow> IdentityAnswer status body) in
      case createServiceAuth (se_crypto se) (se_json se) scopes (se_now se) (map_of headers INTERNAL_SERVICE_ID_HEADER)
             (map_of headers INTERNAL_SERVICE_SECRET_HEADER) db of
        Inl e \<Rightarrow> respond (RouteError e)
      | Inr (_, db') \<Rightarrow> (case handler db' of Inl e \<Rightarrow> respond e | Inr v \<Rightarrow> IdentityAnswer 200 v))"

definition membership_endpoint :: "service_env \<Rightarrow> full_db \<Rightarrow> (string \<times> string) list \<Rightarrow> jsval \<Rightarrow> identity_answer" where
  "membership_endpoint se db headers body =
     service_endpoint se [''groups.read''] (\<lambda>db'. routeE (membership_answer (se_ulids se) (se_environment se) db' (Some (json_wire body)))) db headers"

definition ownership_endpoint :: "service_env \<Rightarrow> full_db \<Rightarrow> (string \<times> string) list \<Rightarrow> jsval \<Rightarrow> identity_answer" where
  "ownership_endpoint se db headers body =
     service_endpoint se [''identity.read''] (\<lambda>db'. ownership_answer (se_ulids se) db' (Some (json_wire body))) db headers"

text \<open>Every error of these routes has a status that is no success.\<close>
lemma parseRequiredHeader_status: "parseRequiredHeader v l = Inl e \<Longrightarrow> 300 \<le> ae_status e"
  by (auto simp: parseRequiredHeader_def service_unauthorized_def Let_def)

lemma parseServiceSecret_status: "parseServiceSecret s = Inl e \<Longrightarrow> 300 \<le> ae_status e"
  by (auto simp: parseServiceSecret_def service_unauthorized_def)

lemma service_secret_status:
  "deriveInternalServiceSecretPrefix secret = Inl e \<Longrightarrow> 300 \<le> ae_status e" "hashInternalServiceSecret hcrypto secret = Inl e \<Longrightarrow> 300 \<le> ae_status e"
  by (auto simp: deriveInternalServiceSecretPrefix_def hashInternalServiceSecret_def service_unauthorized_def Let_def dest: parseServiceSecret_status)

lemma service_scopes_status:
  "parseInternalServiceScopesJson jl w = Inl e \<Longrightarrow> 300 \<le> ae_status e" "assertScopes ws vs = Inl e \<Longrightarrow> 300 \<le> ae_status e"
  by (auto simp: parseInternalServiceScopesJson_def assertScopes_def service_forbidden_def service_config_invalid_def
      split: option.splits jsval.splits)

lemma createServiceAuth_status:
  assumes "createServiceAuth hcrypto jl scopes now i s db = Inl e" shows "300 \<le> ae_status e"
proof -
  have u: "300 \<le> ae_status (service_unauthorized m)" for m by (simp add: service_unauthorized_def)
  show ?thesis
    using assms u unfolding createServiceAuth_def
    by (auto dest: parseRequiredHeader_status service_secret_status service_scopes_status split: option.split_asm)
qed

text \<open>A successful answer: the service was let in, and the handler gave it.\<close>
lemma service_endpoint_success:
  assumes "service_endpoint se scopes handler db headers = IdentityAnswer n v" "200 \<le> n" "n \<le> 299"
    and "\<And>db' e. handler db' = Inl (RouteError e) \<Longrightarrow> 300 \<le> ae_status e"
  shows "\<exists>svc db'. createServiceAuth (se_crypto se) (se_json se) scopes (se_now se) (map_of headers INTERNAL_SERVICE_ID_HEADER)
      (map_of headers INTERNAL_SERVICE_SECRET_HEADER) db = Inr (svc, db') \<and> handler db' = Inr v"
proof (cases "createServiceAuth (se_crypto se) (se_json se) scopes (se_now se) (map_of headers INTERNAL_SERVICE_ID_HEADER)
      (map_of headers INTERNAL_SERVICE_SECRET_HEADER) db")
  case (Inl e)
  then show ?thesis using assms(1-3) createServiceAuth_status[OF Inl] by (simp add: service_endpoint_def)
next
  case (Inr r)
  obtain svc db' where r: "r = (svc, db')" by (cases r)
  show ?thesis
  proof (cases "handler db'")
    case (Inl e)
    have "300 \<le> fst (toErrorEnvelope (se_requestId se) e)" using assms(4)[of db'] Inl by (cases e) auto
    then show ?thesis using assms(1-3) Inr r Inl by (auto simp: service_endpoint_def split: prod.splits)
  next
    case (Inr w)
    then show ?thesis using assms(1) r \<open>createServiceAuth _ _ _ _ _ _ _ = Inr r\<close> by (simp add: service_endpoint_def)
  qed
qed

text \<open>A service's last use is no part of what the handlers read.\<close>
lemma touch_service_frame [simp]:
  "fd_members (touch_service i t db) = fd_members db" "fd_core (touch_service i t db) = fd_core db" "fd_humans (touch_service i t db) = fd_humans db"
  by (simp_all add: touch_service_def)

lemma service_auth_frame:
  "createServiceAuth hcrypto jl scopes now i s db = Inr (svc, db') \<Longrightarrow>
   fd_members db' = fd_members db \<and> fd_core db' = fd_core db \<and> fd_humans db' = fd_humans db"
  by (auto dest: createServiceAuth_only)

lemma routeE_Inl [simp]: "routeE r = Inl e' \<longleftrightarrow> (\<exists>e. r = Inl e \<and> e' = RouteError e)"
  by (cases r) (auto simp: routeE_def)

section \<open>Membership\<close>

lemma json_wire_bodies [simp]:
  "json_wire (membership_body g d) = membership_body g d" "json_wire (ownership_body o' d) = ownership_body o' d"
  by (simp_all add: membership_body_def ownership_body_def)

lemma parseGroupIdPath_status: "parseGroupIdPath ul env p = Inl e \<Longrightarrow> 300 \<le> ae_status e"
  by (cases "parseGroupId ul (trim p)") (auto simp: parseGroupIdPath_def)

lemma membership_answer_status:
  assumes "membership_answer ul env db payload = Inl e" shows "300 \<le> ae_status e"
proof -
  have m: "300 \<le> ae_status membership_invalid" by (simp add: membership_invalid_def)
  show ?thesis
  proof (cases payload)
    case (Some body)
    show ?thesis using assms m Some
      by (cases "js_get body ''groupId''"; cases "js_get body ''memberAgentDid''")
        (auto simp: membership_answer_def of_option_def dest: parseGroupIdPath_status)
  qed (use assms m in \<open>simp add: membership_answer_def of_option_def\<close>)
qed

text \<open>The client's requests for memberships are answered by the registry, from a database of which \<open>D\<close> holds.\<close>
definition membership_served :: "(full_db \<Rightarrow> bool) \<Rightarrow> url_lib \<Rightarrow> identity_fetch \<Rightarrow> RegistryIdentityClientInput \<Rightarrow> ulid_lib \<Rightarrow> bool" where
  "membership_served D ul f client ulib \<longleftrightarrow>
     (\<forall>u body. new_URL ul (tl GROUP_MEMBERSHIP_CHECK_PATH) (Some (ic_registryUrl client)) = Some u \<longrightarrow>
        (\<exists>se db. D db \<and> se_ulids se = ulib \<and> f (u_href u) (credential_headers client) body = membership_endpoint se db (credential_headers client) body))"

lemma said_member:
  assumes "membership_served D ul f client ulib" "registry_said ul f client GROUP_MEMBERSHIP_CHECK_PATH (membership_body n d) a"
    and "js_get a ''isMember'' = JBool True" "parseGroupId ulib n = Inr n" "is_agent_did ulib d"
  shows "\<exists>db. D db \<and> active_member db n d"
proof -
  obtain u k where u: "new_URL ul (tl GROUP_MEMBERSHIP_CHECK_PATH) (Some (ic_registryUrl client)) = Some u"
    "f (u_href u) (credential_headers client) (membership_body n d) = IdentityAnswer k a" "200 \<le> k" "k \<le> 299"
    using assms(2) unfolding registry_said_def by blast
  then obtain se db where se: "D db" "se_ulids se = ulib" "membership_endpoint se db (credential_headers client) (membership_body n d) = IdentityAnswer k a"
    using assms(1) unfolding membership_served_def by metis
  obtain p where p: "parseAgentDid ulib d = Inr p" using assms(5) by (auto simp: is_agent_did_iff)
  have trims: "trim d = d" "trim n = n" using agent_did_chars(2)[OF p] parseGroupId_Inr[OF assms(4)] by simp_all
  obtain svc db' where c: "createServiceAuth (se_crypto se) (se_json se) [''groups.read''] (se_now se) (map_of (credential_headers client) INTERNAL_SERVICE_ID_HEADER)
      (map_of (credential_headers client) INTERNAL_SERVICE_SECRET_HEADER) db = Inr (svc, db')"
    "routeE (membership_answer ulib (se_environment se) db' (Some (membership_body n d))) = Inr a"
    using service_endpoint_success[OF se(3)[unfolded membership_endpoint_def] u(3,4)] membership_answer_status se(2)
    by (simp del: routeE_Inr) blast
  have "a = JObj [(''isMember'', JBool (active_member db' n d))]"
    using c(2) membership_answer_body[of ulib n n d p] p assms(4) trims by simp
  then have "active_member db' n d" using assms(3) by simp
  then show ?thesis using se(1) service_auth_frame[OF c(1)] by (auto simp: active_member_def)
qed


section \<open>Ownership\<close>

text \<open>The database lists the agent as active and as the property of the human with this DID.\<close>
definition owns_agent :: "full_db \<Rightarrow> string \<Rightarrow> string \<Rightarrow> bool" where
  "owns_agent db ownerDid agentDid \<longleftrightarrow> (\<exists>a \<in> set (db_agents (fd_core db)). \<exists>h \<in> set (fd_humans db).
     ar_owner_id a = hr_id h \<and> ar_did a = agentDid \<and> ar_status a = ''active'' \<and> hr_did h = ownerDid)"

lemma ownership_did_Inl: "ownership_did parse v = Inl e \<Longrightarrow> e = ownership_invalid"
  by (cases v) (auto simp: ownership_did_def)

lemma ownership_payload_Inl: "parseInternalOwnershipCheckPayload ul payload = Inl e \<Longrightarrow> e = ownership_invalid"
  by (auto simp: parseInternalOwnershipCheckPayload_def dest: ownership_did_Inl)

lemma ownership_answer_status:
  assumes "ownership_answer ul db payload = Inl (RouteError e)" shows "300 \<le> ae_status e"
proof -
  have m: "300 \<le> ae_status ownership_invalid" by (simp add: ownership_invalid_def)
  show ?thesis
  proof (cases payload)
    case (Some body)
    then show ?thesis using assms m ownership_payload_Inl
      by (cases "parseInternalOwnershipCheckPayload ul body") (auto simp: ownership_answer_def of_option_def Let_def)
  qed (use assms m in \<open>simp add: ownership_answer_def of_option_def\<close>)
qed

lemma ownership_did_trim: "ownership_did parse (JStr d) = Inr x \<Longrightarrow> x = trim d"
  by (auto simp: ownership_did_def)

lemma ownership_answer_true:
  assumes "ownership_answer ul db (Some (ownership_body o' d)) = Inr v"
    and "js_get v ''ownsAgent'' = JBool True" "js_get v ''agentStatus'' = JStr ''active''"
  shows "owns_agent db (trim o') (trim d)"
proof -
  let ?row = "find (\<lambda>(a, h). ar_did a = trim d) (inner_join (\<lambda>a h. ar_owner_id a = hr_id h) (db_agents (fd_core db)) (fd_humans db))"
  have p: "parseInternalOwnershipCheckPayload ul (ownership_body o' d) = Inr q \<Longrightarrow> q = (trim o', trim d)" for q
    by (auto simp: parseInternalOwnershipCheckPayload_def ownership_body_def dest: ownership_did_trim)
  have v: "v = JObj [(''ownsAgent'', JBool (case ?row of None \<Rightarrow> False | Some (a, h) \<Rightarrow> hr_did h = trim o')),
                (''agentStatus'', case ?row of None \<Rightarrow> JNull | Some (a, h) \<Rightarrow> JStr (ar_status a))]"
    using assms(1) p by (cases "parseInternalOwnershipCheckPayload ul (ownership_body o' d)") (auto simp: ownership_answer_def of_option_def Let_def)
  then obtain a h where row: "?row = Some (a, h)" "hr_did h = trim o'" "ar_status a = ''active''"
    using assms(2,3) by (cases ?row) auto
  show ?thesis using find_Some_in[OF row(1)] row(2,3) unfolding owns_agent_def by (intro bexI[of _ a] bexI[of _ h]) auto
qed

definition ownership_served :: "(full_db \<Rightarrow> bool) \<Rightarrow> url_lib \<Rightarrow> identity_fetch \<Rightarrow> ulid_lib \<Rightarrow> bool" where
  "ownership_served D ul f ulib \<longleftrightarrow>
     (\<forall>client u body. new_URL ul (tl INTERNAL_IDENTITY_AGENT_OWNERSHIP_PATH) (Some (ic_registryUrl client)) = Some u \<longrightarrow>
        (\<exists>se db. D db \<and> se_ulids se = ulib \<and> f (u_href u) (credential_headers client) body = ownership_endpoint se db (credential_headers client) body))"

lemma said_owner:
  assumes "ownership_served D ul f ulib" "registry_said ul f client INTERNAL_IDENTITY_AGENT_OWNERSHIP_PATH (ownership_body o' d) v"
    and "js_get v ''ownsAgent'' = JBool True" "js_get v ''agentStatus'' = JStr ''active''"
  shows "\<exists>db. D db \<and> owns_agent db (trim o') (trim d)"
proof -
  obtain u k where u: "new_URL ul (tl INTERNAL_IDENTITY_AGENT_OWNERSHIP_PATH) (Some (ic_registryUrl client)) = Some u"
    "f (u_href u) (credential_headers client) (ownership_body o' d) = IdentityAnswer k v" "200 \<le> k" "k \<le> 299"
    using assms(2) unfolding registry_said_def by blast
  then obtain se db where se: "D db" "se_ulids se = ulib" "ownership_endpoint se db (credential_headers client) (ownership_body o' d) = IdentityAnswer k v"
    using assms(1) unfolding ownership_served_def by metis
  obtain svc db' where c: "createServiceAuth (se_crypto se) (se_json se) [''identity.read''] (se_now se) (map_of (credential_headers client) INTERNAL_SERVICE_ID_HEADER)
      (map_of (credential_headers client) INTERNAL_SERVICE_SECRET_HEADER) db = Inr (svc, db')" "ownership_answer ulib db' (Some (ownership_body o' d)) = Inr v"
    using service_endpoint_success[OF se(3)[unfolded ownership_endpoint_def] u(3,4)] ownership_answer_status se(2) by simp blast
  have "owns_agent db' (trim o') (trim d)" by (rule ownership_answer_true[OF c(2) assms(3,4)])
  then show ?thesis using se(1) service_auth_frame[OF c(1)] by (auto simp: owns_agent_def)
qed

text \<open>
  (C14) Pairing starts with an agent the caller's owner has. When the proxy's question is answered by the registry,
  every ticket that is started names an agent which the registry's database lists as active and as owned by the
  human in whose name the caller was authenticated.
\<close>
theorem started_ticket_is_owned:
  assumes "createPairStartHandler cfg (memory_pairing_store (pc_runtime cfg) c c') v now url auth raw s = (Inr resp, s')"
    and "url_origin_law (pc_runtime cfg)" and "ownership_served D (pc_urls cfg) (pc_fetch cfg) ulib"
  shows "\<exists>a p d db. auth = Some a \<and> parsePairingTicket (pc_runtime cfg) (st_ticket d) = Inr p \<and> map_of (pairingTickets s') (tk_kid p) = Some d \<and>
    D db \<and> owns_agent db (trim (au_ownerDid a)) (st_initiatorAgentDid d)"
proof -
  obtain a p d where a: "auth = Some a" "ownership_confirmed cfg (au_ownerDid a) (au_agentDid a)" "started_for cfg now a d"
    "parsePairingTicket (pc_runtime cfg) (st_ticket d) = Inr p" "map_of (pairingTickets s') (tk_kid p) = Some d"
    "is_agent_did (ulids (pc_runtime cfg)) (au_agentDid a)"
    by (rule started_stored[OF assms(1,2)])
  from a(2) obtain client answer where "registry_said (pc_urls cfg) (pc_fetch cfg) client INTERNAL_IDENTITY_AGENT_OWNERSHIP_PATH
      (ownership_body (au_ownerDid a) (au_agentDid a)) answer" "js_get answer ''ownsAgent'' = JBool True" "js_get answer ''agentStatus'' = JStr ''active''"
    unfolding ownership_confirmed_def by blast
  then obtain db where db: "D db" "owns_agent db (trim (au_ownerDid a)) (trim (au_agentDid a))" using said_owner[OF assms(3)] by blast
  have "trim (au_agentDid a) = st_initiatorAgentDid d" using a(3,6) agent_did_chars(2) by (auto simp: started_for_def is_agent_did_iff)
  then show ?thesis using a(1,4,5) db by metis
qed

section \<open>A concrete registry\<close>

definition demo_secret :: string where "demo_secret = ''clw_srv_s''"

definition demo_service_env :: service_env where
  "demo_service_env = \<lparr>se_crypto = demo_plain_crypto,
     se_json = \<lparr>json_parse = (\<lambda>_. Some (scopes_value [''identity.read'', ''groups.read''])), json_text = (\<lambda>_. ''s'')\<rparr>,
     se_ulids = demo_ulids, se_environment = EnvLocal, se_now = ''t'', se_requestId = ''q''\<rparr>"

definition demo_site :: full_db where
  "demo_site = demo_full_db\<lparr>
     fd_core := demo_db\<lparr>db_agents := [(demo_agent ''a'' ''j'')\<lparr>ar_did := demo_did CHR ''1''\<rparr>, (demo_agent ''b'' ''j'')\<lparr>ar_did := demo_did CHR ''2''\<rparr>]\<rparr>,
     fd_humans := [demo_human_row\<lparr>hr_did := ''did:cdi:a.b:human:00000000000000000000000001''\<rparr>],
     fd_members := [joined_row (demo_joining ''1'' ''a''), joined_row (demo_joining ''1'' ''b'')],
     fd_services := [demo_service\<lparr>vr_id := ''i'', vr_secret_hash := projr (hashInternalServiceSecret demo_plain_crypto demo_secret), vr_secret_prefix := demo_secret\<rparr>]\<rparr>"

definition demo_client :: RegistryIdentityClientInput where
  "demo_client = \<lparr>ic_registryUrl = ''https://r/'', ic_serviceId = ''i'', ic_serviceSecret = demo_secret\<rparr>"

definition demo_membership_fetch :: identity_fetch where
  "demo_membership_fetch u headers body = membership_endpoint demo_service_env demo_site headers body"

lemma demo_group_guard:
  "createRegistryGroupTrustAuthorizer demo_ulids (checkGroupMembership demo_ulids (pc_urls demo_pair_config) demo_membership_fetch demo_client) True
     demo_group_id (demo_did CHR ''1'') (demo_did CHR ''2'') = Inr ()"
  by code_simp


definition demo_site_config :: pair_config where
  "demo_site_config = demo_pair_config\<lparr>pc_fetch := (\<lambda>u headers body. ownership_endpoint demo_service_env demo_site headers body),
     pc_serviceSecret := Some demo_secret\<rparr>"

lemma demo_site_started:
  "createPairStartHandler demo_site_config (memory_pairing_store (pc_runtime demo_site_config) 0 0) demo_fresh 4999 demo_origin
     (Some (demo_caller CHR ''1'')) (Some demo_start_body) createInMemoryProxyTrustStore = (Inr demo_start_response, demo_offered)"
proof -
  have own: "assertCallerOwnsInitiatorAgent demo_ulids (pc_urls demo_site_config) (pc_fetch demo_site_config)
      \<lparr>ic_registryUrl = ''https://r'', ic_serviceId = ''i'', ic_serviceSecret = demo_secret\<rparr>
      ''did:cdi:a.b:human:00000000000000000000000001'' (demo_did CHR ''1'') = Inr ()" by code_simp
  have cfg: "pc_runtime demo_site_config = demo_runtime" "ulids demo_runtime = demo_ulids" "pc_registryUrl demo_site_config = ''https://r''"
    "pc_serviceId demo_site_config = Some ''i''" "pc_serviceSecret demo_site_config = Some demo_secret"
    by (simp_all add: demo_site_config_def demo_pair_config_def demo_runtime_def)
  have "trim demo_secret = demo_secret" "demo_secret \<noteq> []" by (simp_all add: demo_secret_def trim_noop is_ws_def)
  then have chk: "pair_start_checks demo_site_config (Some (demo_caller CHR ''1'')) (Some demo_start_body) = Inr (demo_caller CHR ''1'', 1, demo_profile, None)"
    by (simp add: pair_start_checks_def cfg demo_start_body_def parseJsonBody_def parseTtlSeconds_def MAX_PAIRING_TICKET_TTL_SECONDS_def
        demo_profile_parses parseOptionalResponderAgentDid_def parseInternalServiceCredentials_def trim_noop is_ws_def demo_caller_def own
        del: bindE_eq_Inr throw_if_eq_Inr)
  have "pc_runtime demo_site_config = pc_runtime demo_pair_config" by (simp add: demo_site_config_def)
  then have tk: "pair_start_ticket demo_site_config = pair_start_ticket demo_pair_config"
    by (intro ext) (simp only: pair_start_ticket_def)
  have "createPairStartHandler demo_site_config st demo_fresh 4999 demo_origin (Some (demo_caller CHR ''1'')) (Some demo_start_body) =
      createPairStartHandler demo_pair_config st demo_fresh 4999 demo_origin (Some (demo_caller CHR ''1'')) (Some demo_start_body)"
    for st :: "memory_store pairing_store"
    by (intro ext) (simp only: createPairStartHandler_def chk tk demo_checks)
  then show ?thesis using demo_started cfg(1) by simp
qed

theorem started_ticket_is_owned_witness:
  "\<exists>a p d. Some (demo_caller CHR ''1'') = Some a \<and> parsePairingTicket demo_runtime (st_ticket d) = Inr p \<and> map_of (pairingTickets demo_offered) (tk_kid p) = Some d \<and>
     owns_agent demo_site (trim (au_ownerDid a)) (st_initiatorAgentDid d)"
proof -
  have r: "pc_runtime demo_site_config = demo_runtime" by (simp add: demo_site_config_def demo_pair_config_def)
  have "ownership_served (\<lambda>db. db = demo_site) (pc_urls demo_site_config) (pc_fetch demo_site_config) demo_ulids"
    unfolding ownership_served_def
    by (intro allI impI exI[of _ demo_service_env] exI[of _ demo_site]) (simp add: demo_service_env_def demo_site_config_def)
  from started_ticket_is_owned[OF demo_site_started _ this] show ?thesis using demo_laws(2) r by auto
qed

end
