(* ===== verification/Onboarding.thy ===== *)
theory Onboarding
  imports Registry_Accounts
begin

text \<open>
  How an account comes about at the registry: by redeeming an invite (\<open>invite-lifecycle.ts\<close>, \<open>routes/invites.ts\<close>, the
  queries of \<open>helpers/db-queries.ts\<close>), and the first administrator (\<open>admin-bootstrap.ts\<close>, \<open>routes/admin.ts\<close>).

  Both hand out something once: it is claimed by a conditional statement, then the account is completed, and where the
  database has no transactions a failure gives the claim back. Requests overlap statement by statement in the step
  relation \<open>claim_step\<close>; the argument that a claim is completed at most once is made in the locale \<open>exclusive_claim\<close>
  and interpreted for invites and for the bootstrap.

  Shown: an invite creates at most one account and the bootstrap at most one administrator, however requests overlap.
\<close>

section \<open>Things handed out once\<close>

text \<open>Requests that hold a claim, and requests that have completed.\<close>
record ('d, 'p) claims =
  cl_db :: 'd
  cl_held :: "'p list"
  cl_done :: "'p list"

text \<open>
  A request claims, and then completes, gives the claim back, or is abandoned (the giving back has failed). In
  between come the steps of everyone else (\<open>quiet\<close>).
\<close>
inductive claim_step ::
  "('p \<Rightarrow> 'd \<Rightarrow> 'd option) \<Rightarrow> ('p \<Rightarrow> 'd \<Rightarrow> 'd) \<Rightarrow> ('p \<Rightarrow> 'd \<Rightarrow> 'd) \<Rightarrow> ('d \<Rightarrow> 'd \<Rightarrow> bool) \<Rightarrow> ('d, 'p) claims \<Rightarrow> ('d, 'p) claims \<Rightarrow> bool"
  for claim finish release quiet where
  claim: "claim p (cl_db s) = Some d' \<Longrightarrow> claim_step claim finish release quiet s (s\<lparr>cl_db := d', cl_held := p # cl_held s\<rparr>)"
| finish: "p \<in> set (cl_held s) \<Longrightarrow> claim_step claim finish release quiet s
     (s\<lparr>cl_db := finish p (cl_db s), cl_held := remove1 p (cl_held s), cl_done := p # cl_done s\<rparr>)"
| release: "p \<in> set (cl_held s) \<Longrightarrow> claim_step claim finish release quiet s
     (s\<lparr>cl_db := release p (cl_db s), cl_held := remove1 p (cl_held s)\<rparr>)"
| abandon: "p \<in> set (cl_held s) \<Longrightarrow> claim_step claim finish release quiet s (s\<lparr>cl_held := remove1 p (cl_held s)\<rparr>)"
| quiet: "quiet (cl_db s) d' \<Longrightarrow> claim_step claim finish release quiet s (s\<lparr>cl_db := d'\<rparr>)"

text \<open>
  The contract: a claim finds its thing free and leaves it taken, and nothing else but giving this very thing back
  makes it free again.
\<close>
locale exclusive_claim =
  fixes thing :: "'p \<Rightarrow> 'i" and taken :: "'d \<Rightarrow> 'i \<Rightarrow> bool"
    and claim :: "'p \<Rightarrow> 'd \<Rightarrow> 'd option" and finish :: "'p \<Rightarrow> 'd \<Rightarrow> 'd" and release :: "'p \<Rightarrow> 'd \<Rightarrow> 'd" and quiet :: "'d \<Rightarrow> 'd \<Rightarrow> bool"
  assumes claim_takes: "claim p d = Some d' \<Longrightarrow> \<not> taken d (thing p) \<and> taken d' (thing p)"
    and claim_keeps: "claim p d = Some d' \<Longrightarrow> taken d i \<Longrightarrow> taken d' i"
    and finish_keeps: "taken d i \<Longrightarrow> taken (finish p d) i"
    and release_keeps: "taken d i \<Longrightarrow> i \<noteq> thing p \<Longrightarrow> taken (release p d) i"
    and quiet_keeps: "quiet d d' \<Longrightarrow> taken d i \<Longrightarrow> taken d' i"
begin

definition holding :: "('d, 'p) claims \<Rightarrow> 'i \<Rightarrow> 'p list" where
  "holding s i = filter (\<lambda>p. thing p = i) (cl_held s @ cl_done s)"

definition once :: "('d, 'p) claims \<Rightarrow> bool" where
  "once s \<longleftrightarrow> (\<forall>i. length (holding s i) \<le> 1 \<and> (holding s i \<noteq> [] \<longrightarrow> taken (cl_db s) i))"

lemma length_filter_remove1: "p \<in> set xs \<Longrightarrow> length (filter P (remove1 p xs)) = length (filter P xs) - (if P p then 1 else 0)"
  by (simp add: filter_remove1 length_remove1)

lemma count_holding: "length (holding s i) = length (filter (\<lambda>p. thing p = i) (cl_held s)) + length (filter (\<lambda>p. thing p = i) (cl_done s))"
  by (simp add: holding_def)

lemma held_counted: "p \<in> set (cl_held s) \<Longrightarrow> 1 \<le> length (filter (\<lambda>q. thing q = thing p) (cl_held s))"
  by (simp add: Suc_le_eq filter_empty_conv) blast

text \<open>Dropping a request that holds a claim frees at most its own thing.\<close>
lemma once_drop:
  assumes "once s" "p \<in> set (cl_held s)" "\<And>i. i \<noteq> thing p \<Longrightarrow> taken (cl_db s) i \<Longrightarrow> taken d' i"
  shows "once (s\<lparr>cl_db := d', cl_held := remove1 p (cl_held s)\<rparr>)"
proof -
  let ?s = "s\<lparr>cl_db := d', cl_held := remove1 p (cl_held s)\<rparr>"
  have len: "length (holding ?s i) = length (holding s i) - (if thing p = i then 1 else 0)" for i
    using assms(2) held_counted[OF assms(2)] by (auto simp: count_holding length_filter_remove1)
  show ?thesis unfolding once_def
  proof
    fix i
    have o: "length (holding s i) \<le> 1" "holding s i \<noteq> [] \<longrightarrow> taken (cl_db s) i" using assms(1) by (simp_all add: once_def)
    show "length (holding ?s i) \<le> 1 \<and> (holding ?s i \<noteq> [] \<longrightarrow> taken (cl_db ?s) i)"
    proof (cases "thing p = i")
      case True
      then have "length (holding ?s i) = 0" using len[of i] o(1) by simp
      then show ?thesis by simp
    next
      case False
      then have "length (holding ?s i) = length (holding s i)" using len[of i] by simp
      then show ?thesis using o assms(3)[of i] False by (metis length_0_conv select_convs(1) surjective update_convs(1) update_convs(2))
    qed
  qed
qed

lemma once_step:
  assumes "claim_step claim finish release quiet s s'" "once s" shows "once s'"
  using assms(1)
proof cases
  case (claim p d')
  have "holding s (thing p) = []" using assms(2) claim_takes[OF claim(2)] by (auto simp: once_def)
  then show ?thesis using assms(2) claim_takes[OF claim(2)] claim_keeps[OF claim(2)] claim(1)
    by (auto simp: once_def holding_def)
next
  case (finish p)
  have "length (holding s' i) = length (holding s i)" for i
    using held_counted[OF finish(2)] finish by (auto simp: count_holding length_filter_remove1)
  moreover have "taken (cl_db s) i \<Longrightarrow> taken (cl_db s') i" for i using finish(1) finish_keeps by simp
  ultimately show ?thesis using assms(2) unfolding once_def by (metis length_0_conv)
next
  case (release p)
  show ?thesis unfolding release(1) by (rule once_drop[OF assms(2) release(2)]) (simp add: release_keeps)
next
  case (abandon p)
  have "once (s\<lparr>cl_db := cl_db s, cl_held := remove1 p (cl_held s)\<rparr>)" by (rule once_drop[OF assms(2) abandon(2)])
  then show ?thesis using abandon(1) by simp
next
  case (quiet d')
  then show ?thesis using assms(2) quiet_keeps by (auto simp: once_def holding_def)
qed

lemma done_at_most_once:
  assumes "(claim_step claim finish release quiet)\<^sup>*\<^sup>* s0 s" "cl_held s0 = []" "cl_done s0 = []"
  shows "length (filter (\<lambda>p. thing p = i) (cl_done s)) \<le> 1"
proof -
  have "once s0" using assms(2,3) by (simp add: once_def holding_def)
  with assms(1) have "once s" by (induction rule: rtranclp_induct) (auto intro: once_step)
  then have "length (holding s i) \<le> 1" by (simp add: once_def)
  then show ?thesis by (simp add: count_holding)
qed

lemma done_is_taken:
  assumes "(claim_step claim finish release quiet)\<^sup>*\<^sup>* s0 s" "cl_held s0 = []" "cl_done s0 = []" "p \<in> set (cl_done s)"
  shows "taken (cl_db s) (thing p)"
proof -
  have "once s0" using assms(2,3) by (simp add: once_def holding_def)
  with assms(1) have "once s" by (induction rule: rtranclp_induct) (auto intro: once_step)
  moreover have "holding s (thing p) \<noteq> []" using assms(4) by (auto simp: holding_def filter_empty_conv)
  ultimately show ?thesis by (simp add: once_def)
qed

end

section \<open>Invites (invite-lifecycle.ts)\<close>

definition DEFAULT_INVITE_REDEEM_DISPLAY_NAME :: string where "DEFAULT_INVITE_REDEEM_DISPLAY_NAME = ''User''"
definition DEFAULT_INVITE_REDEEM_API_KEY_NAME :: string where "DEFAULT_INVITE_REDEEM_API_KEY_NAME = ''invite''"
definition MAX_DISPLAY_NAME_LENGTH :: nat where "MAX_DISPLAY_NAME_LENGTH = 64"
definition MAX_INVITE_CODE_LENGTH :: nat where "MAX_INVITE_CODE_LENGTH = 128"
definition INVITE_CODE_PREFIX :: string where "INVITE_CODE_PREFIX = ''clw_inv_''"

text \<open>The parsed body of a redemption, of invites and starter passes alike.\<close>
record RedeemPayload =
  rp_code :: string
  rp_displayName :: string
  rp_apiKeyName :: string

definition inviteCreateInvalidError :: "RuntimeEnvironment \<Rightarrow> app_error" where
  "inviteCreateInvalidError env = AppError ''INVITE_CREATE_INVALID'' (hidden env ''Invite create payload is invalid'') 400"

definition inviteRedeemInvalidError :: "RuntimeEnvironment \<Rightarrow> app_error" where
  "inviteRedeemInvalidError env = AppError ''INVITE_REDEEM_INVALID'' (hidden env ''Invite redeem payload is invalid'') 400"

text \<open>The expiry of a new invite, \<open>None\<close> for \<open>null\<close>.\<close>
definition parseInviteCreatePayload :: "(string \<Rightarrow> ms option) \<Rightarrow> RuntimeEnvironment \<Rightarrow> ms \<Rightarrow> jsval \<Rightarrow> (app_error, string option) result" where
  "parseInviteCreatePayload date_parse env nowMs payload =
     throw_if (\<not> is_plain_object payload) (inviteCreateInvalidError env)
     (case js_get payload ''expiresAt'' of
        JUndefined \<Rightarrow> Inr None
      | JNull \<Rightarrow> Inr None
      | JStr s \<Rightarrow>
          throw_if (length (trim s) = 0) (inviteCreateInvalidError env)
          (case date_parse (trim s) of
             None \<Rightarrow> Inl (inviteCreateInvalidError env)
           | Some expiresAtMillis \<Rightarrow> throw_if (expiresAtMillis \<le> nowMs) (inviteCreateInvalidError env) (Inr (Some (toIso expiresAtMillis))))
      | _ \<Rightarrow> Inl (inviteCreateInvalidError env))"

definition parseInviteRedeemPayload :: "RuntimeEnvironment \<Rightarrow> jsval \<Rightarrow> (app_error, RedeemPayload) result" where
  "parseInviteRedeemPayload env payload =
     throw_if (\<not> is_plain_object payload) (inviteRedeemInvalidError env)
     (let code = (case js_get payload ''code'' of JStr s \<Rightarrow> trim s | _ \<Rightarrow> []) in
      case (optional_name DEFAULT_INVITE_REDEEM_DISPLAY_NAME MAX_DISPLAY_NAME_LENGTH (js_get payload ''displayName''),
            optional_name DEFAULT_INVITE_REDEEM_API_KEY_NAME MAX_API_KEY_NAME_LENGTH (js_get payload ''apiKeyName'')) of
        (Some displayName, Some apiKeyName) \<Rightarrow>
          throw_if (length code = 0 \<or> length code > MAX_INVITE_CODE_LENGTH) (inviteRedeemInvalidError env)
            (Inr \<lparr>rp_code = code, rp_displayName = displayName, rp_apiKeyName = apiKeyName\<rparr>)
      | _ \<Rightarrow> Inl (inviteRedeemInvalidError env))"

definition generateInviteCode :: "runtime \<Rightarrow> bytes \<Rightarrow> string" where
  "generateInviteCode R randomBytes = INVITE_CODE_PREFIX @ encodeBase64url R randomBytes"

definition inviteCreateForbiddenError :: app_error where
  "inviteCreateForbiddenError = AppError ''INVITE_CREATE_FORBIDDEN'' ''Admin role is required'' 403"

definition inviteRedeemCodeInvalidError :: app_error where
  "inviteRedeemCodeInvalidError = AppError ''INVITE_REDEEM_CODE_INVALID'' ''Invite code is invalid'' 400"

definition inviteRedeemExpiredError :: app_error where
  "inviteRedeemExpiredError = AppError ''INVITE_REDEEM_EXPIRED'' ''Invite code has expired'' 400"

definition inviteRedeemAlreadyUsedError :: app_error where
  "inviteRedeemAlreadyUsedError = AppError ''INVITE_REDEEM_ALREADY_USED'' ''Invite code has already been redeemed'' 409"

section \<open>Redeeming an invite (invites.ts, db-queries.ts)\<close>

definition findInviteByCode :: "full_db \<Rightarrow> string \<Rightarrow> invite_row option" where
  "findInviteByCode db code = find (\<lambda>r. iv_code r = code) (fd_invites db)"

definition findInviteById :: "full_db \<Rightarrow> string \<Rightarrow> invite_row option" where
  "findInviteById db i = find (\<lambda>r. iv_id r = i) (fd_invites db)"

definition isInviteExpired :: "(string \<Rightarrow> ms option) \<Rightarrow> string option \<Rightarrow> ms \<Rightarrow> bool" where
  "isInviteExpired date_parse expiresAt nowMillis =
     (case expiresAt of None \<Rightarrow> False | Some e \<Rightarrow> (case date_parse e of None \<Rightarrow> True | Some expiresAtMillis \<Rightarrow> expiresAtMillis \<le> nowMillis))"

definition resolveInviteRedeemStateError :: "(string \<Rightarrow> ms option) \<Rightarrow> full_db \<Rightarrow> string \<Rightarrow> ms \<Rightarrow> app_error" where
  "resolveInviteRedeemStateError date_parse db inviteId nowMillis =
     (case findInviteById db inviteId of
        None \<Rightarrow> inviteRedeemCodeInvalidError
      | Some latestInvite \<Rightarrow>
          if iv_redeemed_by latestInvite \<noteq> None then inviteRedeemAlreadyUsedError
          else if isInviteExpired date_parse (iv_expires_at latestInvite) nowMillis then inviteRedeemExpiredError
          else inviteRedeemCodeInvalidError)"

text \<open>What a request that creates an account draws at random and reads from the clock.\<close>
record account_moment =
  am_nowMs :: ms
  am_humanId :: string
  am_apiKeyId :: string
  am_bytes :: bytes
  am_createdAt :: string

definition create_invite_route ::
  "claw_env \<Rightarrow> ms \<Rightarrow> string \<Rightarrow> bytes \<Rightarrow> string \<Rightarrow> AuthenticatedHuman \<Rightarrow> jsval option \<Rightarrow> full_db \<Rightarrow> (app_error, invite_row \<times> full_db) result" where
  "create_invite_route ce nowMs inviteId randomBytes createdAt hum payload db =
     (case payload of
        None \<Rightarrow> Inl (AppError ''INVITE_CREATE_INVALID'' (hidden (ce_environment ce) ''Request body must be valid JSON'') 400)
      | Some body \<Rightarrow>
          throw_if (ah_role hum \<noteq> ''admin'') inviteCreateForbiddenError
          (bindE (parseInviteCreatePayload (ce_date_parse ce) (ce_environment ce) nowMs body) (\<lambda>expiresAt.
           let invite = \<lparr>iv_id = inviteId, iv_code = generateInviteCode (ce_runtime ce) randomBytes, iv_created_by = ah_id hum,
                 iv_redeemed_by = None, iv_agent_id = None, iv_expires_at = expiresAt, iv_created_at = createdAt\<rparr>
           in Inr (invite, db\<lparr>fd_invites := fd_invites db @ [invite]\<rparr>))))"

text \<open>The DID of a new human.\<close>
definition new_human_did :: "claw_env \<Rightarrow> proxy_request \<Rightarrow> string \<Rightarrow> (route_error, string) result" where
  "new_human_did ce rq humanId =
     bindE (of_option RouteForeign (resolvePublicRegistryIssuer ce rq)) (\<lambda>issuer.
     bindE (of_option RouteForeign (resolveDidAuthorityFromIssuer (ce_urls ce) issuer)) (\<lambda>didAuthority.
     catchE (makeHumanDid (ulids (ce_runtime ce)) didAuthority humanId) RouteForeign))"

definition new_human_row :: "string \<Rightarrow> string \<Rightarrow> string \<Rightarrow> string \<Rightarrow> string \<Rightarrow> real option \<Rightarrow> string \<Rightarrow> human_row" where
  "new_human_row humanId did displayName role source agentLimit createdAt =
     \<lparr>hr_id = humanId, hr_did = did, hr_display_name = displayName, hr_role = role, hr_status = ''active'',
      hr_onboarding_source = Some source, hr_agent_limit = agentLimit, hr_created_at = createdAt, hr_updated_at = createdAt\<rparr>"

text \<open>What a redemption holds once its reads are done: the invite or pass, the rows to insert, and its times.\<close>
record redeeming =
  rd_id :: string
  rd_human :: human_row
  rd_key :: api_key_row
  rd_nowMs :: ms
  rd_redeemedAt :: string

definition redeem_invite_read :: "claw_env \<Rightarrow> account_moment \<Rightarrow> proxy_request \<Rightarrow> jsval option \<Rightarrow> full_db \<Rightarrow> (route_error, redeeming) result" where
  "redeem_invite_read ce am rq payload db =
     bindE (of_option (RouteError (AppError ''INVITE_REDEEM_INVALID'' (hidden (ce_environment ce) ''Request body must be valid JSON'') 400)) payload) (\<lambda>body.
     bindE (map_sum RouteError id (parseInviteRedeemPayload (ce_environment ce) body)) (\<lambda>parsed.
     case findInviteByCode db (rp_code parsed) of
       None \<Rightarrow> Inl (RouteError inviteRedeemCodeInvalidError)
     | Some invite \<Rightarrow>
         throw_if (iv_redeemed_by invite \<noteq> None) (RouteError inviteRedeemAlreadyUsedError)
         (throw_if (isInviteExpired (ce_date_parse ce) (iv_expires_at invite) (am_nowMs am)) (RouteError inviteRedeemExpiredError)
         (bindE (new_human_did ce rq (am_humanId am)) (\<lambda>humanDid.
          Inr \<lparr>rd_id = iv_id invite,
               rd_human = new_human_row (am_humanId am) humanDid (rp_displayName parsed) ''user'' ''invite'' None (am_createdAt am),
               rd_key = new_api_key (ce_runtime ce) (ce_crypto ce) (am_apiKeyId am) (am_humanId am) (rp_apiKeyName parsed) (am_bytes am) (am_createdAt am),
               rd_nowMs = am_nowMs am, rd_redeemedAt = am_createdAt am\<rparr>)))))"

text \<open>The statements of the mutation and of its undoing.\<close>
definition insert_human :: "redeeming \<Rightarrow> full_db \<Rightarrow> full_db" where
  "insert_human rd db = db\<lparr>fd_humans := fd_humans db @ [rd_human rd]\<rparr>"

definition claim_invite :: "redeeming \<Rightarrow> full_db \<Rightarrow> full_db option" where
  "claim_invite rd db =
     (case sql_update (\<lambda>r. iv_id r = rd_id rd \<and> iv_redeemed_by r = None) (\<lambda>r. r\<lparr>iv_redeemed_by := Some (hr_id (rd_human rd))\<rparr>) (fd_invites db) of
        (updatedRows, rows) \<Rightarrow> if updatedRows = 0 then None else Some (db\<lparr>fd_invites := rows\<rparr>))"

definition insert_key :: "redeeming \<Rightarrow> full_db \<Rightarrow> full_db" where
  "insert_key rd db = db\<lparr>fd_api_keys := fd_api_keys db @ [rd_key rd]\<rparr>"

definition unlink_invite :: "redeeming \<Rightarrow> full_db \<Rightarrow> full_db" where
  "unlink_invite rd db = db\<lparr>fd_invites := snd (sql_update (\<lambda>r. iv_id r = rd_id rd \<and> iv_redeemed_by r = Some (hr_id (rd_human rd)))
     (\<lambda>r. r\<lparr>iv_redeemed_by := None\<rparr>) (fd_invites db))\<rparr>"

definition delete_human :: "redeeming \<Rightarrow> full_db \<Rightarrow> full_db" where
  "delete_human rd db = db\<lparr>fd_humans := sql_delete (\<lambda>h. hr_id h = hr_id (rd_human rd)) (fd_humans db)\<rparr>"

text \<open>\<open>key_fails\<close>: the database refuses the API key.\<close>
definition invite_applyRedeemMutation ::
  "(string \<Rightarrow> ms option) \<Rightarrow> bool \<Rightarrow> bool \<Rightarrow> redeeming \<Rightarrow> full_db \<Rightarrow> (mutation_error, unit) result \<times> full_db" where
  "invite_applyRedeemMutation date_parse rollbackOnFailure key_fails rd db =
     (let db1 = insert_human rd db in
      case claim_invite rd db1 of
        None \<Rightarrow> (Inl (Refused_by (resolveInviteRedeemStateError date_parse db1 (rd_id rd) (rd_nowMs rd))),
                 if rollbackOnFailure then delete_human rd db1 else db1)
      | Some db2 \<Rightarrow>
          if key_fails then (Inl DbFailure, if rollbackOnFailure then delete_human rd (unlink_invite rd db2) else db2)
          else (Inr (), insert_key rd db2))"

text \<open>In a transaction, and without one.\<close>
definition redeem_invite_tx :: "(string \<Rightarrow> ms option) \<Rightarrow> bool \<Rightarrow> redeeming \<Rightarrow> full_db \<Rightarrow> (mutation_error, unit) result \<times> full_db" where
  "redeem_invite_tx date_parse key_fails rd db =
     (case invite_applyRedeemMutation date_parse False key_fails rd db of (Inl e, _) \<Rightarrow> (Inl e, db) | (Inr u, db') \<Rightarrow> (Inr u, db'))"

definition redeem_invite_fallback :: "(string \<Rightarrow> ms option) \<Rightarrow> bool \<Rightarrow> redeeming \<Rightarrow> full_db \<Rightarrow> (mutation_error, unit) result \<times> full_db" where
  "redeem_invite_fallback date_parse key_fails rd db = invite_applyRedeemMutation date_parse True key_fails rd db"

subsection \<open>An invite is redeemed once\<close>

definition invite_taken :: "full_db \<Rightarrow> string \<Rightarrow> bool" where
  "invite_taken db i \<longleftrightarrow> (\<exists>r \<in> set (fd_invites db). iv_id r = i \<and> iv_redeemed_by r \<noteq> None)"

text \<open>Nothing else writes to the table but the route that adds an invite; the ids of invites are a primary key.\<close>
definition invite_quiet :: "full_db \<Rightarrow> full_db \<Rightarrow> bool" where
  "invite_quiet db db' \<longleftrightarrow> (\<exists>new. fd_invites db' = fd_invites db @ new)"

text \<open>A claim as the statement makes it, on a table in which ids are unique.\<close>
definition claim_invite_row :: "redeeming \<Rightarrow> full_db \<Rightarrow> full_db option" where
  "claim_invite_row rd db = (if length (filter (\<lambda>r. iv_id r = rd_id rd) (fd_invites db)) \<le> 1 then claim_invite rd db else None)"

lemma claim_invite_Some:
  assumes "claim_invite rd db = Some db'"
  shows "fd_invites db' = map (\<lambda>r. if iv_id r = rd_id rd \<and> iv_redeemed_by r = None then r\<lparr>iv_redeemed_by := Some (hr_id (rd_human rd))\<rparr> else r) (fd_invites db)"
    "\<exists>r \<in> set (fd_invites db). iv_id r = rd_id rd \<and> iv_redeemed_by r = None"
  using assms by (auto simp: claim_invite_def sql_update_def filter_empty_conv split: if_splits)

lemma unique_row: "length (filter P xs) \<le> 1 \<Longrightarrow> x \<in> set xs \<Longrightarrow> y \<in> set xs \<Longrightarrow> P x \<Longrightarrow> P y \<Longrightarrow> x = y"
  by (induction xs) (auto simp: filter_empty_conv split: if_splits)

interpretation inv: exclusive_claim rd_id invite_taken claim_invite_row insert_key unlink_invite invite_quiet
proof unfold_locales
  fix p d d'
  assume c: "claim_invite_row p d = Some d'"
  then have u: "length (filter (\<lambda>r. iv_id r = rd_id p) (fd_invites d)) \<le> 1" and c': "claim_invite p d = Some d'"
    by (auto simp: claim_invite_row_def split: if_splits)
  obtain r where r: "r \<in> set (fd_invites d)" "iv_id r = rd_id p" "iv_redeemed_by r = None" using claim_invite_Some(2)[OF c'] by blast
  have "\<not> invite_taken d (rd_id p)" using unique_row[OF u _ r(1)] r(2,3) by (auto simp: invite_taken_def)
  moreover have "invite_taken d' (rd_id p)" unfolding invite_taken_def claim_invite_Some(1)[OF c'] using r by (intro bex_mapI[OF r(1)]) simp
  ultimately show "\<not> invite_taken d (rd_id p) \<and> invite_taken d' (rd_id p)" ..
  fix i assume "invite_taken d i"
  then show "invite_taken d' i" unfolding invite_taken_def claim_invite_Some(1)[OF c'] by fastforce
next
  fix d i and p :: redeeming assume "invite_taken d i"
  then show "invite_taken (insert_key p d) i" by (simp add: invite_taken_def insert_key_def)
next
  fix d i and p :: redeeming assume "invite_taken d i" "i \<noteq> rd_id p"
  then show "invite_taken (unlink_invite p d) i" by (fastforce simp: invite_taken_def unlink_invite_def sql_update_snd)
next
  fix d d' i assume "invite_quiet d d'" "invite_taken d i"
  then show "invite_taken d' i" by (auto simp: invite_quiet_def invite_taken_def)
qed

text \<open>
  (C18) An invite makes at most one account. However redemptions of the same invite overlap, statement by statement
  and with failures undone or left half undone, at most one of them completes.
\<close>
theorem invite_redeemed_once:
  assumes "(claim_step claim_invite_row insert_key unlink_invite invite_quiet)\<^sup>*\<^sup>* s0 s" "cl_held s0 = []" "cl_done s0 = []"
  shows "length (filter (\<lambda>rd. rd_id rd = i) (cl_done s)) \<le> 1"
  by (rule inv.done_at_most_once[OF assms])

definition demo_invite :: invite_row where
  "demo_invite = \<lparr>iv_id = ''i'', iv_code = ''clw_inv_A'', iv_created_by = demo_group_id, iv_redeemed_by = None, iv_agent_id = None,
     iv_expires_at = None, iv_created_at = ''t''\<rparr>"

definition demo_redeeming :: redeeming where
  "demo_redeeming = \<lparr>rd_id = ''i'', rd_human = new_human_row ''h'' ''d'' ''User'' ''user'' ''invite'' None ''t'', rd_key = demo_key_row, rd_nowMs = 0,
     rd_redeemedAt = ''t''\<rparr>"

definition demo_invited :: full_db where
  "demo_invited = demo_full_db\<lparr>fd_invites := [demo_invite]\<rparr>"

lemma demo_claim_invite:
  "claim_invite_row demo_redeeming demo_invited = Some (demo_invited\<lparr>fd_invites := [demo_invite\<lparr>iv_redeemed_by := Some ''h''\<rparr>]\<rparr>)"
  by (simp add: claim_invite_row_def claim_invite_def sql_update_def demo_invited_def demo_invite_def demo_redeeming_def new_human_row_def)

theorem invite_redeemed_once_witness:
  "\<exists>s. (claim_step claim_invite_row insert_key unlink_invite invite_quiet)\<^sup>*\<^sup>* \<lparr>cl_db = demo_invited, cl_held = [], cl_done = []\<rparr> s \<and>
     cl_done s = [demo_redeeming] \<and> length (filter (\<lambda>rd. rd_id rd = ''i'') (cl_done s)) \<le> 1"
proof -
  let ?R = "claim_step claim_invite_row insert_key unlink_invite invite_quiet"
  let ?s0 = "\<lparr>cl_db = demo_invited, cl_held = [], cl_done = []\<rparr> :: (full_db, redeeming) claims"
  let ?d = "demo_invited\<lparr>fd_invites := [demo_invite\<lparr>iv_redeemed_by := Some ''h''\<rparr>]\<rparr>"
  let ?s1 = "\<lparr>cl_db = ?d, cl_held = [demo_redeeming], cl_done = []\<rparr>"
  let ?s2 = "\<lparr>cl_db = insert_key demo_redeeming ?d, cl_held = [], cl_done = [demo_redeeming]\<rparr>"
  have "?R ?s0 ?s1" using claim_step.claim[of claim_invite_row demo_redeeming ?s0 ?d] by (simp add: demo_claim_invite)
  moreover have "?R ?s1 ?s2" using claim_step.finish[of demo_redeeming ?s1 claim_invite_row insert_key unlink_invite invite_quiet] by simp
  ultimately have run: "?R\<^sup>*\<^sup>* ?s0 ?s2" by (meson converse_rtranclp_into_rtranclp rtranclp.rtrancl_refl)
  then show ?thesis using invite_redeemed_once[OF run, of "''i''"] by (intro exI[of _ ?s2]) simp
qed

section \<open>The first administrator (admin-bootstrap.ts, admin.ts)\<close>

definition BOOTSTRAP_ADMIN_HUMAN_ID :: string where "BOOTSTRAP_ADMIN_HUMAN_ID = ''00000000000000000000000000''"
definition DEFAULT_ADMIN_DISPLAY_NAME :: string where "DEFAULT_ADMIN_DISPLAY_NAME = ''Admin''"
definition BOOTSTRAP_API_KEY_NAME :: string where "BOOTSTRAP_API_KEY_NAME = ''bootstrap-admin''"
definition BOOTSTRAP_INTERNAL_SERVICE_NAME :: string where "BOOTSTRAP_INTERNAL_SERVICE_NAME = ''proxy-pairing''"
definition BOOTSTRAP_INTERNAL_SERVICE_SCOPES :: "string list" where "BOOTSTRAP_INTERNAL_SERVICE_SCOPES = [''identity.read'', ''groups.read'']"

text \<open>The settings of the bootstrap.\<close>
record bootstrap_config =
  BOOTSTRAP_SECRET :: "string option"
  BOOTSTRAP_INTERNAL_SERVICE_ID :: string
  BOOTSTRAP_INTERNAL_SERVICE_SECRET :: string

definition adminBootstrapInvalidError :: "RuntimeEnvironment \<Rightarrow> app_error" where
  "adminBootstrapInvalidError env = AppError ''ADMIN_BOOTSTRAP_INVALID'' (hidden env ''Bootstrap payload is invalid'') 400"

text \<open>The display name of the administrator and the name of its API key.\<close>
definition parseAdminBootstrapPayload :: "RuntimeEnvironment \<Rightarrow> jsval \<Rightarrow> (app_error, string \<times> string) result" where
  "parseAdminBootstrapPayload env payload =
     throw_if (\<not> is_plain_object payload) (adminBootstrapInvalidError env)
     (case (optional_name DEFAULT_ADMIN_DISPLAY_NAME MAX_DISPLAY_NAME_LENGTH (js_get payload ''displayName''),
            optional_name BOOTSTRAP_API_KEY_NAME MAX_API_KEY_NAME_LENGTH (js_get payload ''apiKeyName'')) of
        (Some displayName, Some apiKeyName) \<Rightarrow> Inr (displayName, apiKeyName)
      | _ \<Rightarrow> Inl (adminBootstrapInvalidError env))"

definition requireBootstrapSecret :: "string option \<Rightarrow> (app_error, string) result" where
  "requireBootstrapSecret bootstrapSecret =
     (case bootstrapSecret of
        Some secret \<Rightarrow> if length secret > 0 then Inr secret else Inl (AppError ''ADMIN_BOOTSTRAP_DISABLED'' ''Admin bootstrap is disabled'' 503)
      | None \<Rightarrow> Inl (AppError ''ADMIN_BOOTSTRAP_DISABLED'' ''Admin bootstrap is disabled'' 503))"

definition parseBootstrapSecretHeader :: "string option \<Rightarrow> (app_error, string) result" where
  "parseBootstrapSecretHeader headerValue =
     (case headerValue of
        None \<Rightarrow> Inl (AppError ''ADMIN_BOOTSTRAP_UNAUTHORIZED'' ''Bootstrap secret is required'' 401)
      | Some v \<Rightarrow>
          throw_if (length (trim v) = 0) (AppError ''ADMIN_BOOTSTRAP_UNAUTHORIZED'' ''Bootstrap secret is required'' 401) (Inr (trim v)))"

definition assertBootstrapSecretAuthorized :: "string \<Rightarrow> string \<Rightarrow> (app_error, unit) result" where
  "assertBootstrapSecretAuthorized provided expected =
     throw_if (\<not> constantTimeEqual provided expected) (AppError ''ADMIN_BOOTSTRAP_UNAUTHORIZED'' ''Bootstrap secret is invalid'' 401) (Inr ())"

definition adminBootstrapAlreadyCompletedError :: app_error where
  "adminBootstrapAlreadyCompletedError = AppError ''ADMIN_BOOTSTRAP_ALREADY_COMPLETED'' ''Admin bootstrap has already completed'' 409"

definition bootstrap_config_invalid :: app_error where
  "bootstrap_config_invalid = AppError ''CONFIG_VALIDATION_FAILED'' ''Registry configuration is invalid'' 500"

text \<open>What a bootstrap holds once its reads are done.\<close>
record bootstrapping =
  bs_did :: string
  bs_displayName :: string
  bs_key :: api_key_row
  bs_service :: service_row
  bs_createdAt :: string

definition bootstrap_service :: "json_lib \<Rightarrow> string \<Rightarrow> string \<Rightarrow> string \<Rightarrow> string \<Rightarrow> service_row" where
  "bootstrap_service jl serviceId secretHash secretPrefix createdAt =
     \<lparr>vr_id = serviceId, vr_name = BOOTSTRAP_INTERNAL_SERVICE_NAME, vr_secret_hash = secretHash, vr_secret_prefix = secretPrefix,
      vr_scopes_json = json_text jl (scopes_value BOOTSTRAP_INTERNAL_SERVICE_SCOPES), vr_status = ''active'', vr_created_by = BOOTSTRAP_ADMIN_HUMAN_ID,
      vr_rotated_at = None, vr_last_used_at = None, vr_created_at = createdAt, vr_updated_at = createdAt\<rparr>"

text \<open>The checks of the secret, in their order.\<close>
definition bootstrap_authorize :: "bootstrap_config \<Rightarrow> proxy_request \<Rightarrow> (app_error, unit) result" where
  "bootstrap_authorize bc rq =
     bindE (requireBootstrapSecret (BOOTSTRAP_SECRET bc)) (\<lambda>expectedBootstrapSecret.
     bindE (parseBootstrapSecretHeader (rq_header rq ''x-bootstrap-secret'')) (\<lambda>providedBootstrapSecret.
     assertBootstrapSecretAuthorized providedBootstrapSecret expectedBootstrapSecret))"

definition bootstrap_read ::
  "claw_env \<Rightarrow> json_lib \<Rightarrow> bootstrap_config \<Rightarrow> account_moment \<Rightarrow> proxy_request \<Rightarrow> jsval option \<Rightarrow> full_db \<Rightarrow> (route_error, bootstrapping) result" where
  "bootstrap_read ce jl bc am rq payload db =
     bindE (map_sum RouteError id (bootstrap_authorize bc rq)) (\<lambda>_.
     bindE (of_option (RouteError (AppError ''ADMIN_BOOTSTRAP_INVALID'' ''Request body must be valid JSON'' 400)) payload) (\<lambda>body.
     bindE (map_sum RouteError id (parseAdminBootstrapPayload (ce_environment ce) body)) (\<lambda>(displayName, apiKeyName).
     throw_if (\<exists>h \<in> set (fd_humans db). hr_role h = ''admin'') (RouteError adminBootstrapAlreadyCompletedError)
     (bindE (new_human_did ce rq BOOTSTRAP_ADMIN_HUMAN_ID) (\<lambda>humanDid.
      let serviceId = trim (BOOTSTRAP_INTERNAL_SERVICE_ID bc); secret = trim (BOOTSTRAP_INTERNAL_SERVICE_SECRET bc) in
      throw_if (length serviceId = 0 \<or> length secret = 0) (RouteError bootstrap_config_invalid)
      (bindE (catchE (hashInternalServiceSecret (ce_crypto ce) secret) (RouteError bootstrap_config_invalid)) (\<lambda>secretHash.
       bindE (catchE (deriveInternalServiceSecretPrefix secret) (RouteError bootstrap_config_invalid)) (\<lambda>secretPrefix.
       Inr \<lparr>bs_did = humanDid, bs_displayName = displayName,
            bs_key = new_api_key (ce_runtime ce) (ce_crypto ce) (am_apiKeyId am) BOOTSTRAP_ADMIN_HUMAN_ID apiKeyName (am_bytes am) (am_createdAt am),
            bs_service = bootstrap_service jl serviceId secretHash secretPrefix (am_createdAt am), bs_createdAt = am_createdAt am\<rparr>))))))))"

text \<open>The insertion that does nothing when the administrator's id is there, and the ones that follow it.\<close>
definition insert_admin :: "bootstrapping \<Rightarrow> full_db \<Rightarrow> full_db option" where
  "insert_admin bs db =
     (if \<exists>h \<in> set (fd_humans db). hr_id h = BOOTSTRAP_ADMIN_HUMAN_ID then None
      else Some (db\<lparr>fd_humans := fd_humans db @
        [new_human_row BOOTSTRAP_ADMIN_HUMAN_ID (bs_did bs) (bs_displayName bs) ''admin'' ''admin_bootstrap'' None (bs_createdAt bs)]\<rparr>))"

definition insert_admin_key :: "bootstrapping \<Rightarrow> full_db \<Rightarrow> full_db" where
  "insert_admin_key bs db = db\<lparr>fd_api_keys := fd_api_keys db @ [bs_key bs]\<rparr>"

definition insert_bootstrap_service :: "bootstrapping \<Rightarrow> full_db \<Rightarrow> full_db" where
  "insert_bootstrap_service bs db = db\<lparr>fd_services := fd_services db @ [bs_service bs]\<rparr>"

definition rollbackBootstrapMutation :: "bootstrapping \<Rightarrow> full_db \<Rightarrow> full_db" where
  "rollbackBootstrapMutation bs db =
     db\<lparr>fd_services := sql_delete (\<lambda>r. vr_id r = vr_id (bs_service bs)) (fd_services db),
        fd_api_keys := sql_delete (\<lambda>r. kr_id r = kr_id (bs_key bs)) (fd_api_keys db),
        fd_humans := sql_delete (\<lambda>h. hr_id h = BOOTSTRAP_ADMIN_HUMAN_ID) (fd_humans db)\<rparr>"

text \<open>\<open>key_fails\<close>, \<open>service_fails\<close>: the database refuses the API key or the service.\<close>
definition applyBootstrapMutation :: "bool \<Rightarrow> bool \<Rightarrow> bool \<Rightarrow> bootstrapping \<Rightarrow> full_db \<Rightarrow> (mutation_error, unit) result \<times> full_db" where
  "applyBootstrapMutation rollbackOnFailure key_fails service_fails bs db =
     (case insert_admin bs db of
        None \<Rightarrow> (Inl (Refused_by adminBootstrapAlreadyCompletedError), db)
      | Some db1 \<Rightarrow>
          if key_fails then (Inl DbFailure, if rollbackOnFailure then rollbackBootstrapMutation bs db1 else db1)
          else let db2 = insert_admin_key bs db1 in
            if service_fails then (Inl DbFailure, if rollbackOnFailure then rollbackBootstrapMutation bs db2 else db2)
            else (Inr (), insert_bootstrap_service bs db2))"

definition bootstrap_tx :: "bool \<Rightarrow> bool \<Rightarrow> bootstrapping \<Rightarrow> full_db \<Rightarrow> (mutation_error, unit) result \<times> full_db" where
  "bootstrap_tx key_fails service_fails bs db =
     (case applyBootstrapMutation False key_fails service_fails bs db of (Inl e, _) \<Rightarrow> (Inl e, db) | (Inr u, db') \<Rightarrow> (Inr u, db'))"

subsection \<open>There is one bootstrap\<close>

definition admin_there :: "full_db \<Rightarrow> unit \<Rightarrow> bool" where
  "admin_there db _ \<longleftrightarrow> (\<exists>h \<in> set (fd_humans db). hr_id h = BOOTSTRAP_ADMIN_HUMAN_ID)"

text \<open>What completes a bootstrap after the insertion of the administrator.\<close>
definition complete_bootstrap :: "bootstrapping \<Rightarrow> full_db \<Rightarrow> full_db" where
  "complete_bootstrap bs db = insert_bootstrap_service bs (insert_admin_key bs db)"

text \<open>Everything else keeps the row of the administrator: accounts are only deleted by the request that made them.\<close>
definition bootstrap_quiet :: "full_db \<Rightarrow> full_db \<Rightarrow> bool" where
  "bootstrap_quiet db db' \<longleftrightarrow> (\<forall>h \<in> set (fd_humans db). hr_id h = BOOTSTRAP_ADMIN_HUMAN_ID \<longrightarrow> (\<exists>h' \<in> set (fd_humans db'). hr_id h' = BOOTSTRAP_ADMIN_HUMAN_ID))"

interpretation boot: exclusive_claim "\<lambda>_. ()" admin_there insert_admin complete_bootstrap rollbackBootstrapMutation bootstrap_quiet
proof unfold_locales
  fix p d d' assume "insert_admin p d = Some d'"
  then show "\<not> admin_there d () \<and> admin_there d' ()" by (auto simp: insert_admin_def admin_there_def new_human_row_def split: if_splits)
next
  fix p d d' i assume "insert_admin p d = Some d'" "admin_there d i"
  then show "admin_there d' i" by (auto simp: insert_admin_def admin_there_def split: if_splits)
next
  fix d i p assume "admin_there d i"
  then show "admin_there (complete_bootstrap p d) i" by (simp add: admin_there_def complete_bootstrap_def insert_bootstrap_service_def insert_admin_key_def)
next
  fix d i p assume "i \<noteq> ()"
  then show "admin_there (rollbackBootstrapMutation p d) i" by simp
next
  fix d d' i assume "bootstrap_quiet d d'" "admin_there d i"
  then show "admin_there d' i" by (auto simp: bootstrap_quiet_def admin_there_def)
qed

text \<open>A mutation that succeeds is a claim and its completion; one that fails and undoes itself, a claim given back.\<close>
lemma bootstrap_mutation_cases:
  assumes "applyBootstrapMutation rollbackOnFailure key_fails service_fails bs db = (r, db')"
  shows "r = Inr () \<longleftrightarrow> \<not> key_fails \<and> \<not> service_fails \<and> insert_admin bs db \<noteq> None"
    "insert_admin bs db = None \<Longrightarrow> db' = db"
    "insert_admin bs db = Some db1 \<Longrightarrow> r = Inr () \<Longrightarrow> db' = complete_bootstrap bs db1"
  using assms by (auto simp: applyBootstrapMutation_def complete_bootstrap_def Let_def split: option.splits if_splits)

text \<open>
  (C19) The registry is bootstrapped once. However bootstrap requests overlap, statement by statement and with failures
  undone or left half undone, at most one completes, and once one has, the administrator's account is there.
\<close>
theorem bootstrapped_once:
  assumes "(claim_step insert_admin complete_bootstrap rollbackBootstrapMutation bootstrap_quiet)\<^sup>*\<^sup>* s0 s" "cl_held s0 = []" "cl_done s0 = []"
  shows "length (cl_done s) \<le> 1 \<and> (cl_done s \<noteq> [] \<longrightarrow> insert_admin bs (cl_db s) = None)"
proof
  show "length (cl_done s) \<le> 1" using boot.done_at_most_once[OF assms, of "()"] by simp
  show "cl_done s \<noteq> [] \<longrightarrow> insert_admin bs (cl_db s) = None"
  proof
    assume "cl_done s \<noteq> []"
    then obtain p where "p \<in> set (cl_done s)" by (cases "cl_done s") auto
    then have "admin_there (cl_db s) ()" using boot.done_is_taken[OF assms] by simp
    then show "insert_admin bs (cl_db s) = None" by (simp add: insert_admin_def admin_there_def)
  qed
qed

definition demo_bootstrapping :: bootstrapping where
  "demo_bootstrapping = \<lparr>bs_did = ''d'', bs_displayName = ''Admin'', bs_key = demo_key_row, bs_service = bootstrap_service demo_json ''s'' ''h'' ''p'' ''t'',
     bs_createdAt = ''t''\<rparr>"

theorem bootstrapped_once_witness:
  "\<exists>s. (claim_step insert_admin complete_bootstrap rollbackBootstrapMutation bootstrap_quiet)\<^sup>*\<^sup>*
       \<lparr>cl_db = demo_full_db\<lparr>fd_humans := []\<rparr>, cl_held = [], cl_done = []\<rparr> s \<and>
     cl_done s = [demo_bootstrapping] \<and> length (cl_done s) \<le> 1 \<and> insert_admin demo_bootstrapping (cl_db s) = None"
proof -
  let ?R = "claim_step insert_admin complete_bootstrap rollbackBootstrapMutation bootstrap_quiet"
  let ?s0 = "\<lparr>cl_db = demo_full_db\<lparr>fd_humans := []\<rparr>, cl_held = [], cl_done = []\<rparr> :: (full_db, bootstrapping) claims"
  obtain d where d: "insert_admin demo_bootstrapping (demo_full_db\<lparr>fd_humans := []\<rparr>) = Some d" by (simp add: insert_admin_def)
  let ?s1 = "\<lparr>cl_db = d, cl_held = [demo_bootstrapping], cl_done = []\<rparr>"
  let ?s2 = "\<lparr>cl_db = complete_bootstrap demo_bootstrapping d, cl_held = [], cl_done = [demo_bootstrapping]\<rparr>"
  have "?R ?s0 ?s1" using claim_step.claim[of insert_admin demo_bootstrapping ?s0 d] d by simp
  moreover have "?R ?s1 ?s2"
    using claim_step.finish[of demo_bootstrapping ?s1 insert_admin complete_bootstrap rollbackBootstrapMutation bootstrap_quiet] by simp
  ultimately have run: "?R\<^sup>*\<^sup>* ?s0 ?s2" by (meson converse_rtranclp_into_rtranclp rtranclp.rtrancl_refl)
  then show ?thesis using bootstrapped_once[OF run, of demo_bootstrapping] by (intro exI[of _ ?s2]) simp
qed

text \<open>Only who knows the secret gets past the first check.\<close>
lemma bootstrap_needs_secret:
  assumes "bootstrap_read ce jl bc am rq payload db = Inr bs"
  obtains secret v where "BOOTSTRAP_SECRET bc = Some secret" "secret \<noteq> []" "rq_header rq ''x-bootstrap-secret'' = Some v" "trim v = secret"
proof -
  have "bootstrap_authorize bc rq = Inr ()"
    using assms by (cases "bootstrap_authorize bc rq") (simp_all add: bootstrap_read_def)
  then show thesis
    using that by (auto simp: bootstrap_authorize_def requireBootstrapSecret_def parseBootstrapSecretHeader_def
        assertBootstrapSecretAuthorized_def split: option.splits if_splits)
qed

end
