(* ===== verification/Spec2Isabelle.thy ===== *)
theory Spec2Isabelle
  imports Rate_Limit Relay_Session End_To_End Registry_Identity Starter_Pass
begin

text \<open>
  Clawdentity gives agents verifiable identities (DIDs and signed tokens issued by a registry), lets
  two agents pair through tickets, and relays messages between paired agents through a proxy.

  \<^bold>\<open>The parts and their theories\<close>

  \<^item> \<open>Clawd_Prelude\<close>: JavaScript values, property access, strings, results (\<open>Inl\<close> an error), records kept
    as association lists, and the lemma collections the other theories use.
  \<^item> \<open>Protocol_Ids\<close> (\<open>packages/protocol/src\<close>: \<open>ulid.ts\<close>, \<open>did.ts\<close>, \<open>text.ts\<close>, \<open>http-signing.ts\<close>): identifiers and
    the text that is signed. Printing and parsing DIDs are inverse; the canonical request text
    determines its five fields.
  \<^item> \<open>Pairing_Ticket\<close> (\<open>apps/proxy/src/pairing-ticket.ts\<close>): created tickets parse and verify.
  \<^item> \<open>Trust_Store\<close> (\<open>proxy-trust-store.ts\<close>, in-memory store): a ticket is confirmed once, trust comes only
    from confirmations, revocation markers live exactly as long as they say, the peer index agrees
    with the pairs. Two overlapping confirmations of one ticket both succeed.
  \<^item> \<open>Trust_State\<close>, \<open>Trust_Refinement\<close> (\<open>proxy-trust-state/\<close>, the durable object): storage with tolerant
    loaders, handlers and alarm; \<open>trust_abs\<close> maps storage to an in-memory store and confirmation, status
    and alarm are shown to implement the in-memory operations.
  \<^item> \<open>Trust_Policy\<close> (\<open>trust-policy.ts\<close>, \<open>group-trust.ts\<close>): the guards before a delivery.
  \<^item> \<open>Nonce_Replay\<close> (\<open>nonce-cache.ts\<close>, \<open>nonce-replay-*.ts\<close>): no nonce is accepted twice while it is
    remembered; the argument is made once in the locale \<open>nonce_guard\<close>, interpreted for the in-memory
    cache and for the durable guard with its alarm.
  \<^item> \<open>Http_Signature\<close> (\<open>packages/sdk/src/http/\<close>): signing and verification; when replays are excluded, and
    that the default nonce lifetime does not exclude them.
  \<^item> \<open>Rate_Limit\<close> (the three fixed-window limiters): the bound per window, proved in the locale
    \<open>fixed_window\<close> and interpreted for each limiter.
  \<^item> \<open>Relay_Queue\<close> (\<open>agent-relay-session/\<close>: \<open>policy.ts\<close>, \<open>queue-state.ts\<close>, \<open>queue-manager.ts\<close>, \<open>scheduler.ts\<close>): the
    delivery queue of one agent: a pass over it accounts for every delivery, it reloads as it was saved,
    the alarm covers all work.
  \<^item> \<open>Relay_Sockets\<close> (\<open>socket-tracker.ts\<close>, \<open>delivery.ts\<close>, \<open>pending-deliveries.ts\<close>, \<open>frames.ts\<close>): which sockets are
    used, and that every delivery in flight is settled exactly once.
  \<^item> \<open>Relay_Session\<close> (\<open>core.ts\<close>, \<open>parsers.ts\<close>, \<open>rpc.ts\<close>, \<open>websocket.ts\<close>): the session of one agent. Events are
    interleaved by the step relation \<open>relay_step\<close>; the queue bound is an invariant of it. Redelivery is
    answered from the receipt, receipts belong to their sender, accepted frames come from trusted
    senders. Three theorems show where the code loses information.
  \<^item> \<open>Claims\<close> (\<open>ait.ts\<close>, \<open>crl.ts\<close>, \<open>agent-registration-proof.ts\<close>, \<open>ait-jwt.ts\<close>, \<open>crl-jwt.ts\<close>): what an identity token
    and a revocation list must say, and how they are issued and verified.
  \<^item> \<open>Crl_Cache\<close> (\<open>packages/sdk/src/crl/cache.ts\<close>): the cached revocation list, with overlapping refreshes as the
    step relation \<open>crl_step\<close>. A fail-closed cache never answers from an old list; an older list may replace a
    newer one.
  \<^item> \<open>Request_Origin\<close>, \<open>Proxy_Auth\<close> (\<open>request-origin.ts\<close>, \<open>auth-middleware/\<close>): the proxy's authentication, which
    composes tokens, signatures, nonces, trust store and revocation cache; what a request that passes has shown.
  \<^item> \<open>Agent_Registration\<close> (\<open>apps/registry/src/agent-registration/\<close>): registration requests, challenges, ownership
    proofs and the claims of new and reissued tokens.
  \<^item> \<open>Registry_Db\<close>, \<open>Agent_Lifecycle\<close> (\<open>db/schema.ts\<close>, \<open>db-queries.ts\<close>, \<open>routes/agents.ts\<close>): the registry's tables, and
    registration, revocation and reissue over them, interleaved by \<open>tx_step\<close>. A challenge is used once and superseded
    tokens are revoked; two theorems show where overlapping requests escape this.
  \<^item> \<open>Agent_Tokens\<close> (\<open>agent-auth-token.ts\<close>, \<open>agent-auth-lifecycle.ts\<close>, \<open>api-key-token.ts\<close>): access and refresh tokens.
  \<^item> \<open>Agent_Sessions\<close> (\<open>routes/agent-auth.ts\<close>, \<open>agent-claw-auth.ts\<close>): refresh, validation and session revocation; the writes of
    overlapping requests are the steps of \<open>session_step\<close>. A refresh token rotates once, a revoked session stays revoked.
  \<^item> \<open>Registry_Crl\<close> (\<open>routes/health.ts\<close>, \<open>registry-signer.ts\<close>): the revocation list the registry serves names every revocation.
  \<^item> \<open>End_To_End\<close>: registry and proxy together. A token revoked at the registry gets no identity from a fail-closed proxy
    with later lists; a message needs a live session.
  \<^item> \<open>Date_Time\<close> (\<open>datetime.ts\<close>): ISO times.
  \<^item> \<open>Pair_Events\<close> (\<open>pairing-events.ts\<close>), \<open>Identity_Client\<close> (\<open>registry-identity-client.ts\<close>), \<open>Pairing_Route\<close> (\<open>pairing-route.ts\<close>): the pairing
    routes over a trust store. A ticket is bound to an agent its owner controls and to fifteen minutes at most; confirmed in
    time by an allowed responder it pairs the two, whatever else happens; only the parties see its status.
  \<^item> \<open>Registry_Accounts\<close> (\<open>api-key-lifecycle.ts\<close>, \<open>api-key-auth.ts\<close>, \<open>service-auth.ts\<close>, \<open>internal-service-scopes.ts\<close>, their routes): the
    remaining tables, API keys and internal services. A key is its owner's until it is revoked, and then nobody's; a
    rotation replaces the secret of a service.
  \<^item> \<open>Agent_Groups\<close> (\<open>group-lifecycle.ts\<close>, \<open>group-access.ts\<close>, \<open>group-route-auth.ts\<close>, \<open>routes/groups.ts\<close>): groups, join tokens and members.
    The statements of overlapping joins are the steps of \<open>group_step\<close>; the bounds on members and uses are invariants of it.
    Only managers change a group; an issued token admits; a join that is undone can remove a member who has joined.
  \<^item> \<open>Registry_Identity\<close> (the registry's answers to the proxy, \<open>exceptions.ts\<close>): composed with \<open>Identity_Client\<close>, \<open>Trust_Policy\<close> and
    \<open>Pairing_Route\<close>: a group message passes only between active members in the registry's tables, and a ticket is
    started only for an agent its caller owns there.
  \<^item> \<open>Onboarding\<close> (\<open>invite-lifecycle.ts\<close>, \<open>admin-bootstrap.ts\<close>, their routes): accounts by invite and the first administrator. That
    each is handed out once is proved in the locale \<open>exclusive_claim\<close> over the step relation \<open>claim_step\<close> and
    interpreted for both.
  \<^item> \<open>Starter_Pass\<close> (\<open>starter-pass-lifecycle.ts\<close>, \<open>onboarding/github.ts\<close>, \<open>routes/onboarding.ts\<close>): accounts by GitHub. State cookies are
    accepted for what they were signed for; a redeemed pass is final for requests one at a time (\<open>pass_step\<close>) and is
    reopened by a callback that overlaps.

  \<^bold>\<open>Reading the model\<close>

  Definitions carry the source's names; where one name has two meanings a prefix tells them apart
  (\<open>memory_\<close>, \<open>durable_\<close>). State is passed explicitly. A clock reading, a random sample, a fresh id or an
  answer from outside is an argument. A call that awaits something while others may run is split at
  the await (\<open>confirm_lookup\<close>, \<open>confirm_resume\<close>). Time is in milliseconds, of type \<open>ms\<close> (real numbers:
  rounding of large doubles is not modelled). Strings are lists of bytes-sized characters.

  Libraries the sources only call are parameters: the \<open>ulid\<close> package, URL parsing, base64, JSON text,
  SHA-256, Ed25519 and the JWT library \<open>jose\<close>. Their documented behaviour is a named hypothesis where a theorem needs it
  (\<open>url_origin_law\<close>, \<open>b64_law\<close>, \<open>key_pair\<close>, \<open>ed25519_pair\<close>), and a concrete instance satisfies it in the witness.

  No loop needs fuel: all are recursions over lists, or count up to a length.

  \<^bold>\<open>Not modelled\<close>

  The proxy's entry points in \<open>worker.ts\<close> and \<open>agent-hook-route.ts\<close> and the consumers of the host's queues hand a request to
  the trust store and the relay session and add no state; the connector on the agent's machine rests on files,
  timers and sockets of its host. The registry's read-only lists select columns. Configuration, logging and the
  other HTTP clients only pass data on; their results are arguments here. The Rust command line and the landing page are
  other languages.
\<close>

end
